(* ===== verification/Prelude.thy ===== *)
theory Prelude
  imports Complex_Main "HOL-Library.Word" "HOL-Library.List_Lexorder" "HOL-Library.Char_ord"
  "HOL-Library.Multiset"
begin

text \<open>
  Shared vocabulary of the development: the machine integers of the Rust sources, results with
  errors as values, the ordered maps (\<open>BTreeMap\<close>) of the standard library, the string functions
  the sources use (\<open>trim\<close>, \<open>lines\<close>, \<open>split\<close>, \<open>strip_prefix\<close>, decimal printing and parsing) and
  stable sorting. A Rust \<open>String\<close> is the list of its UTF-8 bytes, so the order on strings
  (lexicographic by byte) is the order of \<open>Ord for String\<close>. White space is the ASCII white space.
\<close>

named_theorems result_simps \<open>unfolding rules for results and their combinators\<close>
named_theorems text_simps \<open>rules for line and field splitting\<close>

subsection \<open>Machine integers\<close>

type_synonym u16 = "16 word"
type_synonym u32 = "32 word"
type_synonym u64 = "64 word"
type_synonym usize = "64 word"
type_synonym i64 = "64 word"
type_synonym i32 = "32 word"

definition saturating_sub :: "'a::len word \<Rightarrow> 'a word \<Rightarrow> 'a word" where
  "saturating_sub a b = (if a < b then 0 else a - b)"

lemma unat_saturating_sub [simp]: "unat (saturating_sub a b) = unat a - unat b"
  by (auto simp: saturating_sub_def unat_sub word_less_nat_alt word_le_nat_alt not_less)

lemma saturating_sub_zero [simp]: "saturating_sub a 0 = a"
  by (simp add: saturating_sub_def)

lemma unat_plus_one: "x < y \<Longrightarrow> unat (x + 1 :: 'a::len word) = Suc (unat x)"
proof -
  assume "x < y"
  moreover have "unat y < 2 ^ LENGTH('a)" by (fact unsigned_less)
  ultimately have "unat x + unat (1 :: 'a word) < 2 ^ LENGTH('a)"
    unfolding word_less_nat_alt unat_1 by linarith
  then have "unat (x + 1) = unat x + unat (1 :: 'a word)" using unat_add_lem by blast
  then show ?thesis by simp
qed

text \<open>\<open>len() as u32\<close> and \<open>count() as u32\<close>: truncating casts of a collection's length.\<close>

definition len_u32 :: "'a list \<Rightarrow> u32" where
  "len_u32 xs = of_nat (length xs)"

lemma unat_len_u32: "length xs < 2 ^ 32 \<Longrightarrow> unat (len_u32 xs) = length xs"
  by (simp add: len_u32_def unat_of_nat)

text \<open>The sequence numbers 1, 2, \<dots>, n at width 64.\<close>

definition seq_upto :: "nat \<Rightarrow> u64 list" where
  "seq_upto n = map (\<lambda>i. of_nat (Suc i)) [0 ..< n]"

lemma seq_upto_0 [simp]: "seq_upto 0 = []"
  by (simp add: seq_upto_def)

lemma seq_upto_Suc: "seq_upto (Suc n) = seq_upto n @ [of_nat n + 1]"
  by (simp add: seq_upto_def add.commute)

lemma length_seq_upto [simp]: "length (seq_upto n) = n"
  by (simp add: seq_upto_def)

lemma sorted_seq_upto: "n < 2 ^ 64 \<Longrightarrow> sorted_wrt (<) (seq_upto n)"
proof -
  assume n: "n < 2 ^ 64"
  have "(of_nat (Suc i) :: u64) < of_nat (Suc j)" if "i < j" "j < n" for i j
    using that n by (simp add: word_less_nat_alt unat_of_nat del: of_nat_Suc)
  then show ?thesis
    by (simp add: seq_upto_def sorted_wrt_iff_nth_less del: of_nat_Suc)
qed

subsection \<open>Results\<close>

text \<open>\<open>Result<T, E>\<close> is \<open>'e + 'a\<close> with \<open>Inl\<close> the error; \<open>?\<close> is \<open>res_bind\<close>.\<close>

fun res_bind :: "'e + 'a \<Rightarrow> ('a \<Rightarrow> 'e + 'b) \<Rightarrow> 'e + 'b" where
  "res_bind (Inl e) f = Inl e"
| "res_bind (Inr x) f = f x"

fun map_err :: "('e \<Rightarrow> 'd) \<Rightarrow> 'e + 'a \<Rightarrow> 'd + 'a" where
  "map_err f (Inl e) = Inl (f e)"
| "map_err f (Inr x) = Inr x"

fun map_ok :: "('a \<Rightarrow> 'b) \<Rightarrow> 'e + 'a \<Rightarrow> 'e + 'b" where
  "map_ok f (Inl e) = Inl e"
| "map_ok f (Inr x) = Inr (f x)"

fun ok_or :: "'e \<Rightarrow> 'a option \<Rightarrow> 'e + 'a" where
  "ok_or e None = Inl e"
| "ok_or e (Some x) = Inr x"

fun is_ok :: "'e + 'a \<Rightarrow> bool" where
  "is_ok (Inl e) = False"
| "is_ok (Inr x) = True"

text \<open>\<open>Option::transpose\<close> on an optional result.\<close>

fun transpose_opt :: "('e + 'a) option \<Rightarrow> 'e + 'a option" where
  "transpose_opt None = Inr None"
| "transpose_opt (Some (Inl e)) = Inl e"
| "transpose_opt (Some (Inr x)) = Inr (Some x)"

text \<open>Collecting an iterator of results: the first error, or all values.\<close>

fun res_map :: "('a \<Rightarrow> 'e + 'b) \<Rightarrow> 'a list \<Rightarrow> 'e + 'b list" where
  "res_map f [] = Inr []"
| "res_map f (x # xs) = res_bind (f x) (\<lambda>y. res_bind (res_map f xs) (\<lambda>ys. Inr (y # ys)))"

lemma res_bind_Inr_iff [result_simps]:
  "res_bind r f = Inr y \<longleftrightarrow> (\<exists>x. r = Inr x \<and> f x = Inr y)"
  by (cases r) auto

lemma res_bind_Inl_iff [result_simps]:
  "res_bind r f = Inl e \<longleftrightarrow> r = Inl e \<or> (\<exists>x. r = Inr x \<and> f x = Inl e)"
  by (cases r) auto

lemma map_err_Inr_iff [result_simps, simp]: "map_err f r = Inr x \<longleftrightarrow> r = Inr x"
  by (cases r) auto

lemma map_err_Inl_iff [result_simps]: "map_err f r = Inl d \<longleftrightarrow> (\<exists>e. r = Inl e \<and> d = f e)"
  by (cases r) auto

lemma map_ok_Inr_iff [result_simps]: "map_ok f r = Inr y \<longleftrightarrow> (\<exists>x. r = Inr x \<and> y = f x)"
  by (cases r) auto

lemma ok_or_Inr_iff [result_simps, simp]: "ok_or e v = Inr x \<longleftrightarrow> v = Some x"
  by (cases v) auto

lemma ok_or_Inl_iff [result_simps]: "ok_or e v = Inl d \<longleftrightarrow> v = None \<and> d = e"
  by (cases v) auto

lemma is_ok_iff [result_simps]: "is_ok r \<longleftrightarrow> (\<exists>x. r = Inr x)"
  by (cases r) auto

lemma res_map_Inr_all:
  "(\<And>x. x \<in> set xs \<Longrightarrow> f x = Inr (g x)) \<Longrightarrow> res_map f xs = Inr (map g xs)"
  by (induction xs) auto

lemma res_map_length: "res_map f xs = Inr ys \<Longrightarrow> length ys = length xs"
  by (induction xs arbitrary: ys) (auto simp: result_simps)

subsection \<open>Errors of the operating system interface\<close>

text \<open>\<open>std::io::Error\<close>: the kind the sources branch on, and the message.\<close>

datatype io_kind = NotFound | PermissionDenied | AlreadyExists | WouldBlock | InvalidInput
  | InvalidData | TimedOut | Unsupported | OtherKind

record io_error =
  io_kind :: io_kind
  io_message :: string

definition io_err :: "io_kind \<Rightarrow> string \<Rightarrow> io_error" where
  "io_err k m = \<lparr>io_kind = k, io_message = m\<rparr>"

lemma io_err_kind [simp]: "io_kind (io_err k m) = k" "io_message (io_err k m) = m"
  by (simp_all add: io_err_def)

subsection \<open>Ordered maps\<close>

text \<open>
  A \<open>BTreeMap\<close> is the list of its entries in key order; iteration is the list itself.
  \<open>bt_insert\<close> is \<open>BTreeMap::insert\<close> (an existing key gets the new value).
\<close>

type_synonym ('k, 'v) btree = "('k \<times> 'v) list"

fun bt_insert :: "'k::linorder \<Rightarrow> 'v \<Rightarrow> ('k, 'v) btree \<Rightarrow> ('k, 'v) btree" where
  "bt_insert k v [] = [(k, v)]"
| "bt_insert k v (e # m) =
     (if fst e = k then (k, v) # m
      else if k < fst e then (k, v) # e # m
      else e # bt_insert k v m)"

fun bt_get :: "('k, 'v) btree \<Rightarrow> 'k \<Rightarrow> 'v option" where
  "bt_get [] k = None"
| "bt_get (e # m) k = (if fst e = k then Some (snd e) else bt_get m k)"

definition bt_wf :: "('k::linorder, 'v) btree \<Rightarrow> bool" where
  "bt_wf m = sorted_wrt (<) (map fst m)"

definition bt_of_list :: "('k::linorder \<times> 'v) list \<Rightarrow> ('k, 'v) btree" where
  "bt_of_list es = fold (\<lambda>(k, v) m. bt_insert k v m) es []"

definition bt_remove :: "'k \<Rightarrow> ('k, 'v) btree \<Rightarrow> ('k, 'v) btree" where
  "bt_remove k m = filter (\<lambda>e. fst e \<noteq> k) m"

lemma bt_get_insert [simp]: "bt_get (bt_insert k v m) j = (if j = k then Some v else bt_get m j)"
  by (induction m) auto

lemma bt_keys_insert [simp]: "fst ` set (bt_insert k v m) = insert k (fst ` set m)"
  by (induction m) auto

lemma bt_wf_Nil [simp]: "bt_wf []"
  by (simp add: bt_wf_def)

lemma bt_wf_insert [simp, intro]: "bt_wf m \<Longrightarrow> bt_wf (bt_insert k v m)"
proof (induction m)
  case Nil
  then show ?case by (simp add: bt_wf_def)
next
  case (Cons e m)
  then have "bt_wf (bt_insert k v m)" by (simp add: bt_wf_def)
  moreover have "fst ` set (bt_insert k v m) = insert k (fst ` set m)" by simp
  ultimately show ?case
    using Cons.prems by (fastforce simp: bt_wf_def dest: order.strict_trans)
qed

lemma bt_get_None_iff: "bt_get m k = None \<longleftrightarrow> k \<notin> fst ` set m"
  by (induction m) auto

lemma bt_get_Some_mem: "bt_get m k = Some v \<Longrightarrow> (k, v) \<in> set m"
  by (induction m) (auto split: if_splits)

lemma bt_wf_distinct: "bt_wf m \<Longrightarrow> distinct (map fst m)"
  by (induction m) (auto simp: bt_wf_def)

lemma bt_get_mem: "bt_wf m \<Longrightarrow> (k, v) \<in> set m \<Longrightarrow> bt_get m k = Some v"
  by (induction m) (force simp: bt_wf_def)+

lemma bt_get_remove [simp]: "bt_get (bt_remove k m) j = (if j = k then None else bt_get m j)"
  by (induction m) (auto simp: bt_remove_def)

lemma sorted_wrt_map_filter: "sorted_wrt P (map f xs) \<Longrightarrow> sorted_wrt P (map f (filter Q xs))"
  by (induction xs) auto

lemma bt_wf_remove [simp]: "bt_wf m \<Longrightarrow> bt_wf (bt_remove k m)"
  by (simp add: bt_wf_def bt_remove_def sorted_wrt_map_filter)

lemma bt_wf_fold_insert: "bt_wf m \<Longrightarrow> bt_wf (fold (\<lambda>(k, v) m. bt_insert k v m) es m)"
  by (induction es arbitrary: m) auto

lemma bt_wf_of_list [simp]: "bt_wf (bt_of_list es)"
  by (simp add: bt_of_list_def bt_wf_fold_insert)

lemma bt_insert_greatest: "(\<And>j. j \<in> fst ` set m \<Longrightarrow> j < k) \<Longrightarrow> bt_insert k v m = m @ [(k, v)]"
  by (induction m) force+

lemma fold_bt_insert_sorted:
  "bt_wf (m @ es) \<Longrightarrow> fold (\<lambda>(k, v) m. bt_insert k v m) es m = m @ es"
proof (induction es arbitrary: m)
  case Nil
  then show ?case by simp
next
  case (Cons e es)
  obtain k v where e: "e = (k, v)" by force
  have "bt_insert k v m = m @ [(k, v)]"
    using Cons.prems by (intro bt_insert_greatest) (auto simp: bt_wf_def sorted_wrt_append e)
  with Cons.IH [of "m @ [(k, v)]"] Cons.prems show ?case by (simp add: e)
qed

lemma bt_of_list_sorted [simp]: "bt_wf m \<Longrightarrow> bt_of_list m = m"
  using fold_bt_insert_sorted [of "[]" m] by (simp add: bt_of_list_def)

text \<open>What a client of an ordered map relies on.\<close>

locale ordered_map =
  fixes ins :: "'k::linorder \<Rightarrow> 'v \<Rightarrow> 'm \<Rightarrow> 'm"
    and get :: "'m \<Rightarrow> 'k \<Rightarrow> 'v option"
    and wf :: "'m \<Rightarrow> bool"
    and empty :: 'm
  assumes get_empty: "get empty k = None"
    and get_ins: "get (ins k v m) j = (if j = k then Some v else get m j)"
    and wf_empty: "wf empty"
    and wf_ins: "wf m \<Longrightarrow> wf (ins k v m)"
begin

lemma get_fold_notin:
  "k \<notin> key ` set xs \<Longrightarrow> get (fold (\<lambda>x m. ins (key x) (val x) m) xs m) k = get m k"
  by (induction xs arbitrary: m) (auto simp: get_ins)

lemma get_fold_last:
  "get (fold (\<lambda>x m. ins (key x) (val x) m) xs m) k
     = (case find (\<lambda>x. key x = k) (rev xs) of None \<Rightarrow> get m k | Some x \<Rightarrow> Some (val x))"
proof (induction xs arbitrary: m rule: rev_induct)
  case Nil
  then show ?case by simp
next
  case (snoc x xs)
  then show ?case by (simp add: get_ins)
qed

lemma wf_fold: "wf m \<Longrightarrow> wf (fold (\<lambda>x m. ins (key x) (val x) m) xs m)"
  by (induction xs arbitrary: m) (auto simp: wf_ins)

end

interpretation bt: ordered_map bt_insert bt_get bt_wf "[]"
  by unfold_locales auto

subsection \<open>Strings\<close>

abbreviation nl :: char where "nl \<equiv> CHR 0x0A"
abbreviation cr :: char where "cr \<equiv> CHR 0x0D"

text \<open>The format piece \<^verbatim>\<open>'{}'\<close> of the error messages.\<close>

definition squoted :: "string \<Rightarrow> string" where
  "squoted s = CHR 0x27 # s @ [CHR 0x27]"

definition is_ws :: "char \<Rightarrow> bool" where
  "is_ws c = (c \<in> {CHR 0x09, CHR 0x0A, CHR 0x0B, CHR 0x0C, CHR 0x0D, CHR '' ''})"

definition trim_start :: "string \<Rightarrow> string" where
  "trim_start s = dropWhile is_ws s"

definition trim :: "string \<Rightarrow> string" where
  "trim s = rev (dropWhile is_ws (rev (dropWhile is_ws s)))"

definition starts_with :: "string \<Rightarrow> string \<Rightarrow> bool" where
  "starts_with p s = (take (length p) s = p)"

definition strip_prefix :: "string \<Rightarrow> string \<Rightarrow> string option" where
  "strip_prefix p s = (if starts_with p s then Some (drop (length p) s) else None)"

definition ends_with :: "string \<Rightarrow> string \<Rightarrow> bool" where
  "ends_with p s = (length p \<le> length s \<and> drop (length s - length p) s = p)"

definition strip_suffix :: "string \<Rightarrow> string \<Rightarrow> string option" where
  "strip_suffix p s = (if ends_with p s then Some (take (length s - length p) s) else None)"

fun ascii_lower :: "char \<Rightarrow> char" where
  "ascii_lower (Char b0 b1 b2 b3 b4 b5 b6 b7) =
     (if CHR ''A'' \<le> Char b0 b1 b2 b3 b4 b5 b6 b7 \<and> Char b0 b1 b2 b3 b4 b5 b6 b7 \<le> CHR ''Z''
      then Char b0 b1 b2 b3 b4 True b6 b7 else Char b0 b1 b2 b3 b4 b5 b6 b7)"

definition to_ascii_lowercase :: "string \<Rightarrow> string" where
  "to_ascii_lowercase s = map ascii_lower s"

text \<open>\<open>str::contains\<close>\<close>

fun contains_str :: "string \<Rightarrow> string \<Rightarrow> bool" where
  "contains_str p [] = (p = [])"
| "contains_str p (c # cs) = (starts_with p (c # cs) \<or> contains_str p cs)"

text \<open>\<open>str::trim_end_matches(c)\<close>\<close>

definition trim_end_matches :: "char \<Rightarrow> string \<Rightarrow> string" where
  "trim_end_matches c s = rev (dropWhile ((=) c) (rev s))"

text \<open>\<open>str::split(c)\<close>: always at least one piece.\<close>

fun split_on :: "char \<Rightarrow> string \<Rightarrow> string list" where
  "split_on c [] = [[]]"
| "split_on c (x # xs) =
     (if x = c then [] # split_on c xs
      else (case split_on c xs of [] \<Rightarrow> [[x]] | p # ps \<Rightarrow> (x # p) # ps))"

text \<open>\<open>str::split_once(c)\<close>.\<close>

fun split_once :: "char \<Rightarrow> string \<Rightarrow> (string \<times> string) option" where
  "split_once c [] = None"
| "split_once c (x # xs) =
     (if x = c then Some ([], xs)
      else (case split_once c xs of None \<Rightarrow> None | Some (a, b) \<Rightarrow> Some (x # a, b)))"

text \<open>\<open>str::lines\<close>: pieces ended by a line feed, one trailing carriage return dropped with it.\<close>

fun split_inclusive_nl :: "string \<Rightarrow> string list" where
  "split_inclusive_nl [] = []"
| "split_inclusive_nl (c # cs) =
     (if c = nl then [c] # split_inclusive_nl cs
      else (case split_inclusive_nl cs of [] \<Rightarrow> [[c]] | l # ls \<Rightarrow> (c # l) # ls))"

definition strip_eol :: "string \<Rightarrow> string" where
  "strip_eol l =
     (if l \<noteq> [] \<and> last l = nl then
        (let m = butlast l in if m \<noteq> [] \<and> last m = cr then butlast m else m)
      else l)"

definition lines_of :: "string \<Rightarrow> string list" where
  "lines_of s = map strip_eol (split_inclusive_nl s)"

lemma split_on_ne [simp]: "split_on c s \<noteq> []"
  by (induction s) (auto split: list.splits)

lemma split_on_none [text_simps]: "c \<notin> set s \<Longrightarrow> split_on c s = [s]"
  by (induction s) auto

lemma split_on_sep [text_simps]: "c \<notin> set a \<Longrightarrow> split_on c (a @ c # b) = a # split_on c b"
  by (induction a) auto

lemma split_once_sep [text_simps]: "c \<notin> set a \<Longrightarrow> split_once c (a @ c # b) = Some (a, b)"
  by (induction a) auto

lemma split_inclusive_none: "nl \<notin> set a \<Longrightarrow> split_inclusive_nl a = (if a = [] then [] else [a])"
  by (induction a) auto

lemma split_inclusive_sep:
  "nl \<notin> set a \<Longrightarrow> split_inclusive_nl (a @ nl # b) = (a @ [nl]) # split_inclusive_nl b"
  by (induction a) auto

text \<open>A field that survives as one line: no line feed inside, no carriage return at its end.\<close>

definition line_safe :: "string \<Rightarrow> bool" where
  "line_safe a = (nl \<notin> set a \<and> (a = [] \<or> last a \<noteq> cr))"

lemma strip_eol_line: "line_safe a \<Longrightarrow> strip_eol (a @ [nl]) = a"
  by (auto simp: strip_eol_def line_safe_def)

lemma strip_eol_none: "nl \<notin> set a \<Longrightarrow> strip_eol a = a"
  by (cases "a = []") (auto simp: strip_eol_def dest: last_in_set)

lemma lines_of_Nil [simp]: "lines_of [] = []"
  by (simp add: lines_of_def)

lemma lines_of_sep [text_simps]: "line_safe a \<Longrightarrow> lines_of (a @ nl # b) = a # lines_of b"
  using strip_eol_line [of a] by (simp add: lines_of_def split_inclusive_sep line_safe_def)

lemma lines_of_last [text_simps]: "nl \<notin> set a \<Longrightarrow> a \<noteq> [] \<Longrightarrow> lines_of a = [a]"
  by (simp add: lines_of_def split_inclusive_none strip_eol_none)

lemma starts_with_append [simp]: "starts_with p (p @ s)"
  by (simp add: starts_with_def)

lemma strip_prefix_append [simp]: "strip_prefix p (p @ s) = Some s"
  by (simp add: strip_prefix_def)

lemma contains_str_set: "contains_str p s \<Longrightarrow> set p \<subseteq> set s"
proof (induction s)
  case Nil
  then show ?case by simp
next
  case (Cons c s)
  have "set p \<subseteq> set (c # s)" if "starts_with p (c # s)"
    using that set_take_subset [of "length p" "c # s"] by (auto simp: starts_with_def)
  with Cons show ?case by auto
qed

lemma starts_with_sep:
  "c \<notin> set p \<Longrightarrow> starts_with p (a @ c # b) = starts_with p a"
proof (induction p arbitrary: a)
  case Nil
  then show ?case by (simp add: starts_with_def)
next
  case (Cons x p)
  then show ?case by (cases a) (auto simp: starts_with_def)
qed

text \<open>A text is searched piecewise at a character the pattern does not have.\<close>

lemma contains_str_sep:
  assumes "c \<notin> set p" "p \<noteq> []"
  shows "contains_str p (a @ c # b) = (contains_str p a \<or> contains_str p b)"
proof (induction a)
  case Nil
  then show ?case using assms starts_with_sep [OF assms(1), of "[]"] by (simp add: starts_with_def)
next
  case (Cons x a)
  then show ?case using starts_with_sep [OF assms(1), of "x # a" b] by simp
qed

lemma trim_idem [simp]: "trim (trim s) = trim s"
proof -
  define t where "t = dropWhile is_ws s"
  have hd: "dropWhile is_ws (rev (dropWhile is_ws (rev t))) = rev (dropWhile is_ws (rev t))"
  proof (cases "rev (dropWhile is_ws (rev t))")
    case (Cons c cs)
    have "t = rev (dropWhile is_ws (rev t)) @ rev (takeWhile is_ws (rev t))"
      by (metis rev_append rev_rev_ident takeWhile_dropWhile_id)
    then have "t = c # cs @ rev (takeWhile is_ws (rev t))" using Cons by simp
    then have "\<not> is_ws c" unfolding t_def by (metis dropWhile_eq_Cons_conv)
    with Cons show ?thesis by simp
  next
    case Nil
    then show ?thesis by (simp only: dropWhile.simps)
  qed
  show ?thesis by (simp only: trim_def hd [unfolded t_def] rev_rev_ident dropWhile_idem)
qed

lemma strip_prefix_Some_iff: "strip_prefix p s = Some r \<longleftrightarrow> s = p @ r"
  by (auto simp: strip_prefix_def starts_with_def) (metis append_take_drop_id)

subsection \<open>Decimal numbers\<close>

definition digit_char :: "nat \<Rightarrow> char" where
  "digit_char d = ''0123456789'' ! d"

definition digit_val :: "char \<Rightarrow> nat option" where
  "digit_val c = (if CHR ''0'' \<le> c \<and> c \<le> CHR ''9'' then Some (of_char c - 48) else None)"

fun nat_to_string :: "nat \<Rightarrow> string" where
  "nat_to_string n =
     (if n < 10 then [digit_char n] else nat_to_string (n div 10) @ [digit_char (n mod 10)])"

declare nat_to_string.simps [simp del]

fun parse_digits :: "nat \<Rightarrow> string \<Rightarrow> nat option" where
  "parse_digits acc [] = Some acc"
| "parse_digits acc (c # cs) =
     (case digit_val c of None \<Rightarrow> None | Some d \<Rightarrow> parse_digits (10 * acc + d) cs)"

definition word_to_string :: "'a::len word \<Rightarrow> string" where
  "word_to_string w = nat_to_string (unat w)"

text \<open>
  \<open>str::parse\<close> for an unsigned integer type: an optional plus sign, at least one digit, no
  overflow; the error is the message of \<open>ParseIntError\<close>.
\<close>

definition parse_word :: "string \<Rightarrow> string + 'a::len word" where
  "parse_word s =
     (if s = [] then Inl ''cannot parse integer from empty string''
      else let ds = (if hd s = CHR ''+'' then tl s else s) in
        if ds = [] then Inl ''invalid digit found in string''
        else case parse_digits 0 ds of
          None \<Rightarrow> Inl ''invalid digit found in string''
        | Some n \<Rightarrow> if n < 2 ^ LENGTH('a) then Inr (of_nat n)
                    else Inl ''number too large to fit in target type'')"

lemma digit_cases:
  "d < 10 \<Longrightarrow> d = 0 \<or> d = 1 \<or> d = 2 \<or> d = 3 \<or> d = 4 \<or> d = 5 \<or> d = 6 \<or> d = 7 \<or> d = 8 \<or> d = (9::nat)"
  by arith

lemma digit_val_char [simp]: "d < 10 \<Longrightarrow> digit_val (digit_char d) = Some d"
  by (drule digit_cases) (auto simp: digit_val_def digit_char_def)

lemma digit_char_ne:
  "d < 10 \<Longrightarrow> digit_char d \<noteq> nl \<and> digit_char d \<noteq> cr \<and> digit_char d \<noteq> CHR ''|''
     \<and> digit_char d \<noteq> CHR ''+'' \<and> digit_char d \<noteq> CHR ''-'' \<and> \<not> is_ws (digit_char d)"
  by (drule digit_cases) (auto simp: digit_char_def is_ws_def)

lemma nat_to_string_ne [simp]: "nat_to_string n \<noteq> []"
  by (subst nat_to_string.simps) simp

lemma nat_to_string_chars:
  "c \<in> set (nat_to_string n) \<Longrightarrow> \<exists>d<10. c = digit_char d"
proof (induction n rule: nat_to_string.induct)
  case (1 n)
  show ?case
  proof (cases "n < 10")
    case True
    with 1(2) show ?thesis by (subst (asm) nat_to_string.simps) auto
  next
    case False
    with 1(2) have "c \<in> set (nat_to_string (n div 10)) \<or> c = digit_char (n mod 10)"
      by (subst (asm) nat_to_string.simps) auto
    then show ?thesis
    proof
      assume "c \<in> set (nat_to_string (n div 10))"
      with 1(1) False show ?thesis by blast
    next
      assume "c = digit_char (n mod 10)"
      then show ?thesis by (intro exI [of _ "n mod 10"]) simp
    qed
  qed
qed

lemma nat_to_string_plain:
  "nl \<notin> set (nat_to_string n)" "cr \<notin> set (nat_to_string n)" "CHR ''|'' \<notin> set (nat_to_string n)"
  "CHR ''+'' \<notin> set (nat_to_string n)" "CHR ''-'' \<notin> set (nat_to_string n)"
  using nat_to_string_chars [of _ n] digit_char_ne by fastforce+

lemma parse_digits_snoc:
  "parse_digits acc (ds @ [c]) =
     (case parse_digits acc ds of None \<Rightarrow> None
      | Some n \<Rightarrow> (case digit_val c of None \<Rightarrow> None | Some d \<Rightarrow> Some (10 * n + d)))"
  by (induction ds arbitrary: acc) (auto split: option.splits)

lemma parse_digits_to_string [simp]: "parse_digits 0 (nat_to_string n) = Some n"
proof (induction n rule: nat_to_string.induct)
  case (1 n)
  show ?case
  proof (cases "n < 10")
    case True
    then show ?thesis by (subst nat_to_string.simps) simp
  next
    case False
    with 1 have "parse_digits 0 (nat_to_string (n div 10)) = Some (n div 10)" by simp
    with False show ?thesis
      by (subst nat_to_string.simps) (simp add: parse_digits_snoc)
  qed
qed

lemma hd_nat_to_string: "hd (nat_to_string n) \<noteq> CHR ''+''"
  using nat_to_string_plain(4) [of n] hd_in_set [OF nat_to_string_ne] by metis

lemma parse_word_to_string [simp]: "parse_word (word_to_string (w :: 'a::len word)) = Inr w"
  by (simp add: parse_word_def word_to_string_def hd_nat_to_string)

lemma word_to_string_line_safe [simp]: "line_safe (word_to_string w)"
proof -
  have "last (nat_to_string (unat w)) \<noteq> cr"
    using nat_to_string_plain(2) last_in_set [OF nat_to_string_ne] by metis
  then show ?thesis
    by (simp add: line_safe_def word_to_string_def nat_to_string_plain)
qed

lemma word_to_string_ne [simp]: "word_to_string w \<noteq> []"
  by (simp add: word_to_string_def)

lemma nat_to_string_inj: "nat_to_string m = nat_to_string n \<Longrightarrow> m = n"
  by (metis parse_digits_to_string option.inject)

lemma nat_to_string_eq_iff [simp]: "nat_to_string m = nat_to_string n \<longleftrightarrow> m = n"
  using nat_to_string_inj by blast

lemma word_to_string_eq_iff [simp]: "word_to_string (v :: 'a::len word) = word_to_string w \<longleftrightarrow> v = w"
  by (simp add: word_to_string_def word_unat_eq_iff)

subsection \<open>Stable sorting\<close>

text \<open>
  \<open>slice::sort_by\<close> is stable; for a comparison that is a total preorder its result is the stable
  insertion sort below. \<open>sort_by_key\<close> is the library's \<open>sort_key\<close>, which is stable as well.
\<close>

fun insert_by :: "('a \<Rightarrow> 'a \<Rightarrow> bool) \<Rightarrow> 'a \<Rightarrow> 'a list \<Rightarrow> 'a list" where
  "insert_by le x [] = [x]"
| "insert_by le x (y # ys) = (if le x y then x # y # ys else y # insert_by le x ys)"

definition sort_by :: "('a \<Rightarrow> 'a \<Rightarrow> bool) \<Rightarrow> 'a list \<Rightarrow> 'a list" where
  "sort_by le xs = foldr (insert_by le) xs []"

lemma mset_insert_by [simp]: "mset (insert_by le x ys) = add_mset x (mset ys)"
  by (induction ys) auto

lemma mset_sort_by [simp]: "mset (sort_by le xs) = mset xs"
  by (induction xs) (auto simp: sort_by_def)

lemma set_sort_by [simp]: "set (sort_by le xs) = set xs"
  by (metis mset_sort_by set_mset_mset)

lemma length_sort_by [simp]: "length (sort_by le xs) = length xs"
  by (metis mset_sort_by size_mset)

lemma set_insert_by [simp]: "set (insert_by le x ys) = insert x (set ys)"
  by (metis mset_insert_by set_mset_add_mset_insert set_mset_mset)

lemma sorted_insert_by:
  assumes total: "\<forall>a\<in>A. \<forall>b\<in>A. le a b \<or> le b a" and trans: "transp_on A le"
  shows "x \<in> A \<Longrightarrow> set ys \<subseteq> A \<Longrightarrow> sorted_wrt le ys \<Longrightarrow> sorted_wrt le (insert_by le x ys)"
proof (induction ys)
  case Nil
  then show ?case by simp
next
  case (Cons y ys)
  then have IH: "sorted_wrt le (insert_by le x ys)" and y: "y \<in> A" "\<forall>z\<in>set ys. z \<in> A \<and> le y z"
    by auto
  have "le x z" if "le x y" "z \<in> set ys" for z
    using that y transp_onD [OF trans Cons.prems(1) y(1)] by blast
  moreover have "le y x" if "\<not> le x y"
    using that total y(1) Cons.prems(1) by blast
  ultimately show ?case
    using IH y Cons.prems by auto
qed

lemma sorted_sort_by:
  assumes "\<forall>a\<in>set xs. \<forall>b\<in>set xs. le a b \<or> le b a" and "transp_on (set xs) le"
  shows "sorted_wrt le (sort_by le xs)"
proof -
  have "set zs \<subseteq> set xs \<Longrightarrow> sorted_wrt le (sort_by le zs)" for zs
  proof (induction zs)
    case Nil
    then show ?case by (simp add: sort_by_def)
  next
    case (Cons z zs)
    then have "sorted_wrt le (insert_by le z (sort_by le zs))"
      by (intro sorted_insert_by [OF assms]) auto
    then show ?case by (simp add: sort_by_def)
  qed
  then show ?thesis by simp
qed

end
