(* ===== verification/F64.thy ===== *)
theory F64
  imports Prelude "HOL-Library.Log_Nat"
begin

text \<open>
  The binary64 floating point numbers of the sources (\<open>f64\<close>): NaN, the two infinities and the
  finite values as rationals, with IEEE 754 rounding to nearest, ties to even, written out. The two
  zeros are one value: the sources compare zeros and never divide by one. Lemmas: rounding is
  monotone and exact on 0 and 1, which is what bounds on scores rest on.
\<close>

datatype f64 = NaN | PInf | NInf | Fin rat

datatype ordering = OLess | OEqual | OGreater

named_theorems f64_simps \<open>the arithmetic and the comparisons of binary64\<close>

subsection \<open>Rounding\<close>

text \<open>The exponent of the leading bit of a positive rational.\<close>

definition ilog2 :: "rat \<Rightarrow> int" where
  "ilog2 x = (let (p, q) = quotient_of x; k = bitlen p - bitlen q
              in if x < 2 powi k then k - 1 else k)"

definition round_half_even :: "rat \<Rightarrow> int" where
  "round_half_even y =
     (let f = \<lfloor>y\<rfloor>; d = y - of_int f
      in if d < 1 / 2 then f else if 1 / 2 < d then f + 1 else if even f then f else f + 1)"

definition ulp_exp :: "rat \<Rightarrow> int" where
  "ulp_exp x = max (ilog2 \<bar>x\<bar>) (- 1022) - 52"

definition rnd :: "rat \<Rightarrow> rat" where
  "rnd x = (if x = 0 then 0
            else of_int (round_half_even (x / 2 powi ulp_exp x)) * 2 powi ulp_exp x)"

definition round64 :: "rat \<Rightarrow> f64" where
  "round64 x = (let r = rnd x in if 2 ^ 1024 \<le> r then PInf else if r \<le> - (2 ^ 1024) then NInf else Fin r)"

subsection \<open>Arithmetic and comparison\<close>

fun f64_neg :: "f64 \<Rightarrow> f64" where
  "f64_neg NaN = NaN"
| "f64_neg PInf = NInf"
| "f64_neg NInf = PInf"
| "f64_neg (Fin a) = Fin (- a)"

fun f64_abs :: "f64 \<Rightarrow> f64" where
  "f64_abs NaN = NaN"
| "f64_abs PInf = PInf"
| "f64_abs NInf = PInf"
| "f64_abs (Fin a) = Fin \<bar>a\<bar>"

fun f64_add :: "f64 \<Rightarrow> f64 \<Rightarrow> f64" where
  "f64_add (Fin a) (Fin b) = round64 (a + b)"
| "f64_add NaN b = NaN"
| "f64_add a NaN = NaN"
| "f64_add PInf NInf = NaN"
| "f64_add NInf PInf = NaN"
| "f64_add PInf b = PInf"
| "f64_add NInf b = NInf"
| "f64_add a PInf = PInf"
| "f64_add a NInf = NInf"

definition f64_sub :: "f64 \<Rightarrow> f64 \<Rightarrow> f64" where
  "f64_sub a b = f64_add a (f64_neg b)"

definition f64_signed_inf :: "rat \<Rightarrow> f64" where
  "f64_signed_inf s = (if s = 0 then NaN else if 0 < s then PInf else NInf)"

fun f64_mul :: "f64 \<Rightarrow> f64 \<Rightarrow> f64" where
  "f64_mul (Fin a) (Fin b) = round64 (a * b)"
| "f64_mul NaN b = NaN"
| "f64_mul a NaN = NaN"
| "f64_mul (Fin a) PInf = f64_signed_inf a"
| "f64_mul (Fin a) NInf = f64_signed_inf (- a)"
| "f64_mul PInf (Fin b) = f64_signed_inf b"
| "f64_mul NInf (Fin b) = f64_signed_inf (- b)"
| "f64_mul PInf PInf = PInf"
| "f64_mul NInf NInf = PInf"
| "f64_mul PInf NInf = NInf"
| "f64_mul NInf PInf = NInf"

fun f64_div :: "f64 \<Rightarrow> f64 \<Rightarrow> f64" where
  "f64_div (Fin a) (Fin b) = (if b = 0 then f64_signed_inf a else round64 (a / b))"
| "f64_div NaN b = NaN"
| "f64_div a NaN = NaN"
| "f64_div (Fin a) b = Fin 0"
| "f64_div PInf (Fin b) = (if 0 \<le> b then PInf else NInf)"
| "f64_div NInf (Fin b) = (if 0 \<le> b then NInf else PInf)"
| "f64_div a b = NaN"

text \<open>The comparison operators: false whenever an operand is NaN.\<close>

fun f64_lt :: "f64 \<Rightarrow> f64 \<Rightarrow> bool" where
  "f64_lt (Fin a) (Fin b) = (a < b)"
| "f64_lt NaN b = False"
| "f64_lt a NaN = False"
| "f64_lt PInf b = False"
| "f64_lt a NInf = False"
| "f64_lt a b = True"

fun f64_eq :: "f64 \<Rightarrow> f64 \<Rightarrow> bool" where
  "f64_eq (Fin a) (Fin b) = (a = b)"
| "f64_eq PInf PInf = True"
| "f64_eq NInf NInf = True"
| "f64_eq a b = False"

definition f64_le :: "f64 \<Rightarrow> f64 \<Rightarrow> bool" where
  "f64_le a b = (f64_lt a b \<or> f64_eq a b)"

definition f64_partial_cmp :: "f64 \<Rightarrow> f64 \<Rightarrow> ordering option" where
  "f64_partial_cmp a b =
     (if f64_lt a b then Some OLess else if f64_eq a b then Some OEqual
      else if f64_lt b a then Some OGreater else None)"

text \<open>\<open>f64::min\<close> and \<open>f64::max\<close> ignore a NaN operand.\<close>

definition f64_min :: "f64 \<Rightarrow> f64 \<Rightarrow> f64" where
  "f64_min a b = (if a = NaN then b else if b = NaN then a else if f64_lt b a then b else a)"

definition f64_max :: "f64 \<Rightarrow> f64 \<Rightarrow> f64" where
  "f64_max a b = (if a = NaN then b else if b = NaN then a else if f64_lt a b then b else a)"

definition f64_epsilon :: f64 where
  "f64_epsilon = Fin (1 / 2 ^ 52)"

definition f64_of_int :: "int \<Rightarrow> f64" where
  "f64_of_int i = round64 (of_int i)"

subsection \<open>Order\<close>

lemma f64_lt_irrefl [simp]: "\<not> f64_lt a a"
  by (cases a) auto

lemma f64_lt_trans: "f64_lt a b \<Longrightarrow> f64_lt b c \<Longrightarrow> f64_lt a c"
  by (cases a; cases b; cases c) auto

lemma f64_lt_asym: "f64_lt a b \<Longrightarrow> \<not> f64_lt b a"
  using f64_lt_trans f64_lt_irrefl by blast

lemma f64_eq_iff: "f64_eq a b \<longleftrightarrow> a = b \<and> a \<noteq> NaN"
  by (cases a; cases b) auto

lemma f64_total: "a \<noteq> NaN \<Longrightarrow> b \<noteq> NaN \<Longrightarrow> f64_lt a b \<or> a = b \<or> f64_lt b a"
  by (cases a; cases b) auto

lemma f64_le_Fin [simp]: "f64_le (Fin a) (Fin b) \<longleftrightarrow> a \<le> b"
  by (auto simp: f64_le_def)

lemma f64_le_refl: "a \<noteq> NaN \<Longrightarrow> f64_le a a"
  by (simp add: f64_le_def f64_eq_iff)

lemma f64_le_trans: "f64_le a b \<Longrightarrow> f64_le b c \<Longrightarrow> f64_le a c"
  by (auto simp: f64_le_def f64_eq_iff intro: f64_lt_trans)

lemma f64_not_lt_iff: "a \<noteq> NaN \<Longrightarrow> b \<noteq> NaN \<Longrightarrow> \<not> f64_lt a b \<longleftrightarrow> f64_le b a"
  using f64_total f64_lt_asym by (auto simp: f64_le_def f64_eq_iff)

lemma f64_le_not_NaN: "f64_le a b \<Longrightarrow> a \<noteq> NaN \<and> b \<noteq> NaN"
  by (cases a; cases b) (auto simp: f64_le_def)

lemma f64_min_le:
  "a \<noteq> NaN \<Longrightarrow> b \<noteq> NaN \<Longrightarrow> f64_le (f64_min a b) a \<and> f64_le (f64_min a b) b \<and> f64_min a b \<in> {a, b}"
  using f64_total [of a b] by (auto simp: f64_min_def f64_le_def f64_eq_iff)

lemma f64_max_ge:
  "a \<noteq> NaN \<Longrightarrow> b \<noteq> NaN \<Longrightarrow> f64_le a (f64_max a b) \<and> f64_le b (f64_max a b) \<and> f64_max a b \<in> {a, b}"
  using f64_total [of a b] by (auto simp: f64_max_def f64_le_def f64_eq_iff)

subsection \<open>Rounding is monotone\<close>

lemma ilog2_bounds:
  assumes "0 < x"
  shows "2 powi (ilog2 x) \<le> x" and "x < 2 powi (ilog2 x + 1)"
proof -
  obtain p q where pq: "quotient_of x = (p, q)" by force
  then have x: "x = of_int p / of_int q" and q: "0 < q"
    by (auto simp: quotient_of_div quotient_of_denom_pos)
  with assms have p: "0 < p" by (simp add: zero_less_divide_iff)
  define k where "k = bitlen p - bitlen q"
  have e: "ilog2 x = (if x < 2 powi k then k - 1 else k)"
    by (simp add: ilog2_def pq k_def)
  have bl: "(2::rat) powi (bitlen n - 1) \<le> of_int n \<and> (of_int n :: rat) < 2 powi (bitlen n)"
    if "0 < n" for n :: int
  proof -
    have a: "2 ^ nat (bitlen n - 1) \<le> n" "n < 2 ^ nat (bitlen n)"
      using bitlen_bounds [OF that] by auto
    have "0 < bitlen n"
      using that bitlen_nonneg [of n] bitlen_eq_zero_iff [of n] by linarith
    then have "(2::rat) powi (bitlen n - 1) = of_int (2 ^ nat (bitlen n - 1))"
      and "(2::rat) powi (bitlen n) = of_int (2 ^ nat (bitlen n))"
      by (simp_all add: power_int_def)
    with a show ?thesis by (metis of_int_le_iff of_int_less_iff)
  qed
  have q': "(0::rat) < of_int q" using q by simp
  have "2 powi (k - 1) = 2 powi (bitlen p - 1) / (2::rat) powi (bitlen q)"
    by (simp add: k_def power_int_diff)
  also have "\<dots> \<le> of_int p / of_int q"
    using bl [OF p] bl [OF q] q' p by (intro frac_le) auto
  finally have lo: "2 powi (k - 1) \<le> x" by (simp add: x)
  have "of_int p / of_int q < 2 powi (bitlen p) / (2::rat) powi (bitlen q - 1)"
    using bl [OF p] bl [OF q] p by (intro frac_less) auto
  also have "\<dots> = 2 powi (k + 1)"
    by (simp add: k_def power_int_diff power_int_add)
  finally have hi: "x < 2 powi (k + 1)" by (simp add: x)
  show "2 powi (ilog2 x) \<le> x" and "x < 2 powi (ilog2 x + 1)"
    using lo hi by (auto simp: e)
qed

lemma powi_less_iff: "(2::rat) powi a < 2 powi b \<longleftrightarrow> a < b"
  by (metis linorder_not_less one_le_numeral one_less_numeral_iff power_int_increasing
      power_int_strict_increasing semiring_norm(76))

lemma ilog2_mono: "0 < x \<Longrightarrow> x \<le> y \<Longrightarrow> ilog2 x \<le> ilog2 y"
proof -
  assume a: "0 < x" "x \<le> y"
  then have "(2::rat) powi ilog2 x < 2 powi (ilog2 y + 1)"
    using ilog2_bounds [of x] ilog2_bounds [of y] by linarith
  then show ?thesis by (simp add: powi_less_iff)
qed

lemma ilog2_powi: "ilog2 (2 powi e) = e"
proof -
  have "(0::rat) < 2 powi e" by simp
  from ilog2_bounds [OF this] show ?thesis
    by (smt (verit) powi_less_iff not_less)
qed

lemma rhe_int [simp]: "round_half_even (of_int i) = i"
  by (simp add: round_half_even_def)

lemma rhe_bounds: "\<lfloor>y\<rfloor> \<le> round_half_even y \<and> round_half_even y \<le> \<lfloor>y\<rfloor> + 1"
  by (simp add: round_half_even_def Let_def)

lemma rhe_mono: "x \<le> y \<Longrightarrow> round_half_even x \<le> round_half_even y"
proof (cases "\<lfloor>x\<rfloor> = \<lfloor>y\<rfloor>")
  case True
  assume "x \<le> y"
  with True show ?thesis by (auto simp: round_half_even_def Let_def)
next
  case False
  assume "x \<le> y"
  with False have "\<lfloor>x\<rfloor> + 1 \<le> \<lfloor>y\<rfloor>" using floor_mono [of x y] by linarith
  then show ?thesis using rhe_bounds [of x] rhe_bounds [of y] by linarith
qed

lemma rhe_minus: "round_half_even (- y) = - round_half_even y"
proof (cases "y = of_int \<lfloor>y\<rfloor>")
  case True
  then show ?thesis by (metis of_int_minus rhe_int)
next
  case False
  then have f: "\<lfloor>- y\<rfloor> = - \<lfloor>y\<rfloor> - 1"
    by (smt (verit) floor_correct floor_minus ceiling_correct ceiling_altdef of_int_add of_int_1)
  show ?thesis by (auto simp: round_half_even_def Let_def f)
qed

lemma rnd_zero [simp]: "rnd 0 = 0"
  by (simp add: rnd_def)

lemma rnd_minus: "rnd (- x) = - rnd x"
  by (simp add: rnd_def ulp_exp_def rhe_minus)

lemma powi_quotient: "u \<le> e \<Longrightarrow> (2::rat) powi e / 2 powi u = of_int (2 ^ nat (e - u))"
proof -
  assume "u \<le> e"
  then have "(2::rat) powi (e - u) = of_int (2 ^ nat (e - u))" by (simp add: power_int_def)
  then show ?thesis by (simp add: power_int_diff)
qed

lemma rnd_le_powi:
  assumes "0 < x" "x \<le> 2 powi e" "ulp_exp x \<le> e"
  shows "rnd x \<le> 2 powi e"
proof -
  have "x / 2 powi ulp_exp x \<le> of_int (2 ^ nat (e - ulp_exp x))"
    using assms by (metis divide_right_mono powi_quotient zero_le_power_int zero_le_numeral)
  then have "round_half_even (x / 2 powi ulp_exp x) \<le> 2 ^ nat (e - ulp_exp x)"
    using rhe_mono rhe_int by metis
  then have "of_int (round_half_even (x / 2 powi ulp_exp x)) \<le> (2::rat) powi e / 2 powi ulp_exp x"
    unfolding powi_quotient [OF assms(3)] by (simp only: of_int_le_iff)
  then show ?thesis using assms(1) by (simp add: rnd_def field_simps)
qed

lemma powi_le_rnd:
  assumes "0 < x" "2 powi e \<le> x" "ulp_exp x \<le> e"
  shows "2 powi e \<le> rnd x"
proof -
  have "of_int (2 ^ nat (e - ulp_exp x)) \<le> x / 2 powi ulp_exp x"
    using assms by (metis divide_right_mono powi_quotient zero_le_power_int zero_le_numeral)
  then have "2 ^ nat (e - ulp_exp x) \<le> round_half_even (x / 2 powi ulp_exp x)"
    using rhe_mono rhe_int by metis
  then have "(2::rat) powi e / 2 powi ulp_exp x \<le> of_int (round_half_even (x / 2 powi ulp_exp x))"
    unfolding powi_quotient [OF assms(3)] by (simp only: of_int_le_iff)
  then show ?thesis using assms(1) by (simp add: rnd_def field_simps)
qed

lemma rnd_mono_pos:
  assumes x: "0 < x" and xy: "x \<le> y"
  shows "rnd x \<le> rnd y"
proof -
  have y: "0 < y" using x xy by simp
  have le: "ilog2 x \<le> ilog2 y" using ilog2_mono [OF x xy] .
  show ?thesis
  proof (cases "ulp_exp x = ulp_exp y")
    case True
    have "x / 2 powi ulp_exp y \<le> y / 2 powi ulp_exp y"
      using xy by (simp add: divide_right_mono)
    from rhe_mono [OF this] True x y show ?thesis
      by (simp add: rnd_def mult_right_mono)
  next
    case False
    with le x y have lt: "max (ilog2 x) (- 1022) < ilog2 y" and uy: "ulp_exp y = ilog2 y - 52"
      by (auto simp: ulp_exp_def)
    have "x < 2 powi (ilog2 x + 1)" by (rule ilog2_bounds [OF x])
    also have "\<dots> \<le> (2::rat) powi ilog2 y" using lt by (simp add: power_int_increasing)
    finally have "rnd x \<le> 2 powi ilog2 y"
      using lt x by (intro rnd_le_powi) (auto simp: ulp_exp_def)
    also have "\<dots> \<le> rnd y"
      using ilog2_bounds [OF y] uy y by (intro powi_le_rnd) auto
    finally show ?thesis .
  qed
qed

lemma rnd_nonneg: "0 \<le> x \<Longrightarrow> 0 \<le> rnd x"
proof -
  assume "0 \<le> x"
  then have "0 \<le> x / 2 powi ulp_exp x" by simp
  then have "0 \<le> round_half_even (x / 2 powi ulp_exp x)"
    using rhe_mono [of 0] rhe_int [of 0] by simp
  then show ?thesis by (simp add: rnd_def)
qed

lemma rnd_mono: "x \<le> y \<Longrightarrow> rnd x \<le> rnd y"
proof -
  assume xy: "x \<le> y"
  consider "0 < x" | "x \<le> 0" "0 \<le> y" | "y < 0" using xy by linarith
  then show ?thesis
  proof cases
    case 1
    then show ?thesis using xy by (rule rnd_mono_pos)
  next
    case 2
    then show ?thesis using rnd_nonneg [of y] rnd_nonneg [of "- x"] by (simp add: rnd_minus)
  next
    case 3
    then show ?thesis using rnd_mono_pos [of "- y" "- x"] xy by (simp add: rnd_minus)
  qed
qed

lemma rnd_powi: "- 1074 \<le> e \<Longrightarrow> rnd (2 powi e) = 2 powi e"
proof -
  assume "- 1074 \<le> e"
  then have "ulp_exp (2 powi e) \<le> e" by (simp add: ulp_exp_def ilog2_powi)
  then show ?thesis using rnd_le_powi [of "2 powi e" e] powi_le_rnd [of "2 powi e" e] by simp
qed

lemma rnd_one [simp]: "rnd 1 = 1"
  using rnd_powi [of 0] by simp

lemma round64_zero [simp]: "round64 0 = Fin 0"
  by (simp add: round64_def)

lemma round64_one [simp]: "round64 1 = Fin 1"
  by (simp add: round64_def)

lemma round64_ne_NaN [simp]: "round64 x \<noteq> NaN"
  by (simp add: round64_def Let_def)

lemma saturated_mono:
  "r \<le> s \<Longrightarrow> f64_le (if B \<le> r then PInf else if r \<le> C then NInf else Fin r)
     (if B \<le> s then PInf else if s \<le> C then NInf else Fin s)"
  by (auto simp: f64_le_def)

lemma round64_mono: "x \<le> y \<Longrightarrow> f64_le (round64 x) (round64 y)"
  unfolding round64_def Let_def by (intro saturated_mono rnd_mono)

lemma round64_le_PInf: "f64_le (round64 x) PInf"
  by (cases "round64 x") (auto simp: f64_le_def)

lemma round64_unit: "0 \<le> x \<Longrightarrow> x \<le> 1 \<Longrightarrow> \<exists>r. round64 x = Fin r \<and> 0 \<le> r \<and> r \<le> 1"
proof -
  assume a: "0 \<le> x" "x \<le> 1"
  then have "0 \<le> rnd x" "rnd x \<le> 1" using rnd_mono [of 0 x] rnd_mono [of x 1] by simp_all
  then show ?thesis by (simp add: round64_def Let_def)
qed

lemma rnd_abs_le:
  assumes "- 1074 \<le> e" "\<bar>x\<bar> \<le> 2 powi e"
  shows "\<bar>rnd x\<bar> \<le> 2 powi e"
proof -
  have "rnd x \<le> 2 powi e"
    using rnd_mono [of x "2 powi e"] assms by (simp add: rnd_powi abs_le_iff)
  moreover have "- (2 powi e) \<le> rnd x"
    using rnd_mono [of "- (2 powi e)" x] assms by (simp add: rnd_powi rnd_minus abs_le_iff)
  ultimately show ?thesis by (simp add: abs_le_iff)
qed

lemma round64_finite:
  assumes "- 1074 \<le> e" "e < 1024" "\<bar>x\<bar> \<le> 2 powi e"
  shows "round64 x = Fin (rnd x)"
proof -
  define M :: rat where "M = 2 ^ 1024"
  have "(2::rat) powi e < 2 powi (int 1024)" using assms(2) by (simp only: powi_less_iff)
  then have "(2::rat) powi e < M" unfolding M_def by (simp only: power_int_of_nat)
  with rnd_abs_le [OF assms(1,3)] have "\<not> M \<le> rnd x" "\<not> rnd x \<le> - M" by linarith+
  then show ?thesis unfolding round64_def M_def [symmetric] by simp
qed

end
