(* ===== verification/Json.thy ===== *)
theory Json
  imports F64
begin

text \<open>
  JSON documents as \<open>serde_json::Value\<close> represents them: the constructors the sources match on,
  numbers in their three internal forms, objects as ordered maps; and the accessors the sources
  call (\<open>get\<close>, \<open>as_str\<close>, \<open>as_i64\<close>, \<open>as_u64\<close>, \<open>as_f64\<close>, \<open>as_bool\<close>, \<open>as_array\<close>). Parsing and
  printing of documents are the library's and are parameters where they are used.
\<close>

datatype json_number = PosInt u64 | NegInt i64 | FloatNum f64

datatype json =
    JNull
  | JBool bool
  | JNum json_number
  | JStr string
  | JArr "json list"
  | JObj "(string \<times> json) list"

fun json_get :: "json \<Rightarrow> string \<Rightarrow> json option" where
  "json_get (JObj m) k = bt_get m k"
| "json_get _ k = None"

fun json_as_str :: "json \<Rightarrow> string option" where
  "json_as_str (JStr s) = Some s"
| "json_as_str _ = None"

fun json_as_bool :: "json \<Rightarrow> bool option" where
  "json_as_bool (JBool b) = Some b"
| "json_as_bool _ = None"

fun json_as_array :: "json \<Rightarrow> json list option" where
  "json_as_array (JArr xs) = Some xs"
| "json_as_array _ = None"

fun json_as_object :: "json \<Rightarrow> (string \<times> json) list option" where
  "json_as_object (JObj m) = Some m"
| "json_as_object _ = None"

fun num_as_i64 :: "json_number \<Rightarrow> i64 option" where
  "num_as_i64 (PosInt n) = (if unat n < 2 ^ 63 then Some n else None)"
| "num_as_i64 (NegInt i) = Some i"
| "num_as_i64 (FloatNum f) = None"

fun num_as_u64 :: "json_number \<Rightarrow> u64 option" where
  "num_as_u64 (PosInt n) = Some n"
| "num_as_u64 _ = None"

fun num_as_f64 :: "json_number \<Rightarrow> f64 option" where
  "num_as_f64 (PosInt n) = Some (f64_of_int (uint n))"
| "num_as_f64 (NegInt i) = Some (f64_of_int (sint i))"
| "num_as_f64 (FloatNum f) = Some f"

fun json_as_i64 :: "json \<Rightarrow> i64 option" where
  "json_as_i64 (JNum n) = num_as_i64 n"
| "json_as_i64 _ = None"

fun json_as_u64 :: "json \<Rightarrow> u64 option" where
  "json_as_u64 (JNum n) = num_as_u64 n"
| "json_as_u64 _ = None"

fun json_as_f64 :: "json \<Rightarrow> f64 option" where
  "json_as_f64 (JNum n) = num_as_f64 n"
| "json_as_f64 _ = None"

definition int_to_string :: "int \<Rightarrow> string" where
  "int_to_string i = (if i < 0 then CHR ''-'' # nat_to_string (nat (- i)) else nat_to_string (nat i))"

definition i64_to_string :: "i64 \<Rightarrow> string" where
  "i64_to_string w = int_to_string (sint w)"

definition bool_to_string :: "bool \<Rightarrow> string" where
  "bool_to_string b = (if b then ''true'' else ''false'')"

end
