(* ===== verification/Contract.thy ===== *)
theory Contract
  imports Json
begin

text \<open>
  The runtime contract (\<open>src/contract\<close>): error codes, the run state machine, execution policies
  and their validation, event envelopes with the sequence tracker, and the conversion of void-box
  runs into contract views (\<open>compat.rs\<close>, \<open>compat_json.rs\<close>). Lemmas: the transition relation of run
  states, monotone sequence numbers of every converted view, the accounting of dropped events.
\<close>

subsection \<open>error.rs, state.rs, policy.rs, api.rs\<close>

datatype (plugins only: code size) contract_error_code =
    InvalidSpec | InvalidPolicy | CodeNotFound | AlreadyTerminal | ResourceLimitExceeded
  | StructuredOutputMissing | StructuredOutputMalformed | ArtifactNotFound
  | ArtifactPublicationIncomplete | ArtifactStoreUnavailable | RetrievalTimeout | InternalError

record contract_error =
  ce_code :: contract_error_code
  ce_message :: string
  ce_retryable :: bool

definition contract_error_new :: "contract_error_code \<Rightarrow> string \<Rightarrow> bool \<Rightarrow> contract_error" where
  "contract_error_new code message retryable =
     \<lparr>ce_code = code, ce_message = message, ce_retryable = retryable\<rparr>"

datatype run_state = RsPending | RsStarting | RsRunning | RsSucceeded | RsFailed | RsCanceled

definition run_state_is_terminal :: "run_state \<Rightarrow> bool" where
  "run_state_is_terminal s = (s \<in> {RsSucceeded, RsFailed, RsCanceled})"

fun can_transition_to :: "run_state \<Rightarrow> run_state \<Rightarrow> bool" where
  "can_transition_to RsPending RsStarting = True"
| "can_transition_to RsStarting RsRunning = True"
| "can_transition_to RsRunning RsSucceeded = True"
| "can_transition_to RsRunning RsFailed = True"
| "can_transition_to RsRunning RsCanceled = True"
| "can_transition_to a b = (a = b)"

record execution_policy =
  ep_max_parallel_microvms_per_run :: u32
  ep_max_stage_retries :: u32
  ep_stage_timeout_secs :: u32
  ep_cancel_grace_period_secs :: u32

definition execution_policy_validate :: "execution_policy \<Rightarrow> string + unit" where
  "execution_policy_validate p =
     (if ep_max_parallel_microvms_per_run p = 0 then Inl ''max_parallel_microvms_per_run must be > 0''
      else if ep_stage_timeout_secs p = 0 then Inl ''stage_timeout_secs must be > 0''
      else if ep_cancel_grace_period_secs p = 0 then Inl ''cancel_grace_period_secs must be > 0''
      else Inr ())"

record start_request =
  sr_run_id :: string
  sr_workflow_spec :: string
  sr_launch_context :: "string option"
  sr_policy :: execution_policy

record start_result =
  st_handle :: string
  st_attempt_id :: u32
  st_state :: run_state

record stop_request =
  sp_handle :: string
  sp_reason :: string

record stop_result =
  so_state :: run_state
  so_terminal_event_id :: string

record runtime_inspection =
  ri_run_id :: string
  ri_attempt_id :: u32
  ri_state :: run_state
  ri_active_stage_count :: u32
  ri_active_microvm_count :: u32
  ri_started_at :: string
  ri_updated_at :: string
  ri_terminal_reason :: "string option"
  ri_exit_code :: "i32 option"

record subscribe_events_request =
  se_handle :: string
  se_from_event_id :: "string option"

subsection \<open>event.rs\<close>

datatype (plugins only: code size) event_type = RunStarted | StageStarted | StageCompleted | StageFailed | MicroVmSpawned
  | MicroVmExited | RunCompleted | RunFailed | RunCanceled

record event_envelope =
  ev_event_id :: string
  ev_event_type :: event_type
  ev_run_id :: string
  ev_attempt_id :: u32
  ev_timestamp :: string
  ev_seq :: u64
  ev_payload :: "(string, string) btree"

definition event_is_terminal :: "event_envelope \<Rightarrow> bool" where
  "event_is_terminal e = (ev_event_type e \<in> {RunCompleted, RunFailed, RunCanceled})"

record event_sequence_tracker =
  last_seq :: "u64 option"

definition tracker_default :: event_sequence_tracker where
  "tracker_default = \<lparr>last_seq = None\<rparr>"

definition tracker_observe ::
    "event_sequence_tracker \<Rightarrow> event_envelope \<Rightarrow> string + event_sequence_tracker" where
  "tracker_observe t e =
     (case last_seq t of
        Some l \<Rightarrow> if ev_seq e \<le> l then Inl ''event sequence must be strictly increasing''
                  else Inr (t\<lparr>last_seq := Some (ev_seq e)\<rparr>)
      | None \<Rightarrow> Inr (t\<lparr>last_seq := Some (ev_seq e)\<rparr>))"

fun observe_all ::
    "event_sequence_tracker \<Rightarrow> event_envelope list \<Rightarrow> string + event_sequence_tracker" where
  "observe_all t [] = Inr t"
| "observe_all t (e # es) = res_bind (tracker_observe t e) (\<lambda>t'. observe_all t' es)"

subsection \<open>compat.rs\<close>

datatype (plugins only: code size) payload_value = PvString string | PvBool bool | PvInteger i64 | PvUnsigned u64
  | PvFloat f64 | PvNull | PvUnsupported string

record run_event_raw =
  re_ts_ms :: u64
  re_event_type :: string
  re_run_id :: "string option"
  re_seq :: "u64 option"
  re_payload :: "(string, payload_value) btree option"

record run_raw =
  rr_id :: string
  rr_status :: string
  rr_error :: "string option"
  rr_events :: "run_event_raw list"

record conversion_diagnostics =
  dropped_unknown_event_types :: nat
  dropped_missing_run_id :: nat
  seq_fallback_assigned :: nat

record converted_run_view =
  cv_inspection :: runtime_inspection
  cv_events :: "event_envelope list"
  cv_diagnostics :: conversion_diagnostics

definition map_void_box_status :: "string \<Rightarrow> run_state option" where
  "map_void_box_status status =
     (let s = to_ascii_lowercase status in
      if s = ''pending'' then Some RsPending
      else if s = ''starting'' then Some RsStarting
      else if s = ''running'' then Some RsRunning
      else if s = ''completed'' \<or> s = ''succeeded'' \<or> s = ''success'' then Some RsSucceeded
      else if s = ''failed'' then Some RsFailed
      else if s = ''cancelled'' \<or> s = ''canceled'' then Some RsCanceled
      else None)"

definition map_void_box_event_type :: "string \<Rightarrow> event_type option" where
  "map_void_box_event_type s =
     (if s = ''run.started'' then Some RunStarted
      else if s = ''run.finished'' then Some RunCompleted
      else if s = ''run.failed'' then Some RunFailed
      else if s = ''run.cancelled'' \<or> s = ''run.canceled'' then Some RunCanceled
      else None)"

definition ts_ms_to_string :: "u64 \<Rightarrow> string" where
  "ts_ms_to_string t = word_to_string t @ ''ms''"

definition parse_ts_ms :: "string \<Rightarrow> u64 option" where
  "parse_ts_ms s =
     (case strip_suffix ''ms'' s of
        None \<Rightarrow> None
      | Some d \<Rightarrow> (case parse_word d of Inl _ \<Rightarrow> None | Inr w \<Rightarrow> Some w))"

text \<open>\<open>fmt_f64\<close> is the standard library's printing of a float.\<close>

fun payload_value_string :: "(f64 \<Rightarrow> string) \<Rightarrow> payload_value \<Rightarrow> string option" where
  "payload_value_string fmt_f64 (PvString v) = Some v"
| "payload_value_string fmt_f64 (PvBool v) = Some (bool_to_string v)"
| "payload_value_string fmt_f64 (PvInteger v) = Some (i64_to_string v)"
| "payload_value_string fmt_f64 (PvUnsigned v) = Some (word_to_string v)"
| "payload_value_string fmt_f64 (PvFloat v) = Some (fmt_f64 v)"
| "payload_value_string fmt_f64 PvNull = None"
| "payload_value_string fmt_f64 (PvUnsupported v) = None"

definition flatten_payload ::
    "(f64 \<Rightarrow> string) \<Rightarrow> (string, payload_value) btree option \<Rightarrow> (string, string) btree" where
  "flatten_payload fmt_f64 payload =
     (case payload of
        None \<Rightarrow> []
      | Some m \<Rightarrow> fold (\<lambda>(k, v) out.
          (case payload_value_string fmt_f64 v of None \<Rightarrow> out | Some s \<Rightarrow> bt_insert k s out)) m [])"

definition min_max_step :: "event_envelope \<Rightarrow> u64 \<times> u64 \<Rightarrow> u64 \<times> u64" where
  "min_max_step e mm =
     (case parse_ts_ms (ev_timestamp e) of
        None \<Rightarrow> mm
      | Some ms \<Rightarrow> (if ms < fst mm then ms else fst mm, if snd mm < ms then ms else snd mm))"

definition derive_started_updated :: "event_envelope list \<Rightarrow> string \<times> string" where
  "derive_started_updated events =
     (if events = [] then (''0Z'', ''0Z'')
      else let (mn, mx) = fold min_max_step events (- 1, 0) in
        if mn = - 1 then (''0Z'', ''0Z'') else (ts_ms_to_string mn, ts_ms_to_string mx))"

record convert_state =
  cs_diagnostics :: conversion_diagnostics
  cs_events :: "event_envelope list"
  cs_last_seq :: "u64 option"

text \<open>The body of the conversion loop; \<open>last_seq.unwrap_or(0) + 1\<close> wraps at the width of \<open>u64\<close>.\<close>

definition convert_event ::
    "(f64 \<Rightarrow> string) \<Rightarrow> string \<Rightarrow> run_event_raw \<Rightarrow> convert_state \<Rightarrow> convert_state" where
  "convert_event fmt_f64 rid raw st =
     (case map_void_box_event_type (re_event_type raw) of
        None \<Rightarrow> st\<lparr>cs_diagnostics := (cs_diagnostics st)
                  \<lparr>dropped_unknown_event_types := dropped_unknown_event_types (cs_diagnostics st) + 1\<rparr>\<rparr>
      | Some mapped \<Rightarrow>
          if re_run_id raw = None
          then st\<lparr>cs_diagnostics := (cs_diagnostics st)
                  \<lparr>dropped_missing_run_id := dropped_missing_run_id (cs_diagnostics st) + 1\<rparr>\<rparr>
          else let seq = (case re_seq raw of Some x \<Rightarrow> x
                          | None \<Rightarrow> (case cs_last_seq st of None \<Rightarrow> 0 | Some l \<Rightarrow> l) + 1);
                   d = (case re_seq raw of Some _ \<Rightarrow> cs_diagnostics st
                        | None \<Rightarrow> (cs_diagnostics st)
                           \<lparr>seq_fallback_assigned := seq_fallback_assigned (cs_diagnostics st) + 1\<rparr>)
               in \<lparr>cs_diagnostics = d,
                   cs_events = cs_events st @ [\<lparr>
                     ev_event_id = ''evt_'' @ rid @ ''_'' @ word_to_string seq,
                     ev_event_type = mapped, ev_run_id = rid, ev_attempt_id = 1,
                     ev_timestamp = ts_ms_to_string (re_ts_ms raw), ev_seq = seq,
                     ev_payload = flatten_payload fmt_f64 (re_payload raw)\<rparr>],
                   cs_last_seq = Some seq\<rparr>)"

definition convert_state_init :: convert_state where
  "convert_state_init =
     \<lparr>cs_diagnostics = \<lparr>dropped_unknown_event_types = 0, dropped_missing_run_id = 0,
        seq_fallback_assigned = 0\<rparr>, cs_events = [], cs_last_seq = None\<rparr>"

definition convert_events :: "(f64 \<Rightarrow> string) \<Rightarrow> run_raw \<Rightarrow> convert_state" where
  "convert_events fmt_f64 run =
     fold (convert_event fmt_f64 (rr_id run)) (rr_events run) convert_state_init"

definition from_void_box_run ::
    "(f64 \<Rightarrow> string) \<Rightarrow> run_raw \<Rightarrow> contract_error + converted_run_view" where
  "from_void_box_run fmt_f64 run =
     res_bind (ok_or (contract_error_new InvalidSpec
         (''unknown void-box status '' @ squoted (rr_status run)) False)
         (map_void_box_status (rr_status run))) (\<lambda>state.
     let st = convert_events fmt_f64 run in
     res_bind (map_err (\<lambda>e. contract_error_new InvalidSpec e False)
         (observe_all tracker_default (cs_events st))) (\<lambda>_.
     let (started, updated) = derive_started_updated (cs_events st) in
     Inr \<lparr>cv_inspection = \<lparr>ri_run_id = rr_id run, ri_attempt_id = 1, ri_state = state,
            ri_active_stage_count = 0, ri_active_microvm_count = 0, ri_started_at = started,
            ri_updated_at = updated, ri_terminal_reason = rr_error run, ri_exit_code = None\<rparr>,
          cv_events = cs_events st, cv_diagnostics = cs_diagnostics st\<rparr>))"

subsection \<open>Lemmas\<close>

inductive run_step :: "run_state \<Rightarrow> run_state \<Rightarrow> bool" where
  transition: "can_transition_to s t \<Longrightarrow> run_step s t"

lemma terminal_absorbing: "run_state_is_terminal s \<Longrightarrow> can_transition_to s t \<longleftrightarrow> t = s"
  by (cases s; cases t) (auto simp: run_state_is_terminal_def)

lemma terminal_reach: "run_step\<^sup>*\<^sup>* s t \<Longrightarrow> run_state_is_terminal s \<Longrightarrow> t = s"
  by (induction rule: rtranclp_induct) (auto elim!: run_step.cases simp: terminal_absorbing)

fun run_rank :: "run_state \<Rightarrow> nat" where
  "run_rank RsPending = 0"
| "run_rank RsStarting = 1"
| "run_rank RsRunning = 2"
| "run_rank _ = 3"

lemma run_step_rank: "can_transition_to s t \<Longrightarrow> t = s \<or> run_rank t = Suc (run_rank s)"
  by (cases s; cases t) auto

lemma observe_all_iff:
  "(\<exists>t'. observe_all t es = Inr t') \<longleftrightarrow>
     sorted_wrt (<) (map ev_seq es)
     \<and> (\<forall>l. last_seq t = Some l \<longrightarrow> (\<forall>e \<in> set es. l < ev_seq e))"
proof (induction es arbitrary: t)
  case Nil
  then show ?case by simp
next
  case (Cons e es)
  show ?case
  proof (cases "\<exists>l. last_seq t = Some l \<and> ev_seq e \<le> l")
    case True
    then show ?thesis by (auto simp: tracker_observe_def)
  next
    case False
    then have "tracker_observe t e = Inr (t\<lparr>last_seq := Some (ev_seq e)\<rparr>)"
      by (auto simp: tracker_observe_def split: option.splits)
    with False show ?thesis
      using Cons.IH [of "t\<lparr>last_seq := Some (ev_seq e)\<rparr>"]
      by (auto simp: not_le) (meson order.strict_trans)+
  qed
qed

lemma observe_default_iff:
  "(\<exists>t'. observe_all tracker_default es = Inr t') \<longleftrightarrow> sorted_wrt (<) (map ev_seq es)"
  by (simp add: observe_all_iff tracker_default_def)

definition view_event_ok :: "string \<Rightarrow> event_envelope \<Rightarrow> bool" where
  "view_event_ok rid e = (ev_run_id e = rid \<and> ev_attempt_id e = 1
     \<and> ev_event_id e = ''evt_'' @ rid @ ''_'' @ word_to_string (ev_seq e))"

lemma convert_event_inv:
  assumes "\<forall>e \<in> set (cs_events st). view_event_ok rid e"
  shows "\<forall>e \<in> set (cs_events (convert_event f rid raw st)). view_event_ok rid e"
  using assms
  by (auto simp: convert_event_def view_event_ok_def Let_def split: option.splits if_splits)

lemma fold_convert_inv:
  "\<forall>e \<in> set (cs_events st). view_event_ok rid e \<Longrightarrow>
   \<forall>e \<in> set (cs_events (fold (convert_event f rid) raws st)). view_event_ok rid e"
proof (induction raws arbitrary: st)
  case Nil
  then show ?case by simp
next
  case (Cons raw raws)
  show ?case using Cons.IH [OF convert_event_inv [OF Cons.prems]] by simp
qed

definition accounted :: "convert_state \<Rightarrow> nat" where
  "accounted st = length (cs_events st) + dropped_unknown_event_types (cs_diagnostics st)
     + dropped_missing_run_id (cs_diagnostics st)"

lemma accounted_step: "accounted (convert_event f rid raw st) = Suc (accounted st)"
  by (auto simp: accounted_def convert_event_def Let_def split: option.splits)

lemma accounted_fold: "accounted (fold (convert_event f rid) raws st) = length raws + accounted st"
  by (induction raws arbitrary: st) (auto simp: accounted_step)

lemma accounted_convert: "accounted (convert_events f run) = length (rr_events run)"
  by (simp add: convert_events_def accounted_fold) (simp add: accounted_def convert_state_init_def)

lemma from_void_box_run_Inr:
  "from_void_box_run f run = Inr v \<longleftrightarrow>
    (\<exists>s. map_void_box_status (rr_status run) = Some s
       \<and> sorted_wrt (<) (map ev_seq (cs_events (convert_events f run)))
       \<and> v = \<lparr>cv_inspection = \<lparr>ri_run_id = rr_id run, ri_attempt_id = 1, ri_state = s,
            ri_active_stage_count = 0, ri_active_microvm_count = 0,
            ri_started_at = fst (derive_started_updated (cs_events (convert_events f run))),
            ri_updated_at = snd (derive_started_updated (cs_events (convert_events f run))),
            ri_terminal_reason = rr_error run, ri_exit_code = None\<rparr>,
          cv_events = cs_events (convert_events f run),
          cv_diagnostics = cs_diagnostics (convert_events f run)\<rparr>)"
  using observe_default_iff [of "cs_events (convert_events f run)"]
  by (auto simp: from_void_box_run_def result_simps Let_def split_beta)

lemma converted_events_ok:
  assumes "from_void_box_run f run = Inr v"
  shows "sorted_wrt (<) (map ev_seq (cv_events v))" "\<forall>e \<in> set (cv_events v). view_event_ok (rr_id run) e"
proof -
  have "\<forall>e \<in> set (cs_events (convert_events f run)). view_event_ok (rr_id run) e"
    unfolding convert_events_def by (rule fold_convert_inv) (simp add: convert_state_init_def)
  with assms show "sorted_wrt (<) (map ev_seq (cv_events v))" "\<forall>e \<in> set (cv_events v). view_event_ok (rr_id run) e"
    by (auto simp: from_void_box_run_Inr)
qed

text \<open>The fallback numbering alone yields 1, 2, 3, \<dots>.\<close>

definition fallback_inv :: "nat \<Rightarrow> convert_state \<Rightarrow> bool" where
  "fallback_inv n st = (map ev_seq (cs_events st) = seq_upto n
     \<and> cs_last_seq st = (if n = 0 then None else Some (of_nat n)))"

lemma convert_event_fallback:
  assumes "re_seq raw = None" "fallback_inv n st"
  shows "fallback_inv n (convert_event f rid raw st) \<or> fallback_inv (Suc n) (convert_event f rid raw st)"
  using assms
  by (auto simp: fallback_inv_def convert_event_def Let_def seq_upto_Suc add.commute split: option.splits)

lemma fold_fallback:
  assumes "\<forall>raw \<in> set raws. re_seq raw = None" "fallback_inv n st"
  shows "\<exists>m \<le> n + length raws. fallback_inv m (fold (convert_event f rid) raws st)"
  using assms
proof (induction raws arbitrary: st n)
  case Nil
  then show ?case by auto
next
  case (Cons raw raws)
  then consider "fallback_inv n (convert_event f rid raw st)"
    | "fallback_inv (Suc n) (convert_event f rid raw st)"
    using convert_event_fallback by fastforce
  then show ?case
  proof cases
    case 1
    with Cons.IH [OF _ 1] Cons.prems(1) show ?thesis by (auto intro: le_SucI)
  next
    case 2
    with Cons.IH [OF _ 2] Cons.prems(1) show ?thesis by auto
  qed
qed

lemma convert_events_fallback:
  assumes "\<forall>raw \<in> set (rr_events run). re_seq raw = None"
  shows "\<exists>m \<le> length (rr_events run). map ev_seq (cs_events (convert_events f run)) = seq_upto m"
proof -
  have "fallback_inv 0 convert_state_init"
    by (simp add: fallback_inv_def convert_state_init_def)
  from fold_fallback [OF assms this] show ?thesis
    by (fastforce simp: convert_events_def fallback_inv_def)
qed

subsection \<open>Properties\<close>

text \<open>
  C31: A successful conversion of a void-box run yields a view whose event sequence numbers are
  strictly increasing, whose events all carry the run's id, attempt 1 and the id
  \<open>evt_<run>_<seq>\<close>, whose state is the mapped status, and which accounts for every raw event:
  kept, dropped for an unknown type, or dropped for a missing run id.
\<close>

theorem conversion_sound:
  assumes "from_void_box_run f run = Inr v"
  shows "sorted_wrt (<) (map ev_seq (cv_events v))
    \<and> list_all (view_event_ok (rr_id run)) (cv_events v)
    \<and> Some (ri_state (cv_inspection v)) = map_void_box_status (rr_status run)
    \<and> length (cv_events v) + dropped_unknown_event_types (cv_diagnostics v)
        + dropped_missing_run_id (cv_diagnostics v) = length (rr_events run)"
  using assms converted_events_ok [OF assms] accounted_convert [of f run]
  by (auto simp: from_void_box_run_Inr list_all_iff accounted_def)

definition sample_run :: run_raw where
  "sample_run = \<lparr>rr_id = ''r1'', rr_status = ''Success'', rr_error = None, rr_events =
     [\<lparr>re_ts_ms = 20, re_event_type = ''run.started'', re_run_id = Some ''r1'', re_seq = None,
       re_payload = None\<rparr>,
      \<lparr>re_ts_ms = 25, re_event_type = ''stage.custom'', re_run_id = Some ''r1'', re_seq = None,
       re_payload = None\<rparr>,
      \<lparr>re_ts_ms = 30, re_event_type = ''run.finished'', re_run_id = Some ''r1'', re_seq = Some 9,
       re_payload = Some [(''exit'', PvUnsigned 0)]\<rparr>]\<rparr>"

lemma sample_event_types:
  "map_void_box_event_type ''run.started'' = Some RunStarted"
  "map_void_box_event_type ''stage.custom'' = None"
  "map_void_box_event_type ''run.finished'' = Some RunCompleted"
  by (simp_all add: map_void_box_event_type_def)

lemma conversion_sound_witness:
  "\<exists>v. from_void_box_run (\<lambda>_. []) sample_run = Inr v \<and> length (cv_events v) = 2
     \<and> sorted_wrt (<) (map ev_seq (cv_events v))"
proof -
  have ok: "map_void_box_status (rr_status sample_run) = Some RsSucceeded"
    by (simp add: sample_run_def map_void_box_status_def to_ascii_lowercase_def)
  have ev: "map ev_seq (cs_events (convert_events (\<lambda>_. []) sample_run)) = [1, 9]"
    by (simp add: sample_run_def convert_events_def convert_event_def convert_state_init_def
        sample_event_types)
  obtain v where v: "from_void_box_run (\<lambda>_. []) sample_run = Inr v"
      "cv_events v = cs_events (convert_events (\<lambda>_. []) sample_run)"
    unfolding from_void_box_run_Inr ok ev by (simp add: ev)
  from v(2) ev have "length (cv_events v) = 2"
    by (metis length_map length_Cons list.size(3) One_nat_def Suc_1)
  with v(1) conversion_sound [OF v(1)] show ?thesis by (intro exI [of _ v]) simp
qed

text \<open>
  Conversion fails exactly when the status is unknown or the sequence numbers of the kept
  events are not strictly increasing, and always with the non-retryable code \<open>InvalidSpec\<close>.
\<close>

theorem conversion_error_iff:
  "if map_void_box_status (rr_status run) \<noteq> None
      \<and> sorted_wrt (<) (map ev_seq (cs_events (convert_events f run)))
   then \<exists>v. from_void_box_run f run = Inr v
   else \<exists>e. from_void_box_run f run = Inl e \<and> ce_code e = InvalidSpec \<and> \<not> ce_retryable e"
proof -
  have "ce_code e = InvalidSpec \<and> \<not> ce_retryable e" if "from_void_box_run f run = Inl e" for e
    using that by (auto simp: from_void_box_run_def result_simps Let_def split_beta contract_error_new_def)
  then show ?thesis
    using from_void_box_run_Inr [of f run] by (cases "from_void_box_run f run") auto
qed

text \<open>
  When void-box supplies no sequence numbers at all and the status is known, the conversion
  succeeds and the events are numbered 1, 2, 3, ... without a gap.
\<close>

theorem conversion_fallback_numbers:
  assumes "list_all (\<lambda>raw. re_seq raw = None) (rr_events run)"
    and "map_void_box_status (rr_status run) = Some s" and "length (rr_events run) < 2 ^ 64"
  shows "\<exists>v. from_void_box_run f run = Inr v
    \<and> map ev_seq (cv_events v) = seq_upto (length (cv_events v))"
proof -
  obtain m where m: "m \<le> length (rr_events run)"
      "map ev_seq (cs_events (convert_events f run)) = seq_upto m"
    using convert_events_fallback [of run f] assms(1) by (auto simp: list_all_iff)
  then have "length (cs_events (convert_events f run)) = m"
    by (metis length_map length_seq_upto)
  with m assms(2,3) sorted_seq_upto [of m] show ?thesis
    unfolding from_void_box_run_Inr by simp
qed

lemma conversion_fallback_numbers_witness:
  "\<exists>v. from_void_box_run (\<lambda>_. []) (sample_run\<lparr>rr_events := take 2 (rr_events sample_run)\<rparr>) = Inr v
    \<and> map ev_seq (cv_events v) = seq_upto (length (cv_events v))"
  by (rule conversion_fallback_numbers [where s = RsSucceeded])
    (simp_all add: sample_run_def map_void_box_status_def to_ascii_lowercase_def)

text \<open>
  A run state only moves forward: along any sequence of transitions a terminal state is never
  left, and from \<open>Pending\<close> a terminal state is reached only after at least three proper transitions
  (every transition to another state raises the rank by exactly one).
\<close>

theorem run_states_forward:
  assumes "run_step\<^sup>*\<^sup>* s t"
  shows "(if run_state_is_terminal s then t = s else run_rank s \<le> run_rank t)
    \<and> list_all (\<lambda>u. can_transition_to t u = (u = t \<or> run_rank u = Suc (run_rank t)))
        [RsPending, RsStarting, RsRunning, RsSucceeded, RsFailed, RsCanceled]"
proof -
  have "run_rank s \<le> run_rank t"
    using assms by (induction) (auto elim!: run_step.cases dest!: run_step_rank)
  with terminal_reach [OF assms] show ?thesis by (cases t) auto
qed

lemma run_states_forward_witness:
  "run_rank RsPending \<le> run_rank RsRunning"
proof -
  have "run_step\<^sup>*\<^sup>* RsPending RsRunning"
    by (rule converse_rtranclp_into_rtranclp [of _ _ RsStarting], simp add: run_step.simps)
      (rule r_into_rtranclp, simp add: run_step.simps)
  from run_states_forward [OF this] show ?thesis by simp
qed

end
