(* ===== verification/Policy.thy ===== *)
theory Policy
  imports Json
begin

text \<open>
  Orchestration policies, variation configurations and execution specifications
  (\<open>src/orchestration/{policy,variation,spec}.rs\<close>) with their validation. Lemmas: what a valid
  policy and a valid specification guarantee, in the order the code checks it.
\<close>

subsection \<open>policy.rs\<close>

record global_config =
  max_concurrent_child_runs :: u32

record budget_policy =
  bp_max_iterations :: "u32 option"
  bp_max_child_runs :: "u32 option"
  bp_max_wall_clock_secs :: "u32 option"
  bp_max_cost_usd_millis :: "u64 option"

record concurrency_policy =
  max_concurrent_candidates :: u32

record convergence_policy =
  cp_strategy :: string
  cp_min_score :: "f64 option"
  cp_max_iterations_without_improvement :: "u32 option"

record orchestration_policy =
  op_budget :: budget_policy
  op_concurrency :: concurrency_policy
  op_convergence :: convergence_policy
  op_max_candidate_failures_per_iteration :: u32
  op_missing_output_policy :: string
  op_iteration_failure_policy :: string

definition budget_default :: budget_policy where
  "budget_default = \<lparr>bp_max_iterations = Some 10, bp_max_child_runs = None,
     bp_max_wall_clock_secs = Some 600, bp_max_cost_usd_millis = None\<rparr>"

definition concurrency_default :: concurrency_policy where
  "concurrency_default = \<lparr>max_concurrent_candidates = 1\<rparr>"

definition convergence_default :: convergence_policy where
  "convergence_default = \<lparr>cp_strategy = ''plateau'', cp_min_score = None,
     cp_max_iterations_without_improvement = Some 2\<rparr>"

definition policy_default :: orchestration_policy where
  "policy_default = \<lparr>op_budget = budget_default, op_concurrency = concurrency_default,
     op_convergence = convergence_default, op_max_candidate_failures_per_iteration = - 1,
     op_missing_output_policy = ''mark_failed'', op_iteration_failure_policy = ''fail_execution''\<rparr>"

definition convergence_validate :: "budget_policy \<Rightarrow> convergence_policy \<Rightarrow> string + unit" where
  "convergence_validate b c =
     (if cp_strategy c = ''threshold'' then
        (if cp_min_score c = None
         then Inl ''policy.convergence.min_score is required for threshold strategy'' else Inr ())
      else if cp_strategy c = ''plateau'' then
        (if cp_max_iterations_without_improvement c = None
         then Inl ''policy.convergence.max_iterations_without_improvement is required for plateau strategy''
         else Inr ())
      else if cp_strategy c = ''exhaustive'' then
        (if bp_max_iterations b = None
         then Inl ''policy.budget.max_iterations is required for exhaustive strategy'' else Inr ())
      else Inl (''unknown convergence strategy '' @ squoted (cp_strategy c)))"

definition policy_validate :: "orchestration_policy \<Rightarrow> global_config \<Rightarrow> string + unit" where
  "policy_validate p global =
     (if bp_max_iterations (op_budget p) = None \<and> bp_max_wall_clock_secs (op_budget p) = None
      then Inl ''at least one of policy.budget.max_iterations or policy.budget.max_wall_clock_secs must be set''
      else if max_concurrent_candidates (op_concurrency p) = 0
      then Inl ''policy.concurrency.max_concurrent_candidates must be positive''
      else if max_concurrent_child_runs global < max_concurrent_candidates (op_concurrency p)
      then Inl ''policy.concurrency.max_concurrent_candidates cannot exceed global.max_concurrent_child_runs''
      else convergence_validate (op_budget p) (op_convergence p))"

subsection \<open>variation.rs\<close>

datatype variation_selection = SelRandom | SelSequential

record variation_proposal =
  vp_overrides :: "(string, string) btree"

record variation_config =
  vc_source :: string
  vc_candidates_per_iteration :: u32
  vc_selection :: "variation_selection option"
  vc_parameter_space :: "(string, string list) btree"
  vc_explicit :: "variation_proposal list"

definition variation_parameter_space ::
    "u32 \<Rightarrow> variation_selection \<Rightarrow> (string, string list) btree \<Rightarrow> variation_config" where
  "variation_parameter_space n selection space =
     \<lparr>vc_source = ''parameter_space'', vc_candidates_per_iteration = n,
      vc_selection = Some selection, vc_parameter_space = space, vc_explicit = []\<rparr>"

definition variation_explicit :: "u32 \<Rightarrow> variation_proposal list \<Rightarrow> variation_config" where
  "variation_explicit n explicit =
     \<lparr>vc_source = ''explicit'', vc_candidates_per_iteration = n, vc_selection = None,
      vc_parameter_space = [], vc_explicit = explicit\<rparr>"

definition variation_leader_directed :: "u32 \<Rightarrow> variation_config" where
  "variation_leader_directed n =
     \<lparr>vc_source = ''leader_directed'', vc_candidates_per_iteration = n, vc_selection = None,
      vc_parameter_space = [], vc_explicit = []\<rparr>"

definition variation_signal_reactive :: "u32 \<Rightarrow> variation_config" where
  "variation_signal_reactive n =
     \<lparr>vc_source = ''signal_reactive'', vc_candidates_per_iteration = n, vc_selection = None,
      vc_parameter_space = [], vc_explicit = []\<rparr>"

subsection \<open>spec.rs\<close>

record workflow_template_ref =
  wt_template :: string

record evaluation_config =
  ec_scoring_type :: string
  ec_weights :: "(string, f64) btree"
  ec_pass_threshold :: "f64 option"
  ec_ranking :: string
  ec_tie_breaking :: string

record supervision_review_policy =
  rp_max_revision_rounds :: u32
  rp_retry_on_runtime_failure :: bool
  rp_require_final_approval :: bool

record supervision_config =
  sc_supervisor_role :: string
  sc_review_policy :: supervision_review_policy

record execution_spec =
  es_mode :: string
  es_goal :: string
  es_workflow :: workflow_template_ref
  es_policy :: orchestration_policy
  es_evaluation :: evaluation_config
  es_variation :: variation_config
  es_swarm :: bool
  es_supervision :: "supervision_config option"

definition supervision_validate :: "execution_spec \<Rightarrow> string + unit" where
  "supervision_validate s =
     (if es_mode s = ''supervision'' then
        (case es_supervision s of
           None \<Rightarrow> Inl ''supervision mode requires the supervision section''
         | Some c \<Rightarrow> if trim (sc_supervisor_role c) = []
                     then Inl ''supervision.supervisor_role is required'' else Inr ())
      else Inr ())"

definition known_variation_source :: "string \<Rightarrow> bool" where
  "known_variation_source s =
     (s \<in> {''parameter_space'', ''explicit'', ''leader_directed'', ''signal_reactive''})"

definition spec_validate :: "execution_spec \<Rightarrow> global_config \<Rightarrow> string + unit" where
  "spec_validate s global =
     (if \<not> (es_mode s = ''swarm'' \<or> es_mode s = ''supervision'')
      then Inl (''unknown mode '' @ squoted (es_mode s))
      else if es_mode s = ''swarm'' \<and> \<not> es_swarm s
      then Inl ''swarm mode requires the swarm section''
      else res_bind (supervision_validate s) (\<lambda>_.
        res_bind (policy_validate (es_policy s) global) (\<lambda>_.
          if vc_candidates_per_iteration (es_variation s) = 0
          then Inl ''variation.candidates_per_iteration must be positive''
          else if \<not> known_variation_source (vc_source (es_variation s))
          then Inl (''unknown variation source '' @ squoted (vc_source (es_variation s)))
          else if trim (wt_template (es_workflow s)) = []
          then Inl ''workflow.template is required''
          else Inr ())))"

subsection \<open>What validation guarantees\<close>

definition convergence_ok :: "budget_policy \<Rightarrow> convergence_policy \<Rightarrow> bool" where
  "convergence_ok b c =
     ((cp_strategy c = ''threshold'' \<and> cp_min_score c \<noteq> None)
      \<or> (cp_strategy c = ''plateau'' \<and> cp_max_iterations_without_improvement c \<noteq> None)
      \<or> (cp_strategy c = ''exhaustive'' \<and> bp_max_iterations b \<noteq> None))"

definition policy_ok :: "global_config \<Rightarrow> orchestration_policy \<Rightarrow> bool" where
  "policy_ok global p =
     ((bp_max_iterations (op_budget p) \<noteq> None \<or> bp_max_wall_clock_secs (op_budget p) \<noteq> None)
      \<and> 0 < unat (max_concurrent_candidates (op_concurrency p))
      \<and> unat (max_concurrent_candidates (op_concurrency p)) \<le> unat (max_concurrent_child_runs global)
      \<and> convergence_ok (op_budget p) (op_convergence p))"

definition supervision_ok :: "execution_spec \<Rightarrow> bool" where
  "supervision_ok s = (es_mode s = ''supervision'' \<longrightarrow>
     (\<exists>c. es_supervision s = Some c \<and> trim (sc_supervisor_role c) \<noteq> []))"

definition spec_ok :: "global_config \<Rightarrow> execution_spec \<Rightarrow> bool" where
  "spec_ok global s =
     ((es_mode s = ''swarm'' \<and> es_swarm s \<or> es_mode s = ''supervision'')
      \<and> supervision_ok s \<and> policy_ok global (es_policy s)
      \<and> 0 < unat (vc_candidates_per_iteration (es_variation s))
      \<and> known_variation_source (vc_source (es_variation s))
      \<and> trim (wt_template (es_workflow s)) \<noteq> [])"

lemma convergence_validate_iff: "convergence_validate b c = Inr () \<longleftrightarrow> convergence_ok b c"
  by (auto simp: convergence_validate_def convergence_ok_def)

lemma policy_validate_iff: "policy_validate p global = Inr () \<longleftrightarrow> policy_ok global p"
  by (auto simp: policy_validate_def policy_ok_def convergence_validate_iff unat_gt_0
      word_less_nat_alt not_less)

lemma supervision_validate_iff: "supervision_validate s = Inr () \<longleftrightarrow> supervision_ok s"
  by (auto simp: supervision_validate_def supervision_ok_def split: option.splits)

lemma spec_validate_iff: "spec_validate s global = Inr () \<longleftrightarrow> spec_ok global s"
  by (auto simp: spec_validate_def spec_ok_def result_simps supervision_validate_iff
      policy_validate_iff unat_gt_0)

lemma spec_validate_Inr: "spec_validate s global = Inr u \<longleftrightarrow> spec_ok global s"
  using spec_validate_iff [of s global] by (cases u) simp

end
