(* ===== verification/Types.thy ===== *)
theory Types
  imports Policy
begin

text \<open>
  The orchestration data model (\<open>src/orchestration/types.rs\<close>) and the control events with replay
  (\<open>src/orchestration/events.rs\<close>). Lemmas: names of control events parse back, replay is a fold that
  composes over concatenated logs, and the events that do not advance the state leave it unchanged.
\<close>

subsection \<open>types.rs\<close>

datatype execution_status = ExPending | ExRunning | ExPaused | ExCompleted | ExFailed | ExCanceled

record failure_counts =
  total_candidate_failures :: u32

definition failure_counts_default :: failure_counts where
  "failure_counts_default = \<lparr>total_candidate_failures = 0\<rparr>"

record execution =
  ex_execution_id :: string
  ex_mode :: string
  ex_goal :: string
  ex_status :: execution_status
  ex_result_best_candidate_id :: "string option"
  ex_completed_iterations :: u32
  ex_failure_counts :: failure_counts

definition execution_new :: "string \<Rightarrow> string \<Rightarrow> string \<Rightarrow> execution" where
  "execution_new execution_id mode goal =
     \<lparr>ex_execution_id = execution_id, ex_mode = mode, ex_goal = goal, ex_status = ExPending,
      ex_result_best_candidate_id = None, ex_completed_iterations = 0,
      ex_failure_counts = failure_counts_default\<rparr>"

datatype candidate_status = CaQueued | CaRunning | CaCompleted | CaFailed | CaCanceled

datatype worker_review_status =
  PendingReview | Approved | RevisionRequested | RetryRequested | Rejected

record execution_candidate =
  ca_execution_id :: string
  ca_candidate_id :: string
  ca_created_seq :: u64
  ca_iteration :: u32
  ca_status :: candidate_status
  ca_runtime_run_id :: "string option"
  ca_overrides :: "(string, string) btree"
  ca_succeeded :: "bool option"
  ca_metrics :: "(string, f64) btree"
  ca_review_status :: "worker_review_status option"
  ca_revision_round :: u32

definition execution_candidate_new ::
    "string \<Rightarrow> string \<Rightarrow> u64 \<Rightarrow> u32 \<Rightarrow> candidate_status \<Rightarrow> execution_candidate" where
  "execution_candidate_new execution_id candidate_id created_seq iteration status =
     \<lparr>ca_execution_id = execution_id, ca_candidate_id = candidate_id, ca_created_seq = created_seq,
      ca_iteration = iteration, ca_status = status, ca_runtime_run_id = None, ca_overrides = [],
      ca_succeeded = None, ca_metrics = [], ca_review_status = None, ca_revision_round = 0\<rparr>"

record execution_accumulator =
  ac_scoring_history_len :: u32
  ac_completed_iterations :: u32
  ac_leader_proposals :: "variation_proposal list"
  ac_iterations_without_improvement :: u32
  ac_best_candidate_id :: "string option"
  ac_best_candidate_overrides :: "(string, string) btree"
  ac_failure_counts :: failure_counts
  ac_supervision_reviews :: "(string, worker_review_status) btree"
  ac_supervision_revision_rounds :: "(string, u32) btree"
  ac_supervision_final_approval :: "bool option"

definition accumulator_default :: execution_accumulator where
  "accumulator_default =
     \<lparr>ac_scoring_history_len = 0, ac_completed_iterations = 0, ac_leader_proposals = [],
      ac_iterations_without_improvement = 0, ac_best_candidate_id = None,
      ac_best_candidate_overrides = [], ac_failure_counts = failure_counts_default,
      ac_supervision_reviews = [], ac_supervision_revision_rounds = [],
      ac_supervision_final_approval = None\<rparr>"

record message_stats =
  ms_iteration :: u32
  ms_total_messages :: nat
  ms_leader_messages :: nat
  ms_broadcast_messages :: nat
  ms_proposal_count :: nat
  ms_signal_count :: nat
  ms_evaluation_count :: nat
  ms_high_priority_count :: nat
  ms_normal_priority_count :: nat
  ms_low_priority_count :: nat
  ms_delivered_count :: nat
  ms_dropped_count :: nat
  ms_expired_count :: nat
  ms_unique_sources :: nat
  ms_unique_intent_count :: nat

definition message_stats_default :: message_stats where
  "message_stats_default =
     \<lparr>ms_iteration = 0, ms_total_messages = 0, ms_leader_messages = 0, ms_broadcast_messages = 0,
      ms_proposal_count = 0, ms_signal_count = 0, ms_evaluation_count = 0,
      ms_high_priority_count = 0, ms_normal_priority_count = 0, ms_low_priority_count = 0,
      ms_delivered_count = 0, ms_dropped_count = 0, ms_expired_count = 0, ms_unique_sources = 0,
      ms_unique_intent_count = 0\<rparr>"

record candidate_inbox =
  ci_candidate_id :: string
  ci_messages :: "string list"

definition candidate_inbox_new :: "string \<Rightarrow> candidate_inbox" where
  "candidate_inbox_new candidate_id = \<lparr>ci_candidate_id = candidate_id, ci_messages = []\<rparr>"

record candidate_spec =
  cd_candidate_id :: string
  cd_overrides :: "(string, string) btree"

datatype communication_intent_kind = Proposal | Signal | Evaluation

datatype communication_intent_audience = Leader | Broadcast

datatype communication_intent_priority = PrioLow | PrioNormal | PrioHigh

record communication_intent =
  in_intent_id :: string
  in_from_candidate_id :: string
  in_iteration :: u32
  in_kind :: communication_intent_kind
  in_audience :: communication_intent_audience
  in_payload :: json
  in_priority :: communication_intent_priority
  in_ttl_iterations :: u32
  in_caused_by :: "string option"
  in_context :: "json option"

record candidate_output =
  co_candidate_id :: string
  co_succeeded :: bool
  co_metrics :: "(string, f64) btree"
  co_intents :: "communication_intent list"

definition candidate_output_new :: "string \<Rightarrow> bool \<Rightarrow> (string, f64) btree \<Rightarrow> candidate_output" where
  "candidate_output_new candidate_id succeeded metrics =
     \<lparr>co_candidate_id = candidate_id, co_succeeded = succeeded, co_metrics = metrics, co_intents = []\<rparr>"

definition with_intents :: "communication_intent list \<Rightarrow> candidate_output \<Rightarrow> candidate_output" where
  "with_intents intents out = out\<lparr>co_intents := intents\<rparr>"

datatype routed_message_status = Routed | Delivered | Expired | Dropped

record routed_message =
  rm_message_id :: string
  rm_intent_id :: string
  rm_to :: string
  rm_delivery_iteration :: u32
  rm_routing_reason :: string
  rm_status :: routed_message_status

record inbox_entry =
  ie_message_id :: string
  ie_intent_id :: string
  ie_from_candidate_id :: string
  ie_kind :: communication_intent_kind
  ie_payload :: json

record inbox_snapshot =
  is_execution_id :: string
  is_candidate_id :: string
  is_iteration :: u32
  is_entries :: "inbox_entry list"

subsection \<open>events.rs\<close>

datatype (plugins only: code size) control_event_type =
    ExecutionCreated | ExecutionSubmitted | ExecutionStarted | IterationStarted
  | SupervisorAssigned | CandidateQueued | CandidateDispatched | CandidateOutputCollected
  | WorkerQueued | ReviewRequested | WorkerApproved | EvRevisionRequested | CandidateScored
  | IterationCompleted | ExecutionFinalized | ExecutionCompleted | ExecutionFailed
  | ExecutionPaused | ExecutionResumed | ExecutionCanceled | ExecutionStalled
  | CommunicationIntentEmitted | CommunicationIntentRejected | MessageRouted | MessageDelivered
  | MessageExpired

fun event_as_str :: "control_event_type \<Rightarrow> string" where
  "event_as_str ExecutionCreated = ''ExecutionCreated''"
| "event_as_str ExecutionSubmitted = ''ExecutionSubmitted''"
| "event_as_str ExecutionStarted = ''ExecutionStarted''"
| "event_as_str IterationStarted = ''IterationStarted''"
| "event_as_str SupervisorAssigned = ''SupervisorAssigned''"
| "event_as_str CandidateQueued = ''CandidateQueued''"
| "event_as_str CandidateDispatched = ''CandidateDispatched''"
| "event_as_str CandidateOutputCollected = ''CandidateOutputCollected''"
| "event_as_str WorkerQueued = ''WorkerQueued''"
| "event_as_str ReviewRequested = ''ReviewRequested''"
| "event_as_str WorkerApproved = ''WorkerApproved''"
| "event_as_str EvRevisionRequested = ''RevisionRequested''"
| "event_as_str CandidateScored = ''CandidateScored''"
| "event_as_str IterationCompleted = ''IterationCompleted''"
| "event_as_str ExecutionFinalized = ''ExecutionFinalized''"
| "event_as_str ExecutionCompleted = ''ExecutionCompleted''"
| "event_as_str ExecutionFailed = ''ExecutionFailed''"
| "event_as_str ExecutionPaused = ''ExecutionPaused''"
| "event_as_str ExecutionResumed = ''ExecutionResumed''"
| "event_as_str ExecutionCanceled = ''ExecutionCanceled''"
| "event_as_str ExecutionStalled = ''ExecutionStalled''"
| "event_as_str CommunicationIntentEmitted = ''CommunicationIntentEmitted''"
| "event_as_str CommunicationIntentRejected = ''CommunicationIntentRejected''"
| "event_as_str MessageRouted = ''MessageRouted''"
| "event_as_str MessageDelivered = ''MessageDelivered''"
| "event_as_str MessageExpired = ''MessageExpired''"

definition event_parse :: "string \<Rightarrow> control_event_type option" where
  "event_parse v =
     (if v = ''ExecutionCreated'' then Some ExecutionCreated
      else if v = ''ExecutionSubmitted'' then Some ExecutionSubmitted
      else if v = ''ExecutionStarted'' then Some ExecutionStarted
      else if v = ''IterationStarted'' then Some IterationStarted
      else if v = ''SupervisorAssigned'' then Some SupervisorAssigned
      else if v = ''CandidateQueued'' then Some CandidateQueued
      else if v = ''CandidateDispatched'' then Some CandidateDispatched
      else if v = ''CandidateOutputCollected'' then Some CandidateOutputCollected
      else if v = ''WorkerQueued'' then Some WorkerQueued
      else if v = ''ReviewRequested'' then Some ReviewRequested
      else if v = ''WorkerApproved'' then Some WorkerApproved
      else if v = ''RevisionRequested'' then Some EvRevisionRequested
      else if v = ''CandidateScored'' then Some CandidateScored
      else if v = ''IterationCompleted'' then Some IterationCompleted
      else if v = ''ExecutionFinalized'' then Some ExecutionFinalized
      else if v = ''ExecutionCompleted'' then Some ExecutionCompleted
      else if v = ''ExecutionFailed'' then Some ExecutionFailed
      else if v = ''ExecutionPaused'' then Some ExecutionPaused
      else if v = ''ExecutionResumed'' then Some ExecutionResumed
      else if v = ''ExecutionCanceled'' then Some ExecutionCanceled
      else if v = ''ExecutionStalled'' then Some ExecutionStalled
      else if v = ''CommunicationIntentEmitted'' then Some CommunicationIntentEmitted
      else if v = ''CommunicationIntentRejected'' then Some CommunicationIntentRejected
      else if v = ''MessageRouted'' then Some MessageRouted
      else if v = ''MessageDelivered'' then Some MessageDelivered
      else if v = ''MessageExpired'' then Some MessageExpired
      else None)"

definition advances_state :: "control_event_type \<Rightarrow> bool" where
  "advances_state t = (t \<notin> {ExecutionSubmitted, SupervisorAssigned, CandidateQueued,
     CandidateDispatched, CandidateOutputCollected, WorkerQueued, ReviewRequested, WorkerApproved,
     EvRevisionRequested, ExecutionStalled, CommunicationIntentEmitted,
     CommunicationIntentRejected, MessageRouted, MessageDelivered, MessageExpired})"

record control_event_envelope =
  ce_execution_id :: string
  ce_seq :: u64
  ce_event_type :: control_event_type

definition control_event_new :: "string \<Rightarrow> u64 \<Rightarrow> control_event_type \<Rightarrow> control_event_envelope" where
  "control_event_new execution_id seq event_type =
     \<lparr>ce_execution_id = execution_id, ce_seq = seq, ce_event_type = event_type\<rparr>"

record execution_snapshot =
  sn_execution :: execution
  sn_events :: "control_event_envelope list"
  sn_accumulator :: execution_accumulator
  sn_candidates :: "execution_candidate list"

fun replay_event ::
    "control_event_type \<Rightarrow> execution \<times> execution_accumulator \<Rightarrow> execution \<times> execution_accumulator" where
  "replay_event ExecutionStarted (x, a) = (x\<lparr>ex_status := ExRunning\<rparr>, a)"
| "replay_event IterationStarted (x, a) = (x\<lparr>ex_status := ExRunning\<rparr>, a)"
| "replay_event CandidateScored (x, a) =
     (x, a\<lparr>ac_scoring_history_len := ac_scoring_history_len a + 1\<rparr>)"
| "replay_event IterationCompleted (x, a) =
     (x, a\<lparr>ac_completed_iterations := ac_completed_iterations a + 1\<rparr>)"
| "replay_event ExecutionFinalized (x, a) = (x\<lparr>ex_status := ExCompleted\<rparr>, a)"
| "replay_event ExecutionCompleted (x, a) = (x\<lparr>ex_status := ExCompleted\<rparr>, a)"
| "replay_event ExecutionFailed (x, a) = (x\<lparr>ex_status := ExFailed\<rparr>, a)"
| "replay_event ExecutionPaused (x, a) = (x\<lparr>ex_status := ExPaused\<rparr>, a)"
| "replay_event ExecutionResumed (x, a) = (x\<lparr>ex_status := ExRunning\<rparr>, a)"
| "replay_event ExecutionCanceled (x, a) = (x\<lparr>ex_status := ExCanceled\<rparr>, a)"
| "replay_event _ (x, a) = (x, a)"

definition replay_fold ::
    "control_event_envelope list \<Rightarrow> execution \<times> execution_accumulator \<Rightarrow> execution \<times> execution_accumulator" where
  "replay_fold events xa = fold (\<lambda>e. replay_event (ce_event_type e)) events xa"

definition replay :: "execution \<Rightarrow> control_event_envelope list \<Rightarrow> execution_snapshot" where
  "replay execution events =
     (let (x, a) = replay_fold events (execution, accumulator_default)
      in \<lparr>sn_execution = x, sn_events = events, sn_accumulator = a, sn_candidates = []\<rparr>)"

lemma event_parse_as_str [simp]: "event_parse (event_as_str t) = Some t"
  unfolding event_parse_def
  by (cases t) (simp_all only: event_as_str.simps list.inject char.inject simp_thms if_True if_False list.distinct)

lemma if_Some_elim: "(if c then Some x else r) = Some t \<Longrightarrow> (c \<Longrightarrow> x = t \<Longrightarrow> P) \<Longrightarrow> (r = Some t \<Longrightarrow> P) \<Longrightarrow> P"
  by (simp split: if_split_asm)

lemma event_parse_Some: "event_parse v = Some t \<Longrightarrow> v = event_as_str t"
  unfolding event_parse_def by (elim if_Some_elim; simp only: event_as_str.simps option.distinct)

lemma event_as_str_plain: "line_safe (event_as_str t)" "CHR ''|'' \<notin> set (event_as_str t)"
  by (cases t; simp add: line_safe_def)+

lemma replay_event_no_advance: "\<not> advances_state t \<Longrightarrow> replay_event t xa = xa"
  by (cases xa; cases t) (auto simp: advances_state_def)

lemma replay_fold_append: "replay_fold (es @ fs) xa = replay_fold fs (replay_fold es xa)"
  by (simp add: replay_fold_def)

lemma replay_fold_filter:
  "replay_fold (filter (\<lambda>e. advances_state (ce_event_type e)) es) xa = replay_fold es xa"
  by (induction es arbitrary: xa) (auto simp: replay_fold_def replay_event_no_advance)

subsection \<open>Properties\<close>

text \<open>
  Replay is determined by the state-advancing events alone and composes over a log split in
  two: replaying the advancing events of a prefix and then of the suffix gives the execution and
  accumulator of the whole log.
\<close>

theorem replay_advancing_compositional:
  "(sn_execution (replay x (es @ fs)), sn_accumulator (replay x (es @ fs)))
     = replay_fold (filter (\<lambda>e. advances_state (ce_event_type e)) fs)
        (replay_fold (filter (\<lambda>e. advances_state (ce_event_type e)) es) (x, accumulator_default))"
  by (simp add: replay_def split_beta replay_fold_append replay_fold_filter)

lemma replay_counts_aux:
  "ac_completed_iterations (snd (replay_fold es xa))
     = ac_completed_iterations (snd xa)
       + of_nat (length (filter (\<lambda>e. ce_event_type e = IterationCompleted) es))
   \<and> ac_scoring_history_len (snd (replay_fold es xa))
     = ac_scoring_history_len (snd xa)
       + of_nat (length (filter (\<lambda>e. ce_event_type e = CandidateScored) es))"
proof (induction es arbitrary: xa)
  case Nil
  then show ?case by (simp add: replay_fold_def)
next
  case (Cons e es)
  obtain x a where "xa = (x, a)" by force
  with Cons.IH [of "replay_event (ce_event_type e) xa"] show ?case
    by (cases "ce_event_type e") (simp_all add: replay_fold_def algebra_simps)
qed

text \<open>
  The accumulator rebuilt by replay counts exactly the \<open>IterationCompleted\<close> and
  \<open>CandidateScored\<close> events of the log (at width 32), carries no other state, and the identity,
  mode and goal of the execution are untouched.
\<close>

theorem replay_counts:
  "ac_completed_iterations (sn_accumulator (replay x es))
     = of_nat (length (filter (\<lambda>e. ce_event_type e = IterationCompleted) es))
   \<and> ac_scoring_history_len (sn_accumulator (replay x es))
     = of_nat (length (filter (\<lambda>e. ce_event_type e = CandidateScored) es))
   \<and> sn_execution (replay x es) = x\<lparr>ex_status := ex_status (sn_execution (replay x es))\<rparr>"
proof -
  have same: "x = x\<lparr>ex_status := ex_status x\<rparr>" for x :: execution by simp
  have step: "\<exists>s. fst (replay_event t xa) = (fst xa)\<lparr>ex_status := s\<rparr>" for t xa
    by (cases xa; cases t) (auto simp del: execution.surjective intro: same)
  have "\<exists>s. fst (replay_fold es xa) = (fst xa)\<lparr>ex_status := s\<rparr>" for xa
  proof (induction es arbitrary: xa)
    case Nil
    show ?case by (rule exI [of _ "ex_status (fst xa)"]) (simp add: replay_fold_def)
  next
    case (Cons e es)
    from step [of "ce_event_type e" xa] Cons.IH [of "replay_event (ce_event_type e) xa"]
    show ?case by (auto simp: replay_fold_def)
  qed
  then obtain s where "fst (replay_fold es (x, accumulator_default)) = x\<lparr>ex_status := s\<rparr>"
    by fastforce
  with replay_counts_aux [of es "(x, accumulator_default)"] show ?thesis
    by (simp add: replay_def split_beta accumulator_default_def)
qed

end
