(* ===== verification/Scheduler.thy ===== *)
theory Scheduler
  imports Types "HOL-Library.While_Combinator"
begin

text \<open>
  The global scheduler (\<open>src/orchestration/scheduler.rs\<close>): per-execution FIFO queues, a global limit
  on running child runs and a limit per execution. Lemmas: slot accounting, the choice made by
  \<open>next_dispatch\<close>, the order of dispatch, and termination of every loop that drains the queues.
  Counters are \<open>usize\<close> words; \<open>+\<close> wraps as in a release build.
\<close>

record queued_candidate =
  qc_execution_id :: string
  qc_candidate_id :: string
  qc_created_seq :: u64

definition queued_candidate_new :: "string \<Rightarrow> string \<Rightarrow> u64 \<Rightarrow> queued_candidate" where
  "queued_candidate_new execution_id candidate_id created_seq =
     \<lparr>qc_execution_id = execution_id, qc_candidate_id = candidate_id, qc_created_seq = created_seq\<rparr>"

datatype scheduler_decision = Enqueued | RejectedBudgetExceeded

record dispatch_grant =
  dg_execution_id :: string
  dg_candidate_id :: string

record execution_queue =
  eq_paused :: bool
  eq_queued :: "queued_candidate list"
  eq_running :: usize
  eq_max_concurrent :: usize

record global_scheduler =
  gs_max_concurrent_child_runs :: usize
  gs_active_slots :: usize
  gs_executions :: "(string, execution_queue) btree"

definition scheduler_new :: "usize \<Rightarrow> global_scheduler" where
  "scheduler_new n =
     \<lparr>gs_max_concurrent_child_runs = n, gs_active_slots = 0, gs_executions = []\<rparr>"

text \<open>\<open>entry(id).or_insert_with(\<dots>)\<close>: the queue found, or the given one.\<close>

definition queue_or :: "global_scheduler \<Rightarrow> string \<Rightarrow> execution_queue \<Rightarrow> execution_queue" where
  "queue_or s execution_id q =
     (case bt_get (gs_executions s) execution_id of Some old \<Rightarrow> old | None \<Rightarrow> q)"

definition set_queue :: "string \<Rightarrow> execution_queue \<Rightarrow> global_scheduler \<Rightarrow> global_scheduler" where
  "set_queue execution_id q s = s\<lparr>gs_executions := bt_insert execution_id q (gs_executions s)\<rparr>"

definition enqueue :: "queued_candidate \<Rightarrow> global_scheduler \<Rightarrow> global_scheduler" where
  "enqueue c s =
     (let q = queue_or s (qc_execution_id c)
                \<lparr>eq_paused = False, eq_queued = [], eq_running = 0, eq_max_concurrent = - 1\<rparr>
      in set_queue (qc_execution_id c) (q\<lparr>eq_queued := eq_queued q @ [c]\<rparr>) s)"

definition register_execution ::
    "string \<Rightarrow> bool \<Rightarrow> usize \<Rightarrow> usize \<Rightarrow> global_scheduler \<Rightarrow> global_scheduler" where
  "register_execution execution_id paused running max_concurrent s =
     (let q = queue_or s execution_id
                \<lparr>eq_paused = paused, eq_queued = [], eq_running = running,
                 eq_max_concurrent = max_concurrent\<rparr>;
          active = saturating_sub (gs_active_slots s) (eq_running q)
      in (set_queue execution_id
           (q\<lparr>eq_paused := paused, eq_running := running, eq_max_concurrent := max_concurrent\<rparr>) s)
           \<lparr>gs_active_slots := active + running\<rparr>)"

definition enqueue_if_budget_allows ::
    "queued_candidate \<Rightarrow> execution_accumulator \<Rightarrow> u32 \<Rightarrow> global_scheduler
     \<Rightarrow> scheduler_decision \<times> global_scheduler" where
  "enqueue_if_budget_allows c acc max_iterations s =
     (if max_iterations \<le> ac_completed_iterations acc then (RejectedBudgetExceeded, s)
      else (Enqueued, enqueue c s))"

text \<open>\<open>Iterator::min_by_key\<close>: the first of the elements with the least key.\<close>

fun min_by_key :: "('a \<Rightarrow> 'k::linorder) \<Rightarrow> 'a list \<Rightarrow> 'a option" where
  "min_by_key f [] = None"
| "min_by_key f (x # xs) =
     (case min_by_key f xs of None \<Rightarrow> Some x | Some y \<Rightarrow> Some (if f y < f x then y else x))"

definition eligible :: "string \<times> execution_queue \<Rightarrow> bool" where
  "eligible e = (\<not> eq_paused (snd e) \<and> eq_running (snd e) < eq_max_concurrent (snd e))"

definition dispatch_fronts :: "global_scheduler \<Rightarrow> (u64 \<times> string \<times> string) list" where
  "dispatch_fronts s =
     concat (map (\<lambda>e. case eq_queued (snd e) of [] \<Rightarrow> []
                      | c # _ \<Rightarrow> [(qc_created_seq c, fst e, qc_candidate_id c)])
       (filter eligible (gs_executions s)))"

definition next_dispatch :: "global_scheduler \<Rightarrow> dispatch_grant option \<times> global_scheduler" where
  "next_dispatch s =
     (if gs_max_concurrent_child_runs s \<le> gs_active_slots s then (None, s)
      else case min_by_key fst (dispatch_fronts s) of
        None \<Rightarrow> (None, s)
      | Some (_, execution_id, candidate_id) \<Rightarrow>
          (case bt_get (gs_executions s) execution_id of
             None \<Rightarrow> (None, s)
           | Some q \<Rightarrow> (Some \<lparr>dg_execution_id = execution_id, dg_candidate_id = candidate_id\<rparr>,
                        set_queue execution_id (q\<lparr>eq_queued := tl (eq_queued q)\<rparr>) s)))"

definition mark_running :: "dispatch_grant \<Rightarrow> global_scheduler \<Rightarrow> global_scheduler" where
  "mark_running g s =
     (case bt_get (gs_executions s) (dg_execution_id g) of
        None \<Rightarrow> s
      | Some q \<Rightarrow> (set_queue (dg_execution_id g) (q\<lparr>eq_running := eq_running q + 1\<rparr>) s)
                    \<lparr>gs_active_slots := gs_active_slots s + 1\<rparr>)"

definition release :: "string \<Rightarrow> string \<Rightarrow> global_scheduler \<Rightarrow> global_scheduler" where
  "release execution_id candidate_id s =
     (let s' = (case bt_get (gs_executions s) execution_id of
                  None \<Rightarrow> s
                | Some q \<Rightarrow> if 0 < eq_running q
                    then set_queue execution_id (q\<lparr>eq_running := eq_running q - 1\<rparr>) s else s)
      in if 0 < gs_active_slots s' then s'\<lparr>gs_active_slots := gs_active_slots s' - 1\<rparr> else s')"

definition pause_execution :: "string \<Rightarrow> global_scheduler \<Rightarrow> global_scheduler" where
  "pause_execution execution_id s =
     (case bt_get (gs_executions s) execution_id of
        None \<Rightarrow> s
      | Some q \<Rightarrow> (set_queue execution_id (q\<lparr>eq_paused := True, eq_running := 0\<rparr>) s)
                    \<lparr>gs_active_slots := saturating_sub (gs_active_slots s) (eq_running q)\<rparr>)"

definition execution_queue_depth :: "string \<Rightarrow> global_scheduler \<Rightarrow> nat" where
  "execution_queue_depth execution_id s =
     (case bt_get (gs_executions s) execution_id of None \<Rightarrow> 0 | Some q \<Rightarrow> length (eq_queued q))"

definition active_slots :: "global_scheduler \<Rightarrow> usize" where
  "active_slots s = gs_active_slots s"

subsection \<open>Slot accounting\<close>

definition total_running :: "global_scheduler \<Rightarrow> nat" where
  "total_running s = sum_list (map (\<lambda>e. unat (eq_running (snd e))) (gs_executions s))"

definition total_queued :: "global_scheduler \<Rightarrow> nat" where
  "total_queued s = sum_list (map (\<lambda>e. length (eq_queued (snd e))) (gs_executions s))"

lemma sum_bt_insert_new:
  "bt_get m k = None \<Longrightarrow>
   sum_list (map (\<lambda>e. f (snd e)) (bt_insert k v m)) = sum_list (map (\<lambda>e. f (snd e)) m) + (f v :: nat)"
  by (induction m) (auto split: if_splits)

lemma sum_bt_insert_old:
  "bt_wf m \<Longrightarrow> bt_get m k = Some w \<Longrightarrow>
   sum_list (map (\<lambda>e. f (snd e)) (bt_insert k v m)) + f w
     = sum_list (map (\<lambda>e. f (snd e)) m) + (f v :: nat)"
proof (induction m)
  case Nil
  then show ?case by simp
next
  case (Cons e m)
  have "k \<noteq> fst e \<Longrightarrow> fst e < k"
    using Cons.prems bt_get_Some_mem [of m k w] by (auto simp: bt_wf_def)
  with Cons show ?case by (auto simp: bt_wf_def)
qed

lemma sum_bt_member:
  "bt_get m k = Some w \<Longrightarrow> f w \<le> sum_list (map (\<lambda>e. f (snd e)) m :: nat list)"
  by (induction m) (auto split: if_splits)

lemma set_queue_sel [simp]:
  "gs_executions (set_queue k q s) = bt_insert k q (gs_executions s)"
  "gs_active_slots (set_queue k q s) = gs_active_slots s"
  "gs_max_concurrent_child_runs (set_queue k q s) = gs_max_concurrent_child_runs s"
  by (simp_all add: set_queue_def)

lemma total_set_queue_old:
  assumes "bt_wf (gs_executions s)" "bt_get (gs_executions s) k = Some w"
  shows "total_running (set_queue k q s) + unat (eq_running w) = total_running s + unat (eq_running q)"
    and "total_queued (set_queue k q s) + length (eq_queued w) = total_queued s + length (eq_queued q)"
  using sum_bt_insert_old [OF assms, where f = "\<lambda>q. unat (eq_running q)" and v = q]
    sum_bt_insert_old [OF assms, where f = "\<lambda>q. length (eq_queued q)" and v = q]
  by (simp_all add: total_running_def total_queued_def)

lemma total_set_queue_new:
  assumes "bt_get (gs_executions s) k = None"
  shows "total_running (set_queue k q s) = total_running s + unat (eq_running q)"
    and "total_queued (set_queue k q s) = total_queued s + length (eq_queued q)"
  using sum_bt_insert_new [OF assms, where f = "\<lambda>q. unat (eq_running q)" and v = q]
    sum_bt_insert_new [OF assms, where f = "\<lambda>q. length (eq_queued q)" and v = q]
  by (simp_all add: total_running_def total_queued_def)

lemma total_slots [simp]:
  "total_running (s\<lparr>gs_active_slots := n\<rparr>) = total_running s"
  "total_queued (s\<lparr>gs_active_slots := n\<rparr>) = total_queued s"
  by (simp_all add: total_running_def total_queued_def)

lemma running_le_total:
  "bt_get (gs_executions s) k = Some w \<Longrightarrow> unat (eq_running w) \<le> total_running s"
  using sum_bt_member [of "gs_executions s" k w "\<lambda>q. unat (eq_running q)"]
  by (simp add: total_running_def)

lemma unat_add_small: "unat (a::usize) + unat b < 2 ^ 64 \<Longrightarrow> unat (a + b) = unat a + unat b"
  using unat_add_lem [of a b] by simp

lemma unat_dec: "0 < (w::usize) \<Longrightarrow> unat (w - 1) = unat w - 1"
  by (simp add: unat_sub word_le_nat_alt unat_gt_0 Suc_le_eq flip: word_neq_0_conv)

lemma min_by_key_None [simp]: "min_by_key f xs = None \<longleftrightarrow> xs = []"
  by (cases xs) (auto split: option.splits)

lemma min_by_key_Some:
  "min_by_key f xs = Some x \<Longrightarrow> x \<in> set xs \<and> (\<forall>y \<in> set xs. f x \<le> f y)"
proof (induction xs arbitrary: x)
  case Nil
  then show ?case by simp
next
  case (Cons a xs)
  show ?case
  proof (cases "min_by_key f xs")
    case None
    with Cons.prems show ?thesis by simp
  next
    case (Some y)
    with Cons.IH [OF Some] Cons.prems show ?thesis by (auto split: if_splits)
  qed
qed

lemma dispatch_fronts_iff:
  "(n, e, c) \<in> set (dispatch_fronts s) \<longleftrightarrow>
     (\<exists>q d ds. (e, q) \<in> set (gs_executions s) \<and> \<not> eq_paused q \<and> eq_running q < eq_max_concurrent q
        \<and> eq_queued q = d # ds \<and> n = qc_created_seq d \<and> c = qc_candidate_id d)"
proof -
  have front: "x \<in> set (case eq_queued (snd w) of [] \<Rightarrow> []
      | d # _ \<Rightarrow> [(qc_created_seq d, fst w, qc_candidate_id d)])
    \<longleftrightarrow> (\<exists>d ds. eq_queued (snd w) = d # ds \<and> x = (qc_created_seq d, fst w, qc_candidate_id d))"
    for x and w :: "string \<times> execution_queue"
    by (cases "eq_queued (snd w)") auto
  show ?thesis
    by (simp add: dispatch_fronts_def front eligible_def Bex_def) metis
qed

lemma next_dispatch_Some:
  assumes "bt_wf (gs_executions s)" "next_dispatch s = (Some g, s')"
  shows "\<exists>q d ds. bt_get (gs_executions s) (dg_execution_id g) = Some q \<and> eq_queued q = d # ds
    \<and> \<not> eq_paused q \<and> eq_running q < eq_max_concurrent q
    \<and> dg_candidate_id g = qc_candidate_id d
    \<and> s' = set_queue (dg_execution_id g) (q\<lparr>eq_queued := ds\<rparr>) s
    \<and> gs_active_slots s < gs_max_concurrent_child_runs s
    \<and> (\<forall>(n, f) \<in> set (dispatch_fronts s). qc_created_seq d \<le> n)"
proof -
  obtain n e c where m: "min_by_key fst (dispatch_fronts s) = Some (n, e, c)"
      and cap: "\<not> gs_max_concurrent_child_runs s \<le> gs_active_slots s"
    using assms(2) by (auto simp: next_dispatch_def not_le split: if_splits option.splits)
  from min_by_key_Some [OF m] obtain q d ds where q: "(e, q) \<in> set (gs_executions s)"
      "\<not> eq_paused q" "eq_running q < eq_max_concurrent q" "eq_queued q = d # ds"
      "n = qc_created_seq d" "c = qc_candidate_id d"
      and least: "\<forall>y \<in> set (dispatch_fronts s). n \<le> fst y"
    by (auto simp: dispatch_fronts_iff)
  have get: "bt_get (gs_executions s) e = Some q" by (rule bt_get_mem [OF assms(1) q(1)])
  with assms(2) m cap q have "g = \<lparr>dg_execution_id = e, dg_candidate_id = c\<rparr>"
      "s' = set_queue e (q\<lparr>eq_queued := ds\<rparr>) s"
    by (auto simp: next_dispatch_def)
  with get q cap least show ?thesis by (auto simp: not_le)
qed

lemma next_dispatch_None:
  assumes "bt_wf (gs_executions s)" "next_dispatch s = (None, s')"
  shows "s' = s \<and> (gs_max_concurrent_child_runs s \<le> gs_active_slots s \<or> dispatch_fronts s = [])"
proof -
  have "bt_get (gs_executions s) e \<noteq> None" if "min_by_key fst (dispatch_fronts s) = Some (n, e, c)" for n e c
    using min_by_key_Some [OF that] bt_get_mem [OF assms(1)] by (fastforce simp: dispatch_fronts_iff)
  with assms(2) show ?thesis
    by (auto simp: next_dispatch_def split: if_splits option.splits)
qed

subsection \<open>Steps of the scheduler\<close>

definition known_running :: "global_scheduler \<Rightarrow> string \<Rightarrow> nat" where
  "known_running s e = (case bt_get (gs_executions s) e of None \<Rightarrow> 0 | Some q \<Rightarrow> unat (eq_running q))"

text \<open>
  Any operation on any state; a grant is marked as running at once, as the worker does. The number is how far the operation brings in
  what the scheduler did not know of: runs that a registration reports beyond those it counted for the execution
  (all of them for an execution it does not know), and the release of a run that it did not count.
\<close>

inductive sched_step :: "nat \<Rightarrow> global_scheduler \<Rightarrow> global_scheduler \<Rightarrow> bool" where
  enq: "sched_step 0 s (enqueue c s)"
| budget: "sched_step 0 s (snd (enqueue_if_budget_allows c acc m s))"
| reg: "total_running s + unat r < 2 ^ 64 \<Longrightarrow> sched_step (unat r - known_running s e) s (register_execution e p r m s)"
| grant: "next_dispatch s = (Some g, s') \<Longrightarrow> sched_step 0 s (mark_running g s')"
| rel: "sched_step (if known_running s e = 0 then 1 else 0) s (release e c s)"
| pause: "sched_step 0 s (pause_execution e s)"

inductive sched_run :: "global_scheduler \<Rightarrow> nat \<Rightarrow> global_scheduler \<Rightarrow> bool" where
  run_start: "sched_run s 0 s"
| run_step: "sched_run s k t \<Longrightarrow> sched_step j t u \<Longrightarrow> sched_run s (k + j) u"

text \<open>The slots count the running candidates up to what was not known of.\<close>

definition slots_ok :: "usize \<Rightarrow> nat \<Rightarrow> global_scheduler \<Rightarrow> bool" where
  "slots_ok n k s = (bt_wf (gs_executions s) \<and> gs_max_concurrent_child_runs s = n
     \<and> unat (gs_active_slots s) \<le> total_running s \<and> total_running s \<le> unat (gs_active_slots s) + k
     \<and> total_running s \<le> unat n + k)"

lemma max_runs_stable [simp]:
  "gs_max_concurrent_child_runs (enqueue c s) = gs_max_concurrent_child_runs s"
  "gs_max_concurrent_child_runs (register_execution e p r m s) = gs_max_concurrent_child_runs s"
  "gs_max_concurrent_child_runs (mark_running g s) = gs_max_concurrent_child_runs s"
  "gs_max_concurrent_child_runs (release e cid s) = gs_max_concurrent_child_runs s"
  "gs_max_concurrent_child_runs (pause_execution e s) = gs_max_concurrent_child_runs s"
  by (simp_all add: enqueue_def register_execution_def mark_running_def release_def
      pause_execution_def Let_def split: option.split)

lemma grant_effect:
  assumes wf: "bt_wf (gs_executions s)" and nd: "next_dispatch s = (Some g, s')"
  shows "bt_wf (gs_executions (mark_running g s'))
    \<and> gs_max_concurrent_child_runs (mark_running g s') = gs_max_concurrent_child_runs s
    \<and> total_running (mark_running g s') = Suc (total_running s)
    \<and> unat (gs_active_slots (mark_running g s')) = Suc (unat (gs_active_slots s))
    \<and> Suc (unat (gs_active_slots s)) \<le> unat (gs_max_concurrent_child_runs s)
    \<and> Suc (total_queued (mark_running g s')) = total_queued s"
proof -
  obtain q d ds where q: "bt_get (gs_executions s) (dg_execution_id g) = Some q"
      "eq_queued q = d # ds" "eq_running q < eq_max_concurrent q"
      and s': "s' = set_queue (dg_execution_id g) (q\<lparr>eq_queued := ds\<rparr>) s"
      and cap: "gs_active_slots s < gs_max_concurrent_child_runs s"
    using next_dispatch_Some [OF wf nd] by auto
  have wf': "bt_wf (gs_executions s')" using wf by (simp add: s')
  have get': "bt_get (gs_executions s') (dg_execution_id g) = Some (q\<lparr>eq_queued := ds\<rparr>)"
    by (simp add: s')
  define t where "t = set_queue (dg_execution_id g) (q\<lparr>eq_queued := ds, eq_running := eq_running q + 1\<rparr>) s'"
  have mark: "mark_running g s' = t\<lparr>gs_active_slots := gs_active_slots s + 1\<rparr>"
    by (simp add: mark_running_def get' t_def s')
  have r1: "total_running s' = total_running s" "Suc (total_queued s') = total_queued s"
    using total_set_queue_old [OF wf q(1), of "q\<lparr>eq_queued := ds\<rparr>"] by (simp_all add: s' q(2))
  have r2: "total_running t = Suc (total_running s')" "total_queued t = total_queued s'"
    using total_set_queue_old [OF wf' get', of "q\<lparr>eq_queued := ds, eq_running := eq_running q + 1\<rparr>"]
      unat_plus_one [OF q(3)] by (simp_all add: t_def)
  have "bt_wf (gs_executions t)" "gs_max_concurrent_child_runs t = gs_max_concurrent_child_runs s"
    using wf' by (simp_all add: t_def) (simp add: s')
  then show ?thesis
    using r1 r2 cap unat_plus_one [OF cap] by (simp add: mark word_less_nat_alt)
qed

lemma unat_sub_add_small:
  "unat (a::usize) - unat b + unat r < 2 ^ 64 \<Longrightarrow> unat (saturating_sub a b + r) = unat a - unat b + unat r"
  by (subst unat_add_small) simp_all

lemma slots_register:
  assumes "slots_ok n k s" and "total_running s + unat r < 2 ^ 64"
  shows "slots_ok n (k + (unat r - known_running s e)) (register_execution e p r m s)"
proof (cases "bt_get (gs_executions s) e")
  case None
  have "unat (gs_active_slots s) - unat r + unat r < 2 ^ 64"
    using assms unsigned_less [of r] by (auto simp: slots_ok_def)
  from unat_sub_add_small [OF this] total_set_queue_new(1) [OF None] assms(1) None show ?thesis
    by (auto simp: slots_ok_def register_execution_def queue_or_def known_running_def Let_def)
next
  case (Some q)
  have "unat (gs_active_slots s) - unat (eq_running q) + unat r < 2 ^ 64" using assms by (auto simp: slots_ok_def)
  note slots = unat_sub_add_small [OF this]
  let ?q = "q\<lparr>eq_paused := p, eq_running := r, eq_max_concurrent := m\<rparr>"
  have "total_running (set_queue e ?q s) + unat (eq_running q) = total_running s + unat r"
    using total_set_queue_old(1) [OF _ Some, of ?q] assms(1) by (simp add: slots_ok_def)
  with slots running_le_total [OF Some] assms(1) Some show ?thesis
    by (auto simp: slots_ok_def register_execution_def queue_or_def known_running_def Let_def)
qed

lemma slots_release:
  assumes "slots_ok n k s"
  shows "slots_ok n (k + (if known_running s e = 0 then 1 else 0)) (release e c s)"
proof (cases "known_running s e = 0")
  case True
  then have "release e c s = (if 0 < gs_active_slots s then s\<lparr>gs_active_slots := gs_active_slots s - 1\<rparr> else s)"
    by (auto simp: release_def known_running_def Let_def unat_eq_zero split: option.splits)
  moreover have "unat (gs_active_slots s - 1) = unat (gs_active_slots s) - 1" if "0 < gs_active_slots s"
    using that by (rule unat_dec)
  ultimately show ?thesis using assms True by (auto simp: slots_ok_def)
next
  case False
  then obtain q where q: "bt_get (gs_executions s) e = Some q" "0 < eq_running q"
    by (auto simp: known_running_def word_less_nat_alt split: option.splits)
  let ?s = "set_queue e (q\<lparr>eq_running := eq_running q - 1\<rparr>) s"
  have rel: "release e c s = (if 0 < gs_active_slots s then ?s\<lparr>gs_active_slots := gs_active_slots s - 1\<rparr> else ?s)"
    using q by (simp add: release_def Let_def)
  have "0 < unat (eq_running q)" using q(2) by (simp add: unat_gt_0)
  then have total: "Suc (total_running ?s) = total_running s"
    using total_set_queue_old(1) [OF _ q(1), of "q\<lparr>eq_running := eq_running q - 1\<rparr>"] assms unat_dec [OF q(2)]
    by (simp add: slots_ok_def)
  show ?thesis
  proof (cases "0 < gs_active_slots s")
    case True
    then have "0 < unat (gs_active_slots s)" by (simp add: unat_gt_0)
    with total unat_dec [OF True] True assms False rel show ?thesis by (auto simp: slots_ok_def)
  next
    case none: False
    then have "gs_active_slots s = 0" using word_neq_0_conv by blast
    with total assms False rel show ?thesis by (simp add: slots_ok_def)
  qed
qed

lemma slots_pause: "slots_ok n k s \<Longrightarrow> slots_ok n k (pause_execution e s)"
proof (cases "bt_get (gs_executions s) e")
  case (Some q)
  moreover assume "slots_ok n k s"
  ultimately show ?thesis
    using total_set_queue_old(1) [of s e q "q\<lparr>eq_paused := True, eq_running := 0\<rparr>"]
    by (auto simp: slots_ok_def pause_execution_def)
qed (simp add: pause_execution_def)

lemma slots_enqueue: "slots_ok n k s \<Longrightarrow> slots_ok n k (enqueue c s)"
proof (cases "bt_get (gs_executions s) (qc_execution_id c)")
  case (Some q)
  moreover assume "slots_ok n k s"
  ultimately show ?thesis
    using total_set_queue_old(1) [of s _ q "q\<lparr>eq_queued := eq_queued q @ [c]\<rparr>"]
    by (simp add: slots_ok_def enqueue_def queue_or_def Let_def)
qed (simp add: slots_ok_def enqueue_def queue_or_def Let_def total_set_queue_new)

lemma slots_budget: "slots_ok n k s \<Longrightarrow> slots_ok n k (snd (enqueue_if_budget_allows c acc m s))"
  by (simp add: enqueue_if_budget_allows_def slots_enqueue)

lemma slots_grant:
  assumes "slots_ok n k s" and "next_dispatch s = (Some g, s')"
  shows "slots_ok n k (mark_running g s')"
proof -
  have "bt_wf (gs_executions s)" using assms(1) by (simp add: slots_ok_def)
  note grant = grant_effect [OF this assms(2)]
  moreover have "gs_max_concurrent_child_runs s = n" using assms(1) by (simp add: slots_ok_def)
  moreover have "unat (gs_active_slots s) \<le> total_running s" "total_running s \<le> unat (gs_active_slots s) + k"
    using assms(1) by (simp_all add: slots_ok_def)
  ultimately show ?thesis by (simp add: slots_ok_def)
qed

lemma slots_step: "sched_step j s t \<Longrightarrow> slots_ok n k s \<Longrightarrow> slots_ok n (k + j) t"
  by (induction rule: sched_step.induct)
    (simp_all only: add_0_right slots_enqueue slots_budget slots_register slots_grant slots_release slots_pause)

lemma slots_run: "sched_run s k t \<Longrightarrow> slots_ok n 0 s \<Longrightarrow> slots_ok n k t"
  by (induction rule: sched_run.induct) (auto intro: slots_step)

lemma slots_new: "slots_ok n 0 (scheduler_new n)"
  by (simp add: slots_ok_def scheduler_new_def total_running_def)

lemma register_fresh_slots:
  assumes "bt_get (gs_executions s) e = None"
  shows "unat (active_slots (register_execution e p r m s)) = max (unat (active_slots s)) (unat r)
    \<and> total_running (register_execution e p r m s) = total_running s + unat r"
proof -
  have slots: "active_slots (register_execution e p r m s) = saturating_sub (active_slots s) r + r"
    using assms by (simp add: register_execution_def queue_or_def Let_def active_slots_def)
  have "unat (active_slots s) < 2 ^ 64" "unat r < 2 ^ 64"
    using unsigned_less [of "active_slots s"] unsigned_less [of r] by simp_all
  then have "unat (saturating_sub (active_slots s) r + r) = unat (active_slots s) - unat r + unat r"
    by (subst unat_add_small) auto
  with slots total_set_queue_new(1) [OF assms] assms show ?thesis
    by (simp add: register_execution_def queue_or_def Let_def max_def)
qed

subsection \<open>Draining the queues\<close>

text \<open>What a loop over a source of work relies on: taking work makes the source smaller.\<close>

locale work_source =
  fixes grab :: "'s \<Rightarrow> 'g option \<times> 's"
    and left :: "'s \<Rightarrow> nat"
    and wf :: "'s \<Rightarrow> bool"
  assumes grab_less: "wf s \<Longrightarrow> grab s = (Some g, s') \<Longrightarrow> left s' < left s"
    and grab_wf: "wf s \<Longrightarrow> grab s = (r, s') \<Longrightarrow> wf s'"
begin

lemma drain_terminates:
  assumes step: "\<And>x. P x \<Longrightarrow> b x \<Longrightarrow> P (c x)
      \<and> (b (c x) \<longrightarrow> (\<exists>g s'. grab (src x) = (Some g, s') \<and> left (src (c x)) \<le> left s'))"
    and wf: "\<And>x. P x \<Longrightarrow> wf (src x)" and init: "P x"
  shows "\<exists>y. while_option b c x = Some y"
proof (rule measure_while_option_Some [where P = P and f = "\<lambda>x. if b x then Suc (left (src x)) else 0"])
  fix x
  assume x: "P x" "b x"
  show "P (c x) \<and> (if b (c x) then Suc (left (src (c x))) else 0) < (if b x then Suc (left (src x)) else 0)"
    using step [OF x] grab_less [OF wf [OF x(1)]] x(2) by (auto intro: le_less_trans)
qed (fact init)

end

lemma next_dispatch_left:
  assumes "bt_wf (gs_executions s)" "next_dispatch s = (r, s')"
  shows "bt_wf (gs_executions s') \<and> total_queued s' + (case r of None \<Rightarrow> 0 | Some _ \<Rightarrow> 1) = total_queued s
    \<and> total_running s' = total_running s"
proof (cases r)
  case None
  with next_dispatch_None [of s s'] assms show ?thesis by simp
next
  case (Some g)
  with next_dispatch_Some [of s g s'] assms obtain q d ds where
    "bt_get (gs_executions s) (dg_execution_id g) = Some q" "eq_queued q = d # ds"
    "s' = set_queue (dg_execution_id g) (q\<lparr>eq_queued := ds\<rparr>) s"
    by auto
  with total_set_queue_old [OF assms(1), of "dg_execution_id g" q "q\<lparr>eq_queued := ds\<rparr>"] Some assms(1)
  show ?thesis by simp
qed

interpretation sched: work_source next_dispatch total_queued "\<lambda>s. bt_wf (gs_executions s)"
proof unfold_locales
  show "total_queued s' < total_queued s"
    if "bt_wf (gs_executions s)" "next_dispatch s = (Some g, s')" for s g s'
    using next_dispatch_left [OF that] by simp
  show "bt_wf (gs_executions s')" if "bt_wf (gs_executions s)" "next_dispatch s = (r, s')" for s r s'
    using next_dispatch_left [OF that] by simp
qed

lemma mark_running_queued:
  assumes "bt_wf (gs_executions s)"
  shows "total_queued (mark_running g s) = total_queued s \<and> bt_wf (gs_executions (mark_running g s))"
proof (cases "bt_get (gs_executions s) (dg_execution_id g)")
  case (Some q)
  from total_set_queue_old(2) [OF assms Some, of "q\<lparr>eq_running := eq_running q + 1\<rparr>"] assms Some
  show ?thesis by (simp add: mark_running_def)
qed (simp add: mark_running_def assms)

lemma register_queued:
  assumes "bt_wf (gs_executions s)"
  shows "total_queued (register_execution e p r m s) = total_queued s
    \<and> bt_wf (gs_executions (register_execution e p r m s))"
proof (cases "bt_get (gs_executions s) e")
  case (Some q)
  from total_set_queue_old(2) [OF assms Some,
      of "q\<lparr>eq_paused := p, eq_running := r, eq_max_concurrent := m\<rparr>"] assms Some
  show ?thesis by (simp add: register_execution_def queue_or_def Let_def)
next
  case None
  from total_set_queue_new(2) [OF None] assms None
  show ?thesis by (simp add: register_execution_def queue_or_def Let_def)
qed

text \<open>The grants of up to \<open>n\<close> rounds, each marked as running.\<close>

fun drain :: "nat \<Rightarrow> global_scheduler \<Rightarrow> dispatch_grant list" where
  "drain 0 s = []"
| "drain (Suc n) s =
     (case next_dispatch s of (None, _) \<Rightarrow> [] | (Some g, s') \<Rightarrow> g # drain n (mark_running g s'))"

definition queue_of :: "global_scheduler \<Rightarrow> string \<Rightarrow> queued_candidate list" where
  "queue_of s e = (case bt_get (gs_executions s) e of None \<Rightarrow> [] | Some q \<Rightarrow> eq_queued q)"

lemma queue_of_mark_running [simp]: "queue_of (mark_running g s) e = queue_of s e"
  by (simp add: queue_of_def mark_running_def split: option.split)

lemma drain_prefix:
  assumes "bt_wf (gs_executions s)"
  shows "\<exists>k. map dg_candidate_id (filter (\<lambda>g. dg_execution_id g = e) (drain n s))
    = map qc_candidate_id (take k (queue_of s e))"
  using assms
proof (induction n arbitrary: s)
  case 0
  then show ?case by (auto intro: exI [of _ 0])
next
  case (Suc n)
  show ?case
  proof (cases "next_dispatch s")
    case (Pair r s')
    show ?thesis
    proof (cases r)
      case None
      with Pair show ?thesis by (auto intro: exI [of _ 0])
    next
      case (Some g)
      with next_dispatch_Some [of s g s'] Suc.prems Pair obtain q d ds where
        q: "bt_get (gs_executions s) (dg_execution_id g) = Some q" "eq_queued q = d # ds"
          "dg_candidate_id g = qc_candidate_id d"
          "s' = set_queue (dg_execution_id g) (q\<lparr>eq_queued := ds\<rparr>) s"
        by auto
      have wf: "bt_wf (gs_executions (mark_running g s'))"
        using next_dispatch_left [OF Suc.prems] mark_running_queued [of s' g] Pair by simp
      obtain k where k: "map dg_candidate_id (filter (\<lambda>g. dg_execution_id g = e)
            (drain n (mark_running g s'))) = map qc_candidate_id (take k (queue_of s' e))"
        using Suc.IH [OF wf] by auto
      show ?thesis
      proof (cases "dg_execution_id g = e")
        case True
        then have "queue_of s e = d # queue_of s' e" using q by (auto simp: queue_of_def)
        with k True q(3) Pair Some show ?thesis by (auto intro: exI [of _ "Suc k"])
      next
        case False
        then have "queue_of s e = queue_of s' e" using q by (simp add: queue_of_def)
        with k False Pair Some show ?thesis by auto
      qed
    qed
  qed
qed

subsection \<open>Properties\<close>

text \<open>
  C12: The slots bound what runs, up to what the scheduler is told of from outside. From an empty scheduler and
  along any sequence of operations - queueing, registrations of known and of new executions with any running
  count (as long as the counts fit into 64 bits together), grants that are marked as running at once, releases of
  anything, pauses - let \<open>k\<close> be the runs that registrations reported beyond those the scheduler counted, plus the
  releases of runs it did not count. Then the active slots are at most the sum of the running counts of the
  executions, miss at most \<open>k\<close> of it, and the sum exceeds the global limit by at most \<open>k\<close>. So for \<open>k = 0\<close> the
  active slots are exactly the running counts and the limit holds; a tick of the worker, which registers every
  execution anew, has as \<open>k\<close> what was already running.
\<close>

theorem scheduler_slots_bounded:
  assumes "sched_run (scheduler_new n) k s"
  shows "unat (active_slots s) \<le> total_running s \<and> total_running s \<le> unat (active_slots s) + k
    \<and> total_running s \<le> unat n + k"
  using slots_run [OF assms slots_new] by (simp add: slots_ok_def active_slots_def)

definition two_queues :: global_scheduler where
  "two_queues = enqueue (queued_candidate_new ''e1'' ''c2'' 7)
     (enqueue (queued_candidate_new ''e2'' ''c1'' 3)
       (enqueue (queued_candidate_new ''e1'' ''c1'' 5) (scheduler_new 2)))"

lemma bt_wf_enqueue: "bt_wf (gs_executions s) \<Longrightarrow> bt_wf (gs_executions (enqueue c s))"
  by (simp add: enqueue_def Let_def)

lemma two_queues_wf: "bt_wf (gs_executions two_queues)"
  unfolding two_queues_def by (intro bt_wf_enqueue) (simp add: scheduler_new_def)

lemma two_queues_eval:
  "next_dispatch two_queues = (Some \<lparr>dg_execution_id = ''e2'', dg_candidate_id = ''c1''\<rparr>,
     set_queue ''e2'' \<lparr>eq_paused = False, eq_queued = [], eq_running = 0, eq_max_concurrent = - 1\<rparr>
       two_queues)"
  by (simp add: two_queues_def next_dispatch_def dispatch_fronts_def eligible_def enqueue_def
      queue_or_def set_queue_def scheduler_new_def queued_candidate_new_def Let_def word_gt_0
      word_le_nat_alt)

text \<open>A candidate is granted, then an execution with two running candidates is registered: three run on two slots.\<close>

definition one_granted :: global_scheduler where
  "one_granted = (case next_dispatch two_queues of (Some g, s) \<Rightarrow> mark_running g s | (None, s) \<Rightarrow> s)"

definition told_of_two :: global_scheduler where
  "told_of_two = register_execution ''e3'' False 2 5 one_granted"

lemma told_of_two_eval:
  "active_slots told_of_two = 2" "total_running told_of_two = 3" "sched_run (scheduler_new 2) 2 told_of_two"
proof -
  note eval = two_queues_eval two_queues_def enqueue_def queue_or_def set_queue_def scheduler_new_def mark_running_def
    queued_candidate_new_def register_execution_def active_slots_def total_running_def known_running_def
    saturating_sub_def Let_def
  have grant: "next_dispatch two_queues = (Some \<lparr>dg_execution_id = ''e2'', dg_candidate_id = ''c1''\<rparr>, snd (next_dispatch two_queues))"
    by (simp add: two_queues_eval)
  have granted: "one_granted = mark_running \<lparr>dg_execution_id = ''e2'', dg_candidate_id = ''c1''\<rparr> (snd (next_dispatch two_queues))"
    by (simp add: one_granted_def two_queues_eval)
  show "active_slots told_of_two = 2" "total_running told_of_two = 3"
    by (simp_all add: told_of_two_def granted two_queues_eval) (simp_all add: eval)
  have enqueued: "sched_run s k (enqueue c t)" if "sched_run s k t" for s k c t using run_step [OF that enq] by simp
  have "sched_run (scheduler_new 2) 0 two_queues" unfolding two_queues_def by (intro enqueued run_start)
  from run_step [OF this sched_step.grant [OF grant]] have "sched_run (scheduler_new 2) (0 + 0) one_granted"
    by (simp only: granted)
  moreover have "total_running one_granted + unat (2 :: usize) < 2 ^ 64" "known_running one_granted ''e3'' = 0"
    by (simp_all add: granted two_queues_eval) (simp_all add: eval)
  with reg [of one_granted 2 "''e3''" False 5] have "sched_step 2 one_granted told_of_two" by (simp add: told_of_two_def)
  ultimately show "sched_run (scheduler_new 2) 2 told_of_two" using run_step [of "scheduler_new 2" 0 one_granted 2] by (simp only: add_0 add_0_right)
qed

lemma scheduler_slots_bounded_witness:
  "unat (active_slots told_of_two) = 2 \<and> total_running told_of_two = 3 \<and> total_running told_of_two \<le> 2 + 2"
  using scheduler_slots_bounded [OF told_of_two_eval(3)] by (simp add: told_of_two_eval(1,2))

text \<open>
  C13: A grant goes to the head of the queue of an execution that is not paused and is below its own
  limit, only while a global slot is free, and to the oldest (least sequence number) among all such
  heads; that head alone is removed. No grant is made only when no slot is free or no execution is
  eligible with a candidate waiting, and then nothing changes.
\<close>

theorem next_dispatch_choice:
  assumes "bt_wf (gs_executions s)" and "next_dispatch s = (r, s')"
  shows "case r of
      Some g \<Rightarrow> \<exists>q d ds. bt_get (gs_executions s) (dg_execution_id g) = Some q
        \<and> eq_queued q = d # ds \<and> dg_candidate_id g = qc_candidate_id d
        \<and> \<not> eq_paused q \<and> eq_running q < eq_max_concurrent q
        \<and> gs_active_slots s < gs_max_concurrent_child_runs s
        \<and> s' = set_queue (dg_execution_id g) (q\<lparr>eq_queued := ds\<rparr>) s
        \<and> (\<forall>(n, f) \<in> set (dispatch_fronts s). qc_created_seq d \<le> n)
    | None \<Rightarrow> s' = s \<and> (gs_max_concurrent_child_runs s \<le> gs_active_slots s
        \<or> (\<forall>(e, q) \<in> set (gs_executions s).
             eq_paused q \<or> eq_max_concurrent q \<le> eq_running q \<or> eq_queued q = []))"
proof (cases r)
  case None
  have empty: "eq_paused q \<or> eq_max_concurrent q \<le> eq_running q \<or> eq_queued q = []"
    if "dispatch_fronts s = []" "(e, q) \<in> set (gs_executions s)" for e q
  proof (cases "eq_queued q")
    case (Cons d ds)
    show ?thesis
    proof (rule ccontr)
      assume "\<not> ?thesis"
      then have "(qc_created_seq d, e, qc_candidate_id d) \<in> set (dispatch_fronts s)"
        unfolding dispatch_fronts_iff using that(2) Cons
        by (intro exI [of _ q] exI [of _ d] exI [of _ ds]) (simp add: not_le)
      with that(1) show False by simp
    qed
  qed simp
  from None next_dispatch_None [of s s'] assms empty show ?thesis by auto
next
  case (Some g)
  with next_dispatch_Some [of s g s'] assms show ?thesis by simp blast
qed

lemma next_dispatch_choice_witness:
  "\<exists>g. fst (next_dispatch two_queues) = Some g \<and> dg_candidate_id g = ''c1''
     \<and> gs_active_slots two_queues < gs_max_concurrent_child_runs two_queues"
proof -
  from next_dispatch_choice [OF two_queues_wf two_queues_eval]
  have "gs_active_slots two_queues < gs_max_concurrent_child_runs two_queues" by auto
  then show ?thesis by (simp add: two_queues_eval)
qed

text \<open>
  Candidates of one execution are granted in the order in which they were enqueued: the grants of
  any number of rounds, restricted to one execution, are a prefix of its queue.
\<close>

theorem dispatch_fifo:
  assumes "bt_wf (gs_executions s)"
  shows "\<exists>k. map dg_candidate_id (filter (\<lambda>g. dg_execution_id g = e) (drain n s))
    = map qc_candidate_id (take k (queue_of s e))"
  by (rule drain_prefix [OF assms])

lemma dispatch_fifo_witness:
  "\<exists>k. map dg_candidate_id (filter (\<lambda>g. dg_execution_id g = ''e1'') (drain 3 two_queues))
    = map qc_candidate_id (take k (queue_of two_queues ''e1''))"
  by (rule dispatch_fifo [OF two_queues_wf])

text \<open>
  Registering an execution that the scheduler does not know yet, with candidates already running,
  does not add them to the active slots: the result is the larger of the two counts, not their sum.
  So after two such registrations the slots are under-counted and a further candidate is granted
  although the global limit is already reached.
\<close>

theorem register_fresh_undercounts:
  assumes "bt_get (gs_executions s) e = None"
  shows "unat (active_slots (register_execution e p r m s)) = max (unat (active_slots s)) (unat r)
    \<and> total_running (register_execution e p r m s) = total_running s + unat r"
  by (rule register_fresh_slots [OF assms])

definition over_limit :: global_scheduler where
  "over_limit = enqueue (queued_candidate_new ''e2'' ''c9'' 9)
     (register_execution ''e2'' False 1 4 (register_execution ''e1'' False 1 4 (scheduler_new 2)))"

lemma register_fresh_undercounts_witness:
  "unat (active_slots (register_execution ''e2'' False 1 4
       (register_execution ''e1'' False 1 4 (scheduler_new 2)))) = 1
   \<and> total_running over_limit = 2
   \<and> fst (next_dispatch over_limit) = Some \<lparr>dg_execution_id = ''e2'', dg_candidate_id = ''c9''\<rparr>"
proof -
  have "bt_get (gs_executions (register_execution ''e1'' False 1 4 (scheduler_new 2))) ''e2'' = None"
    by (simp add: register_execution_def scheduler_new_def Let_def)
  from register_fresh_undercounts [OF this, of False 1 4] show ?thesis
    by (simp add: active_slots_def over_limit_def next_dispatch_def dispatch_fronts_def eligible_def
        enqueue_def register_execution_def queue_or_def set_queue_def scheduler_new_def
        queued_candidate_new_def total_running_def Let_def saturating_sub_def
        word_le_nat_alt word_less_nat_alt)
qed

end
