(* ===== verification/Scoring.thy ===== *)
theory Scoring
  imports Types
begin

text \<open>
  Scoring of an iteration (\<open>src/orchestration/scoring.rs\<close>): metrics are normalised over the succeeded
  outputs, weighted, summed in binary64, and the candidates ranked best first. Lemmas: normalised
  values lie in the unit interval, the ranking is a sorted permutation of the outputs that
  keeps the order of equal ones.
\<close>

datatype metric_direction = Minimize | Maximize

record weighted_metric =
  wm_name :: string
  wm_weight :: f64
  wm_direction :: metric_direction

record scoring_config =
  sg_metrics :: "weighted_metric list"
  sg_pass_threshold :: f64
  sg_tie_break_metric :: string

record ranked_candidate =
  rc_candidate_id :: string
  rc_score :: f64
  rc_pass :: bool
  rc_metrics :: "(string, f64) btree"

definition metric_values :: "string \<Rightarrow> candidate_output list \<Rightarrow> f64 list" where
  "metric_values name outputs =
     List.map_filter (\<lambda>o'. bt_get (co_metrics o') name) (filter co_succeeded outputs)"

definition normalized_value ::
    "weighted_metric \<Rightarrow> candidate_output list \<Rightarrow> candidate_output \<Rightarrow> f64" where
  "normalized_value metric outputs output =
     (let values = metric_values (wm_name metric) outputs in
      case bt_get (co_metrics output) (wm_name metric) of
        None \<Rightarrow> Fin 0
      | Some current \<Rightarrow>
          if length values \<le> 1 then Fin 1
          else let mn = fold (\<lambda>v a. f64_min a v) values PInf;
                   mx = fold (\<lambda>v a. f64_max a v) values NInf
               in if f64_lt (f64_abs (f64_sub mx mn)) f64_epsilon then Fin 1
                  else case wm_direction metric of
                    Minimize \<Rightarrow> f64_div (f64_sub mx current) (f64_sub mx mn)
                  | Maximize \<Rightarrow> f64_div (f64_sub current mn) (f64_sub mx mn))"

definition weighted_score ::
    "scoring_config \<Rightarrow> candidate_output list \<Rightarrow> candidate_output \<Rightarrow> f64" where
  "weighted_score config outputs output =
     fold (\<lambda>m a. f64_add a (f64_mul (wm_weight m) (normalized_value m outputs output)))
       (sg_metrics config) (Fin 0)"

definition rank_output ::
    "scoring_config \<Rightarrow> candidate_output list \<Rightarrow> candidate_output \<Rightarrow> ranked_candidate" where
  "rank_output config outputs output =
     (if \<not> co_succeeded output
      then \<lparr>rc_candidate_id = co_candidate_id output, rc_score = Fin 0, rc_pass = False,
            rc_metrics = co_metrics output\<rparr>
      else let score = weighted_score config outputs output
           in \<lparr>rc_candidate_id = co_candidate_id output, rc_score = score,
               rc_pass = f64_le (sg_pass_threshold config) score, rc_metrics = co_metrics output\<rparr>)"

definition cmp_or_equal :: "f64 \<Rightarrow> f64 \<Rightarrow> ordering" where
  "cmp_or_equal a b = (case f64_partial_cmp a b of None \<Rightarrow> OEqual | Some r \<Rightarrow> r)"

definition tie_metric :: "scoring_config \<Rightarrow> ranked_candidate \<Rightarrow> f64" where
  "tie_metric config r =
     (case bt_get (rc_metrics r) (sg_tie_break_metric config) of None \<Rightarrow> PInf | Some v \<Rightarrow> v)"

definition compare_ranked :: "scoring_config \<Rightarrow> ranked_candidate \<Rightarrow> ranked_candidate \<Rightarrow> ordering" where
  "compare_ranked config left right =
     (case cmp_or_equal (rc_score right) (rc_score left) of
        OEqual \<Rightarrow> cmp_or_equal (tie_metric config left) (tie_metric config right)
      | r \<Rightarrow> r)"

text \<open>
  \<open>slice::sort_by\<close> with this comparison: it is a total preorder when no score and no tie-break value
  is a NaN; the standard library leaves the order open (and may panic) otherwise.
\<close>

definition ranked_le :: "scoring_config \<Rightarrow> ranked_candidate \<Rightarrow> ranked_candidate \<Rightarrow> bool" where
  "ranked_le config a b = (compare_ranked config a b \<noteq> OGreater)"

definition score_iteration :: "scoring_config \<Rightarrow> candidate_output list \<Rightarrow> ranked_candidate list" where
  "score_iteration config outputs =
     sort_by (ranked_le config) (map (rank_output config outputs) outputs)"

subsection \<open>The order of the ranking\<close>

definition comparable :: "scoring_config \<Rightarrow> ranked_candidate \<Rightarrow> bool" where
  "comparable config r = (rc_score r \<noteq> NaN \<and> tie_metric config r \<noteq> NaN)"

lemma ranked_le_iff:
  assumes "comparable config a" "comparable config b"
  shows "ranked_le config a b \<longleftrightarrow> f64_lt (rc_score b) (rc_score a)
    \<or> rc_score a = rc_score b \<and> f64_le (tie_metric config a) (tie_metric config b)"
  using assms f64_total [of "rc_score a" "rc_score b"] f64_lt_asym [of "rc_score a" "rc_score b"]
    f64_total [of "tie_metric config a" "tie_metric config b"]
    f64_lt_asym [of "tie_metric config a" "tie_metric config b"]
  by (auto simp: ranked_le_def compare_ranked_def cmp_or_equal_def f64_partial_cmp_def comparable_def
      f64_eq_iff f64_le_def split: if_splits)

lemma ranked_le_total:
  "comparable config a \<Longrightarrow> comparable config b \<Longrightarrow> ranked_le config a b \<or> ranked_le config b a"
  using f64_total [of "rc_score a" "rc_score b"]
    f64_total [of "tie_metric config a" "tie_metric config b"]
  by (auto simp: ranked_le_iff comparable_def f64_le_def f64_eq_iff)

lemma ranked_le_trans:
  assumes "comparable config a" "comparable config b" "comparable config c"
    and "ranked_le config a b" "ranked_le config b c"
  shows "ranked_le config a c"
  using assms f64_lt_trans [of "rc_score c" "rc_score b" "rc_score a"]
    f64_le_trans [of "tie_metric config a" "tie_metric config b" "tie_metric config c"]
  by (auto simp: ranked_le_iff)

lemma score_iteration_sorted:
  assumes "\<forall>o' \<in> set outputs. comparable config (rank_output config outputs o')"
  shows "sorted_wrt (ranked_le config) (score_iteration config outputs)"
  unfolding score_iteration_def
proof (rule sorted_sort_by)
  show "\<forall>a\<in>set (map (rank_output config outputs) outputs).
      \<forall>b\<in>set (map (rank_output config outputs) outputs). ranked_le config a b \<or> ranked_le config b a"
    using assms ranked_le_total by auto
  show "transp_on (set (map (rank_output config outputs) outputs)) (ranked_le config)"
    using assms by (intro transp_onI) (auto intro: ranked_le_trans)
qed

lemma mset_score_iteration:
  "mset (score_iteration config outputs) = mset (map (rank_output config outputs) outputs)"
  by (simp add: score_iteration_def)

subsection \<open>Normalised values\<close>

lemma fold_min_bound:
  assumes "\<forall>v \<in> set vs. v \<noteq> NaN" "a \<noteq> NaN"
  shows "fold (\<lambda>v a. f64_min a v) vs a \<in> insert a (set vs)
    \<and> f64_le (fold (\<lambda>v a. f64_min a v) vs a) a
    \<and> (\<forall>v \<in> set vs. f64_le (fold (\<lambda>v a. f64_min a v) vs a) v)"
  using assms
proof (induction vs arbitrary: a)
  case Nil
  then show ?case by (simp add: f64_le_refl)
next
  case (Cons v vs)
  then have m: "f64_le (f64_min a v) a" "f64_le (f64_min a v) v" "f64_min a v \<in> {a, v}"
    using f64_min_le [of a v] by auto
  then have "f64_min a v \<noteq> NaN" using Cons.prems by auto
  with Cons.IH [of "f64_min a v"] Cons.prems m show ?case
    by (auto intro: f64_le_trans)
qed

lemma fold_max_bound:
  assumes "\<forall>v \<in> set vs. v \<noteq> NaN" "a \<noteq> NaN"
  shows "fold (\<lambda>v a. f64_max a v) vs a \<in> insert a (set vs)
    \<and> f64_le a (fold (\<lambda>v a. f64_max a v) vs a)
    \<and> (\<forall>v \<in> set vs. f64_le v (fold (\<lambda>v a. f64_max a v) vs a))"
  using assms
proof (induction vs arbitrary: a)
  case Nil
  then show ?case by (simp add: f64_le_refl)
next
  case (Cons v vs)
  then have m: "f64_le a (f64_max a v)" "f64_le v (f64_max a v)" "f64_max a v \<in> {a, v}"
    using f64_max_ge [of a v] by auto
  then have "f64_max a v \<noteq> NaN" using Cons.prems by auto
  with Cons.IH [of "f64_max a v"] Cons.prems m show ?case
    by (auto intro: f64_le_trans)
qed

text \<open>Values whose differences cannot overflow.\<close>

definition moderate_bound :: rat where
  "moderate_bound = 2 powi 1022"

definition moderate :: "f64 \<Rightarrow> bool" where
  "moderate v = (case v of Fin x \<Rightarrow> \<bar>x\<bar> \<le> moderate_bound | _ \<Rightarrow> False)"

lemma moderate_Fin: "moderate v \<Longrightarrow> \<exists>x. v = Fin x \<and> \<bar>x\<bar> \<le> moderate_bound"
  by (cases v) (auto simp: moderate_def)

lemma min_max_moderate:
  assumes "\<forall>v \<in> set vs. moderate v" "vs \<noteq> []"
  shows "\<exists>mn mx. fold (\<lambda>v a. f64_min a v) vs PInf = Fin mn \<and> fold (\<lambda>v a. f64_max a v) vs NInf = Fin mx
    \<and> (\<forall>v \<in> set vs. \<exists>x. v = Fin x \<and> mn \<le> x \<and> x \<le> mx)
    \<and> Fin mn \<in> set vs \<and> Fin mx \<in> set vs"
proof -
  have nn: "\<forall>v \<in> set vs. v \<noteq> NaN" using assms by (auto simp: moderate_def)
  from assms obtain v where v: "v \<in> set vs" by (cases vs) auto
  have fin: "\<exists>x. w = Fin x" if "w \<in> set vs" for w
    using assms(1) that moderate_Fin by blast
  note lo = fold_min_bound [OF nn, of PInf] and hi = fold_max_bound [OF nn, of NInf]
  from fin [OF v] obtain y where y: "v = Fin y" by blast
  have "fold (\<lambda>v a. f64_min a v) vs PInf \<noteq> PInf"
    using lo v by (auto simp: f64_le_def y)
  then obtain mn where mn: "fold (\<lambda>v a. f64_min a v) vs PInf = Fin mn" "Fin mn \<in> set vs"
    using lo fin by force
  have "fold (\<lambda>v a. f64_max a v) vs NInf \<noteq> NInf"
    using hi v by (auto simp: f64_le_def y)
  then obtain mx where mx: "fold (\<lambda>v a. f64_max a v) vs NInf = Fin mx" "Fin mx \<in> set vs"
    using hi fin by force
  have "\<exists>x. w = Fin x \<and> mn \<le> x \<and> x \<le> mx" if w: "w \<in> set vs" for w
  proof -
    from fin [OF w] obtain x where x: "w = Fin x" by blast
    have "f64_le (Fin mn) w" "f64_le w (Fin mx)"
      using lo hi w by (simp_all add: mn(1) mx(1))
    then show ?thesis by (simp add: x)
  qed
  with mn mx show ?thesis by blast
qed

lemma round_diff_finite:
  assumes "\<bar>a\<bar> \<le> moderate_bound" "\<bar>b\<bar> \<le> moderate_bound"
  shows "f64_sub (Fin a) (Fin b) = Fin (rnd (a - b))"
proof -
  have "(2::rat) powi 1023 = 2 powi (1022 + 1)" by (simp only: semiring_norm numeral_plus_one)
  also have "\<dots> = 2 * moderate_bound" by (simp only: power_int_add_1 moderate_bound_def) simp
  finally have "\<bar>a - b\<bar> \<le> 2 powi 1023" using assms by linarith
  from round64_finite [OF _ _ this] show ?thesis by (simp add: f64_sub_def)
qed

lemma unit_quotient:
  assumes "0 \<le> a" "a \<le> b" "0 < rnd b"
  shows "\<exists>r. f64_div (Fin (rnd a)) (Fin (rnd b)) = Fin r \<and> 0 \<le> r \<and> r \<le> 1"
proof -
  have "0 \<le> rnd a" "rnd a \<le> rnd b" using assms rnd_mono rnd_nonneg by blast+
  with assms(3) have "0 \<le> rnd a / rnd b" "rnd a / rnd b \<le> 1" by simp_all
  with round64_unit assms(3) show ?thesis by simp
qed

lemma metric_values_mem:
  "output \<in> set outputs \<Longrightarrow> co_succeeded output \<Longrightarrow> bt_get (co_metrics output) name = Some v
   \<Longrightarrow> v \<in> set (metric_values name outputs)"
  by (force simp: metric_values_def List.map_filter_def)

lemma filter_insert_by:
  "filter P (insert_by le x ys) = (if P x then x # filter P ys else filter P ys)" if "\<And>y. y \<in> set ys \<Longrightarrow> P x \<Longrightarrow> P y \<Longrightarrow> le x y"
  using that by (induction ys) auto

text \<open>Elements that compare as equal keep their order.\<close>

lemma filter_sort_by:
  assumes "\<And>x y. x \<in> set xs \<Longrightarrow> y \<in> set xs \<Longrightarrow> P x \<Longrightarrow> P y \<Longrightarrow> le x y"
  shows "filter P (sort_by le xs) = filter P xs"
proof -
  have "set zs \<subseteq> set xs \<Longrightarrow> filter P (sort_by le zs) = filter P zs" for zs
  proof (induction zs)
    case (Cons z zs)
    moreover have "le z y" if "y \<in> set (sort_by le zs)" "P z" "P y" for y
      using that assms [of z y] Cons.prems by auto
    ultimately show ?case using filter_insert_by [of "sort_by le zs" P z le] by (simp add: sort_by_def)
  qed (simp add: sort_by_def)
  then show ?thesis by simp
qed

subsection \<open>Properties\<close>

text \<open>
  C30: Scoring ranks every output exactly once, best first, provided that no score and no tie-break value is
  a NaN: scores never increase along the ranking, equal scores are ordered by the tie-break metric (absent
  ones last), and outputs that are equal in both keep the order in which they came. Those that pass are
  exactly the succeeded outputs whose weighted score reaches the threshold; a failed output has score 0.
\<close>

theorem ranking_sorted_permutation:
  assumes "list_all (comparable config) (map (rank_output config outputs) outputs)"
  shows "mset (map rc_candidate_id (score_iteration config outputs)) = mset (map co_candidate_id outputs)
    \<and> sorted_wrt (\<lambda>a b. f64_lt (rc_score b) (rc_score a)
         \<or> rc_score a = rc_score b \<and> f64_le (tie_metric config a) (tie_metric config b))
        (score_iteration config outputs)
    \<and> filter (\<lambda>r. rc_score r = score \<and> tie_metric config r = tie) (score_iteration config outputs)
        = filter (\<lambda>r. rc_score r = score \<and> tie_metric config r = tie) (map (rank_output config outputs) outputs)
    \<and> {r \<in> set (score_iteration config outputs). rc_pass r}
        = rank_output config outputs ` {x \<in> set outputs. co_succeeded x
              \<and> f64_le (sg_pass_threshold config) (weighted_score config outputs x)}
    \<and> {r \<in> set (score_iteration config outputs). rc_pass r}
        \<subseteq> {r. \<exists>x \<in> set outputs. co_succeeded x \<and> rc_candidate_id r = co_candidate_id x
              \<and> rc_score r = weighted_score config outputs x
              \<and> f64_le (sg_pass_threshold config) (rc_score r)}
    \<and> list_all (\<lambda>x. co_succeeded x \<or> rc_score (rank_output config outputs x) = Fin 0) outputs"
proof (intro conjI)
  have all: "\<forall>x \<in> set outputs. comparable config (rank_output config outputs x)"
    using assms by (simp add: list_all_iff)
  have cand: "rc_candidate_id (rank_output config outputs x) = co_candidate_id x" for x
    by (simp add: rank_output_def Let_def)
  show "mset (map rc_candidate_id (score_iteration config outputs)) = mset (map co_candidate_id outputs)"
    using mset_map [of rc_candidate_id "score_iteration config outputs"]
    by (simp add: mset_score_iteration cand image_mset.compositionality comp_def)
  have set: "set (score_iteration config outputs) = rank_output config outputs ` set outputs"
    by (simp add: score_iteration_def)
  show "sorted_wrt (\<lambda>a b. f64_lt (rc_score b) (rc_score a)
         \<or> rc_score a = rc_score b \<and> f64_le (tie_metric config a) (tie_metric config b))
        (score_iteration config outputs)"
    by (rule sorted_wrt_mono_rel [OF _ score_iteration_sorted [OF all]])
      (use all in \<open>auto simp: set ranked_le_iff\<close>)
  show "filter (\<lambda>r. rc_score r = score \<and> tie_metric config r = tie) (score_iteration config outputs)
      = filter (\<lambda>r. rc_score r = score \<and> tie_metric config r = tie) (map (rank_output config outputs) outputs)"
    unfolding score_iteration_def
    by (rule filter_sort_by) (use all f64_le_refl in \<open>auto simp: ranked_le_iff comparable_def\<close>)
  show "{r \<in> set (score_iteration config outputs). rc_pass r}
      = rank_output config outputs ` {x \<in> set outputs. co_succeeded x
          \<and> f64_le (sg_pass_threshold config) (weighted_score config outputs x)}"
    by (auto simp: set) (auto simp: rank_output_def Let_def split: if_splits)
  show "list_all (\<lambda>x. co_succeeded x \<or> rc_score (rank_output config outputs x) = Fin 0) outputs"
    by (auto simp: list_all_iff rank_output_def)
  show "{r \<in> set (score_iteration config outputs). rc_pass r}
        \<subseteq> {r. \<exists>x \<in> set outputs. co_succeeded x \<and> rc_candidate_id r = co_candidate_id x
              \<and> rc_score r = weighted_score config outputs x
              \<and> f64_le (sg_pass_threshold config) (rc_score r)}"
    by (auto simp: set) (auto simp: rank_output_def Let_def split: if_splits)
qed

definition sample_outputs :: "candidate_output list" where
  "sample_outputs = [candidate_output_new ''a'' True [(''m'', Fin 1)],
     candidate_output_new ''b'' False [(''m'', Fin 9)], candidate_output_new ''c'' True [(''m'', Fin 3)]]"

definition sample_config :: scoring_config where
  "sample_config = \<lparr>sg_metrics = [\<lparr>wm_name = ''m'', wm_weight = Fin 1, wm_direction = Maximize\<rparr>],
     sg_pass_threshold = Fin (1 / 2), sg_tie_break_metric = ''m''\<rparr>"

lemma sample_scores:
  "weighted_score sample_config sample_outputs (sample_outputs ! 0) = Fin 0"
  "weighted_score sample_config sample_outputs (sample_outputs ! 2) = Fin 1"
proof -
  have two: "round64 2 = Fin 2"
    using rnd_powi [of 1] by (simp add: round64_def)
  have vals: "metric_values ''m'' sample_outputs = [Fin 1, Fin 3]"
    by (simp add: metric_values_def sample_outputs_def candidate_output_new_def List.map_filter_def)
  have mn: "fold (\<lambda>v a. f64_min a v) [Fin 1, Fin 3] PInf = Fin 1"
    and mx: "fold (\<lambda>v a. f64_max a v) [Fin 1, Fin 3] NInf = Fin 3"
    by (simp_all add: f64_min_def f64_max_def)
  have sub: "f64_sub (Fin 3) (Fin 1) = Fin 2" "f64_sub (Fin 1) (Fin 1) = Fin 0"
    by (simp_all add: f64_sub_def two)
  have get: "bt_get (co_metrics (sample_outputs ! 0)) ''m'' = Some (Fin 1)"
    "bt_get (co_metrics (sample_outputs ! 2)) ''m'' = Some (Fin 3)"
    by (simp_all add: sample_outputs_def candidate_output_new_def)
  have norm: "normalized_value \<lparr>wm_name = ''m'', wm_weight = Fin 1, wm_direction = Maximize\<rparr>
      sample_outputs (sample_outputs ! 0) = Fin 0"
    "normalized_value \<lparr>wm_name = ''m'', wm_weight = Fin 1, wm_direction = Maximize\<rparr>
      sample_outputs (sample_outputs ! 2) = Fin 1"
    by (simp_all only: normalized_value_def weighted_metric.simps vals get mn mx sub Let_def option.simps)
      (simp_all add: f64_epsilon_def)
  show "weighted_score sample_config sample_outputs (sample_outputs ! 0) = Fin 0"
    "weighted_score sample_config sample_outputs (sample_outputs ! 2) = Fin 1"
    by (simp_all only: weighted_score_def sample_config_def scoring_config.simps fold_simps
        weighted_metric.simps norm) simp_all
qed

lemma ranking_sorted_permutation_witness:
  "mset (map rc_candidate_id (score_iteration sample_config sample_outputs)) = {#''a'', ''b'', ''c''#}
   \<and> {r \<in> set (score_iteration sample_config sample_outputs). rc_pass r} \<noteq> {}"
proof -
  have "list_all (comparable sample_config) (map (rank_output sample_config sample_outputs) sample_outputs)"
    using sample_scores
    by (simp add: sample_outputs_def comparable_def tie_metric_def rank_output_def Let_def
        candidate_output_new_def)
  note rank = ranking_sorted_permutation [OF this]
  have "rc_pass (rank_output sample_config sample_outputs (sample_outputs ! 2))"
    using sample_scores(2)
    by (simp add: rank_output_def Let_def sample_config_def)
      (simp add: sample_outputs_def candidate_output_new_def)
  moreover have "rank_output sample_config sample_outputs (sample_outputs ! 2)
      \<in> set (score_iteration sample_config sample_outputs)"
    by (simp add: score_iteration_def) (simp add: sample_outputs_def)
  ultimately have "{r \<in> set (score_iteration sample_config sample_outputs). rc_pass r} \<noteq> {}" by blast
  moreover have "mset (map rc_candidate_id (score_iteration sample_config sample_outputs))
      = {#''a'', ''b'', ''c''#}"
    unfolding conjunct1 [OF rank] by (simp add: sample_outputs_def candidate_output_new_def)
  ultimately show ?thesis by (rule conjI [rotated])
qed

text \<open>
  The normalised value of a metric, for a succeeded output of the iteration, is a finite number
  between 0 and 1, whatever the rounding, as long as the values are too small for their differences to
  overflow (below 2^1022 in magnitude).
\<close>

theorem normalized_value_unit:
  assumes "output \<in> set outputs" and "co_succeeded output"
    and "list_all moderate (metric_values (wm_name metric) outputs)"
  shows "\<exists>r. normalized_value metric outputs output = Fin r \<and> 0 \<le> r \<and> r \<le> 1"
proof (cases "bt_get (co_metrics output) (wm_name metric)")
  case None
  then show ?thesis by (simp add: normalized_value_def Let_def)
next
  case (Some v)
  let ?vs = "metric_values (wm_name metric) outputs"
  have mem: "v \<in> set ?vs" using metric_values_mem assms(1,2) Some by blast
  obtain mn mx where mm: "fold (\<lambda>v a. f64_min a v) ?vs PInf = Fin mn"
      "fold (\<lambda>v a. f64_max a v) ?vs NInf = Fin mx"
      "\<forall>v \<in> set ?vs. \<exists>x. v = Fin x \<and> mn \<le> x \<and> x \<le> mx" "Fin mn \<in> set ?vs" "Fin mx \<in> set ?vs"
    using min_max_moderate [of ?vs] assms(3) mem unfolding list_all_iff by fastforce
  from mm(3) mem obtain x where x: "v = Fin x" "mn \<le> x" "x \<le> mx" by blast
  have bounds: "\<bar>mn\<bar> \<le> moderate_bound" "\<bar>mx\<bar> \<le> moderate_bound" "\<bar>x\<bar> \<le> moderate_bound"
    using mm(4,5) mem assms(3) by (auto simp: list_all_iff x(1) moderate_def)
  note diffs = round_diff_finite [OF bounds(2,1)] round_diff_finite [OF bounds(2,3)]
    round_diff_finite [OF bounds(3,1)]
  have pos: "0 < rnd (mx - mn)" if "\<not> f64_lt (f64_abs (Fin (rnd (mx - mn)))) f64_epsilon"
    using that rnd_nonneg [of "mx - mn"] x by (auto simp: f64_epsilon_def)
  have "\<exists>r. f64_div (Fin (rnd (mx - x))) (Fin (rnd (mx - mn))) = Fin r \<and> 0 \<le> r \<and> r \<le> 1"
    "\<exists>r. f64_div (Fin (rnd (x - mn))) (Fin (rnd (mx - mn))) = Fin r \<and> 0 \<le> r \<and> r \<le> 1"
    if "\<not> f64_lt (f64_abs (Fin (rnd (mx - mn)))) f64_epsilon"
    using unit_quotient [of "mx - x" "mx - mn"] unit_quotient [of "x - mn" "mx - mn"] pos [OF that] x
    by simp_all
  then show ?thesis
    by (simp add: normalized_value_def Some Let_def mm(1,2) x(1) diffs del: f64_div.simps f64_lt.simps
        f64_abs.simps split: metric_direction.split)
qed

lemma normalized_value_unit_witness:
  "\<exists>r. normalized_value \<lparr>wm_name = ''m'', wm_weight = Fin 1, wm_direction = Minimize\<rparr> sample_outputs
      (sample_outputs ! 2) = Fin r \<and> 0 \<le> r \<and> r \<le> 1"
proof (rule normalized_value_unit)
  have big: "(3::rat) \<le> moderate_bound"
  proof -
    have "(2::rat) powi 2 \<le> 2 powi 1022" by (rule power_int_increasing) simp_all
    then show ?thesis unfolding moderate_bound_def by simp
  qed
  show "sample_outputs ! 2 \<in> set sample_outputs" "co_succeeded (sample_outputs ! 2)"
    by (simp_all add: sample_outputs_def candidate_output_new_def)
  show "list_all moderate (metric_values (wm_name \<lparr>wm_name = ''m'', wm_weight = Fin 1,
      wm_direction = Minimize\<rparr>) sample_outputs)"
    using big by (simp add: metric_values_def sample_outputs_def candidate_output_new_def
        List.map_filter_def moderate_def)
qed

end
