(* ===== verification/Strategy.thy ===== *)
theory Strategy
  imports Scoring
begin

text \<open>
  Candidate generation (\<open>VariationConfig::generate\<close>), the swarm and the supervision strategies
  (\<open>src/orchestration/strategy.rs\<close>) and their selection by mode (\<open>SelectedStrategy\<close> and
  \<open>scoring_from_spec\<close> of \<open>service.rs\<close>). Lemmas: how many candidates are planned and which,
  the decision table of reviews, bounds on revision rounds along supervised runs (and across
  reloads), when an execution may stop.
\<close>

subsection \<open>Generating variations\<close>

definition generate_parameter_space :: "variation_config \<Rightarrow> variation_proposal list" where
  "generate_parameter_space v =
     (case vc_parameter_space v of
        [] \<Rightarrow> []
      | (path, values) # _ \<Rightarrow>
          map (\<lambda>value. \<lparr>vp_overrides = [(path, value)]\<rparr>)
            (take (unat (vc_candidates_per_iteration v))
              (case (case vc_selection v of None \<Rightarrow> SelSequential | Some s \<Rightarrow> s) of
                 SelSequential \<Rightarrow> values | SelRandom \<Rightarrow> rev values)))"

definition generate_explicit ::
    "variation_config \<Rightarrow> execution_accumulator \<Rightarrow> variation_proposal list" where
  "generate_explicit v acc =
     (if vc_explicit v = [] then []
      else let start = unat (ac_scoring_history_len acc) mod length (vc_explicit v)
           in map (\<lambda>offset. vc_explicit v ! ((start + offset) mod length (vc_explicit v)))
                [0 ..< unat (vc_candidates_per_iteration v)])"

definition leader_variations ::
    "variation_config \<Rightarrow> execution_accumulator \<Rightarrow> variation_proposal list" where
  "leader_variations v acc =
     take (unat (vc_candidates_per_iteration v))
       (filter (\<lambda>p. vp_overrides p \<noteq> []) (ac_leader_proposals acc))"

definition generate :: "variation_config \<Rightarrow> execution_accumulator \<Rightarrow> variation_proposal list" where
  "generate v acc =
     (if vc_source v = ''parameter_space'' then generate_parameter_space v
      else if vc_source v = ''explicit'' then generate_explicit v acc
      else if vc_source v = ''leader_directed'' then leader_variations v acc
      else if vc_source v = ''signal_reactive'' then
        (if vc_explicit v \<noteq> [] then generate_explicit v acc
         else if vc_parameter_space v \<noteq> [] then generate_parameter_space v
         else leader_variations v acc)
      else [])"

subsection \<open>Swarm strategy\<close>

record iteration_evaluation =
  iv_ranked_candidates :: "ranked_candidate list"

record worker_review_decision =
  wd_candidate_id :: string
  wd_status :: worker_review_status
  wd_revision_round :: u32

record supervision_evaluation =
  su_decisions :: "worker_review_decision list"
  su_final_approval_ready :: bool

datatype stop_reason = ConvergenceThreshold | ConvergencePlateau

record swarm_strategy =
  ss_variation :: variation_config
  ss_scoring :: scoring_config
  ss_convergence :: convergence_policy

record supervision_strategy =
  sv_variation :: variation_config
  sv_review_policy :: supervision_review_policy

definition swarm_strategy_default :: swarm_strategy where
  "swarm_strategy_default =
     \<lparr>ss_variation = variation_explicit 1 [],
      ss_scoring = \<lparr>sg_metrics = [], sg_pass_threshold = Fin 0, sg_tie_break_metric = []\<rparr>,
      ss_convergence = convergence_default\<rparr>"

text \<open>The specs of the generated proposals: the inbox's candidate id, or \<open>candidate-<idx+1>\<close>.\<close>

definition candidate_specs ::
    "candidate_inbox list \<Rightarrow> variation_proposal list \<Rightarrow> candidate_spec list" where
  "candidate_specs inboxes proposals =
     map (\<lambda>(idx, p). \<lparr>cd_candidate_id =
            (if idx < length inboxes then ci_candidate_id (inboxes ! idx)
             else ''candidate-'' @ nat_to_string (idx + 1)),
          cd_overrides = vp_overrides p\<rparr>)
       (enumerate 0 proposals)"

definition advisory_message_stats ::
    "variation_config \<Rightarrow> message_stats option \<Rightarrow> message_stats option" where
  "advisory_message_stats v stats =
     (case stats of
        None \<Rightarrow> None
      | Some s \<Rightarrow> if vc_source v = ''leader_directed'' \<or> ms_total_messages s = 0 then None else Some s)"

definition exploration_pressure :: "message_stats \<Rightarrow> nat" where
  "exploration_pressure s =
     ms_proposal_count s + ms_signal_count s + ms_unique_sources s + ms_leader_messages s"

definition convergence_pressure :: "message_stats \<Rightarrow> nat" where
  "convergence_pressure s = ms_broadcast_messages s + ms_dropped_count s + ms_expired_count s"

definition swarm_plan_candidates ::
    "swarm_strategy \<Rightarrow> execution_accumulator \<Rightarrow> candidate_inbox list \<Rightarrow> message_stats option
     \<Rightarrow> candidate_spec list" where
  "swarm_plan_candidates st acc inboxes stats =
     (let candidates = candidate_specs inboxes (generate (ss_variation st) acc)
      in case advisory_message_stats (ss_variation st) stats of
           None \<Rightarrow> candidates
         | Some s \<Rightarrow>
             if exploration_pressure s < convergence_pressure s \<and> 1 < length candidates
             then take ((length candidates + 1) div 2) candidates else candidates)"

definition swarm_evaluate ::
    "swarm_strategy \<Rightarrow> execution_accumulator \<Rightarrow> candidate_output list \<Rightarrow> iteration_evaluation" where
  "swarm_evaluate st acc outputs = \<lparr>iv_ranked_candidates = score_iteration (ss_scoring st) outputs\<rparr>"

definition swarm_should_stop ::
    "swarm_strategy \<Rightarrow> execution_accumulator \<Rightarrow> iteration_evaluation \<Rightarrow> stop_reason option" where
  "swarm_should_stop st acc ev =
     (let c = ss_convergence st in
      if cp_strategy c = ''threshold'' then
        (case iv_ranked_candidates ev of
           [] \<Rightarrow> None
         | best # _ \<Rightarrow>
             if f64_le (case cp_min_score c of None \<Rightarrow> PInf | Some m \<Rightarrow> m) (rc_score best)
             then Some ConvergenceThreshold else None)
      else if cp_strategy c = ''plateau'' then
        (if (case cp_max_iterations_without_improvement c of None \<Rightarrow> - 1 | Some m \<Rightarrow> m)
              \<le> ac_iterations_without_improvement acc
         then Some ConvergencePlateau else None)
      else None)"

definition swarm_reduce ::
    "execution_accumulator \<Rightarrow> iteration_evaluation \<Rightarrow> execution_accumulator" where
  "swarm_reduce acc ev =
     (let acc' = acc\<lparr>ac_scoring_history_len := ac_scoring_history_len acc + 1,
                     ac_completed_iterations := ac_completed_iterations acc + 1,
                     ac_failure_counts := (ac_failure_counts acc)\<lparr>total_candidate_failures :=
                       total_candidate_failures (ac_failure_counts acc)
                       + len_u32 (filter (\<lambda>r. \<not> rc_pass r) (iv_ranked_candidates ev))\<rparr>\<rparr>
      in case iv_ranked_candidates ev of
           [] \<Rightarrow> acc'
         | best # _ \<Rightarrow> acc'\<lparr>ac_best_candidate_id := Some (rc_candidate_id best)\<rparr>)"

subsection \<open>Supervision strategy\<close>

definition supervision_plan_candidates ::
    "supervision_strategy \<Rightarrow> execution_accumulator \<Rightarrow> candidate_inbox list \<Rightarrow> candidate_spec list" where
  "supervision_plan_candidates st acc inboxes =
     candidate_specs inboxes (generate (sv_variation st) acc)"

definition review_status_for_output ::
    "supervision_strategy \<Rightarrow> candidate_output \<Rightarrow> u32 \<Rightarrow> worker_review_status" where
  "review_status_for_output st output revision =
     (if \<not> co_succeeded output then
        (if rp_retry_on_runtime_failure (sv_review_policy st)
            \<and> revision < rp_max_revision_rounds (sv_review_policy st)
         then RetryRequested else Rejected)
      else if f64_le (Fin 1) (case bt_get (co_metrics output) ''approved'' of None \<Rightarrow> Fin 0 | Some v \<Rightarrow> v)
      then Approved
      else if revision < rp_max_revision_rounds (sv_review_policy st) then RevisionRequested
      else Rejected)"

definition revision_round_of :: "execution_accumulator \<Rightarrow> string \<Rightarrow> u32" where
  "revision_round_of acc candidate_id =
     (case bt_get (ac_supervision_revision_rounds acc) candidate_id of None \<Rightarrow> 0 | Some r \<Rightarrow> r)"

definition review_decision ::
    "supervision_strategy \<Rightarrow> execution_accumulator \<Rightarrow> candidate_output \<Rightarrow> worker_review_decision" where
  "review_decision st acc output =
     (let revision = revision_round_of acc (co_candidate_id output)
      in \<lparr>wd_candidate_id = co_candidate_id output,
          wd_status = review_status_for_output st output revision, wd_revision_round = revision\<rparr>)"

definition supervision_evaluate ::
    "supervision_strategy \<Rightarrow> execution_accumulator \<Rightarrow> candidate_output list \<Rightarrow> supervision_evaluation" where
  "supervision_evaluate st acc outputs =
     fold (\<lambda>output ev. let d = review_decision st acc output in
            \<lparr>su_decisions = su_decisions ev @ [d],
             su_final_approval_ready =
               (if wd_status d \<noteq> Approved then False else su_final_approval_ready ev)\<rparr>)
       outputs \<lparr>su_decisions = [], su_final_approval_ready = (outputs \<noteq> [])\<rparr>"

definition reduce_decision ::
    "worker_review_decision \<Rightarrow> execution_accumulator \<Rightarrow> execution_accumulator" where
  "reduce_decision d acc =
     (let acc' = acc\<lparr>ac_supervision_reviews :=
            bt_insert (wd_candidate_id d) (wd_status d) (ac_supervision_reviews acc)\<rparr>
      in if wd_status d = RevisionRequested \<or> wd_status d = RetryRequested
         then acc'\<lparr>ac_supervision_revision_rounds :=
            bt_insert (wd_candidate_id d) (wd_revision_round d + 1) (ac_supervision_revision_rounds acc')\<rparr>
         else acc')"

definition supervision_reduce ::
    "execution_accumulator \<Rightarrow> supervision_evaluation \<Rightarrow> execution_accumulator" where
  "supervision_reduce acc ev =
     (let acc' = fold reduce_decision (su_decisions ev) acc;
          approved_count = length (filter (\<lambda>d. wd_status d = Approved) (su_decisions ev))
      in if 0 < approved_count \<and> su_final_approval_ready ev
         then acc'\<lparr>ac_supervision_final_approval := Some True\<rparr>
         else if su_decisions ev \<noteq> [] then acc'\<lparr>ac_supervision_final_approval := Some False\<rparr>
         else acc')"

subsection \<open>Selection by mode\<close>

definition scoring_from_spec :: "execution_spec \<Rightarrow> scoring_config" where
  "scoring_from_spec spec =
     \<lparr>sg_metrics = map (\<lambda>(name, weight). \<lparr>wm_name = name, wm_weight = f64_abs weight,
          wm_direction = (if f64_lt weight (Fin 0) then Minimize else Maximize)\<rparr>)
        (ec_weights (es_evaluation spec)),
      sg_pass_threshold = (case ec_pass_threshold (es_evaluation spec) of None \<Rightarrow> Fin 0 | Some t \<Rightarrow> t),
      sg_tie_break_metric = ec_tie_breaking (es_evaluation spec)\<rparr>"

datatype selected_strategy = Swarm swarm_strategy | Supervision supervision_strategy

datatype strategy_evaluation = SwarmEval iteration_evaluation | SupervisionEval supervision_evaluation

text \<open>\<open>None\<close> is the panic of \<open>expect\<close> on a supervision specification without its section.\<close>

definition selected_strategy_new :: "execution_spec \<Rightarrow> selected_strategy option" where
  "selected_strategy_new spec =
     (if es_mode spec = ''supervision'' then
        (case es_supervision spec of
           None \<Rightarrow> None
         | Some c \<Rightarrow> Some (Supervision \<lparr>sv_variation = es_variation spec,
                                         sv_review_policy = sc_review_policy c\<rparr>))
      else Some (Swarm \<lparr>ss_variation = es_variation spec, ss_scoring = scoring_from_spec spec,
                        ss_convergence = op_convergence (es_policy spec)\<rparr>))"

fun strategy_plan ::
    "selected_strategy \<Rightarrow> execution_accumulator \<Rightarrow> candidate_inbox list \<Rightarrow> message_stats option
     \<Rightarrow> candidate_spec list" where
  "strategy_plan (Swarm st) acc inboxes stats = swarm_plan_candidates st acc inboxes stats"
| "strategy_plan (Supervision st) acc inboxes stats = supervision_plan_candidates st acc inboxes"

fun strategy_evaluate ::
    "selected_strategy \<Rightarrow> execution_accumulator \<Rightarrow> candidate_output list \<Rightarrow> strategy_evaluation" where
  "strategy_evaluate (Swarm st) acc outputs = SwarmEval (swarm_evaluate st acc outputs)"
| "strategy_evaluate (Supervision st) acc outputs = SupervisionEval (supervision_evaluate st acc outputs)"

text \<open>\<open>None\<close> is the \<open>unreachable!\<close> of a strategy given the other strategy's evaluation.\<close>

fun strategy_reduce ::
    "selected_strategy \<Rightarrow> execution_accumulator \<Rightarrow> strategy_evaluation \<Rightarrow> execution_accumulator option" where
  "strategy_reduce (Swarm st) acc (SwarmEval ev) = Some (swarm_reduce acc ev)"
| "strategy_reduce (Supervision st) acc (SupervisionEval ev) = Some (supervision_reduce acc ev)"
| "strategy_reduce _ acc _ = None"

fun strategy_should_stop ::
    "selected_strategy \<Rightarrow> execution_accumulator \<Rightarrow> strategy_evaluation \<Rightarrow> stop_reason option option" where
  "strategy_should_stop (Swarm st) acc (SwarmEval ev) = Some (swarm_should_stop st acc ev)"
| "strategy_should_stop (Supervision st) acc ev = Some None"
| "strategy_should_stop (Swarm st) acc (SupervisionEval ev) = None"

subsection \<open>Lemmas\<close>

lemma length_generate_parameter_space:
  "length (generate_parameter_space v) \<le> unat (vc_candidates_per_iteration v)"
  by (auto simp: generate_parameter_space_def split: list.splits option.splits variation_selection.splits)

lemma length_generate_explicit:
  "length (generate_explicit v acc)
     = (if vc_explicit v = [] then 0 else unat (vc_candidates_per_iteration v))"
  by (simp add: generate_explicit_def Let_def)

lemma length_leader_variations:
  "length (leader_variations v acc) \<le> unat (vc_candidates_per_iteration v)"
  by (simp add: leader_variations_def)

lemma length_generate: "length (generate v acc) \<le> unat (vc_candidates_per_iteration v)"
  using length_generate_parameter_space [of v] length_leader_variations [of v acc]
  by (simp add: generate_def length_generate_explicit)

lemma nth_generate_explicit:
  "vc_explicit v \<noteq> [] \<Longrightarrow> i < unat (vc_candidates_per_iteration v) \<Longrightarrow>
   generate_explicit v acc ! i
     = vc_explicit v ! ((unat (ac_scoring_history_len acc) + i) mod length (vc_explicit v))"
  by (simp add: generate_explicit_def Let_def mod_simps)

lemma length_candidate_specs [simp]: "length (candidate_specs inboxes ps) = length ps"
  by (simp add: candidate_specs_def)

lemma candidate_specs_ids:
  "map cd_candidate_id (candidate_specs inboxes ps)
     = map (\<lambda>i. if i < length inboxes then ci_candidate_id (inboxes ! i)
                else ''candidate-'' @ nat_to_string (i + 1)) [0 ..< length ps]"
  by (rule nth_equalityI) (simp_all add: candidate_specs_def enumerate_eq_zip)

lemma candidate_specs_overrides: "map cd_overrides (candidate_specs inboxes ps) = map vp_overrides ps"
  by (rule nth_equalityI) (simp_all add: candidate_specs_def enumerate_eq_zip)

lemma supervision_fold:
  "fold (\<lambda>output ev. let d = review_decision st acc output in
            \<lparr>su_decisions = su_decisions ev @ [d],
             su_final_approval_ready = (if wd_status d \<noteq> Approved then False else su_final_approval_ready ev)\<rparr>)
     outputs \<lparr>su_decisions = ds, su_final_approval_ready = b\<rparr>
   = \<lparr>su_decisions = ds @ map (review_decision st acc) outputs,
      su_final_approval_ready = (b \<and> (\<forall>d \<in> set (map (review_decision st acc) outputs). wd_status d = Approved))\<rparr>"
  by (induction outputs arbitrary: ds b) (auto simp: Let_def)

lemma supervision_evaluate_eq:
  "supervision_evaluate st acc outputs =
     \<lparr>su_decisions = map (review_decision st acc) outputs,
      su_final_approval_ready = (outputs \<noteq> []
        \<and> (\<forall>x \<in> set outputs. wd_status (review_decision st acc x) = Approved))\<rparr>"
  unfolding supervision_evaluate_def supervision_fold by auto

text \<open>A revision is asked for only below the limit.\<close>

lemma revision_below_limit:
  "review_status_for_output st out r \<in> {RevisionRequested, RetryRequested}
   \<Longrightarrow> r < rp_max_revision_rounds (sv_review_policy st)"
  by (auto simp: review_status_for_output_def split: if_splits)

lemma reduce_decision_rounds:
  "ac_supervision_revision_rounds (reduce_decision d acc) =
     (if wd_status d = RevisionRequested \<or> wd_status d = RetryRequested
      then bt_insert (wd_candidate_id d) (wd_revision_round d + 1) (ac_supervision_revision_rounds acc)
      else ac_supervision_revision_rounds acc)"
  "ac_supervision_reviews (reduce_decision d acc) =
     bt_insert (wd_candidate_id d) (wd_status d) (ac_supervision_reviews acc)"
  by (simp_all add: reduce_decision_def Let_def)

lemma revision_round_reduce:
  "revision_round_of (reduce_decision d acc) c =
     (if wd_candidate_id d = c \<and> wd_status d \<in> {RevisionRequested, RetryRequested}
      then wd_revision_round d + 1 else revision_round_of acc c)"
  by (auto simp: revision_round_of_def reduce_decision_rounds)

lemma reduce_fold_rounds:
  assumes "\<forall>d \<in> set ds. wd_status d \<in> {RevisionRequested, RetryRequested} \<longrightarrow> wd_revision_round d < m"
    and "revision_round_of acc c \<le> m"
  shows "revision_round_of (fold reduce_decision ds acc) c \<le> m"
  using assms
proof (induction ds arbitrary: acc)
  case Nil
  then show ?case by simp
next
  case (Cons d ds)
  have "revision_round_of (reduce_decision d acc) c \<le> m"
    using Cons.prems by (auto simp: revision_round_reduce word_le_nat_alt unat_plus_one word_less_nat_alt)
  with Cons show ?case by simp
qed

lemma supervision_reduce_rounds:
  "revision_round_of (supervision_reduce acc ev) c = revision_round_of (fold reduce_decision (su_decisions ev) acc) c"
  by (simp add: supervision_reduce_def Let_def revision_round_of_def)

lemma reviews_fold:
  "bt_get (ac_supervision_reviews (fold reduce_decision ds acc)) c =
     (case find (\<lambda>d. wd_candidate_id d = c) (rev ds) of
        None \<Rightarrow> bt_get (ac_supervision_reviews acc) c | Some d \<Rightarrow> Some (wd_status d))"
proof -
  have "ac_supervision_reviews (fold reduce_decision ds acc)
      = fold (\<lambda>d m. bt_insert (wd_candidate_id d) (wd_status d) m) ds (ac_supervision_reviews acc)"
    by (induction ds arbitrary: acc) (simp_all add: reduce_decision_rounds)
  then show ?thesis by (simp add: bt.get_fold_last)
qed

lemma selected_strategy_total: "spec_ok global spec \<Longrightarrow> selected_strategy_new spec \<noteq> None"
  by (auto simp: selected_strategy_new_def spec_ok_def supervision_ok_def)

subsection \<open>Properties\<close>

text \<open>
  A swarm plans the generated proposals in order, each for the inbox at its position; under
  convergence pressure it keeps the first half, rounded up. So a plan never exceeds
  \<open>candidates_per_iteration\<close> and is never empty when there is a proposal.
\<close>

theorem swarm_plan_size:
  "let plan = swarm_plan_candidates st acc inboxes stats; proposals = generate (ss_variation st) acc
   in plan = take (length plan) (candidate_specs inboxes proposals)
      \<and> length plan \<le> unat (vc_candidates_per_iteration (ss_variation st))
      \<and> (length proposals + 1) div 2 \<le> length plan"
proof -
  have "length (generate (ss_variation st) acc) \<le> unat (vc_candidates_per_iteration (ss_variation st))"
    by (rule length_generate)
  then show ?thesis
    by (auto simp: swarm_plan_candidates_def Let_def split: option.split)
qed

text \<open>
  Explicit proposals are used in rotation: as the scoring history grows by one per iteration,
  every explicit proposal is planned within as many iterations as there are proposals, and nothing
  else is ever planned.
\<close>

theorem explicit_rotation_covers:
  assumes "vc_source v = ''explicit''" and "0 < vc_candidates_per_iteration v"
    and "length (vc_explicit v) < 2 ^ 32"
  shows "(\<Union>h \<in> {0 ..< length (vc_explicit v)}.
      set (generate v (acc\<lparr>ac_scoring_history_len := of_nat h\<rparr>))) = set (vc_explicit v)"
proof (intro equalityI subsetI)
  fix p
  assume "p \<in> (\<Union>h \<in> {0 ..< length (vc_explicit v)}.
      set (generate v (acc\<lparr>ac_scoring_history_len := of_nat h\<rparr>)))"
  then show "p \<in> set (vc_explicit v)"
    using assms(1) by (auto simp: generate_def generate_explicit_def Let_def split: if_splits)
next
  fix p
  assume "p \<in> set (vc_explicit v)"
  then obtain h where h: "h < length (vc_explicit v)" "p = vc_explicit v ! h"
    by (auto simp: in_set_conv_nth)
  let ?acc = "acc\<lparr>ac_scoring_history_len := of_nat h\<rparr>"
  have pos: "0 < unat (vc_candidates_per_iteration v)" using assms(2) by (simp add: unat_gt_0)
  have "unat (of_nat h :: u32) = h" using h(1) assms(3) by (simp add: unat_of_nat)
  then have "generate_explicit v ?acc ! 0 = p"
    using nth_generate_explicit [of v 0 ?acc] h pos by fastforce
  moreover have "0 < length (generate_explicit v ?acc)"
    using h pos by (auto simp: length_generate_explicit)
  ultimately have "p \<in> set (generate v ?acc)"
    using assms(1) nth_mem by (fastforce simp: generate_def)
  with h(1) show "p \<in> (\<Union>h \<in> {0 ..< length (vc_explicit v)}.
      set (generate v (acc\<lparr>ac_scoring_history_len := of_nat h\<rparr>)))" by auto
qed

lemma explicit_rotation_covers_witness:
  "(\<Union>h \<in> {0 ..< Suc (Suc 0)}. set (generate (variation_explicit 1 [\<lparr>vp_overrides = [(''k'', ''a'')]\<rparr>,
      \<lparr>vp_overrides = [(''k'', ''b'')]\<rparr>]) (accumulator_default\<lparr>ac_scoring_history_len := of_nat h\<rparr>)))
   = {\<lparr>vp_overrides = [(''k'', ''a'')]\<rparr>, \<lparr>vp_overrides = [(''k'', ''b'')]\<rparr>}"
  using explicit_rotation_covers [of "variation_explicit 1 [\<lparr>vp_overrides = [(''k'', ''a'')]\<rparr>,
      \<lparr>vp_overrides = [(''k'', ''b'')]\<rparr>]" accumulator_default]
  by (simp add: variation_explicit_def)

definition approved_output :: "candidate_output \<Rightarrow> bool" where
  "approved_output x = (co_succeeded x
     \<and> f64_le (Fin 1) (case bt_get (co_metrics x) ''approved'' of None \<Rightarrow> Fin 0 | Some v \<Rightarrow> v))"

lemma review_approved_iff: "wd_status (review_decision st acc x) = Approved \<longleftrightarrow> approved_output x"
  by (auto simp: review_decision_def review_status_for_output_def approved_output_def Let_def)

text \<open>
  C29: After a round of supervision, final approval is granted exactly when there was an output and
  every output succeeded with a metric \<open>approved\<close> of at least 1; the last decision on each candidate
  is recorded as its review.
\<close>

theorem final_approval_iff_all_approved:
  "ac_supervision_final_approval (supervision_reduce acc (supervision_evaluate st acc outputs))
     = (if outputs = [] then ac_supervision_final_approval acc else Some (list_all approved_output outputs))
   \<and> bt_get (ac_supervision_reviews (supervision_reduce acc (supervision_evaluate st acc outputs))) c
     = (case find (\<lambda>x. co_candidate_id x = c) (rev outputs) of
          None \<Rightarrow> bt_get (ac_supervision_reviews acc) c
        | Some x \<Rightarrow> Some (review_status_for_output st x (revision_round_of acc c)))"
proof
  have fa: "ac_supervision_final_approval (fold reduce_decision ds a) = ac_supervision_final_approval a"
    for ds a by (induction ds arbitrary: a) (simp_all add: reduce_decision_def Let_def)
  have "(\<exists>x \<in> set outputs. approved_output x) \<and> list_all approved_output outputs
      \<longleftrightarrow> outputs \<noteq> [] \<and> list_all approved_output outputs"
    by (cases outputs) auto
  then show "ac_supervision_final_approval (supervision_reduce acc (supervision_evaluate st acc outputs))
     = (if outputs = [] then ac_supervision_final_approval acc else Some (list_all approved_output outputs))"
    by (auto simp: supervision_reduce_def supervision_evaluate_eq Let_def review_approved_iff
        list_all_iff fa filter_empty_conv)
next
  have cid: "wd_candidate_id (review_decision st acc x) = co_candidate_id x" for x
    by (simp add: review_decision_def Let_def)
  have find: "find (\<lambda>d. wd_candidate_id d = c) (map (review_decision st acc) xs)
      = map_option (review_decision st acc) (find (\<lambda>x. co_candidate_id x = c) xs)" for xs
    by (induction xs) (simp_all add: cid)
  have "bt_get (ac_supervision_reviews (supervision_reduce acc (supervision_evaluate st acc outputs))) c
     = bt_get (ac_supervision_reviews (fold reduce_decision (map (review_decision st acc) outputs) acc)) c"
    by (simp add: supervision_reduce_def supervision_evaluate_eq Let_def)
  then show "bt_get (ac_supervision_reviews (supervision_reduce acc (supervision_evaluate st acc outputs))) c
     = (case find (\<lambda>x. co_candidate_id x = c) (rev outputs) of
          None \<Rightarrow> bt_get (ac_supervision_reviews acc) c
        | Some x \<Rightarrow> Some (review_status_for_output st x (revision_round_of acc c)))"
    by (auto simp: reviews_fold rev_map find review_decision_def Let_def split: option.splits
        dest!: find_Some_iff [THEN iffD1])
qed

text \<open>
  A candidate is sent back by a round of supervision when a decision of the round asks it for a revision or
  a retry. A supervised run is a sequence of rounds of evaluation and reduction. Between two rounds anything
  of the accumulator but the counters of revisions may change (the service counts failures and completed
  iterations); a reload of the execution loses the counters, because the file of the accumulator does not
  hold them. The numbers count the rounds in which the candidate \<open>c\<close> was sent back and the reloads.
\<close>

definition sent_back ::
    "supervision_strategy \<Rightarrow> string \<Rightarrow> execution_accumulator \<Rightarrow> candidate_output list \<Rightarrow> bool" where
  "sent_back st c acc outputs = list_ex (\<lambda>d. wd_candidate_id d = c
     \<and> (wd_status d = RevisionRequested \<or> wd_status d = RetryRequested)) (su_decisions (supervision_evaluate st acc outputs))"

inductive supervised_run :: "supervision_strategy \<Rightarrow> string \<Rightarrow> nat \<Rightarrow> nat \<Rightarrow> execution_accumulator \<Rightarrow> bool"
  for st :: supervision_strategy and c :: string where
  begins: "ac_supervision_revision_rounds acc = [] \<Longrightarrow> supervised_run st c 0 0 acc"
| reviewed: "supervised_run st c n k acc \<Longrightarrow>
    supervised_run st c (if sent_back st c acc outputs then Suc n else n) k
      (supervision_reduce acc (supervision_evaluate st acc outputs))"
| other_change: "supervised_run st c n k acc
    \<Longrightarrow> ac_supervision_revision_rounds acc' = ac_supervision_revision_rounds acc
    \<Longrightarrow> supervised_run st c n k acc'"
| reloaded: "supervised_run st c n k acc \<Longrightarrow> ac_supervision_revision_rounds acc' = []
    \<Longrightarrow> supervised_run st c n (Suc k) acc'"

lemma reduce_fold_counts:
  assumes "\<forall>d \<in> set ds. wd_candidate_id d = c \<longrightarrow> wd_revision_round d = r"
  shows "revision_round_of (fold reduce_decision ds acc) c =
     (if list_ex (\<lambda>d. wd_candidate_id d = c \<and> (wd_status d = RevisionRequested \<or> wd_status d = RetryRequested)) ds
      then r + 1 else revision_round_of acc c)"
  using assms by (induction ds arbitrary: acc) (auto simp: revision_round_reduce)

text \<open>A round counts a candidate up exactly when it sends it back, which it does only below the limit.\<close>

lemma supervision_round_counts:
  "revision_round_of (supervision_reduce acc (supervision_evaluate st acc outputs)) c =
     (if sent_back st c acc outputs then revision_round_of acc c + 1 else revision_round_of acc c)"
  unfolding supervision_reduce_rounds sent_back_def
  by (rule reduce_fold_counts) (auto simp: supervision_evaluate_eq review_decision_def Let_def)

lemma sent_back_below_limit:
  "sent_back st c acc outputs \<Longrightarrow> revision_round_of acc c < rp_max_revision_rounds (sv_review_policy st)"
  using revision_below_limit
  by (fastforce simp: sent_back_def list_ex_iff supervision_evaluate_eq review_decision_def Let_def)

lemma supervised_run_counter:
  assumes "supervised_run st c n k acc"
  shows "unat (revision_round_of acc c) \<le> unat (rp_max_revision_rounds (sv_review_policy st))
    \<and> n \<le> unat (rp_max_revision_rounds (sv_review_policy st)) * k + unat (revision_round_of acc c)
    \<and> (if k = 0 then unat (revision_round_of acc c) = n else True)"
  using assms
proof induction
  case (reviewed n k acc outputs)
  have "unat (revision_round_of acc c + 1) = Suc (unat (revision_round_of acc c))
      \<and> unat (revision_round_of acc c) < unat (rp_max_revision_rounds (sv_review_policy st))"
    if "sent_back st c acc outputs"
    using sent_back_below_limit [OF that] unat_plus_one word_less_nat_alt by blast
  with reviewed show ?case by (auto simp: supervision_round_counts split: if_splits)
qed (auto simp: revision_round_of_def split: if_splits)

text \<open>
  C32: Between two loads of an execution a candidate is sent back at most \<open>max_revision_rounds\<close> times: in
  every supervised run without a reload its counter is the number of the rounds that sent it back and is
  within the limit, and a candidate whose counter is at the limit is not sent back by any further round.
  Every reload gives it the whole limit again, so that after \<open>k\<close> reloads the bound is \<open>k + 1\<close> times the limit
  (which is reached).
\<close>

theorem revision_rounds_bounded:
  assumes "supervised_run st c n k acc"
  shows "n \<le> unat (rp_max_revision_rounds (sv_review_policy st)) * (k + 1)
    \<and> unat (revision_round_of acc c) \<le> unat (rp_max_revision_rounds (sv_review_policy st))
    \<and> (if k = 0 then unat (revision_round_of acc c) = n else True)
    \<and> (if revision_round_of acc c = rp_max_revision_rounds (sv_review_policy st)
       then \<not> sent_back st c acc outputs else True)"
  using supervised_run_counter [OF assms] sent_back_below_limit [of st c acc outputs] by auto

definition strict_supervision :: supervision_strategy where
  "strict_supervision = \<lparr>sv_variation = variation_explicit 1 [],
     sv_review_policy = \<lparr>rp_max_revision_rounds = 1, rp_retry_on_runtime_failure = True,
       rp_require_final_approval = True\<rparr>\<rparr>"

text \<open>A worker is sent back, the execution is loaded again, and the worker is sent back once more.\<close>

lemma sent_back_after_reload:
  "\<exists>acc. supervised_run strict_supervision ''w'' 1 0 acc"
  "\<exists>acc. supervised_run strict_supervision ''w'' 2 1 acc"
proof -
  let ?w = "[candidate_output_new ''w'' True []]"
  have asked: "sent_back strict_supervision ''w'' accumulator_default ?w"
    by (simp add: sent_back_def supervision_evaluate_eq review_decision_def review_status_for_output_def
        revision_round_of_def accumulator_default_def candidate_output_new_def strict_supervision_def Let_def)
  have fresh: "ac_supervision_revision_rounds accumulator_default = []" by (simp add: accumulator_default_def)
  from reviewed [OF begins [OF fresh], of strict_supervision "''w''" ?w] asked
  have one: "supervised_run strict_supervision ''w'' 1 0
      (supervision_reduce accumulator_default (supervision_evaluate strict_supervision accumulator_default ?w))"
    by simp
  then show "\<exists>acc. supervised_run strict_supervision ''w'' 1 0 acc" ..
  from reviewed [OF reloaded [OF one fresh], of ?w] asked
  show "\<exists>acc. supervised_run strict_supervision ''w'' 2 1 acc" by (auto simp: numeral_2_eq_2)
qed

lemma revision_rounds_bounded_witness:
  "\<exists>acc bcc. unat (revision_round_of acc ''w'') = 1 \<and> \<not> sent_back strict_supervision ''w'' acc []
     \<and> supervised_run strict_supervision ''w'' 2 1 bcc \<and> (2::nat) \<le> 1 * (1 + 1)"
proof -
  obtain acc bcc where one: "supervised_run strict_supervision ''w'' 1 0 acc"
    and two: "supervised_run strict_supervision ''w'' 2 1 bcc"
    using sent_back_after_reload by blast
  show ?thesis
    using revision_rounds_bounded [OF one, of "[]"] revision_rounds_bounded [OF two, of "[]"] two
    by (auto simp: strict_supervision_def word_unat_eq_iff)
qed

text \<open>
  The threshold strategy looks only at the first ranked candidate, and that is enough: unless a
  NaN occurs, it stops exactly when some candidate of the iteration reaches \<open>min_score\<close>, and the best
  candidate recorded by \<open>reduce\<close> has a maximal score.
\<close>

theorem threshold_stop_iff_reached:
  assumes "list_all (comparable (ss_scoring st)) (map (rank_output (ss_scoring st) outputs) outputs)"
    and "cp_strategy (ss_convergence st) = ''threshold''" and "cp_min_score (ss_convergence st) = Some m"
  shows "swarm_should_stop st acc (swarm_evaluate st acc outputs) = Some ConvergenceThreshold
      \<longleftrightarrow> list_ex (\<lambda>x. f64_le m (rc_score (rank_output (ss_scoring st) outputs x))) outputs"
proof -
  let ?c = "ss_scoring st" and ?rs = "score_iteration (ss_scoring st) outputs"
  have all: "\<forall>x \<in> set outputs. comparable ?c (rank_output ?c outputs x)"
    using assms(1) by (simp add: list_all_iff)
  have set: "set ?rs = rank_output ?c outputs ` set outputs" by (simp add: score_iteration_def)
  have le: "f64_le (rc_score r) (rc_score (hd ?rs))" if "r \<in> set ?rs" for r
  proof -
    have "hd ?rs \<in> set ?rs" using that by (cases ?rs) auto
    moreover have "comparable ?c q" if "q \<in> set ?rs" for q
      using all that by (auto simp: set)
    ultimately have comp: "comparable ?c r" "comparable ?c (hd ?rs)"
      using that by blast+
    have "r = hd ?rs \<or> ranked_le ?c (hd ?rs) r"
      using score_iteration_sorted [OF all] that by (cases ?rs) auto
    with comp show ?thesis
      by (auto simp: ranked_le_iff f64_le_def f64_eq_iff comparable_def)
  qed
  show ?thesis
  proof (cases ?rs)
    case Nil
    with set have "outputs = []" by simp
    then show ?thesis
      using Nil assms(2) by (simp add: swarm_should_stop_def swarm_evaluate_def)
  next
    case (Cons r rs)
    have "f64_le m (rc_score r) \<longleftrightarrow> (\<exists>q \<in> set ?rs. f64_le m (rc_score q))"
      using le Cons f64_le_trans by fastforce
    also have "\<dots> \<longleftrightarrow> list_ex (\<lambda>x. f64_le m (rc_score (rank_output ?c outputs x))) outputs"
      by (auto simp: set list_ex_iff)
    finally show ?thesis
      using Cons assms(2,3) by (simp add: swarm_should_stop_def swarm_evaluate_def Let_def)
  qed
qed

lemma threshold_stop_iff_reached_witness:
  "swarm_should_stop (swarm_strategy_default\<lparr>ss_convergence :=
       convergence_default\<lparr>cp_strategy := ''threshold'', cp_min_score := Some (Fin 0)\<rparr>\<rparr>)
     accumulator_default (swarm_evaluate (swarm_strategy_default\<lparr>ss_convergence :=
       convergence_default\<lparr>cp_strategy := ''threshold'', cp_min_score := Some (Fin 0)\<rparr>\<rparr>)
     accumulator_default [candidate_output_new ''a'' True []]) = Some ConvergenceThreshold"
  by (subst threshold_stop_iff_reached [where m = "Fin 0"])
    (simp_all add: comparable_def tie_metric_def rank_output_def candidate_output_new_def Let_def
      weighted_score_def swarm_strategy_default_def)

text \<open>
  A specification accepted by validation never makes the choice of strategy panic, and a strategy
  never meets the evaluation of the other kind: reducing and stopping on its own evaluation are defined.
\<close>

theorem validated_spec_strategy_total:
  assumes "spec_validate spec global = Inr ()"
  shows "\<exists>st. selected_strategy_new spec = Some st
    \<and> strategy_reduce st acc (strategy_evaluate st acc outputs) \<noteq> None
    \<and> strategy_should_stop st acc (strategy_evaluate st acc outputs) \<noteq> None"
proof -
  obtain st where "selected_strategy_new spec = Some st"
    using selected_strategy_total assms spec_validate_iff by blast
  then show ?thesis by (cases st) auto
qed

definition sample_spec :: execution_spec where
  "sample_spec = \<lparr>es_mode = ''swarm'', es_goal = ''g'', es_workflow = \<lparr>wt_template = ''t''\<rparr>,
     es_policy = policy_default,
     es_evaluation = \<lparr>ec_scoring_type = ''weighted_metrics'', ec_weights = [(''m'', Fin 1)],
       ec_pass_threshold = Some (Fin 0), ec_ranking = ''desc'', ec_tie_breaking = ''m''\<rparr>,
     es_variation = variation_explicit 2 [\<lparr>vp_overrides = [(''k'', ''a'')]\<rparr>], es_swarm = True,
     es_supervision = None\<rparr>"

lemma sample_spec_valid: "spec_validate sample_spec \<lparr>max_concurrent_child_runs = 4\<rparr> = Inr ()"
  by (simp add: spec_validate_iff spec_ok_def sample_spec_def supervision_ok_def policy_ok_def
      convergence_ok_def policy_default_def budget_default_def concurrency_default_def
      convergence_default_def variation_explicit_def known_variation_source_def trim_def is_ws_def)

lemma validated_spec_strategy_total_witness:
  "\<exists>st. selected_strategy_new sample_spec = Some st
    \<and> strategy_reduce st accumulator_default (strategy_evaluate st accumulator_default []) \<noteq> None"
  using validated_spec_strategy_total [OF sample_spec_valid, of accumulator_default "[]"] by blast

end
