(* ===== verification/Message_Box.thy ===== *)
theory Message_Box
  imports Strategy "HOL-Library.Sublist"
begin

text \<open>
  Communication between candidates (\<open>src/orchestration/message_box.rs\<close>): deduplication and
  normalisation of intents, routing, statistics, pending deliveries and inbox snapshots. Lemmas: the
  limits on intents, that every routed intent becomes pending for the next iteration, that delivery
  happens once, and that the counters of the statistics agree. The printing of numbers and the
  quoting of strings of \<open>serde_json\<close> are the parameters \<open>num_text\<close> and \<open>str_text\<close>.
\<close>

subsection \<open>Payload keys\<close>

fun join_commas :: "string list \<Rightarrow> string" where
  "join_commas [] = []"
| "join_commas [x] = x"
| "join_commas (x # y # ys) = x @ '','' @ join_commas (y # ys)"

text \<open>An object has each key once, so sorting its entries by key is sorting its keys.\<close>

fun normalized_payload_key ::
    "(json_number \<Rightarrow> string) \<Rightarrow> (string \<Rightarrow> string) \<Rightarrow> json \<Rightarrow> string" where
  "normalized_payload_key num_text str_text JNull = ''null''"
| "normalized_payload_key num_text str_text (JBool b) = (if b then ''true'' else ''false'')"
| "normalized_payload_key num_text str_text (JNum n) = num_text n"
| "normalized_payload_key num_text str_text (JStr s) = str_text s"
| "normalized_payload_key num_text str_text (JArr xs) =
     ''['' @ join_commas (map (normalized_payload_key num_text str_text) xs) @ '']''"
| "normalized_payload_key num_text str_text (JObj m) =
     ''{'' @ join_commas (map (\<lambda>(k, t). str_text k @ '':'' @ t)
       (sort_key fst (map (\<lambda>(k, v). (k, normalized_payload_key num_text str_text v)) m))) @ ''}''"

definition audience_key :: "communication_intent_audience \<Rightarrow> string" where
  "audience_key a = (case a of Leader \<Rightarrow> ''leader'' | Broadcast \<Rightarrow> ''broadcast'')"

definition message_dedup_key ::
    "(json_number \<Rightarrow> string) \<Rightarrow> (string \<Rightarrow> string) \<Rightarrow> communication_intent \<Rightarrow> string" where
  "message_dedup_key num_text str_text i =
     normalized_payload_key num_text str_text (in_payload i) @ ''|'' @ audience_key (in_audience i)
       @ ''|'' @ word_to_string (in_iteration i)"

definition dedup_step ::
    "(communication_intent \<Rightarrow> string) \<Rightarrow> communication_intent
     \<Rightarrow> communication_intent list \<times> string list \<Rightarrow> communication_intent list \<times> string list" where
  "dedup_step key i ms =
     (if key i \<in> set (snd ms) then ms else (fst ms @ [i], key i # snd ms))"

definition merge_and_dedup ::
    "(json_number \<Rightarrow> string) \<Rightarrow> (string \<Rightarrow> string)
     \<Rightarrow> communication_intent list \<Rightarrow> communication_intent list \<Rightarrow> communication_intent list" where
  "merge_and_dedup num_text str_text sidecar output =
     fst (fold (dedup_step (message_dedup_key num_text str_text)) (sidecar @ output) ([], []))"

subsection \<open>Normalisation and routing\<close>

definition payload_has_summary_text :: "json \<Rightarrow> bool" where
  "payload_has_summary_text p =
     (case Option.bind (json_get p ''summary_text'') json_as_str of
        None \<Rightarrow> False | Some s \<Rightarrow> trim s \<noteq> [])"

definition summary_text :: "json \<Rightarrow> string" where
  "summary_text p = (case Option.bind (json_get p ''summary_text'') json_as_str of None \<Rightarrow> [] | Some s \<Rightarrow> s)"

record normalize_state =
  ns_valid :: "communication_intent list"
  ns_rejected :: nat
  ns_broadcast_count :: nat

definition normalize_step ::
    "string \<Rightarrow> u32 \<Rightarrow> communication_intent \<Rightarrow> normalize_state \<Rightarrow> normalize_state" where
  "normalize_step candidate_id iteration i st =
     (if 3 \<le> length (ns_valid st) then st\<lparr>ns_rejected := ns_rejected st + 1\<rparr>
      else if trim (in_intent_id i) = [] \<or> in_ttl_iterations i = 0
      then st\<lparr>ns_rejected := ns_rejected st + 1\<rparr>
      else if \<not> payload_has_summary_text (in_payload i) then st\<lparr>ns_rejected := ns_rejected st + 1\<rparr>
      else let st' = (if in_audience i = Broadcast
                      then st\<lparr>ns_broadcast_count := ns_broadcast_count st + 1\<rparr> else st)
           in if in_audience i = Broadcast \<and> 1 < ns_broadcast_count st'
              then st'\<lparr>ns_rejected := ns_rejected st' + 1\<rparr>
              else st'\<lparr>ns_valid := ns_valid st'
                     @ [i\<lparr>in_from_candidate_id := candidate_id, in_iteration := iteration\<rparr>]\<rparr>)"

definition normalize_intents ::
    "string \<Rightarrow> u32 \<Rightarrow> communication_intent list \<Rightarrow> communication_intent list \<times> nat" where
  "normalize_intents candidate_id iteration intents =
     (let st = fold (normalize_step candidate_id iteration) intents
                 \<lparr>ns_valid = [], ns_rejected = 0, ns_broadcast_count = 0\<rparr>
      in (ns_valid st, ns_rejected st))"

definition route_intent :: "communication_intent \<Rightarrow> routed_message" where
  "route_intent i =
     (let (to, reason) = (case in_audience i of
            Leader \<Rightarrow> (''leader'', ''leader_feedback_channel'')
          | Broadcast \<Rightarrow> (''broadcast'', ''broadcast_fanout''))
      in \<lparr>rm_message_id = ''msg-'' @ in_intent_id i @ ''-'' @ to, rm_intent_id = in_intent_id i,
          rm_to = to, rm_delivery_iteration = in_iteration i + 1, rm_routing_reason = reason,
          rm_status = Routed\<rparr>)"

definition route_intents :: "communication_intent list \<Rightarrow> routed_message list" where
  "route_intents intents = map route_intent intents"

subsection \<open>Statistics\<close>

definition intents_by_id ::
    "communication_intent list \<Rightarrow> (string, communication_intent) btree" where
  "intents_by_id intents = bt_of_list (map (\<lambda>i. (in_intent_id i, i)) intents)"

record stats_state =
  sx_stats :: message_stats
  sx_sources :: "string list"
  sx_intents :: "string list"

definition count_message :: "routed_message \<Rightarrow> communication_intent \<Rightarrow> message_stats \<Rightarrow> message_stats" where
  "count_message m i s0 =
     (let s1 = s0\<lparr>ms_total_messages := ms_total_messages s0 + 1\<rparr>;
          s2 = (if rm_to m = ''leader'' then s1\<lparr>ms_leader_messages := ms_leader_messages s1 + 1\<rparr>
                else if rm_to m = ''broadcast''
                then s1\<lparr>ms_broadcast_messages := ms_broadcast_messages s1 + 1\<rparr> else s1);
          s3 = (case in_kind i of
                  Proposal \<Rightarrow> s2\<lparr>ms_proposal_count := ms_proposal_count s2 + 1\<rparr>
                | Signal \<Rightarrow> s2\<lparr>ms_signal_count := ms_signal_count s2 + 1\<rparr>
                | Evaluation \<Rightarrow> s2\<lparr>ms_evaluation_count := ms_evaluation_count s2 + 1\<rparr>);
          s4 = (case in_priority i of
                  PrioHigh \<Rightarrow> s3\<lparr>ms_high_priority_count := ms_high_priority_count s3 + 1\<rparr>
                | PrioNormal \<Rightarrow> s3\<lparr>ms_normal_priority_count := ms_normal_priority_count s3 + 1\<rparr>
                | PrioLow \<Rightarrow> s3\<lparr>ms_low_priority_count := ms_low_priority_count s3 + 1\<rparr>)
      in case rm_status m of
           Delivered \<Rightarrow> s4\<lparr>ms_delivered_count := ms_delivered_count s4 + 1\<rparr>
         | Dropped \<Rightarrow> s4\<lparr>ms_dropped_count := ms_dropped_count s4 + 1\<rparr>
         | Expired \<Rightarrow> s4\<lparr>ms_expired_count := ms_expired_count s4 + 1\<rparr>
         | Routed \<Rightarrow> s4)"

definition stats_step ::
    "(string, communication_intent) btree \<Rightarrow> routed_message \<Rightarrow> stats_state \<Rightarrow> stats_state" where
  "stats_step by_id m st =
     (case bt_get by_id (rm_intent_id m) of
        None \<Rightarrow> st
      | Some i \<Rightarrow> \<lparr>sx_stats = count_message m i (sx_stats st),
                   sx_sources = List.insert (in_from_candidate_id i) (sx_sources st),
                   sx_intents = List.insert (in_intent_id i) (sx_intents st)\<rparr>)"

definition extract_message_stats ::
    "communication_intent list \<Rightarrow> routed_message list \<Rightarrow> u32 \<Rightarrow> message_stats" where
  "extract_message_stats intents messages delivery_iteration =
     (let st = fold (stats_step (intents_by_id intents))
                 (filter (\<lambda>m. rm_delivery_iteration m = delivery_iteration) messages)
                 \<lparr>sx_stats = message_stats_default\<lparr>ms_iteration := delivery_iteration\<rparr>,
                  sx_sources = [], sx_intents = []\<rparr>
      in (sx_stats st)\<lparr>ms_unique_sources := length (sx_sources st),
                       ms_unique_intent_count := length (sx_intents st)\<rparr>)"

subsection \<open>Deliveries\<close>

definition latest_by_message :: "routed_message list \<Rightarrow> (string, routed_message) btree" where
  "latest_by_message messages = fold (\<lambda>m acc. bt_insert (rm_message_id m) m acc) messages []"

definition pending_delivery_messages ::
    "communication_intent list \<Rightarrow> routed_message list \<Rightarrow> u32
     \<Rightarrow> (communication_intent \<times> routed_message) list" where
  "pending_delivery_messages intents messages delivery_iteration =
     List.map_filter (\<lambda>m.
         (case bt_get (intents_by_id intents) (rm_intent_id m) of
            None \<Rightarrow> None
          | Some i \<Rightarrow> if in_iteration i + in_ttl_iterations i < delivery_iteration then None
                      else Some (i, m)))
       (filter (\<lambda>m. rm_delivery_iteration m = delivery_iteration \<and> rm_status m = Routed)
         (map snd (latest_by_message messages)))"

definition backlog_from_pending_messages ::
    "communication_intent list \<Rightarrow> routed_message list \<Rightarrow> u32 \<Rightarrow> string list" where
  "backlog_from_pending_messages intents messages delivery_iteration =
     map (\<lambda>(i, _). summary_text (in_payload i))
       (pending_delivery_messages intents messages delivery_iteration)"

definition inbox_entry_of :: "communication_intent \<Rightarrow> routed_message \<Rightarrow> inbox_entry" where
  "inbox_entry_of i m =
     \<lparr>ie_message_id = rm_message_id m, ie_intent_id = in_intent_id i,
      ie_from_candidate_id = in_from_candidate_id i, ie_kind = in_kind i, ie_payload = in_payload i\<rparr>"

text \<open>One pending message goes to every snapshot (\<open>broadcast\<close>) or to the first one.\<close>

definition deliver_step ::
    "communication_intent \<times> routed_message
     \<Rightarrow> (inbox_snapshot \<times> routed_message list) list \<Rightarrow> (inbox_snapshot \<times> routed_message list) list" where
  "deliver_step im boxes =
     (let entry = inbox_entry_of (fst im) (snd im);
          push = (\<lambda>(s, ds). (s\<lparr>is_entries := is_entries s @ [entry]\<rparr>, ds @ [(snd im)\<lparr>rm_status := Delivered\<rparr>]))
      in if rm_to (snd im) = ''broadcast'' then map push boxes
         else case boxes of [] \<Rightarrow> [] | b # bs \<Rightarrow> push b # bs)"

definition materialize_inbox_snapshots ::
    "string \<Rightarrow> u32 \<Rightarrow> candidate_inbox list \<Rightarrow> communication_intent list \<Rightarrow> routed_message list
     \<Rightarrow> (inbox_snapshot \<times> routed_message list) list" where
  "materialize_inbox_snapshots execution_id delivery_iteration inboxes intents messages =
     (if inboxes = [] then []
      else fold deliver_step (pending_delivery_messages intents messages delivery_iteration)
        (map (\<lambda>inbox. (\<lparr>is_execution_id = execution_id, is_candidate_id = ci_candidate_id inbox,
                        is_iteration = delivery_iteration, is_entries = []\<rparr>, [])) inboxes))"

definition inbox_step ::
    "communication_intent \<times> routed_message \<Rightarrow> candidate_inbox list \<Rightarrow> candidate_inbox list" where
  "inbox_step im inboxes =
     (let push = (\<lambda>b. b\<lparr>ci_messages := ci_messages b @ [summary_text (in_payload (fst im))]\<rparr>)
      in if rm_to (snd im) = ''broadcast'' then map push inboxes
         else case inboxes of [] \<Rightarrow> [] | b # bs \<Rightarrow> push b # bs)"

definition build_candidate_inboxes ::
    "u32 \<Rightarrow> nat \<Rightarrow> communication_intent list \<Rightarrow> routed_message list \<Rightarrow> candidate_inbox list" where
  "build_candidate_inboxes delivery_iteration candidate_count intents messages =
     (let inboxes = fold inbox_step (pending_delivery_messages intents messages delivery_iteration)
            (map (\<lambda>idx. candidate_inbox_new (''candidate-'' @ nat_to_string (idx + 1))) [0 ..< candidate_count])
      in if inboxes = [] then [candidate_inbox_new ''candidate-1''] else inboxes)"

subsection \<open>Lemmas on keys and deduplication\<close>

lemma audience_key_eq: "audience_key a = audience_key b \<longleftrightarrow> a = b"
  by (cases a; cases b) (simp_all add: audience_key_def)

lemma split_last_sep:
  fixes c :: char
  assumes "a @ c # b = a' @ c # b'" "c \<notin> set b" "c \<notin> set b'"
  shows "a = a' \<and> b = b'"
proof -
  have "rev b @ c # rev a = rev b' @ c # rev a'"
    using arg_cong [OF assms(1), of rev] by simp
  then have "split_once c (rev b @ c # rev a) = split_once c (rev b' @ c # rev a')" by simp
  with assms(2,3) show ?thesis by (simp add: split_once_sep)
qed

lemma dedup_key_eq_iff:
  "message_dedup_key nt st i = message_dedup_key nt st j \<longleftrightarrow>
     normalized_payload_key nt st (in_payload i) = normalized_payload_key nt st (in_payload j)
     \<and> in_audience i = in_audience j \<and> in_iteration i = in_iteration j"
proof
  assume eq: "message_dedup_key nt st i = message_dedup_key nt st j"
  have num: "CHR ''|'' \<notin> set (word_to_string (w :: u32))" for w
    by (simp add: word_to_string_def nat_to_string_plain)
  have aud: "CHR ''|'' \<notin> set (audience_key a)" for a
    by (cases a) (simp_all add: audience_key_def)
  from eq have "(normalized_payload_key nt st (in_payload i) @ ''|'' @ audience_key (in_audience i))
        @ CHR ''|'' # word_to_string (in_iteration i)
      = (normalized_payload_key nt st (in_payload j) @ ''|'' @ audience_key (in_audience j))
        @ CHR ''|'' # word_to_string (in_iteration j)"
    by (simp add: message_dedup_key_def)
  from split_last_sep [OF this num num]
  have "normalized_payload_key nt st (in_payload i) @ CHR ''|'' # audience_key (in_audience i)
      = normalized_payload_key nt st (in_payload j) @ CHR ''|'' # audience_key (in_audience j)"
    and it: "in_iteration i = in_iteration j"
    by simp_all
  from split_last_sep [OF this(1) aud aud] it
  show "normalized_payload_key nt st (in_payload i) = normalized_payload_key nt st (in_payload j)
     \<and> in_audience i = in_audience j \<and> in_iteration i = in_iteration j"
    by (simp add: audience_key_eq)
qed (simp add: message_dedup_key_def)

lemma dedup_fold:
  assumes "set (snd ms) = key ` set (fst ms)" "distinct (map key (fst ms))"
  shows "let r = fold (dedup_step key) xs ms in
      distinct (map key (fst r)) \<and> set (snd r) = key ` set (fst r)
      \<and> key ` set (fst r) = key ` set (fst ms) \<union> key ` set xs
      \<and> (\<forall>x \<in> set (fst r). x \<in> set (fst ms)
           \<or> key x \<notin> key ` set (fst ms) \<and> find (\<lambda>y. key y = key x) xs = Some x)"
  using assms
proof (induction xs arbitrary: ms)
  case Nil
  then show ?case by simp
next
  case (Cons x xs)
  have pre: "set (snd (dedup_step key x ms)) = key ` set (fst (dedup_step key x ms))"
    "distinct (map key (fst (dedup_step key x ms)))"
    using Cons.prems by (auto simp: dedup_step_def)
  show ?case
    using Cons.IH [OF pre] Cons.prems by (fastforce simp: Let_def dedup_step_def split: if_splits)
qed

subsection \<open>Lemmas on normalisation\<close>

definition acceptable :: "communication_intent \<Rightarrow> bool" where
  "acceptable i = (trim (in_intent_id i) \<noteq> [] \<and> in_ttl_iterations i \<noteq> 0
     \<and> payload_has_summary_text (in_payload i))"

definition normalize_inv :: "string \<Rightarrow> u32 \<Rightarrow> communication_intent list \<Rightarrow> normalize_state \<Rightarrow> bool" where
  "normalize_inv c it seen st =
     (length (ns_valid st) \<le> 3
      \<and> length (ns_valid st) + ns_rejected st = length seen
      \<and> length (filter (\<lambda>i. in_audience i = Broadcast) (ns_valid st)) \<le> ns_broadcast_count st
      \<and> length (filter (\<lambda>i. in_audience i = Broadcast) (ns_valid st)) \<le> 1
      \<and> (ns_valid st = [] \<longrightarrow> ns_broadcast_count st = 0)
      \<and> (ns_valid st = []) = (\<not> list_ex acceptable seen)
      \<and> list_all (\<lambda>i. acceptable i \<and> in_from_candidate_id i = c \<and> in_iteration i = it) (ns_valid st)
      \<and> subseq (ns_valid st) (map (\<lambda>i. i\<lparr>in_from_candidate_id := c, in_iteration := it\<rparr>) seen))"

lemma normalize_inv_step:
  assumes "normalize_inv c it seen st"
  shows "normalize_inv c it (seen @ [i]) (normalize_step c it i st)"
proof (cases "3 \<le> length (ns_valid st) \<or> \<not> acceptable i
    \<or> in_audience i = Broadcast \<and> 0 < ns_broadcast_count st")
  case True
  then have "ns_valid (normalize_step c it i st) = ns_valid st"
    "ns_rejected (normalize_step c it i st) = ns_rejected st + 1"
    "ns_broadcast_count (normalize_step c it i st) = ns_broadcast_count st
     \<or> ns_broadcast_count st < ns_broadcast_count (normalize_step c it i st) \<and> ns_valid st \<noteq> []"
    using assms by (auto simp: normalize_step_def acceptable_def Let_def normalize_inv_def)
  moreover have "acceptable i \<Longrightarrow> ns_valid st \<noteq> []"
    using True assms by (auto simp: normalize_inv_def)
  ultimately show ?thesis
    using assms by (auto simp: normalize_inv_def)
next
  case False
  then have "ns_valid (normalize_step c it i st)
      = ns_valid st @ [i\<lparr>in_from_candidate_id := c, in_iteration := it\<rparr>]"
    "ns_rejected (normalize_step c it i st) = ns_rejected st"
    "ns_broadcast_count (normalize_step c it i st)
      = (if in_audience i = Broadcast then Suc (ns_broadcast_count st) else ns_broadcast_count st)"
    by (auto simp: normalize_step_def acceptable_def Let_def)
  with False assms show ?thesis
    by (auto simp: normalize_inv_def acceptable_def intro: list_emb_append_mono)
qed

lemma normalize_inv_fold:
  "normalize_inv c it seen st \<Longrightarrow> normalize_inv c it (seen @ is) (fold (normalize_step c it) is st)"
proof (induction "is" arbitrary: seen st)
  case Nil
  then show ?case by simp
next
  case (Cons i "is")
  from Cons.IH [OF normalize_inv_step [OF Cons.prems]] show ?case by simp
qed

lemma normalize_inv_result:
  "normalize_inv c it intents (fold (normalize_step c it) intents
     \<lparr>ns_valid = [], ns_rejected = 0, ns_broadcast_count = 0\<rparr>)"
  using normalize_inv_fold [of c it "[]" "\<lparr>ns_valid = [], ns_rejected = 0, ns_broadcast_count = 0\<rparr>" intents]
  by (simp add: normalize_inv_def)

subsection \<open>Lemmas on deliveries\<close>

lemma get_intents_by_id:
  "bt_get (intents_by_id intents) k = find (\<lambda>i. in_intent_id i = k) (rev intents)"
proof -
  have "intents_by_id intents = fold (\<lambda>i m. bt_insert (in_intent_id i) i m) intents []"
    by (simp add: intents_by_id_def bt_of_list_def fold_map comp_def)
  then show ?thesis
    using bt.get_fold_last [of in_intent_id "\<lambda>i. i" intents "[]" k] by (simp split: option.splits)
qed

lemma get_latest:
  "bt_get (latest_by_message messages) k = find (\<lambda>m. rm_message_id m = k) (rev messages)"
  using bt.get_fold_last [of rm_message_id "\<lambda>m. m" messages "[]" k]
  by (simp add: latest_by_message_def split: option.splits)

lemma latest_wf: "bt_wf (latest_by_message messages)"
  unfolding latest_by_message_def by (rule bt.wf_fold) simp

lemma mem_latest:
  "m \<in> set (map snd (latest_by_message messages)) \<longleftrightarrow>
     find (\<lambda>x. rm_message_id x = rm_message_id m) (rev messages) = Some m"
proof
  assume "m \<in> set (map snd (latest_by_message messages))"
  then obtain k where "(k, m) \<in> set (latest_by_message messages)" by auto
  then have "bt_get (latest_by_message messages) k = Some m" by (rule bt_get_mem [OF latest_wf])
  then show "find (\<lambda>x. rm_message_id x = rm_message_id m) (rev messages) = Some m"
    by (auto simp: get_latest find_Some_iff)
next
  assume "find (\<lambda>x. rm_message_id x = rm_message_id m) (rev messages) = Some m"
  then have "bt_get (latest_by_message messages) (rm_message_id m) = Some m" by (simp add: get_latest)
  from bt_get_Some_mem [OF this] show "m \<in> set (map snd (latest_by_message messages))" by force
qed

lemma mem_map_filter: "y \<in> set (List.map_filter f xs) \<longleftrightarrow> (\<exists>x \<in> set xs. f x = Some y)"
  by (force simp: List.map_filter_def)

lemma pending_iff:
  "(i, m) \<in> set (pending_delivery_messages intents messages it) \<longleftrightarrow>
     find (\<lambda>x. rm_message_id x = rm_message_id m) (rev messages) = Some m
     \<and> rm_delivery_iteration m = it \<and> rm_status m = Routed
     \<and> find (\<lambda>x. in_intent_id x = rm_intent_id m) (rev intents) = Some i
     \<and> it \<le> in_iteration i + in_ttl_iterations i"
proof -
  have pick: "(case g of None \<Rightarrow> None | Some j \<Rightarrow> if late j then None else Some (j, x)) = Some (i, m)
      \<longleftrightarrow> g = Some i \<and> \<not> late i \<and> x = m" for g late and x :: routed_message
    by (auto split: option.split)
  have "(i, m) \<in> set (pending_delivery_messages intents messages it) \<longleftrightarrow>
     m \<in> set (map snd (latest_by_message messages)) \<and> rm_delivery_iteration m = it
     \<and> rm_status m = Routed \<and> bt_get (intents_by_id intents) (rm_intent_id m) = Some i
     \<and> it \<le> in_iteration i + in_ttl_iterations i"
    unfolding pending_delivery_messages_def mem_map_filter pick by (auto simp: not_less)
  then show ?thesis by (simp only: mem_latest get_intents_by_id)
qed

definition push_all ::
    "(communication_intent \<times> routed_message) list
     \<Rightarrow> inbox_snapshot \<times> routed_message list \<Rightarrow> inbox_snapshot \<times> routed_message list" where
  "push_all ps b = ((fst b)\<lparr>is_entries := is_entries (fst b) @ map (\<lambda>(i, m). inbox_entry_of i m) ps\<rparr>,
     snd b @ map (\<lambda>(i, m). m\<lparr>rm_status := Delivered\<rparr>) ps)"

lemma push_all_Nil [simp]: "push_all [] = (\<lambda>b. b)"
  by (simp add: push_all_def fun_eq_iff)

lemma fold_deliver:
  "fold deliver_step ps (b # bs)
     = push_all ps b # map (push_all (filter (\<lambda>(i, m). rm_to m = ''broadcast'') ps)) bs"
proof (induction ps arbitrary: b bs)
  case Nil
  then show ?case by simp
next
  case (Cons p ps)
  obtain i m where p: "p = (i, m)" by force
  define push where "push = (\<lambda>(s :: inbox_snapshot, ds). (s\<lparr>is_entries := is_entries s @ [inbox_entry_of i m]\<rparr>,
      ds @ [m\<lparr>rm_status := Delivered\<rparr>]))"
  have all: "push_all (p # qs) x = push_all qs (push x)" for qs x
    by (cases x) (simp add: push_all_def push_def p)
  have step: "deliver_step p (b # bs) = push b # (if rm_to m = ''broadcast'' then map push bs else bs)"
    by (simp add: deliver_step_def p push_def Let_def)
  show ?case
    unfolding fold_Cons comp_apply step Cons.IH by (simp add: p all [unfolded p])
qed

lemma deliver_records:
  "concat (map snd (fold deliver_step ps (b # bs))) = snd b @ map (\<lambda>(i, m). m\<lparr>rm_status := Delivered\<rparr>) ps
     @ concat (map (\<lambda>c. snd c @ map (\<lambda>(i, m). m\<lparr>rm_status := Delivered\<rparr>)
         (filter (\<lambda>(i, m). rm_to m = ''broadcast'') ps)) bs)"
  by (simp add: fold_deliver push_all_def comp_def)

text \<open>What a delivery of pending messages leaves behind, and that it covers every pending message.\<close>

lemma materialize_records:
  assumes "inboxes \<noteq> []"
  shows "set (concat (map snd (materialize_inbox_snapshots e it inboxes intents messages)))
    = (\<lambda>(i, m). m\<lparr>rm_status := Delivered\<rparr>) ` set (pending_delivery_messages intents messages it)"
proof -
  obtain b bs where "inboxes = b # bs" using assms by (cases inboxes) auto
  then show ?thesis
    by (simp add: materialize_inbox_snapshots_def deliver_records) auto
qed

lemma find_unique:
  "x \<in> set xs \<Longrightarrow> P x \<Longrightarrow> (\<forall>y \<in> set xs. P y \<longrightarrow> y = x) \<Longrightarrow> find P xs = Some x"
proof (induction xs)
  case (Cons a xs)
  show ?case
  proof (cases "P a")
    case True
    have "a = x" using Cons.prems(3) True by (meson list.set_intros(1))
    with True show ?thesis by simp
  next
    case False
    with Cons.prems(1,2) have "x \<in> set xs" by auto
    moreover have "\<forall>y \<in> set xs. P y \<longrightarrow> y = x" using Cons.prems(3) by (meson list.set_intros(2))
    ultimately have "find P xs = Some x" using Cons.IH Cons.prems(2) by blast
    with False show ?thesis by simp
  qed
qed simp

lemma find_mem: "find P xs = Some x \<Longrightarrow> x \<in> set xs \<and> P x"
  by (induction xs) (auto split: if_splits)

lemma find_rev_append:
  "find P (rev (xs @ ys)) = (case find P (rev ys) of None \<Rightarrow> find P (rev xs) | Some y \<Rightarrow> Some y)"
  by (induction ys rule: rev_induct) auto

definition push_summaries :: "(communication_intent \<times> routed_message) list \<Rightarrow> candidate_inbox \<Rightarrow> candidate_inbox" where
  "push_summaries ps b = b\<lparr>ci_messages := ci_messages b @ map (\<lambda>(i, m). summary_text (in_payload i)) ps\<rparr>"

lemma push_summaries_Nil [simp]: "push_summaries [] = (\<lambda>b. b)"
  by (simp add: push_summaries_def fun_eq_iff)

lemma fold_inbox:
  "fold inbox_step ps (b # bs)
     = push_summaries ps b # map (push_summaries (filter (\<lambda>(i, m). rm_to m = ''broadcast'') ps)) bs"
proof (induction ps arbitrary: b bs)
  case Nil
  then show ?case by simp
next
  case (Cons p ps)
  obtain i m where p: "p = (i, m)" by force
  define push where "push = (\<lambda>b :: candidate_inbox. b\<lparr>ci_messages := ci_messages b @ [summary_text (in_payload i)]\<rparr>)"
  have all: "push_summaries ((i, m) # qs) x = push_summaries qs (push x)" for qs and x :: candidate_inbox
    by (simp add: push_summaries_def push_def)
  have step: "inbox_step p (b # bs) = push b # (if rm_to m = ''broadcast'' then map push bs else bs)"
    by (simp add: inbox_step_def p push_def Let_def)
  show ?case
    unfolding fold_Cons comp_apply step Cons.IH by (simp add: p all)
qed

definition stats_inv :: "nat \<Rightarrow> stats_state \<Rightarrow> bool" where
  "stats_inv n st =
     (let s = sx_stats st in
      ms_total_messages s = n
      \<and> ms_proposal_count s + ms_signal_count s + ms_evaluation_count s = n
      \<and> ms_high_priority_count s + ms_normal_priority_count s + ms_low_priority_count s = n
      \<and> ms_leader_messages s + ms_broadcast_messages s \<le> n
      \<and> ms_delivered_count s + ms_dropped_count s + ms_expired_count s \<le> n
      \<and> length (sx_sources st) \<le> n \<and> length (sx_intents st) \<le> n)"

text \<open>A message adds one to the total, to one kind and one priority, and at most one to the destinations and ends.\<close>

lemma count_message_tally:
  defines "tally \<equiv> \<lambda>s. (ms_iteration s, ms_total_messages s,
    ms_proposal_count s + ms_signal_count s + ms_evaluation_count s,
    ms_high_priority_count s + ms_normal_priority_count s + ms_low_priority_count s,
    ms_leader_messages s + ms_broadcast_messages s,
    ms_delivered_count s + ms_dropped_count s + ms_expired_count s)"
  shows "\<exists>dest fin. dest \<le> 1 \<and> fin \<le> 1 \<and> tally (count_message m i s) = (case tally s of (it, n, k, p, r, f) \<Rightarrow>
    (it, Suc n, Suc k, Suc p, r + dest, f + fin))"
proof -
  define s1 where "s1 = s\<lparr>ms_total_messages := ms_total_messages s + 1\<rparr>"
  define s2 where "s2 = (if rm_to m = ''leader'' then s1\<lparr>ms_leader_messages := ms_leader_messages s1 + 1\<rparr>
                else if rm_to m = ''broadcast''
                then s1\<lparr>ms_broadcast_messages := ms_broadcast_messages s1 + 1\<rparr> else s1)"
  define s3 where "s3 = (case in_kind i of
                  Proposal \<Rightarrow> s2\<lparr>ms_proposal_count := ms_proposal_count s2 + 1\<rparr>
                | Signal \<Rightarrow> s2\<lparr>ms_signal_count := ms_signal_count s2 + 1\<rparr>
                | Evaluation \<Rightarrow> s2\<lparr>ms_evaluation_count := ms_evaluation_count s2 + 1\<rparr>)"
  define s4 where "s4 = (case in_priority i of
                  PrioHigh \<Rightarrow> s3\<lparr>ms_high_priority_count := ms_high_priority_count s3 + 1\<rparr>
                | PrioNormal \<Rightarrow> s3\<lparr>ms_normal_priority_count := ms_normal_priority_count s3 + 1\<rparr>
                | PrioLow \<Rightarrow> s3\<lparr>ms_low_priority_count := ms_low_priority_count s3 + 1\<rparr>)"
  define s5 where "s5 = (case rm_status m of
           Delivered \<Rightarrow> s4\<lparr>ms_delivered_count := ms_delivered_count s4 + 1\<rparr>
         | Dropped \<Rightarrow> s4\<lparr>ms_dropped_count := ms_dropped_count s4 + 1\<rparr>
         | Expired \<Rightarrow> s4\<lparr>ms_expired_count := ms_expired_count s4 + 1\<rparr>
         | Routed \<Rightarrow> s4)"
  note steps = s5_def s4_def s3_def s2_def s1_def
  have done_: "count_message m i s = s5" by (simp only: count_message_def Let_def steps)
  have "tally s1 = (case tally s of (it, n, k, p, r, f) \<Rightarrow> (it, Suc n, k, p, r, f))"
    by (simp add: tally_def s1_def)
  moreover obtain dest where "dest \<le> 1" "tally s2 = (case tally s1 of (it, n, k, p, r, f) \<Rightarrow> (it, n, k, p, r + dest, f))"
    by (rule that [of "if rm_to m = ''leader'' \<or> rm_to m = ''broadcast'' then 1 else 0"]) (simp_all add: tally_def s2_def)
  moreover have "tally s3 = (case tally s2 of (it, n, k, p, r, f) \<Rightarrow> (it, n, Suc k, p, r, f))"
    by (cases "in_kind i") (simp_all add: tally_def s3_def)
  moreover have "tally s4 = (case tally s3 of (it, n, k, p, r, f) \<Rightarrow> (it, n, k, Suc p, r, f))"
    by (cases "in_priority i") (simp_all add: tally_def s4_def)
  moreover obtain fin where "fin \<le> 1" "tally s5 = (case tally s4 of (it, n, k, p, r, f) \<Rightarrow> (it, n, k, p, r, f + fin))"
    by (rule that [of "if rm_status m = Routed then 0 else 1"]; cases "rm_status m") (simp_all add: tally_def s5_def)
  ultimately show ?thesis unfolding done_ by (intro exI [of _ dest] exI [of _ fin]) (simp split: prod.splits)
qed

lemma stats_inv_step:
  assumes "stats_inv n st" "bt_get by_id (rm_intent_id m) = Some i"
  shows "stats_inv (Suc n) (stats_step by_id m st)"
proof -
  have "length (List.insert x xs) \<le> Suc (length xs)" for x :: string and xs
    by (simp add: List.insert_def)
  then have insert: "length xs \<le> n \<Longrightarrow> length (List.insert x xs) \<le> Suc n" for x :: string and xs
    using Suc_le_mono le_trans by blast
  show ?thesis
    using assms count_message_tally [of m i "sx_stats st"] by (auto simp: stats_inv_def stats_step_def Let_def insert)
qed

lemma stats_inv_fold:
  "stats_inv n st \<Longrightarrow>
   stats_inv (n + length (filter (\<lambda>m. bt_get by_id (rm_intent_id m) \<noteq> None) ms)) (fold (stats_step by_id) ms st)"
proof (induction ms arbitrary: n st)
  case Nil
  then show ?case by simp
next
  case (Cons m ms)
  show ?case
  proof (cases "bt_get by_id (rm_intent_id m)")
    case None
    with Cons show ?thesis by (simp add: stats_step_def)
  next
    case (Some i)
    from Cons.IH [OF stats_inv_step [OF Cons.prems Some]] Some show ?thesis by simp
  qed
qed

subsection \<open>Properties\<close>

text \<open>
  Normalisation keeps at most three intents and at most one broadcast, all with an identifier, a
  positive time to live and a summary; it stamps them with the emitting candidate and iteration,
  keeps their order, counts every other intent as rejected, and keeps nothing only when nothing is
  acceptable.
\<close>

theorem normalize_intents_limits:
  "let (valid, rejected) = normalize_intents c it intents in
     length valid \<le> 3 \<and> length valid + rejected = length intents
     \<and> length (filter (\<lambda>i. in_audience i = Broadcast) valid) \<le> 1
     \<and> list_all (\<lambda>i. acceptable i \<and> in_from_candidate_id i = c \<and> in_iteration i = it) valid
     \<and> subseq valid (map (\<lambda>i. i\<lparr>in_from_candidate_id := c, in_iteration := it\<rparr>) intents)
     \<and> (valid = []) = (\<not> list_ex acceptable intents)"
  using normalize_inv_result [of c it intents]
  by (simp add: normalize_intents_def normalize_inv_def Let_def)

text \<open>
  Merging sidecar and output intents keeps, for each combination of normalised payload, audience
  and iteration, exactly the first intent, sidecar intents first: no two kept intents agree on all
  three, every intent is represented, and only first occurrences are kept.
\<close>

theorem merge_and_dedup_first_occurrences:
  "let r = merge_and_dedup nt st sidecar out;
       key = (\<lambda>i :: communication_intent. (normalized_payload_key nt st (in_payload i), in_audience i, in_iteration i))
   in distinct (map key r) \<and> key ` set r = key ` set (sidecar @ out)
      \<and> list_all (\<lambda>x. find (\<lambda>y. key y = key x) (sidecar @ out) = Some x) r"
proof -
  define key where "key = (\<lambda>i :: communication_intent. (normalized_payload_key nt st (in_payload i), in_audience i, in_iteration i))"
  have eq: "message_dedup_key nt st i = message_dedup_key nt st j \<longleftrightarrow> key i = key j" for i j
    by (simp add: dedup_key_eq_iff key_def)
  let ?k = "message_dedup_key nt st" and ?r = "merge_and_dedup nt st sidecar out"
  have r: "distinct (map ?k ?r)" "?k ` set ?r = ?k ` set (sidecar @ out)"
    "\<forall>x \<in> set ?r. find (\<lambda>y. ?k y = ?k x) (sidecar @ out) = Some x"
    using dedup_fold [of "([], [])" ?k "sidecar @ out"] by (simp_all add: merge_and_dedup_def Let_def)
  from r(1) have "distinct (map key ?r)" by (auto simp: distinct_map inj_on_def eq)
  moreover have "key ` set ?r = key ` set (sidecar @ out)"
  proof (intro equalityI subsetI)
    fix x assume "x \<in> key ` set ?r"
    then obtain i where "i \<in> set ?r" "x = key i" by blast
    moreover from this r(2) obtain j where "j \<in> set (sidecar @ out)" "?k i = ?k j" by blast
    ultimately show "x \<in> key ` set (sidecar @ out)" using eq by blast
  next
    fix x assume "x \<in> key ` set (sidecar @ out)"
    then obtain i where "i \<in> set (sidecar @ out)" "x = key i" by blast
    moreover from this r(2) obtain j where "j \<in> set ?r" "?k i = ?k j" by (metis imageE imageI)
    ultimately show "x \<in> key ` set ?r" using eq by blast
  qed
  ultimately show ?thesis
    using r(3) unfolding eq key_def by (simp add: Let_def list_all_iff)
qed

text \<open>
  Every intent emitted in an iteration reaches the next one: once routed, an intent with its own
  identifier and a positive time to live is pending for delivery in the following iteration, whatever
  was recorded before it.
\<close>

theorem routed_intents_pending:
  assumes "distinct (map in_intent_id valid)"
    and "list_all (\<lambda>i. in_iteration i = it \<and> in_ttl_iterations i \<noteq> 0
          \<and> unat it + unat (in_ttl_iterations i) < 2 ^ 32) valid"
  shows "(\<lambda>i. (i, route_intent i)) ` set valid
    \<subseteq> set (pending_delivery_messages (intents @ valid) (messages @ route_intents valid) (it + 1))"
proof (intro subsetI, elim imageE)
  fix p i
  assume p: "p = (i, route_intent i)" and i: "i \<in> set valid"
  have it: "in_iteration i = it" and ttl: "in_ttl_iterations i \<noteq> 0"
      and small: "unat it + unat (in_ttl_iterations i) < 2 ^ 32"
    using assms(2) i by (auto simp: list_all_iff)
  have rm: "rm_intent_id (route_intent j) = in_intent_id j"
    "rm_delivery_iteration (route_intent j) = in_iteration j + 1" "rm_status (route_intent j) = Routed"
    "rm_message_id (route_intent j) = ''msg-'' @ in_intent_id j @ ''-'' @ audience_key (in_audience j)" for j
    by (cases "in_audience j"; simp add: route_intent_def audience_key_def)+
  have msg_eq: "rm_message_id (route_intent j) = rm_message_id (route_intent k) \<longleftrightarrow>
      in_intent_id j = in_intent_id k \<and> in_audience j = in_audience k" for j k
  proof
    assume "rm_message_id (route_intent j) = rm_message_id (route_intent k)"
    then have "in_intent_id j @ CHR ''-'' # audience_key (in_audience j)
        = in_intent_id k @ CHR ''-'' # audience_key (in_audience k)"
      by (simp add: rm)
    moreover have "CHR ''-'' \<notin> set (audience_key a)" for a
      by (cases a) (simp_all add: audience_key_def)
    ultimately show "in_intent_id j = in_intent_id k \<and> in_audience j = in_audience k"
      using split_last_sep audience_key_eq by blast
  qed (simp add: rm)
  have uniq: "j = i" if "j \<in> set valid" "in_intent_id j = in_intent_id i" for j
    using that i assms(1) by (auto simp: distinct_map inj_on_def)
  have "find (\<lambda>x. in_intent_id x = in_intent_id i) (rev valid) = Some i"
    using i uniq by (intro find_unique) auto
  moreover have "find (\<lambda>x. rm_message_id x = rm_message_id (route_intent i)) (rev (route_intents valid))
      = Some (route_intent i)"
    using i uniq msg_eq by (intro find_unique) (auto simp: route_intents_def)
  moreover have "it + 1 \<le> it + in_ttl_iterations i"
  proof -
    have pos: "0 < unat (in_ttl_iterations i)" using ttl by (simp add: unat_gt_0)
    have "unat (it + in_ttl_iterations i) = unat it + unat (in_ttl_iterations i)"
      using small unat_add_lem [of it "in_ttl_iterations i"] by simp
    moreover have "unat (it + 1) = unat it + 1"
      using small pos unat_add_lem [of it 1] by simp
    ultimately show ?thesis using pos by (simp add: word_le_nat_alt)
  qed
  ultimately show "p \<in> set (pending_delivery_messages (intents @ valid)
      (messages @ route_intents valid) (it + 1))"
    unfolding p pending_iff by (simp add: find_rev_append rm it del: rev_append)
qed

definition sample_intent :: communication_intent where
  "sample_intent = \<lparr>in_intent_id = ''i1'', in_from_candidate_id = ''candidate-1'', in_iteration = 0,
     in_kind = Signal, in_audience = Broadcast, in_payload = JObj [(''summary_text'', JStr ''s'')],
     in_priority = PrioNormal, in_ttl_iterations = 1, in_caused_by = None, in_context = None\<rparr>"

lemma routed_intents_pending_witness:
  "(sample_intent, route_intent sample_intent)
    \<in> set (pending_delivery_messages [sample_intent] (route_intents [sample_intent]) 1)"
  using routed_intents_pending [of "[sample_intent]" 0 "[]" "[]"] by (simp add: sample_intent_def)

text \<open>
  C28: A pending message is delivered once: after the records produced by materialising the inboxes of
  an iteration are appended to the message log, nothing is pending for that iteration any more.
\<close>

theorem delivery_happens_once:
  assumes "inboxes \<noteq> []"
  shows "pending_delivery_messages intents (messages
      @ concat (map snd (materialize_inbox_snapshots e it inboxes intents messages))) it = []"
proof (rule ccontr)
  let ?d = "concat (map snd (materialize_inbox_snapshots e it inboxes intents messages))"
  assume "\<not> ?thesis"
  then obtain i m where im: "(i, m) \<in> set (pending_delivery_messages intents (messages @ ?d) it)"
    by (metis list.set_intros(1) neq_Nil_conv surj_pair)
  note d = materialize_records [OF assms, of e it intents messages]
  from im have routed: "rm_status m = Routed"
    and last: "find (\<lambda>x. rm_message_id x = rm_message_id m) (rev (messages @ ?d)) = Some m"
    unfolding pending_iff by simp_all
  show False
  proof (cases "find (\<lambda>x. rm_message_id x = rm_message_id m) (rev ?d)")
    case None
    then have "(i, m) \<in> set (pending_delivery_messages intents messages it)"
      using im unfolding pending_iff find_rev_append by simp
    then have "m\<lparr>rm_status := Delivered\<rparr> \<in> set ?d" unfolding d by force
    with None show False by (auto simp: find_None_iff)
  next
    case (Some x)
    with last have "find (\<lambda>x. rm_message_id x = rm_message_id m) (rev ?d) = Some m"
      unfolding find_rev_append by simp
    from find_mem [OF this] have "m \<in> set ?d" unfolding set_rev by (rule conjunct1)
    with routed show False unfolding d by auto
  qed
qed

lemma delivery_happens_once_witness:
  "pending_delivery_messages [sample_intent] (route_intents [sample_intent] @
      concat (map snd (materialize_inbox_snapshots ''e'' 1 [candidate_inbox_new ''candidate-1'']
        [sample_intent] (route_intents [sample_intent])))) 1 = []"
  by (rule delivery_happens_once) simp

text \<open>
  What the planner sees is what is delivered: the inboxes built for planning an iteration and the
  snapshots materialised for them agree candidate by candidate, with the same summaries in the same
  order; the first candidate receives every pending message and the others the broadcasts only.
\<close>

theorem inboxes_agree_with_snapshots:
  assumes "0 < candidate_count"
  shows "let inboxes = build_candidate_inboxes it candidate_count intents messages;
      pending = pending_delivery_messages intents messages it
    in map (\<lambda>(s, _). (is_candidate_id s, map (\<lambda>e. summary_text (ie_payload e)) (is_entries s)))
         (materialize_inbox_snapshots e it inboxes intents messages)
       = map (\<lambda>b. (ci_candidate_id b, ci_messages b)) inboxes
     \<and> map ci_messages inboxes
       = map (\<lambda>(i, m). summary_text (in_payload i)) pending
         # replicate (candidate_count - 1) (map (\<lambda>(i, m). summary_text (in_payload i))
             (filter (\<lambda>(i, m). rm_to m = ''broadcast'') pending))"
proof -
  obtain n where n: "candidate_count = Suc n" using assms by (cases candidate_count) auto
  define name where "name idx = ''candidate-'' @ nat_to_string (idx + 1)" for idx
  define ps where "ps = pending_delivery_messages intents messages it"
  define bs where "bs = filter (\<lambda>(i :: communication_intent, m). rm_to m = ''broadcast'') ps"
  have upt: "[0 ..< candidate_count] = 0 # map Suc [0 ..< n]"
    by (simp add: n map_Suc_upt upt_conv_Cons del: upt_Suc)
  have inboxes: "build_candidate_inboxes it candidate_count intents messages
      = push_summaries ps (candidate_inbox_new (name 0))
        # map (\<lambda>idx. push_summaries bs (candidate_inbox_new (name (Suc idx)))) [0 ..< n]"
    unfolding build_candidate_inboxes_def ps_def [symmetric] name_def [symmetric] upt
    by (simp add: fold_inbox bs_def comp_def)
  have ent: "ie_payload (inbox_entry_of i m) = in_payload i" for i m by (simp add: inbox_entry_of_def)
  have rep: "map (\<lambda>_. c) [0 ..< k] = replicate k c" for c :: "string list" and k
    by (simp add: map_replicate_trivial map_replicate_const)
  show ?thesis
    unfolding Let_def inboxes ps_def [symmetric] bs_def [symmetric]
    by (simp add: materialize_inbox_snapshots_def ps_def [symmetric] fold_deliver bs_def [symmetric]
        push_all_def push_summaries_def candidate_inbox_new_def comp_def split_beta ent n rep)
qed

lemma inboxes_agree_with_snapshots_witness:
  "map ci_messages (build_candidate_inboxes 1 2 [sample_intent] (route_intents [sample_intent]))
     = map (\<lambda>(s, _). map (\<lambda>e. summary_text (ie_payload e)) (is_entries s))
         (materialize_inbox_snapshots ''e'' 1
            (build_candidate_inboxes 1 2 [sample_intent] (route_intents [sample_intent]))
            [sample_intent] (route_intents [sample_intent]))"
proof -
  from inboxes_agree_with_snapshots [of 2 1 "[sample_intent]" "route_intents [sample_intent]" "''e''"]
  have "map snd (map (\<lambda>(s, _). (is_candidate_id s, map (\<lambda>e. summary_text (ie_payload e)) (is_entries s)))
      (materialize_inbox_snapshots ''e'' 1
        (build_candidate_inboxes 1 2 [sample_intent] (route_intents [sample_intent]))
        [sample_intent] (route_intents [sample_intent])))
    = map snd (map (\<lambda>b. (ci_candidate_id b, ci_messages b))
        (build_candidate_inboxes 1 2 [sample_intent] (route_intents [sample_intent])))"
    by (simp only: Let_def zero_less_numeral HOL.simp_thms)
  from this [symmetric] show ?thesis by (simp add: comp_def split_beta)
qed

text \<open>
  The message statistics of an iteration are consistent: the kinds and the priorities each add up
  to the total, which counts the records of that iteration whose intent is known; addressed and
  settled messages, distinct sources and distinct intents are at most the total.
\<close>

theorem message_stats_consistent:
  "let s = extract_message_stats intents messages it in
     ms_iteration s = it
     \<and> ms_total_messages s = length (filter (\<lambda>m. rm_delivery_iteration m = it
          \<and> bt_get (intents_by_id intents) (rm_intent_id m) \<noteq> None) messages)
     \<and> ms_proposal_count s + ms_signal_count s + ms_evaluation_count s = ms_total_messages s
     \<and> ms_high_priority_count s + ms_normal_priority_count s + ms_low_priority_count s = ms_total_messages s
     \<and> ms_leader_messages s + ms_broadcast_messages s \<le> ms_total_messages s
     \<and> ms_delivered_count s + ms_dropped_count s + ms_expired_count s \<le> ms_total_messages s
     \<and> ms_unique_sources s \<le> ms_total_messages s \<and> ms_unique_intent_count s \<le> ms_total_messages s"
proof -
  define init where "init = \<lparr>sx_stats = message_stats_default\<lparr>ms_iteration := it\<rparr>,
      sx_sources = [], sx_intents = []\<rparr>"
  have "stats_inv 0 init" by (simp add: init_def stats_inv_def message_stats_default_def)
  note inv = stats_inv_fold [OF this, of "intents_by_id intents"
      "filter (\<lambda>m. rm_delivery_iteration m = it) messages"]
  have it: "ms_iteration (sx_stats (stats_step by_id m st)) = ms_iteration (sx_stats st)" for by_id m st
    using count_message_tally [of m _ "sx_stats st"] by (auto simp: stats_step_def split: option.split)
  have "ms_iteration (sx_stats (fold (stats_step by_id) ms st)) = ms_iteration (sx_stats st)" for by_id ms st
    by (induction ms arbitrary: st) (simp_all add: it)
  then show ?thesis
    using inv by (simp add: extract_message_stats_def init_def [symmetric] stats_inv_def Let_def conj_commute)
      (simp add: init_def)
qed

text \<open>
  Identifiers of intents must be unique across the candidates of an iteration, and nothing
  enforces it: of two different intents with the same identifier and audience, the earlier one is
  routed but is never pending, so it is lost.
\<close>

theorem duplicate_intent_id_lost:
  assumes "in_intent_id i = in_intent_id j" and "in_audience i = in_audience j" and "i \<noteq> j"
  shows "length (route_intents [i, j]) = 2
    \<and> (i, m) \<notin> set (pending_delivery_messages [i, j] (route_intents [i, j]) n)"
  using assms by (simp add: pending_iff route_intents_def find_rev_append)

lemma duplicate_intent_id_lost_witness:
  "(sample_intent, route_intent sample_intent) \<notin> set (pending_delivery_messages
      [sample_intent, sample_intent\<lparr>in_from_candidate_id := ''candidate-2''\<rparr>]
      (route_intents [sample_intent, sample_intent\<lparr>in_from_candidate_id := ''candidate-2''\<rparr>]) 1)"
  using duplicate_intent_id_lost [of sample_intent "sample_intent\<lparr>in_from_candidate_id := ''candidate-2''\<rparr>"
      "route_intent sample_intent" 1]
  by (simp add: sample_intent_def)

end
