(* ===== verification/Store_Codec.thy ===== *)
theory Store_Codec
  imports Types
begin

text \<open>
  The encodings of maps and lists in the store's text files when the crate is built without
  \<open>serde\<close> (the local \<open>serde_json\<close> module of \<open>src/orchestration/store/fs.rs\<close>), and the contract that
  the store needs from any encoding. Lemmas: escaping is undone by unescaping, escaped separators do
  not split, and maps come back as they were written.
\<close>

subsection \<open>What the store needs of an encoding\<close>

locale line_codec =
  fixes enc :: "'a \<Rightarrow> string + string" and dec :: "string \<Rightarrow> string + 'a" and ok :: "'a \<Rightarrow> bool"
  assumes enc_total: "ok x \<Longrightarrow> \<exists>s. enc x = Inr s \<and> line_safe s"
    and dec_enc: "ok x \<Longrightarrow> enc x = Inr s \<Longrightarrow> dec s = Inr x"
begin

lemma enc_inj: "ok x \<Longrightarrow> ok y \<Longrightarrow> enc x = enc y \<Longrightarrow> x = y"
  by (metis enc_total dec_enc Inr_inject)

lemma obtain_enc:
  assumes "ok x"
  obtains s where "enc x = Inr s" "dec s = Inr x" "nl \<notin> set s" "line_safe s"
proof -
  from enc_total [OF assms] obtain s where "enc x = Inr s" "line_safe s" by blast
  with dec_enc [OF assms] show thesis by (intro that [of s]) (simp_all add: line_safe_def)
qed

end

subsection \<open>Escaping\<close>

abbreviation backslash :: char where "backslash \<equiv> CHR 0x5C"
abbreviation tab :: char where "tab \<equiv> CHR 0x09"

definition escape_char :: "char \<Rightarrow> string" where
  "escape_char c =
     (if c = backslash then [backslash, backslash]
      else if c = CHR '';'' then [backslash, CHR '';'']
      else if c = CHR ''='' then [backslash, CHR ''='']
      else if c = nl then [backslash, CHR ''n'']
      else if c = cr then [backslash, CHR ''r'']
      else if c = tab then [backslash, CHR ''t'']
      else [c])"

definition escape :: "string \<Rightarrow> string" where
  "escape s = concat (map escape_char s)"

definition unescape_char :: "char \<Rightarrow> char" where
  "unescape_char c =
     (if c = CHR ''n'' then nl else if c = CHR ''r'' then cr else if c = CHR ''t'' then tab else c)"

fun unescape_from :: "bool \<Rightarrow> string \<Rightarrow> string + string" where
  "unescape_from escaped [] = (if escaped then Inl ''dangling escape sequence'' else Inr [])"
| "unescape_from True (c # cs) = map_ok (\<lambda>r. unescape_char c # r) (unescape_from False cs)"
| "unescape_from False (c # cs) =
     (if c = backslash then unescape_from True cs else map_ok (\<lambda>r. c # r) (unescape_from False cs))"

definition unescape :: "string \<Rightarrow> string + string" where
  "unescape s = unescape_from False s"

text \<open>The loop of \<open>split_escaped\<close>: the current piece, whether the last character was a backslash.\<close>

fun split_escaped_from :: "char \<Rightarrow> string \<Rightarrow> bool \<Rightarrow> string \<Rightarrow> string list" where
  "split_escaped_from sep current escaped [] = [if escaped then current @ [backslash] else current]"
| "split_escaped_from sep current True (c # cs) =
     split_escaped_from sep (current @ [backslash, c]) False cs"
| "split_escaped_from sep current False (c # cs) =
     (if c = backslash then split_escaped_from sep current True cs
      else if c = sep then current # split_escaped_from sep [] False cs
      else split_escaped_from sep (current @ [c]) False cs)"

definition split_escaped :: "string \<Rightarrow> char \<Rightarrow> string list" where
  "split_escaped s sep = split_escaped_from sep [] False s"

record split_once_state =
  so_left :: string
  so_right :: string
  so_escaped :: bool
  so_seen :: bool

definition so_push :: "string \<Rightarrow> split_once_state \<Rightarrow> split_once_state" where
  "so_push cs st = (if so_seen st then st\<lparr>so_right := so_right st @ cs\<rparr> else st\<lparr>so_left := so_left st @ cs\<rparr>)"

definition split_once_step :: "char \<Rightarrow> char \<Rightarrow> split_once_state \<Rightarrow> split_once_state" where
  "split_once_step sep c st =
     (if so_escaped st then (so_push [backslash, c] st)\<lparr>so_escaped := False\<rparr>
      else if c = backslash then st\<lparr>so_escaped := True\<rparr>
      else if c = sep \<and> \<not> so_seen st then st\<lparr>so_seen := True\<rparr>
      else so_push [c] st)"

definition split_once_escaped :: "string \<Rightarrow> char \<Rightarrow> (string \<times> string) option" where
  "split_once_escaped s sep =
     (let st = fold (split_once_step sep) s
                 \<lparr>so_left = [], so_right = [], so_escaped = False, so_seen = False\<rparr>
      in if so_seen st then Some (so_left st, so_right st) else None)"

subsection \<open>Maps and lists\<close>

fun join_semi :: "string list \<Rightarrow> string" where
  "join_semi [] = []"
| "join_semi [x] = x"
| "join_semi (x # y # ys) = x @ CHR '';'' # join_semi (y # ys)"

definition encode_map_string :: "(string, string) btree \<Rightarrow> string" where
  "encode_map_string m = join_semi (map (\<lambda>(k, v). escape k @ CHR ''='' # escape v) m)"

definition encode_map_f64 :: "(f64 \<Rightarrow> string) \<Rightarrow> (string, f64) btree \<Rightarrow> string" where
  "encode_map_f64 fmt_f64 m = join_semi (map (\<lambda>(k, v). escape k @ CHR ''='' # fmt_f64 v) m)"

definition encode_list :: "string list \<Rightarrow> string" where
  "encode_list xs = join_semi (map escape xs)"

text \<open>One round of the decoding loop: \<open>unescape(&key)?\<close> and the value, in the order of the source.\<close>

definition decode_entry_string :: "string \<Rightarrow> string + (string \<times> string)" where
  "decode_entry_string pair =
     (case split_once_escaped pair (CHR ''='') of
        None \<Rightarrow> Inl (''invalid encoded map entry '' @ squoted pair)
      | Some (k, v) \<Rightarrow> res_bind (unescape k) (\<lambda>k'. res_bind (unescape v) (\<lambda>v'. Inr (k', v'))))"

definition decode_entry_f64 :: "(string \<Rightarrow> string + f64) \<Rightarrow> string \<Rightarrow> string + (string \<times> f64)" where
  "decode_entry_f64 parse_f64 pair =
     (case split_once_escaped pair (CHR ''='') of
        None \<Rightarrow> Inl (''invalid encoded map entry '' @ squoted pair)
      | Some (k, v) \<Rightarrow> res_bind (unescape v) (\<lambda>v'. res_bind (parse_f64 v') (\<lambda>f.
          res_bind (unescape k) (\<lambda>k'. Inr (k', f)))))"

definition decode_map_string :: "string \<Rightarrow> string + (string, string) btree" where
  "decode_map_string s =
     (if s = [] then Inr []
      else map_ok bt_of_list (res_map decode_entry_string (split_escaped s (CHR '';''))))"

definition decode_map_f64 :: "(string \<Rightarrow> string + f64) \<Rightarrow> string \<Rightarrow> string + (string, f64) btree" where
  "decode_map_f64 parse_f64 s =
     (if s = [] then Inr []
      else map_ok bt_of_list (res_map (decode_entry_f64 parse_f64) (split_escaped s (CHR '';''))))"

definition decode_list :: "string \<Rightarrow> string + string list" where
  "decode_list s = (if s = [] then Inr [] else res_map unescape (split_escaped s (CHR '';'')))"

subsection \<open>Lemmas\<close>

lemma escape_Cons [simp]: "escape (c # s) = escape_char c @ escape s"
  by (simp add: escape_def)

lemma escape_Nil [simp]: "escape [] = []"
  by (simp add: escape_def)

lemma unescape_escape_char:
  "unescape_from False (escape_char c @ s) = map_ok (\<lambda>r. c # r) (unescape_from False s)"
  by (simp add: escape_char_def unescape_char_def)

lemma unescape_escape [simp]: "unescape (escape s) = Inr s"
  by (induction s) (simp_all add: unescape_def unescape_escape_char)

lemma escape_plain: "nl \<notin> set (escape s)" "cr \<notin> set (escape s)"
  by (induction s) (auto simp: escape_char_def)

lemma split_escaped_escape:
  assumes "sep = CHR '';'' \<or> sep = CHR ''=''"
  shows "split_escaped_from sep cur False (escape s @ t) = split_escaped_from sep (cur @ escape s) False t"
  using assms by (induction s arbitrary: cur) (auto simp: escape_char_def)

lemma split_once_escape:
  assumes "sep = CHR '';'' \<or> sep = CHR ''=''" "\<not> so_escaped st"
  shows "fold (split_once_step sep) (escape s) st = so_push (escape s) st"
  using assms(2)
proof (induction s arbitrary: st)
  case Nil
  then show ?case by (simp add: so_push_def)
next
  case (Cons c s)
  have "fold (split_once_step sep) (escape_char c) st = so_push (escape_char c) st"
    using assms(1) Cons.prems by (auto simp: escape_char_def split_once_step_def so_push_def)
  then show ?case
    using Cons.IH [of "so_push (escape_char c) st"] Cons.prems by (simp add: so_push_def)
qed

text \<open>A value that the entry and list separators cannot cut.\<close>

definition sep_free :: "string \<Rightarrow> bool" where
  "sep_free v = (backslash \<notin> set v \<and> CHR '';'' \<notin> set v \<and> nl \<notin> set v \<and> cr \<notin> set v)"

lemma sep_free_right:
  assumes "sep_free v" "so_seen st" "\<not> so_escaped st"
  shows "fold (split_once_step sep) v st = st\<lparr>so_right := so_right st @ v\<rparr>"
  using assms
proof (induction v arbitrary: st)
  case Nil
  then show ?case by simp
next
  case (Cons c v)
  have "split_once_step sep c st = st\<lparr>so_right := so_right st @ [c]\<rparr>"
    using Cons.prems by (auto simp: split_once_step_def so_push_def sep_free_def)
  with Cons.IH [of "st\<lparr>so_right := so_right st @ [c]\<rparr>"] Cons.prems show ?case
    by (simp add: sep_free_def)
qed

lemma split_once_entry: "split_once_escaped (escape k @ CHR ''='' # escape v) (CHR ''='') = Some (escape k, escape v)"
  by (simp add: split_once_escaped_def split_once_escape so_push_def) (simp add: split_once_step_def split_once_escape so_push_def)

lemma split_once_entry_free:
  "sep_free v \<Longrightarrow> split_once_escaped (escape k @ CHR ''='' # v) (CHR ''='') = Some (escape k, v)"
  by (simp add: split_once_escaped_def split_once_escape so_push_def) (simp add: split_once_step_def sep_free_right)

lemma split_escaped_free:
  "sep_free v \<Longrightarrow> split_escaped_from (CHR '';'') cur False (v @ t) = split_escaped_from (CHR '';'') (cur @ v) False t"
  by (induction v arbitrary: cur) (auto simp: sep_free_def)

lemma split_entry:
  assumes "sep_free v"
  shows "split_escaped_from (CHR '';'') [] False (escape k @ CHR ''='' # v @ t)
    = split_escaped_from (CHR '';'') (escape k @ CHR ''='' # v) False t"
  by (simp add: split_escaped_escape split_escaped_free [OF assms])

lemma split_entry_esc:
  "split_escaped_from (CHR '';'') [] False (escape k @ CHR ''='' # escape v @ t)
    = split_escaped_from (CHR '';'') (escape k @ CHR ''='' # escape v) False t"
  by (simp add: split_escaped_escape)

text \<open>Pieces that are consumed whole are given back by splitting their join.\<close>

lemma split_join_semi:
  assumes "\<forall>x \<in> set xs. \<forall>t. split_escaped_from (CHR '';'') [] False (x @ t) = split_escaped_from (CHR '';'') x False t"
    and "xs \<noteq> []"
  shows "split_escaped (join_semi xs) (CHR '';'') = xs"
  using assms unfolding split_escaped_def
proof (induction xs rule: join_semi.induct)
  case 1
  then show ?case by simp
next
  case (2 x)
  then have "split_escaped_from (CHR '';'') [] False (x @ []) = split_escaped_from (CHR '';'') x False []"
    by (simp only: list.set_intros)
  then show ?case by simp
next
  case (3 x y ys)
  then have "split_escaped_from (CHR '';'') [] False (x @ CHR '';'' # join_semi (y # ys))
      = split_escaped_from (CHR '';'') x False (CHR '';'' # join_semi (y # ys))" by simp
  with 3 show ?case by simp
qed

lemma join_semi_ne: "xs \<noteq> [] \<Longrightarrow> \<forall>x \<in> set xs. x \<noteq> [] \<Longrightarrow> join_semi xs \<noteq> []"
  by (induction xs rule: join_semi.induct) auto

lemma join_semi_plain: "\<forall>x \<in> set xs. c \<notin> set x \<Longrightarrow> c \<noteq> CHR '';'' \<Longrightarrow> c \<notin> set (join_semi xs)"
  by (induction xs rule: join_semi.induct) auto

lemma decode_encode_map_string: "bt_wf m \<Longrightarrow> decode_map_string (encode_map_string m) = Inr m"
proof (cases "m = []")
  case True
  then show ?thesis by (simp add: encode_map_string_def decode_map_string_def)
next
  case False
  assume wf: "bt_wf m"
  define f where "f = (\<lambda>(k, v). escape k @ CHR ''='' # escape v)"
  have "split_escaped (join_semi (map f m)) (CHR '';'') = map f m"
    by (rule split_join_semi) (auto simp: f_def split_entry_esc False)
  moreover have "join_semi (map f m) \<noteq> []" by (rule join_semi_ne) (auto simp: f_def False)
  moreover have "res_map decode_entry_string (map f m) = Inr m"
  proof -
    have "res_map decode_entry_string (map f xs) = Inr xs" for xs
      by (induction xs) (auto simp: f_def decode_entry_string_def split_once_entry)
    then show ?thesis .
  qed
  ultimately show ?thesis
    using wf by (simp add: decode_map_string_def encode_map_string_def f_def [symmetric])
qed

lemma encode_map_string_plain: "line_safe (encode_map_string m)"
proof -
  have "nl \<notin> set (encode_map_string m)" "cr \<notin> set (encode_map_string m)"
    unfolding encode_map_string_def by (rule join_semi_plain; auto simp: escape_plain)+
  then show ?thesis by (auto simp: line_safe_def dest: last_in_set)
qed

interpretation map_codec: line_codec "\<lambda>m. Inr (encode_map_string m)" decode_map_string bt_wf
  by unfold_locales (auto simp: encode_map_string_plain decode_encode_map_string)

text \<open>
  Floats are printed and parsed by the standard library: what is relied on is that the printed text of
  a value is read back as that value and has no separator in it.
\<close>

definition float_text :: "(f64 \<Rightarrow> string) \<Rightarrow> (string \<Rightarrow> string + f64) \<Rightarrow> bool" where
  "float_text fmt_f64 parse_f64 = (\<forall>v. parse_f64 (fmt_f64 v) = Inr v \<and> sep_free (fmt_f64 v))"

lemma decode_encode_map_f64:
  assumes "float_text fmt_f64 parse_f64"
  shows "bt_wf m \<Longrightarrow> decode_map_f64 parse_f64 (encode_map_f64 fmt_f64 m) = Inr m"
proof (cases "m = []")
  case True
  then show ?thesis by (simp add: encode_map_f64_def decode_map_f64_def)
next
  case False
  assume wf: "bt_wf m"
  have parse_fmt: "parse_f64 (fmt_f64 v) = Inr v" and fmt_free: "sep_free (fmt_f64 v)" for v
    using assms by (simp_all add: float_text_def)
  have plain: "unescape (fmt_f64 v) = Inr (fmt_f64 v)" for v
  proof -
    have "backslash \<notin> set s \<Longrightarrow> unescape_from False s = Inr s" for s by (induction s) auto
    then show ?thesis using fmt_free by (simp add: unescape_def sep_free_def)
  qed
  define f where "f = (\<lambda>(k, v). escape k @ CHR ''='' # fmt_f64 v)"
  have "split_escaped (join_semi (map f m)) (CHR '';'') = map f m"
    by (rule split_join_semi) (auto simp: f_def split_entry fmt_free False)
  moreover have "join_semi (map f m) \<noteq> []" by (rule join_semi_ne) (auto simp: f_def False)
  moreover have "res_map (decode_entry_f64 parse_f64) (map f xs) = Inr xs" for xs
    by (induction xs) (auto simp: f_def decode_entry_f64_def split_once_entry_free fmt_free plain parse_fmt)
  ultimately show ?thesis
    using wf by (simp add: decode_map_f64_def encode_map_f64_def f_def [symmetric])
qed

lemma escape_char_ne [simp]: "escape_char c \<noteq> []"
  by (simp add: escape_char_def)

lemma escape_Nil_iff [simp]: "escape s = [] \<longleftrightarrow> s = []"
  by (cases s) simp_all

lemma join_semi_Nil_iff: "join_semi xs = [] \<longleftrightarrow> xs = [] \<or> xs = [[]]"
  by (cases xs rule: join_semi.cases) auto

subsection \<open>Properties\<close>

text \<open>
  Candidate overrides and metrics written in the local encoding are read back unchanged, whatever
  characters they contain (separators, backslashes, line breaks), provided the standard library
  reads back the floats it prints; and an encoded map of strings always fits on one line.
\<close>

theorem map_encoding_roundtrip:
  assumes "bt_wf overrides" and "bt_wf metrics" and "float_text fmt_f64 parse_f64"
  shows "decode_map_string (encode_map_string overrides) = Inr overrides
    \<and> decode_map_f64 parse_f64 (encode_map_f64 fmt_f64 metrics) = Inr metrics
    \<and> line_safe (encode_map_string overrides)"
  using assms decode_encode_map_f64 by (simp add: encode_map_string_plain decode_encode_map_string)

text \<open>A printing of floats that satisfies the law: the numerator and denominator in decimal.\<close>

definition neg_text :: "int \<Rightarrow> string" where
  "neg_text i = (if i < 0 then CHR ''-'' # nat_to_string (nat (- i)) else CHR ''+'' # nat_to_string (nat i))"

definition read_int :: "string \<Rightarrow> int" where
  "read_int s = (case parse_digits 0 (tl s) of None \<Rightarrow> 0
     | Some n \<Rightarrow> if hd s = CHR ''-'' then - int n else int n)"

fun rat_text :: "f64 \<Rightarrow> string" where
  "rat_text NaN = ''NaN''"
| "rat_text PInf = ''inf''"
| "rat_text NInf = ''-inf''"
| "rat_text (Fin r) = neg_text (fst (quotient_of r)) @ ''/'' @ neg_text (snd (quotient_of r))"

definition read_rat :: "string \<Rightarrow> string + f64" where
  "read_rat s =
     (if s = ''NaN'' then Inr NaN else if s = ''inf'' then Inr PInf else if s = ''-inf'' then Inr NInf
      else case split_once (CHR ''/'') s of
        None \<Rightarrow> Inl ''invalid float literal''
      | Some (p, q) \<Rightarrow> Inr (Fin (Fract (read_int p) (read_int q))))"

lemma read_neg_text: "read_int (neg_text i) = i"
  by (simp add: read_int_def neg_text_def)

lemma neg_text_chars: "c \<in> set (neg_text i) \<Longrightarrow> c \<in> {CHR ''+'', CHR ''-''} \<or> (\<exists>d<10. c = digit_char d)"
  by (auto simp: neg_text_def dest!: nat_to_string_chars split: if_splits)

lemma digit_chars_ne: "d < 10 \<Longrightarrow> digit_char d \<notin> {CHR ''/'', CHR '';'', backslash, nl, cr, CHR ''i''}"
  by (drule digit_cases) (auto simp: digit_char_def)

lemma rat_text_law: "float_text rat_text read_rat"
proof -
  have ch: "c \<notin> set (neg_text i)" if "c \<in> {CHR ''/'', CHR '';'', backslash, nl, cr, CHR ''i''}" for c i
  proof
    assume "c \<in> set (neg_text i)"
    from neg_text_chars [OF this] show False
    proof
      assume "c \<in> {CHR ''+'', CHR ''-''}"
      with that show False by auto
    next
      assume "\<exists>d<10. c = digit_char d"
      with that digit_chars_ne show False by metis
    qed
  qed
  have slash: "CHR ''/'' \<in> set (rat_text (Fin r))" for r by simp
  have "read_rat (rat_text (Fin r)) = Inr (Fin r)" for r
  proof -
    have "rat_text (Fin r) \<notin> {''NaN'', ''inf'', ''-inf''}"
    proof
      assume "rat_text (Fin r) \<in> {''NaN'', ''inf'', ''-inf''}"
      then consider "rat_text (Fin r) = ''NaN''" | "rat_text (Fin r) = ''inf''" | "rat_text (Fin r) = ''-inf''"
        by blast
      then show False using slash [of r] by cases (simp_all only: list.set, simp_all)
    qed
    moreover have "split_once (CHR ''/'') (rat_text (Fin r))
        = Some (neg_text (fst (quotient_of r)), neg_text (snd (quotient_of r)))"
      using split_once_sep [OF ch [of "CHR ''/''"]] by simp
    moreover have "Fract (fst (quotient_of r)) (snd (quotient_of r)) = r"
      using quotient_of_div [of r "fst (quotient_of r)" "snd (quotient_of r)"]
      by (simp add: Fract_of_int_quotient)
    ultimately show ?thesis by (simp add: read_rat_def read_neg_text)
  qed
  moreover have "sep_free (rat_text (Fin r))" for r
    using ch by (simp add: sep_free_def)
  ultimately have "read_rat (rat_text v) = Inr v \<and> sep_free (rat_text v)" for v
    by (cases v) (simp_all add: read_rat_def sep_free_def)
  then show ?thesis by (simp add: float_text_def)
qed

lemma map_encoding_roundtrip_witness:
  "decode_map_string (encode_map_string [(''a;b'', ''x=y''), (''c'', [])]) = Inr [(''a;b'', ''x=y''), (''c'', [])]
   \<and> decode_map_f64 read_rat (encode_map_f64 rat_text [(''m'', Fin (1 / 3))]) = Inr [(''m'', Fin (1 / 3))]"
  using map_encoding_roundtrip [of "[(''a;b'', ''x=y''), (''c'', [])]" "[(''m'', Fin (1 / 3))]", OF _ _ rat_text_law]
  by (simp add: bt_wf_def)

text \<open>
  A list written in the local encoding is read back exactly unless it is the list of one empty
  string, which is written like the empty list and read back as such.
\<close>

theorem list_encoding_roundtrip_iff:
  "decode_list (encode_list xs) = Inr xs \<longleftrightarrow> xs \<noteq> [[]]"
proof (cases "encode_list xs = []")
  case True
  then have "xs = [] \<or> xs = [[]]" by (auto simp: encode_list_def join_semi_Nil_iff map_eq_Cons_conv)
  with True show ?thesis by (auto simp: decode_list_def)
next
  case False
  then have ne: "xs \<noteq> []" "xs \<noteq> [[]]" by (auto simp: encode_list_def)
  have "split_escaped (join_semi (map escape xs)) (CHR '';'') = map escape xs"
    by (rule split_join_semi) (auto simp: split_escaped_escape ne)
  moreover have "res_map unescape (map escape ys) = Inr ys" for ys by (induction ys) simp_all
  ultimately show ?thesis using False ne by (simp add: decode_list_def encode_list_def)
qed

end
