(* ===== verification/Store.thy ===== *)
theory Store
  imports Store_Codec Message_Box
begin

text \<open>
  The file store (\<open>src/orchestration/store/fs.rs\<close>). The file system is a map from execution ids to
  the files of their directories, each file its contents; operations take and return it. What can
  fail is a missing directory or file and contents that do not parse; other failures of the disk are
  not modelled, and ids are plain names (no path separators). Encodings of maps, intents, messages,
  snapshots and specifications are the fields of a \<open>codec\<close>. Lemmas: what is saved is loaded back,
  event logs grow by exactly the appended event, torn log tails.
\<close>

record codec =
  cx_map_enc :: "(string, string) btree \<Rightarrow> string + string"
  cx_map_dec :: "string \<Rightarrow> string + (string, string) btree"
  cx_metrics_enc :: "(string, f64) btree \<Rightarrow> string + string"
  cx_metrics_dec :: "string \<Rightarrow> string + (string, f64) btree"
  cx_intent_enc :: "communication_intent \<Rightarrow> string + string"
  cx_intent_dec :: "string \<Rightarrow> string + communication_intent"
  cx_message_enc :: "routed_message \<Rightarrow> string + string"
  cx_message_dec :: "string \<Rightarrow> string + routed_message"
  cx_snapshot_enc :: "inbox_snapshot \<Rightarrow> string + string"
  cx_snapshot_dec :: "string \<Rightarrow> string + inbox_snapshot"
  cx_spec_enc :: "execution_spec \<Rightarrow> string + string"
  cx_spec_dec :: "string \<Rightarrow> string + execution_spec"

record exec_dir =
  xd_execution :: "string option"
  xd_events :: "string option"
  xd_accumulator :: "string option"
  xd_claim :: "string option"
  xd_spec :: "string option"
  xd_intents :: "string option"
  xd_messages :: "string option"
  xd_candidates :: "(string, string) btree option"
  xd_inboxes :: "(string, string) btree"

definition empty_dir :: exec_dir where
  "empty_dir = \<lparr>xd_execution = None, xd_events = None, xd_accumulator = None, xd_claim = None,
     xd_spec = None, xd_intents = None, xd_messages = None, xd_candidates = None, xd_inboxes = []\<rparr>"

type_synonym store_fs = "(string, exec_dir) btree"

subsection \<open>File system operations\<close>

definition not_found :: io_error where
  "not_found = io_err NotFound ''No such file or directory (os error 2)''"

definition invalid_data :: "string \<Rightarrow> io_error" where
  "invalid_data m = io_err InvalidData m"

definition create_dir_all :: "string \<Rightarrow> store_fs \<Rightarrow> store_fs" where
  "create_dir_all xid fs = (case bt_get fs xid of None \<Rightarrow> bt_insert xid empty_dir fs | Some _ \<Rightarrow> fs)"

definition write_dir :: "string \<Rightarrow> (exec_dir \<Rightarrow> exec_dir) \<Rightarrow> store_fs \<Rightarrow> (io_error + unit) \<times> store_fs" where
  "write_dir xid f fs =
     (case bt_get fs xid of None \<Rightarrow> (Inl not_found, fs) | Some d \<Rightarrow> (Inr (), bt_insert xid (f d) fs))"

definition read_file :: "string \<Rightarrow> (exec_dir \<Rightarrow> string option) \<Rightarrow> store_fs \<Rightarrow> io_error + string" where
  "read_file xid f fs = ok_or not_found (Option.bind (bt_get fs xid) f)"

subsection \<open>Names of statuses\<close>

fun status_to_str :: "execution_status \<Rightarrow> string" where
  "status_to_str ExPending = ''Pending''"
| "status_to_str ExRunning = ''Running''"
| "status_to_str ExPaused = ''Paused''"
| "status_to_str ExCompleted = ''Completed''"
| "status_to_str ExFailed = ''Failed''"
| "status_to_str ExCanceled = ''Canceled''"

fun candidate_status_to_str :: "candidate_status \<Rightarrow> string" where
  "candidate_status_to_str CaQueued = ''Queued''"
| "candidate_status_to_str CaRunning = ''Running''"
| "candidate_status_to_str CaCompleted = ''Completed''"
| "candidate_status_to_str CaFailed = ''Failed''"
| "candidate_status_to_str CaCanceled = ''Canceled''"

fun worker_review_status_to_str :: "worker_review_status \<Rightarrow> string" where
  "worker_review_status_to_str PendingReview = ''PendingReview''"
| "worker_review_status_to_str Approved = ''Approved''"
| "worker_review_status_to_str RevisionRequested = ''RevisionRequested''"
| "worker_review_status_to_str RetryRequested = ''RetryRequested''"
| "worker_review_status_to_str Rejected = ''Rejected''"

definition str_to_status :: "string \<Rightarrow> io_error + execution_status" where
  "str_to_status v =
     (if v = ''Pending'' then Inr ExPending else if v = ''Running'' then Inr ExRunning
      else if v = ''Paused'' then Inr ExPaused else if v = ''Completed'' then Inr ExCompleted
      else if v = ''Failed'' then Inr ExFailed else if v = ''Canceled'' then Inr ExCanceled
      else Inl (invalid_data (''unknown execution status '' @ squoted v)))"

definition str_to_candidate_status :: "string \<Rightarrow> io_error + candidate_status" where
  "str_to_candidate_status v =
     (if v = ''Queued'' then Inr CaQueued else if v = ''Running'' then Inr CaRunning
      else if v = ''Completed'' then Inr CaCompleted else if v = ''Failed'' then Inr CaFailed
      else if v = ''Canceled'' then Inr CaCanceled
      else Inl (invalid_data (''unknown candidate status '' @ squoted v)))"

definition str_to_worker_review_status :: "string \<Rightarrow> io_error + worker_review_status" where
  "str_to_worker_review_status v =
     (if v = ''PendingReview'' then Inr PendingReview else if v = ''Approved'' then Inr Approved
      else if v = ''RevisionRequested'' then Inr RevisionRequested
      else if v = ''RetryRequested'' then Inr RetryRequested
      else if v = ''Rejected'' then Inr Rejected
      else Inl (invalid_data (''unknown worker review status '' @ squoted v)))"

subsection \<open>Text files\<close>

fun join_nl :: "string list \<Rightarrow> string" where
  "join_nl [] = []"
| "join_nl [x] = x"
| "join_nl (x # y # ys) = x @ nl # join_nl (y # ys)"

text \<open>
  \<open>required_line\<close> and \<open>optional_line\<close> take the lines one after the other, so the n-th call sees
  the n-th line.
\<close>

definition required_line :: "string list \<Rightarrow> nat \<Rightarrow> string \<Rightarrow> io_error + string" where
  "required_line ls n name = (if n < length ls then Inr (ls ! n) else Inl (invalid_data (''missing '' @ name)))"

definition optional_line :: "string list \<Rightarrow> nat \<Rightarrow> string option" where
  "optional_line ls n = (if n < length ls then Some (ls ! n) else None)"

definition non_empty :: "string option \<Rightarrow> string option" where
  "non_empty v = (if v = Some [] then None else v)"

definition parse_or_default :: "(string \<Rightarrow> string + 'a) \<Rightarrow> 'a \<Rightarrow> string option \<Rightarrow> io_error + 'a" where
  "parse_or_default parse d v =
     (case v of None \<Rightarrow> Inr d | Some s \<Rightarrow> map_err invalid_data (parse s))"

definition execution_text :: "execution \<Rightarrow> string" where
  "execution_text x = join_nl
     [ex_execution_id x, ex_mode x, ex_goal x, status_to_str (ex_status x),
      (case ex_result_best_candidate_id x of None \<Rightarrow> [] | Some b \<Rightarrow> b),
      word_to_string (ex_completed_iterations x),
      word_to_string (total_candidate_failures (ex_failure_counts x))]"

definition parse_execution :: "string \<Rightarrow> io_error + execution" where
  "parse_execution contents =
     (let ls = lines_of contents in
      res_bind (required_line ls 0 ''execution_id'') (\<lambda>xid.
      res_bind (required_line ls 1 ''mode'') (\<lambda>mode.
      res_bind (required_line ls 2 ''goal'') (\<lambda>goal.
      res_bind (required_line ls 3 ''status'') (\<lambda>status.
      let best = non_empty (optional_line ls 4) in
      res_bind (parse_or_default parse_word 0 (optional_line ls 5)) (\<lambda>completed.
      res_bind (parse_or_default parse_word 0 (optional_line ls 6)) (\<lambda>failures.
      res_bind (str_to_status status) (\<lambda>st.
        Inr \<lparr>ex_execution_id = xid, ex_mode = mode, ex_goal = goal, ex_status = st,
             ex_result_best_candidate_id = best, ex_completed_iterations = completed,
             ex_failure_counts = \<lparr>total_candidate_failures = failures\<rparr>\<rparr>))))))))"

definition event_line :: "control_event_envelope \<Rightarrow> string" where
  "event_line e = ce_execution_id e @ ''|'' @ word_to_string (ce_seq e) @ ''|''
     @ event_as_str (ce_event_type e) @ [nl]"

definition parse_event_line :: "string \<Rightarrow> control_event_envelope option" where
  "parse_event_line l =
     (let parts = split_on (CHR ''|'') l in
      if length parts < 3 then None
      else case parse_word (parts ! 1) of
        Inl _ \<Rightarrow> None
      | Inr seq \<Rightarrow> (case event_parse (parts ! 2) of
          None \<Rightarrow> None | Some t \<Rightarrow> Some (control_event_new (parts ! 0) seq t)))"

definition parse_events :: "string \<Rightarrow> control_event_envelope list" where
  "parse_events contents = List.map_filter parse_event_line (lines_of contents)"

definition accumulator_text :: "codec \<Rightarrow> execution_accumulator \<Rightarrow> io_error + string" where
  "accumulator_text cx a =
     res_bind (map_err invalid_data (cx_map_enc cx (ac_best_candidate_overrides a))) (\<lambda>overrides.
       Inr (join_nl [word_to_string (ac_scoring_history_len a), word_to_string (ac_completed_iterations a),
         (case ac_best_candidate_id a of None \<Rightarrow> [] | Some b \<Rightarrow> b), overrides]))"

definition parse_accumulator :: "codec \<Rightarrow> string \<Rightarrow> io_error + execution_accumulator" where
  "parse_accumulator cx contents =
     (let ls = lines_of contents in
      res_bind (res_bind (required_line ls 0 ''scoring_history_len'') (map_err invalid_data \<circ> parse_word)) (\<lambda>history.
      res_bind (res_bind (required_line ls 1 ''completed_iterations'') (map_err invalid_data \<circ> parse_word)) (\<lambda>completed.
      let best = non_empty (optional_line ls 2) in
      res_bind (parse_or_default (cx_map_dec cx) [] (non_empty (optional_line ls 3))) (\<lambda>overrides.
        Inr (accumulator_default\<lparr>ac_scoring_history_len := history, ac_completed_iterations := completed,
          ac_best_candidate_id := best, ac_best_candidate_overrides := overrides\<rparr>)))))"

definition candidate_text :: "codec \<Rightarrow> execution_candidate \<Rightarrow> io_error + string" where
  "candidate_text cx c =
     res_bind (map_err invalid_data (cx_map_enc cx (ca_overrides c))) (\<lambda>overrides.
     res_bind (map_err invalid_data (cx_metrics_enc cx (ca_metrics c))) (\<lambda>metrics.
       Inr (join_nl [ca_execution_id c, ca_candidate_id c, word_to_string (ca_created_seq c),
         word_to_string (ca_iteration c), candidate_status_to_str (ca_status c),
         (case ca_runtime_run_id c of None \<Rightarrow> [] | Some r \<Rightarrow> r), overrides,
         (case ca_succeeded c of None \<Rightarrow> [] | Some b \<Rightarrow> if b then ''true'' else ''false''), metrics,
         (case ca_review_status c of None \<Rightarrow> [] | Some r \<Rightarrow> worker_review_status_to_str r),
         word_to_string (ca_revision_round c)])))"

definition parse_success_flag :: "string option \<Rightarrow> io_error + bool option" where
  "parse_success_flag v =
     (case v of None \<Rightarrow> Inr None
      | Some s \<Rightarrow> if s = ''true'' then Inr (Some True) else if s = ''false'' then Inr (Some False)
          else Inl (invalid_data (''invalid candidate success flag '' @ squoted s)))"

definition parse_candidate :: "codec \<Rightarrow> string \<Rightarrow> io_error + execution_candidate" where
  "parse_candidate cx contents =
     (let ls = lines_of contents in
      res_bind (required_line ls 0 ''execution_id'') (\<lambda>eid.
      res_bind (required_line ls 1 ''candidate_id'') (\<lambda>cid.
      res_bind (res_bind (required_line ls 2 ''created_seq'') (map_err invalid_data \<circ> parse_word)) (\<lambda>seq.
      res_bind (res_bind (required_line ls 3 ''iteration'') (map_err invalid_data \<circ> parse_word)) (\<lambda>iteration.
      res_bind (required_line ls 4 ''status'') (\<lambda>status.
      let run_id = non_empty (optional_line ls 5) in
      res_bind (parse_or_default (cx_map_dec cx) [] (non_empty (optional_line ls 6))) (\<lambda>overrides.
      res_bind (parse_success_flag (non_empty (optional_line ls 7))) (\<lambda>succeeded.
      res_bind (parse_or_default (cx_metrics_dec cx) [] (non_empty (optional_line ls 8))) (\<lambda>metrics.
      res_bind (transpose_opt (map_option str_to_worker_review_status (non_empty (optional_line ls 9)))) (\<lambda>review.
      res_bind (parse_or_default parse_word 0 (non_empty (optional_line ls 10))) (\<lambda>revision.
      res_bind (str_to_candidate_status status) (\<lambda>st.
        Inr \<lparr>ca_execution_id = eid, ca_candidate_id = cid, ca_created_seq = seq, ca_iteration = iteration,
             ca_status = st, ca_runtime_run_id = run_id, ca_overrides = overrides,
             ca_succeeded = succeeded, ca_metrics = metrics, ca_review_status = review,
             ca_revision_round = revision\<rparr>))))))))))))"

subsection \<open>Executions, events, accumulators\<close>

definition save_execution :: "execution \<Rightarrow> store_fs \<Rightarrow> (io_error + unit) \<times> store_fs" where
  "save_execution x fs =
     write_dir (ex_execution_id x) (\<lambda>d. d\<lparr>xd_execution := Some (execution_text x)\<rparr>)
       (create_dir_all (ex_execution_id x) fs)"

definition create_execution :: "execution \<Rightarrow> store_fs \<Rightarrow> (io_error + unit) \<times> store_fs" where
  "create_execution x fs = save_execution x (create_dir_all (ex_execution_id x) fs)"

definition store_append_event ::
    "string \<Rightarrow> control_event_envelope \<Rightarrow> store_fs \<Rightarrow> (io_error + unit) \<times> store_fs" where
  "store_append_event xid e fs =
     (let existing = (case read_file xid xd_events fs of Inl _ \<Rightarrow> [] | Inr s \<Rightarrow> s)
      in write_dir xid (\<lambda>d. d\<lparr>xd_events := Some (existing @ event_line e)\<rparr>) fs)"

definition save_accumulator ::
    "codec \<Rightarrow> string \<Rightarrow> execution_accumulator \<Rightarrow> store_fs \<Rightarrow> (io_error + unit) \<times> store_fs" where
  "save_accumulator cx xid a fs =
     (case accumulator_text cx a of
        Inl e \<Rightarrow> (Inl e, fs)
      | Inr s \<Rightarrow> write_dir xid (\<lambda>d. d\<lparr>xd_accumulator := Some s\<rparr>) fs)"

subsection \<open>Candidates\<close>

definition candidate_file :: "execution_candidate \<Rightarrow> string" where
  "candidate_file c = word_to_string (ca_created_seq c) @ ''-'' @ ca_candidate_id c @ ''.txt''"

definition candidates_dir :: "exec_dir \<Rightarrow> (string, string) btree" where
  "candidates_dir d = (case xd_candidates d of None \<Rightarrow> [] | Some m \<Rightarrow> m)"

definition save_candidate ::
    "codec \<Rightarrow> execution_candidate \<Rightarrow> store_fs \<Rightarrow> (io_error + unit) \<times> store_fs" where
  "save_candidate cx c fs =
     (let fs1 = create_dir_all (ca_execution_id c) fs;
          fs2 = snd (write_dir (ca_execution_id c) (\<lambda>d. d\<lparr>xd_candidates := Some (candidates_dir d)\<rparr>) fs1)
      in case candidate_text cx c of
           Inl e \<Rightarrow> (Inl e, fs2)
         | Inr s \<Rightarrow> write_dir (ca_execution_id c)
             (\<lambda>d. d\<lparr>xd_candidates := Some (bt_insert (candidate_file c) s (candidates_dir d))\<rparr>) fs2)"

text \<open>The directory is read in the order of its file names; sorting by sequence number is stable.\<close>

definition load_candidates :: "codec \<Rightarrow> string \<Rightarrow> store_fs \<Rightarrow> io_error + execution_candidate list" where
  "load_candidates cx xid fs =
     (case Option.bind (bt_get fs xid) xd_candidates of
        None \<Rightarrow> Inr []
      | Some m \<Rightarrow> map_ok (sort_key ca_created_seq) (res_map (\<lambda>e. parse_candidate cx (snd e)) m))"

fun clear_entries ::
    "codec \<Rightarrow> u32 \<Rightarrow> (string \<times> string) list \<Rightarrow> (string, string) btree
     \<Rightarrow> (io_error + unit) \<times> (string, string) btree" where
  "clear_entries cx iteration [] m = (Inr (), m)"
| "clear_entries cx iteration (e # es) m =
     (case parse_candidate cx (snd e) of
        Inl err \<Rightarrow> (Inl err, m)
      | Inr c \<Rightarrow> clear_entries cx iteration es (if ca_iteration c = iteration then bt_remove (fst e) m else m))"

definition clear_iteration_candidates ::
    "codec \<Rightarrow> string \<Rightarrow> u32 \<Rightarrow> store_fs \<Rightarrow> (io_error + unit) \<times> store_fs" where
  "clear_iteration_candidates cx xid iteration fs =
     (case Option.bind (bt_get fs xid) xd_candidates of
        None \<Rightarrow> (Inr (), fs)
      | Some m \<Rightarrow> (let (r, m') = clear_entries cx iteration m m
                   in (r, snd (write_dir xid (\<lambda>d. d\<lparr>xd_candidates := Some m'\<rparr>) fs))))"

subsection \<open>Record logs\<close>

definition append_ndjson ::
    "((string option \<Rightarrow> string option) \<Rightarrow> exec_dir \<Rightarrow> exec_dir)
     \<Rightarrow> string \<Rightarrow> string + string \<Rightarrow> store_fs \<Rightarrow> (io_error + unit) \<times> store_fs" where
  "append_ndjson upd xid encoded fs =
     (let fs1 = create_dir_all xid fs;
          cur = (\<lambda>v. case v of None \<Rightarrow> [] | Some s \<Rightarrow> s)
      in case encoded of
           Inl e \<Rightarrow> (Inl (invalid_data e), snd (write_dir xid (upd (\<lambda>v. Some (cur v))) fs1))
         | Inr s \<Rightarrow> write_dir xid (upd (\<lambda>v. Some (cur v @ s @ [nl]))) fs1)"

fun ndjson_records :: "(string \<Rightarrow> string + 'a) \<Rightarrow> string list \<Rightarrow> io_error + 'a list" where
  "ndjson_records dec [] = Inr []"
| "ndjson_records dec (l # ls) =
     (if trim l = [] then ndjson_records dec ls
      else case dec l of
        Inr r \<Rightarrow> map_ok (\<lambda>rs. r # rs) (ndjson_records dec ls)
      | Inl e \<Rightarrow> if ls = [] then Inr [] else Inl (invalid_data e))"

definition load_ndjson :: "(string \<Rightarrow> string + 'a) \<Rightarrow> string option \<Rightarrow> io_error + 'a list" where
  "load_ndjson dec file = (case file of None \<Rightarrow> Inr [] | Some s \<Rightarrow> ndjson_records dec (lines_of s))"

definition append_intent ::
    "codec \<Rightarrow> string \<Rightarrow> communication_intent \<Rightarrow> store_fs \<Rightarrow> (io_error + unit) \<times> store_fs" where
  "append_intent cx xid i = append_ndjson xd_intents_update xid (cx_intent_enc cx i)"

definition load_intents :: "codec \<Rightarrow> string \<Rightarrow> store_fs \<Rightarrow> io_error + communication_intent list" where
  "load_intents cx xid fs = load_ndjson (cx_intent_dec cx) (Option.bind (bt_get fs xid) xd_intents)"

definition append_routed_message ::
    "codec \<Rightarrow> string \<Rightarrow> routed_message \<Rightarrow> store_fs \<Rightarrow> (io_error + unit) \<times> store_fs" where
  "append_routed_message cx xid m = append_ndjson xd_messages_update xid (cx_message_enc cx m)"

definition load_routed_messages :: "codec \<Rightarrow> string \<Rightarrow> store_fs \<Rightarrow> io_error + routed_message list" where
  "load_routed_messages cx xid fs = load_ndjson (cx_message_dec cx) (Option.bind (bt_get fs xid) xd_messages)"

subsection \<open>Inbox snapshots and specifications\<close>

datatype path_component = RootDir | CurDir | ParentDir | Normal string

text \<open>
  \<open>Path::components\<close>: repeated and trailing slashes and inner \<open>.\<close> are dropped, a leading \<open>.\<close> is kept.
\<close>

definition path_components :: "string \<Rightarrow> path_component list" where
  "path_components s =
     (let absolute = (s \<noteq> [] \<and> hd s = CHR ''/'');
          pieces = filter (\<lambda>p. p \<noteq> []) (split_on (CHR ''/'') s);
          comp = (\<lambda>p. if p = ''..'' then ParentDir else Normal p);
          rest = (\<lambda>ps. map comp (filter (\<lambda>p. p \<noteq> ''.'') ps))
      in if absolute then RootDir # rest pieces
         else case pieces of
           [] \<Rightarrow> []
         | p # ps \<Rightarrow> if p = ''.'' then CurDir # rest ps else comp p # rest ps)"

definition validate_inbox_candidate_id :: "string \<Rightarrow> io_error + unit" where
  "validate_inbox_candidate_id c =
     (if c = [] then Inl (io_err InvalidInput ''candidate_id cannot be empty'')
      else case path_components c of
        [Normal _] \<Rightarrow> Inr ()
      | _ \<Rightarrow> Inl (io_err InvalidInput (''unsafe candidate_id '' @ squoted c)))"

text \<open>The path below \<open>inboxes\<close>.\<close>

definition inbox_snapshot_path :: "u32 \<Rightarrow> string \<Rightarrow> io_error + string" where
  "inbox_snapshot_path iteration candidate_id =
     res_bind (validate_inbox_candidate_id candidate_id) (\<lambda>_.
       Inr (word_to_string iteration @ ''/'' @ candidate_id @ ''.json''))"

definition save_inbox_snapshot ::
    "codec \<Rightarrow> inbox_snapshot \<Rightarrow> store_fs \<Rightarrow> (io_error + unit) \<times> store_fs" where
  "save_inbox_snapshot cx s fs =
     (case inbox_snapshot_path (is_iteration s) (is_candidate_id s) of
        Inl e \<Rightarrow> (Inl e, fs)
      | Inr path \<Rightarrow>
          (let fs1 = create_dir_all (is_execution_id s) fs
           in case cx_snapshot_enc cx s of
                Inl e \<Rightarrow> (Inl (invalid_data e), fs1)
              | Inr t \<Rightarrow> write_dir (is_execution_id s)
                  (\<lambda>d. d\<lparr>xd_inboxes := bt_insert path t (xd_inboxes d)\<rparr>) fs1))"

definition load_inbox_snapshot :: "codec \<Rightarrow> string \<Rightarrow> u32 \<Rightarrow> string \<Rightarrow> store_fs \<Rightarrow> io_error + inbox_snapshot" where
  "load_inbox_snapshot cx xid iteration candidate_id fs =
     res_bind (inbox_snapshot_path iteration candidate_id) (\<lambda>path.
     res_bind (ok_or not_found (Option.bind (bt_get fs xid) (\<lambda>d. bt_get (xd_inboxes d) path))) (\<lambda>body.
       map_err invalid_data (cx_snapshot_dec cx body)))"

definition save_spec :: "codec \<Rightarrow> string \<Rightarrow> execution_spec \<Rightarrow> store_fs \<Rightarrow> (io_error + unit) \<times> store_fs" where
  "save_spec cx xid spec fs =
     (let fs1 = create_dir_all xid fs
      in case cx_spec_enc cx spec of
           Inl e \<Rightarrow> (Inl (invalid_data e), fs1)
         | Inr t \<Rightarrow> write_dir xid (\<lambda>d. d\<lparr>xd_spec := Some t\<rparr>) fs1)"

definition load_spec :: "codec \<Rightarrow> string \<Rightarrow> store_fs \<Rightarrow> io_error + execution_spec" where
  "load_spec cx xid fs =
     res_bind (read_file xid xd_spec fs) (\<lambda>body. map_err invalid_data (cx_spec_dec cx body))"

subsection \<open>Snapshots and listings\<close>

definition load_execution :: "codec \<Rightarrow> string \<Rightarrow> store_fs \<Rightarrow> io_error + execution_snapshot" where
  "load_execution cx xid fs =
     res_bind (res_bind (read_file xid xd_execution fs) parse_execution) (\<lambda>x.
     let events = (case Option.bind (bt_get fs xid) xd_events of None \<Rightarrow> [] | Some s \<Rightarrow> parse_events s) in
     res_bind (case Option.bind (bt_get fs xid) xd_accumulator of
                 None \<Rightarrow> Inr accumulator_default | Some s \<Rightarrow> parse_accumulator cx s) (\<lambda>a.
     res_bind (load_candidates cx xid fs) (\<lambda>cs.
       Inr \<lparr>sn_execution = x, sn_events = events, sn_accumulator = a, sn_candidates = cs\<rparr>)))"

definition list_execution_ids :: "store_fs \<Rightarrow> io_error + string list" where
  "list_execution_ids fs = Inr (sort (map fst fs))"

definition list_active_execution_ids :: "codec \<Rightarrow> store_fs \<Rightarrow> io_error + string list" where
  "list_active_execution_ids cx fs =
     res_bind (list_execution_ids fs) (\<lambda>ids.
     map_ok (\<lambda>rs. List.map_filter (\<lambda>r. r) rs)
       (res_map (\<lambda>xid. map_ok (\<lambda>sn. if ex_status (sn_execution sn) \<in> {ExPending, ExRunning, ExPaused}
            then Some xid else None) (load_execution cx xid fs)) ids))"

subsection \<open>Lemmas on lines\<close>

lemma split_inclusive_append:
  "a = [] \<or> last a = nl \<Longrightarrow> split_inclusive_nl (a @ b) = split_inclusive_nl a @ split_inclusive_nl b"
proof (induction a)
  case Nil
  then show ?case by simp
next
  case (Cons c cs)
  show ?case
  proof (cases "cs = []")
    case True
    with Cons show ?thesis by simp
  next
    case False
    with Cons have IH: "split_inclusive_nl (cs @ b) = split_inclusive_nl cs @ split_inclusive_nl b" by simp
    from False have "split_inclusive_nl cs \<noteq> []" by (cases cs) (auto split: list.splits)
    then obtain l ls where "split_inclusive_nl cs = l # ls" by (cases "split_inclusive_nl cs") auto
    with IH show ?thesis by simp
  qed
qed

lemma lines_of_append: "a = [] \<or> last a = nl \<Longrightarrow> lines_of (a @ b) = lines_of a @ lines_of b"
  by (simp add: lines_of_def split_inclusive_append)

lemma lines_of_join_nl:
  "\<forall>x \<in> set xs. line_safe x \<Longrightarrow> nl \<notin> set l \<Longrightarrow> lines_of (join_nl (xs @ [l])) = xs @ (if l = [] then [] else [l])"
proof (induction xs)
  case Nil
  then show ?case by (simp add: lines_of_last)
next
  case (Cons x xs)
  have "join_nl ((x # xs) @ [l]) = x @ nl # join_nl (xs @ [l])" by (cases xs) simp_all
  with Cons show ?case by (simp add: lines_of_sep)
qed

lemma map_filter_append: "List.map_filter f (xs @ ys) = List.map_filter f xs @ List.map_filter f ys"
  by (simp add: List.map_filter_def)

lemma word_text_line [simp]: "line_safe (word_to_string w)" "nl \<notin> set (word_to_string w)"
  using word_to_string_line_safe [of w] by (auto simp: line_safe_def)

lemma status_round [simp]: "str_to_status (status_to_str s) = Inr s"
  by (cases s) (simp_all add: str_to_status_def)

lemma candidate_status_round [simp]: "str_to_candidate_status (candidate_status_to_str s) = Inr s"
  by (cases s) (simp_all add: str_to_candidate_status_def)

lemma review_round [simp]: "str_to_worker_review_status (worker_review_status_to_str s) = Inr s"
  by (cases s) (simp_all add: str_to_worker_review_status_def)

lemma status_line_safe [simp]: "line_safe (status_to_str s)" "status_to_str s \<noteq> []"
  by (cases s; simp add: line_safe_def)+

lemma candidate_status_line_safe [simp]: "line_safe (candidate_status_to_str s)" "candidate_status_to_str s \<noteq> []"
  by (cases s; simp add: line_safe_def)+

lemma review_line_safe [simp]: "line_safe (worker_review_status_to_str s)" "worker_review_status_to_str s \<noteq> []"
  by (cases s; simp add: line_safe_def)+

lemma line_safe_Nil [simp]: "line_safe []"
  by (simp add: line_safe_def)

subsection \<open>Round trips\<close>

definition line_field :: "string option \<Rightarrow> bool" where
  "line_field v = (case v of None \<Rightarrow> True | Some s \<Rightarrow> line_safe s \<and> s \<noteq> [])"

definition execution_fields_ok :: "execution \<Rightarrow> bool" where
  "execution_fields_ok x = (line_safe (ex_execution_id x) \<and> line_safe (ex_mode x) \<and> line_safe (ex_goal x)
     \<and> line_field (ex_result_best_candidate_id x))"

lemma opt_line_field:
  "line_field v \<Longrightarrow> non_empty (Some (case v of None \<Rightarrow> [] | Some s \<Rightarrow> s)) = v"
  "line_field v \<Longrightarrow> line_safe (case v of None \<Rightarrow> [] | Some s \<Rightarrow> s)"
  by (cases v; simp add: line_field_def non_empty_def)+

lemma parse_execution_text: "execution_fields_ok x \<Longrightarrow> parse_execution (execution_text x) = Inr x"
proof -
  assume ok: "execution_fields_ok x"
  have "lines_of (execution_text x) =
     [ex_execution_id x, ex_mode x, ex_goal x, status_to_str (ex_status x),
      (case ex_result_best_candidate_id x of None \<Rightarrow> [] | Some b \<Rightarrow> b),
      word_to_string (ex_completed_iterations x),
      word_to_string (total_candidate_failures (ex_failure_counts x))]"
    using ok lines_of_join_nl [of "[ex_execution_id x, ex_mode x, ex_goal x, status_to_str (ex_status x),
      (case ex_result_best_candidate_id x of None \<Rightarrow> [] | Some b \<Rightarrow> b),
      word_to_string (ex_completed_iterations x)]" "word_to_string (total_candidate_failures (ex_failure_counts x))"]
    by (simp add: execution_text_def execution_fields_ok_def opt_line_field)
  with ok show ?thesis
    by (simp add: parse_execution_def required_line_def optional_line_def opt_line_field
        execution_fields_ok_def parse_or_default_def)
qed

lemma read_write_dir:
  assumes "bt_get fs xid = Some d"
  shows "write_dir xid f fs = (Inr (), bt_insert xid (f d) fs)"
  by (simp add: write_dir_def assms)

lemma get_create_dir [simp]: "bt_get (create_dir_all xid fs) xid
    = Some (case bt_get fs xid of None \<Rightarrow> empty_dir | Some d \<Rightarrow> d)"
  by (simp add: create_dir_all_def split: option.split)

lemma get_create_dir_other [simp]: "xid \<noteq> y \<Longrightarrow> bt_get (create_dir_all xid fs) y = bt_get fs y"
  by (simp add: create_dir_all_def split: option.split)

lemma parse_event_line_eq:
  assumes "CHR ''|'' \<notin> set (ce_execution_id e)"
  shows "parse_event_line (ce_execution_id e @ ''|'' @ word_to_string (ce_seq e) @ ''|'' @ event_as_str (ce_event_type e)) = Some e"
proof -
  have "CHR ''|'' \<notin> set (word_to_string (ce_seq e))"
    by (simp add: word_to_string_def nat_to_string_plain)
  then have "split_on (CHR ''|'') (ce_execution_id e @ ''|'' @ word_to_string (ce_seq e) @ ''|'' @ event_as_str (ce_event_type e))
      = [ce_execution_id e, word_to_string (ce_seq e), event_as_str (ce_event_type e)]"
    using assms event_as_str_plain(2) [of "ce_event_type e"] by (simp add: split_on_sep split_on_none)
  then show ?thesis by (simp add: parse_event_line_def control_event_new_def)
qed

definition log_id_ok :: "string \<Rightarrow> bool" where
  "log_id_ok xid = (CHR ''|'' \<notin> set xid \<and> nl \<notin> set xid)"

lemma parse_events_append:
  assumes "s = [] \<or> last s = nl" "log_id_ok (ce_execution_id e)"
  shows "parse_events (s @ event_line e) = parse_events s @ [e]"
proof -
  let ?l = "ce_execution_id e @ ''|'' @ word_to_string (ce_seq e) @ ''|'' @ event_as_str (ce_event_type e)"
  have "nl \<notin> set ?l"
    using assms(2) event_as_str_plain(1) [of "ce_event_type e"] by (auto simp: log_id_ok_def line_safe_def)
  moreover have "last ?l \<noteq> cr"
    using event_as_str_plain(1) [of "ce_event_type e"]
    by (cases "event_as_str (ce_event_type e)") (auto simp: line_safe_def)
  ultimately have "line_safe ?l" by (simp add: line_safe_def)
  then have "lines_of (event_line e) = [?l]"
    using lines_of_sep [of ?l "[]"] by (simp add: event_line_def)
  moreover have "parse_event_line ?l = Some e"
    using parse_event_line_eq assms(2) by (simp add: log_id_ok_def)
  ultimately show ?thesis
    using lines_of_append [OF assms(1)] by (simp add: parse_events_def map_filter_append List.map_filter_simps)
qed

subsection \<open>Candidates and accumulators\<close>

text \<open>
  The law of the encoding of maps: one line, read back, and empty only for the empty map (an empty
  line is read as the default value).
\<close>

definition map_codec_ok :: "('a list \<Rightarrow> string + string) \<Rightarrow> (string \<Rightarrow> string + 'a list) \<Rightarrow> ('a list \<Rightarrow> bool) \<Rightarrow> bool" where
  "map_codec_ok enc dec ok = (line_codec enc dec ok \<and> (\<forall>m. enc m = Inr [] \<longrightarrow> m = []))"

lemma map_codec_field:
  assumes "map_codec_ok enc dec ok" "ok m"
  obtains s where "enc m = Inr s" "line_safe s" "parse_or_default dec [] (non_empty (Some s)) = Inr m"
proof -
  from assms(1) have law: "line_codec enc dec ok" by (simp add: map_codec_ok_def)
  obtain s where s: "enc m = Inr s" "dec s = Inr m" "line_safe s"
    by (rule line_codec.obtain_enc [OF law assms(2)])
  from s assms(1) have "s = [] \<Longrightarrow> m = []" by (auto simp: map_codec_ok_def)
  with s have "parse_or_default dec [] (non_empty (Some s)) = Inr m"
    by (auto simp: parse_or_default_def non_empty_def)
  from that [OF s(1,3) this] show thesis .
qed

definition candidate_fields_ok :: "execution_candidate \<Rightarrow> bool" where
  "candidate_fields_ok c = (line_safe (ca_execution_id c) \<and> line_safe (ca_candidate_id c)
     \<and> line_field (ca_runtime_run_id c))"

lemma parse_candidate_text:
  assumes "map_codec_ok (cx_map_enc cx) (cx_map_dec cx) mok" "mok (ca_overrides c)"
    and "map_codec_ok (cx_metrics_enc cx) (cx_metrics_dec cx) fok" "fok (ca_metrics c)"
    and "candidate_fields_ok c"
  shows "\<exists>s. candidate_text cx c = Inr s \<and> parse_candidate cx s = Inr c"
proof -
  obtain so where so: "cx_map_enc cx (ca_overrides c) = Inr so" "line_safe so"
      "parse_or_default (cx_map_dec cx) [] (non_empty (Some so)) = Inr (ca_overrides c)"
    by (rule map_codec_field [OF assms(1,2)])
  obtain sm where sm: "cx_metrics_enc cx (ca_metrics c) = Inr sm" "line_safe sm"
      "parse_or_default (cx_metrics_dec cx) [] (non_empty (Some sm)) = Inr (ca_metrics c)"
    by (rule map_codec_field [OF assms(3,4)])
  define flag where "flag = (case ca_succeeded c of None \<Rightarrow> [] | Some b \<Rightarrow> if b then ''true'' else ''false'')"
  define rev where "rev = (case ca_review_status c of None \<Rightarrow> [] | Some r \<Rightarrow> worker_review_status_to_str r)"
  define run where "run = (case ca_runtime_run_id c of None \<Rightarrow> [] | Some r \<Rightarrow> r)"
  define ls where "ls = [ca_execution_id c, ca_candidate_id c, word_to_string (ca_created_seq c),
         word_to_string (ca_iteration c), candidate_status_to_str (ca_status c), run, so, flag, sm, rev]"
  have flag: "line_safe flag" "parse_success_flag (non_empty (Some flag)) = Inr (ca_succeeded c)"
    by (auto simp: flag_def non_empty_def parse_success_flag_def line_safe_def split: option.split)
  have rev: "line_safe rev"
    "transpose_opt (map_option str_to_worker_review_status (non_empty (Some rev))) = Inr (ca_review_status c)"
    by (auto simp: rev_def non_empty_def split: option.split)
  have run: "line_safe run" "non_empty (Some run) = ca_runtime_run_id c"
    using assms(5) by (simp_all add: run_def candidate_fields_ok_def opt_line_field)
  have body: "candidate_text cx c = Inr (join_nl (ls @ [word_to_string (ca_revision_round c)]))"
    by (simp add: candidate_text_def so sm ls_def flag_def rev_def run_def)
  have "\<forall>x \<in> set ls. line_safe x"
    using assms(5) so sm flag rev run by (simp add: ls_def candidate_fields_ok_def)
  then have lines: "lines_of (join_nl (ls @ [word_to_string (ca_revision_round c)])) = ls @ [word_to_string (ca_revision_round c)]"
    by (simp add: lines_of_join_nl)
  have rr: "non_empty (Some (word_to_string (ca_revision_round c))) = Some (word_to_string (ca_revision_round c))"
    by (simp add: non_empty_def)
  have "parse_candidate cx (join_nl (ls @ [word_to_string (ca_revision_round c)])) = Inr c"
    unfolding parse_candidate_def lines Let_def
    by (simp add: ls_def required_line_def optional_line_def run so flag sm rev rr)
      (simp add: parse_or_default_def)
  with body show ?thesis by blast
qed

lemma parse_accumulator_text:
  assumes "map_codec_ok (cx_map_enc cx) (cx_map_dec cx) mok" "mok (ac_best_candidate_overrides a)"
    and "line_field (ac_best_candidate_id a)"
  shows "\<exists>s. accumulator_text cx a = Inr s \<and> parse_accumulator cx s =
    Inr (accumulator_default\<lparr>ac_scoring_history_len := ac_scoring_history_len a,
      ac_completed_iterations := ac_completed_iterations a, ac_best_candidate_id := ac_best_candidate_id a,
      ac_best_candidate_overrides := ac_best_candidate_overrides a\<rparr>)"
proof -
  obtain so where so: "cx_map_enc cx (ac_best_candidate_overrides a) = Inr so" "line_safe so"
      "parse_or_default (cx_map_dec cx) [] (non_empty (Some so)) = Inr (ac_best_candidate_overrides a)"
    by (rule map_codec_field [OF assms(1,2)])
  define best where "best = (case ac_best_candidate_id a of None \<Rightarrow> [] | Some b \<Rightarrow> b)"
  define ls where "ls = [word_to_string (ac_scoring_history_len a), word_to_string (ac_completed_iterations a), best]"
  have best: "line_safe best" "non_empty (Some best) = ac_best_candidate_id a"
    using assms(3) by (simp_all add: best_def opt_line_field)
  have body: "accumulator_text cx a = Inr (join_nl (ls @ [so]))"
    by (simp add: accumulator_text_def so ls_def best_def)
  have lines: "lines_of (join_nl (ls @ [so])) = ls @ (if so = [] then [] else [so])"
  proof (rule lines_of_join_nl)
    show "\<forall>x \<in> set ls. line_safe x" using best by (simp add: ls_def)
    show "nl \<notin> set so" using so(2) by (simp add: line_safe_def)
  qed
  have "parse_or_default (cx_map_dec cx) [] (non_empty (optional_line (ls @ (if so = [] then [] else [so])) 3))
      = Inr (ac_best_candidate_overrides a)"
    using so(3) by (cases "so = []") (simp_all add: ls_def optional_line_def non_empty_def)
  then have "parse_accumulator cx (join_nl (ls @ [so])) =
      Inr (accumulator_default\<lparr>ac_scoring_history_len := ac_scoring_history_len a,
      ac_completed_iterations := ac_completed_iterations a, ac_best_candidate_id := ac_best_candidate_id a,
      ac_best_candidate_overrides := ac_best_candidate_overrides a\<rparr>)"
    unfolding parse_accumulator_def lines Let_def
    by (simp add: ls_def required_line_def optional_line_def best)
  with body show ?thesis by blast
qed

subsection \<open>Frames\<close>

text \<open>The event log of an execution, and that only appending an event changes it.\<close>

definition events_file :: "store_fs \<Rightarrow> string \<Rightarrow> string option" where
  "events_file fs xid = Option.bind (bt_get fs xid) xd_events"

lemma events_create_dir [simp]: "events_file (create_dir_all xid fs) y = events_file fs y"
  by (auto simp: events_file_def create_dir_all_def empty_dir_def split: option.split)

lemma events_write_dir:
  "(\<And>d. xd_events (f d) = xd_events d) \<Longrightarrow> events_file (snd (write_dir xid f fs)) y = events_file fs y"
  by (auto simp: events_file_def write_dir_def split: option.split)

lemma events_append_ndjson:
  "(\<And>g d. xd_events (upd g d) = xd_events d) \<Longrightarrow> events_file (snd (append_ndjson upd xid e fs)) y = events_file fs y"
  by (auto simp: append_ndjson_def Let_def events_write_dir split: sum.split)

lemma events_frame [simp]:
  "events_file (snd (save_execution x fs)) y = events_file fs y"
  "events_file (snd (create_execution x fs)) y = events_file fs y"
  "events_file (snd (save_accumulator cx xid a fs)) y = events_file fs y"
  "events_file (snd (save_candidate cx c fs)) y = events_file fs y"
  "events_file (snd (append_intent cx xid i fs)) y = events_file fs y"
  "events_file (snd (append_routed_message cx xid m fs)) y = events_file fs y"
  "events_file (snd (save_inbox_snapshot cx s fs)) y = events_file fs y"
  "events_file (snd (save_spec cx xid spec fs)) y = events_file fs y"
  "events_file (snd (clear_iteration_candidates cx xid it fs)) y = events_file fs y"
  by (auto simp: save_execution_def create_execution_def save_accumulator_def save_candidate_def
      append_intent_def append_routed_message_def save_inbox_snapshot_def save_spec_def
      clear_iteration_candidates_def Let_def split_beta events_write_dir events_append_ndjson
      split: sum.split option.split)

lemma events_append:
  "events_file (snd (store_append_event xid e fs)) y =
     (if y = xid \<and> bt_get fs xid \<noteq> None
      then Some ((case events_file fs xid of None \<Rightarrow> [] | Some s \<Rightarrow> s) @ event_line e)
      else events_file fs y)"
  by (auto simp: store_append_event_def events_file_def write_dir_def read_file_def Let_def
      split: option.split)

definition event_log :: "store_fs \<Rightarrow> string \<Rightarrow> control_event_envelope list" where
  "event_log fs xid = (case events_file fs xid of None \<Rightarrow> [] | Some s \<Rightarrow> parse_events s)"

lemma load_execution_events:
  "load_execution cx xid fs = Inr sn \<Longrightarrow> sn_events sn = event_log fs xid"
  by (auto simp: load_execution_def event_log_def events_file_def result_simps Let_def)

lemma load_execution_exists: "load_execution cx xid fs = Inr sn \<Longrightarrow> bt_get fs xid \<noteq> None"
  by (auto simp: load_execution_def read_file_def result_simps Let_def bind_eq_Some_conv)

text \<open>A log whose events are numbered 1, 2, 3, \<dots> and carry the id of their execution.\<close>

definition log_ok :: "store_fs \<Rightarrow> string \<Rightarrow> bool" where
  "log_ok fs xid = ((case events_file fs xid of None \<Rightarrow> True | Some s \<Rightarrow> s = [] \<or> last s = nl)
     \<and> map ce_seq (event_log fs xid) = seq_upto (length (event_log fs xid))
     \<and> list_all (\<lambda>e. ce_execution_id e = xid) (event_log fs xid))"

lemma log_append:
  assumes "log_ok fs xid" "log_id_ok xid" "bt_get fs xid \<noteq> None"
    and "e = control_event_new xid (of_nat (length (event_log fs xid)) + 1) t"
  shows "log_ok (snd (store_append_event xid e fs)) xid
    \<and> event_log (snd (store_append_event xid e fs)) xid = event_log fs xid @ [e]"
proof -
  have xid: "ce_execution_id e = xid" "ce_seq e = of_nat (length (event_log fs xid)) + 1"
    by (simp_all add: assms(4) control_event_new_def)
  define s where "s = (case events_file fs xid of None \<Rightarrow> [] | Some s \<Rightarrow> s)"
  have s: "s = [] \<or> last s = nl" "event_log fs xid = parse_events s"
    using assms(1) by (auto simp: log_ok_def s_def event_log_def parse_events_def split: option.splits)
  have evf: "events_file (snd (store_append_event xid e fs)) xid = Some (s @ event_line e)"
    using assms(3) by (simp add: events_append s_def)
  have log: "event_log (snd (store_append_event xid e fs)) xid = event_log fs xid @ [e]"
    using parse_events_append [OF s(1)] assms(2) xid(1) by (subst event_log_def) (simp add: evf s(2))
  moreover have "last (s @ event_line e) = nl" by (simp add: event_line_def)
  ultimately show ?thesis
    using assms(1) xid by (simp add: log_ok_def evf seq_upto_Suc del: of_nat_Suc)
qed

subsection \<open>Record logs\<close>

lemma ndjson_append_record:
  assumes "ndjson_records dec ls = Inr rs" "list_all (\<lambda>l. trim l = [] \<or> is_ok (dec l)) ls"
    and "dec l = Inr r" "trim l \<noteq> []"
  shows "ndjson_records dec (ls @ [l]) = Inr (rs @ [r])"
  using assms by (induction ls arbitrary: rs) (auto simp: result_simps split: sum.splits if_splits)

lemma mem_split_inclusive: "nl \<notin> set (strip_eol l)" if "l \<in> set (split_inclusive_nl s)"
  using that
proof (induction s arbitrary: l)
  case Nil
  then show ?case by simp
next
  case (Cons c cs)
  have eol: "nl \<notin> set (butlast l)" if "l \<in> set (split_inclusive_nl t)" for l t
    using that
    by (induction t arbitrary: l) (auto split: if_splits list.splits)
  show ?case
  proof (cases "last l = nl")
    case True
    with eol [OF Cons.prems] show ?thesis
      by (auto simp: strip_eol_def Let_def dest: in_set_butlastD)
  next
    case False
    have "nl \<notin> set l"
    proof
      assume "nl \<in> set l"
      then have "l \<noteq> []" by auto
      from append_butlast_last_id [OF this] have "set l = insert (last l) (set (butlast l))"
        by (metis Un_insert_right list.simps(15) set_append append.right_neutral list.set(1) sup_bot.right_neutral)
      with \<open>nl \<in> set l\<close> False eol [OF Cons.prems] show False by auto
    qed
    then show ?thesis by (simp add: strip_eol_none)
  qed
qed

lemma lines_no_nl: "l \<in> set (lines_of s) \<Longrightarrow> nl \<notin> set l"
  using mem_split_inclusive by (auto simp: lines_of_def)

text \<open>The codec of a build without \<open>serde\<close>; records of communication need the feature.\<close>

definition local_codec :: codec where
  "local_codec = \<lparr>cx_map_enc = (\<lambda>m. Inr (encode_map_string m)), cx_map_dec = decode_map_string,
     cx_metrics_enc = (\<lambda>m. Inr (encode_map_f64 rat_text m)), cx_metrics_dec = decode_map_f64 read_rat,
     cx_intent_enc = (\<lambda>_. Inl []), cx_intent_dec = (\<lambda>_. Inl []),
     cx_message_enc = (\<lambda>_. Inl []), cx_message_dec = (\<lambda>_. Inl []),
     cx_snapshot_enc = (\<lambda>_. Inl []), cx_snapshot_dec = (\<lambda>_. Inl []),
     cx_spec_enc = (\<lambda>_. Inl []), cx_spec_dec = (\<lambda>_. Inl [])\<rparr>"

lemma local_map_codec_ok:
  "map_codec_ok (cx_map_enc local_codec) (cx_map_dec local_codec) bt_wf"
proof -
  have "m = []" if "encode_map_string m = []" for m
  proof (rule ccontr)
    assume "m \<noteq> []"
    then have "encode_map_string m \<noteq> []"
      unfolding encode_map_string_def by (intro join_semi_ne) auto
    with that show False by simp
  qed
  then show ?thesis
    using map_codec.line_codec_axioms by (simp add: map_codec_ok_def local_codec_def)
qed

lemma local_metrics_codec_ok:
  "map_codec_ok (cx_metrics_enc local_codec) (cx_metrics_dec local_codec) bt_wf"
proof -
  have "m = []" if "encode_map_f64 rat_text m = []" for m
  proof (rule ccontr)
    assume "m \<noteq> []"
    then have "encode_map_f64 rat_text m \<noteq> []"
      unfolding encode_map_f64_def by (intro join_semi_ne) auto
    with that show False by simp
  qed
  moreover have "line_safe (encode_map_f64 rat_text m)" for m
  proof -
    have "nl \<notin> set (encode_map_f64 rat_text m)" "cr \<notin> set (encode_map_f64 rat_text m)"
      unfolding encode_map_f64_def
      by (rule join_semi_plain; use rat_text_law in \<open>auto simp: escape_plain float_text_def sep_free_def\<close>)+
    then show ?thesis by (auto simp: line_safe_def dest: last_in_set)
  qed
  ultimately show ?thesis
    using decode_encode_map_f64 [OF rat_text_law]
    by (simp add: map_codec_ok_def local_codec_def line_codec_def)
qed

subsection \<open>Properties\<close>

text \<open>
  Saving an execution and loading it back gives the same execution, and leaves the events, the
  accumulator and the candidates on disk as they were; a newly created execution loads with an empty
  log and the default accumulator. Ids, mode and goal must fit on one line each.
\<close>

theorem execution_save_load:
  assumes "execution_fields_ok x"
  shows "(case load_execution cx (ex_execution_id x) fs of
       Inr sn \<Rightarrow> load_execution cx (ex_execution_id x) (snd (save_execution x fs)) = Inr (sn\<lparr>sn_execution := x\<rparr>)
     | Inl e \<Rightarrow> True)
   \<and> fst (save_execution x fs) = Inr ()
   \<and> load_execution cx (ex_execution_id x) (snd (create_execution x []))
       = Inr \<lparr>sn_execution = x, sn_events = [], sn_accumulator = accumulator_default, sn_candidates = []\<rparr>"
proof -
  let ?id = "ex_execution_id x"
  have save: "save_execution x fs = (Inr (), bt_insert ?id ((case bt_get fs ?id of None \<Rightarrow> empty_dir | Some d \<Rightarrow> d)
      \<lparr>xd_execution := Some (execution_text x)\<rparr>) (create_dir_all ?id fs))" for fs
    by (simp add: save_execution_def read_write_dir)
  have load: "load_execution cx ?id (snd (save_execution x fs)) = Inr (sn\<lparr>sn_execution := x\<rparr>)"
    if "load_execution cx ?id fs = Inr sn" for sn
  proof -
    from load_execution_exists [OF that] obtain d where d: "bt_get fs ?id = Some d" by blast
    then have "load_candidates cx ?id (snd (save_execution x fs)) = load_candidates cx ?id fs"
      by (simp add: load_candidates_def save)
    with that d show ?thesis
      using parse_execution_text [OF assms]
      by (auto simp: load_execution_def read_file_def save result_simps Let_def)
  qed
  show ?thesis
    using load parse_execution_text [OF assms]
    by (auto simp: save create_execution_def load_execution_def read_file_def empty_dir_def
        load_candidates_def split: sum.split)
qed

lemma execution_save_load_witness:
  "load_execution local_codec ''e1'' (snd (create_execution (execution_new ''e1'' ''swarm'' ''a goal'') []))
     = Inr \<lparr>sn_execution = execution_new ''e1'' ''swarm'' ''a goal'', sn_events = [],
            sn_accumulator = accumulator_default, sn_candidates = []\<rparr>"
  using execution_save_load [of "execution_new ''e1'' ''swarm'' ''a goal''" local_codec "[]"]
  by (simp add: execution_fields_ok_def execution_new_def line_safe_def line_field_def)

text \<open>
  C17: Appending the event numbered one past the length of the log extends the log of that execution by
  exactly that event and keeps it numbered 1, 2, 3, ... with its own id; the logs of other executions
  do not change.
\<close>

theorem append_event_extends_log:
  assumes "log_ok fs xid" and "log_id_ok xid" and "bt_get fs xid \<noteq> None"
    and "e = control_event_new xid (of_nat (length (event_log fs xid)) + 1) t" and "y \<noteq> xid"
  shows "log_ok (snd (store_append_event xid e fs)) xid
    \<and> event_log (snd (store_append_event xid e fs)) xid = event_log fs xid @ [e]
    \<and> event_log (snd (store_append_event xid e fs)) y = event_log fs y"
  using log_append [OF assms(1-4)] assms(5) by (simp add: event_log_def events_append)

lemma append_event_extends_log_witness:
  "event_log (snd (store_append_event ''e1'' (control_event_new ''e1'' 1 ExecutionCreated)
      [(''e1'', empty_dir)])) ''e1'' = [control_event_new ''e1'' 1 ExecutionCreated]"
proof -
  have log: "event_log [(''e1'', empty_dir)] ''e1'' = []"
    by (simp add: event_log_def events_file_def empty_dir_def)
  have "log_ok [(''e1'', empty_dir)] ''e1''"
    by (simp add: log_ok_def log) (simp add: events_file_def empty_dir_def)
  from append_event_extends_log [OF this, of "control_event_new ''e1'' 1 ExecutionCreated" ExecutionCreated "''z''"]
  show ?thesis by (simp add: log log_id_ok_def)
qed

text \<open>Every candidate file holds the record of a candidate and has the name that this candidate gets.\<close>

definition candidate_files_ok :: "codec \<Rightarrow> string \<Rightarrow> store_fs \<Rightarrow> bool" where
  "candidate_files_ok cx xid fs =
     (case bt_get fs xid of None \<Rightarrow> True
      | Some d \<Rightarrow> bt_wf (candidates_dir d)
          \<and> list_all (\<lambda>(name, s). case parse_candidate cx s of
              Inl _ \<Rightarrow> False | Inr c \<Rightarrow> candidate_file c = name) (candidates_dir d))"

lemma candidate_file_entry:
  assumes "bt_get fs xid = Some d" "candidate_files_ok cx xid fs" "e \<in> set (candidates_dir d)"
  shows "parse_candidate cx (snd e) = Inr (projr (parse_candidate cx (snd e)))
    \<and> candidate_file (projr (parse_candidate cx (snd e))) = fst e"
proof -
  have "\<forall>e \<in> set (candidates_dir d). case parse_candidate cx (snd e) of
      Inl _ \<Rightarrow> False | Inr c \<Rightarrow> candidate_file c = fst e"
    using assms(1,2) by (simp add: candidate_files_ok_def list_all_iff split_beta)
  from bspec [OF this assms(3)]
  have "case parse_candidate cx (snd e) of Inl _ \<Rightarrow> False | Inr c \<Rightarrow> candidate_file c = fst e" .
  then show ?thesis by (cases "parse_candidate cx (snd e)") simp_all
qed

lemma bt_insert_entries: "e \<in> set (bt_insert k v m) \<Longrightarrow> e = (k, v) \<or> e \<in> set m"
  by (induction m) (auto split: if_splits)

lemma mset_bt_insert: "bt_wf m \<Longrightarrow> mset (bt_insert k v m) = add_mset (k, v) (filter_mset (\<lambda>e. fst e \<noteq> k) (mset m))"
proof (induction m)
  case (Cons e m)
  have tail: "bt_wf m" using Cons.prems by (simp add: bt_wf_def)
  have "filter_mset (\<lambda>e. fst e \<noteq> k) (mset m) = mset m" if "k \<le> fst e"
    using Cons.prems that
    by (intro filter_mset_eq_conv [THEN iffD2]) (force simp: bt_wf_def)
  then show ?case using Cons.IH [OF tail] by (cases e) (auto simp: add_mset_commute)
qed simp

text \<open>The candidates are those of the files, in the order of their sequence numbers.\<close>

lemma load_candidates_named:
  assumes "bt_get fs xid = Some d" and "candidate_files_ok cx xid fs"
  shows "\<exists>cs. load_candidates cx xid fs = Inr cs \<and> sorted (map ca_created_seq cs)
    \<and> mset cs = image_mset (\<lambda>e. projr (parse_candidate cx (snd e))) (mset (candidates_dir d))"
proof -
  let ?g = "\<lambda>e. projr (parse_candidate cx (snd e))"
  have "parse_candidate cx (snd e) = Inr (?g e)" if "e \<in> set (candidates_dir d)" for e
    using candidate_file_entry [OF assms that] by blast
  then have "res_map (\<lambda>e. parse_candidate cx (snd e)) (candidates_dir d) = Inr (map ?g (candidates_dir d))"
    by (rule res_map_Inr_all)
  with assms(1) show ?thesis
    by (auto simp: load_candidates_def candidates_dir_def split: option.split)
qed

lemma save_candidate_written:
  assumes "bt_get fs (ca_execution_id c) = Some d" and "candidate_text cx c = Inr s"
  shows "\<exists>fs'. save_candidate cx c fs = (Inr (), fs')
    \<and> bt_get fs' (ca_execution_id c) = Some (d\<lparr>xd_candidates := Some (bt_insert (candidate_file c) s (candidates_dir d))\<rparr>)"
  using assms by (simp add: save_candidate_def read_write_dir candidates_dir_def create_dir_all_def)

text \<open>
  C18: Saving a candidate of an execution that can be loaded succeeds, and loading the execution again
  gives the same execution, events and accumulator, and as candidates the saved one, in every field as it
  was saved, and the others as they were (one that was saved before under the same sequence number and id is
  replaced), in the order of their sequence numbers. Saving an accumulator and loading the execution again
  gives back four fields of the accumulator, the history length, the completed iterations and the id and
  the overrides of the best candidate; failure counts, reviews, revision rounds, final approval, leader
  proposals and the count of iterations without improvement are at their defaults. The candidate files are
  named after the candidates they hold, which saving keeps; overrides and metrics are encoded so that they
  read back what they wrote on one line, and the ids fit on one line each.
\<close>

theorem candidate_kept_accumulator_projected:
  assumes "map_codec_ok (cx_map_enc cx) (cx_map_dec cx) mok"
    and "map_codec_ok (cx_metrics_enc cx) (cx_metrics_dec cx) fok"
    and "mok (ca_overrides c)" and "fok (ca_metrics c)" and "candidate_fields_ok c"
    and "mok (ac_best_candidate_overrides a)" and "line_field (ac_best_candidate_id a)"
    and "ca_execution_id c = xid" and "load_execution cx xid fs = Inr sn" and "candidate_files_ok cx xid fs"
  shows "(\<exists>cs fs'. save_candidate cx c fs = (Inr (), fs') \<and> candidate_files_ok cx xid fs'
      \<and> load_execution cx xid fs' = Inr (sn\<lparr>sn_candidates := cs\<rparr>) \<and> sorted (map ca_created_seq cs)
      \<and> mset cs = add_mset c {#d \<in># mset (sn_candidates sn). candidate_file d \<noteq> candidate_file c#})
    \<and> (\<exists>fs'. save_accumulator cx xid a fs = (Inr (), fs')
      \<and> load_execution cx xid fs' = Inr (sn\<lparr>sn_accumulator := \<lparr>ac_scoring_history_len = ac_scoring_history_len a,
          ac_completed_iterations = ac_completed_iterations a, ac_leader_proposals = [],
          ac_iterations_without_improvement = 0, ac_best_candidate_id = ac_best_candidate_id a,
          ac_best_candidate_overrides = ac_best_candidate_overrides a,
          ac_failure_counts = failure_counts_default, ac_supervision_reviews = [],
          ac_supervision_revision_rounds = [], ac_supervision_final_approval = None\<rparr>\<rparr>))"
proof
  obtain d where d: "bt_get fs xid = Some d" using load_execution_exists [OF assms(9)] by blast
  let ?g = "\<lambda>e. projr (parse_candidate cx (snd e))"
  obtain s where s: "candidate_text cx c = Inr s" "parse_candidate cx s = Inr c"
    using parse_candidate_text [OF assms(1,3,2,4,5)] by blast
  obtain fs' where fs': "save_candidate cx c fs = (Inr (), fs')"
      "bt_get fs' xid = Some (d\<lparr>xd_candidates := Some (bt_insert (candidate_file c) s (candidates_dir d))\<rparr>)"
    using save_candidate_written [OF _ s(1), of fs d] d assms(8) by blast
  let ?m = "candidates_dir d"
  have named: "bt_wf ?m" "\<And>e. e \<in> set ?m \<Longrightarrow> candidate_file (?g e) = fst e"
    using assms(10) d candidate_file_entry [OF d assms(10)] by (auto simp: candidate_files_ok_def)
  have ok': "candidate_files_ok cx xid fs'"
    unfolding candidate_files_ok_def list_all_iff
    using named(1) fs'(2) s(2) candidate_file_entry [OF d assms(10)]
    by (auto simp: candidates_dir_def [of "xd_candidates_update _ _"] dest!: bt_insert_entries split: sum.split)
      force+
  obtain cs where cs: "load_candidates cx xid fs' = Inr cs" "sorted (map ca_created_seq cs)"
      "mset cs = image_mset ?g (mset (bt_insert (candidate_file c) s ?m))"
    using load_candidates_named [OF fs'(2) ok'] by (auto simp: candidates_dir_def)
  have old: "mset (sn_candidates sn) = image_mset ?g (mset ?m)"
    using load_candidates_named [OF d assms(10)] assms(9)
    by (auto simp: load_execution_def result_simps Let_def)
  have "image_mset ?g {#e \<in># mset ?m. fst e \<noteq> candidate_file c#}
      = {#x \<in># image_mset ?g (mset ?m). candidate_file x \<noteq> candidate_file c#}"
    unfolding filter_mset_image_mset by (rule arg_cong [where f = "image_mset ?g"], rule filter_mset_cong) (use named(2) in auto)
  with cs(3) have "mset cs = add_mset c {#x \<in># mset (sn_candidates sn). candidate_file x \<noteq> candidate_file c#}"
    using s(2) by (simp add: mset_bt_insert [OF named(1)] old)
  moreover have "load_execution cx xid fs' = Inr (sn\<lparr>sn_candidates := cs\<rparr>)"
    using assms(9) d fs'(2) cs(1) by (auto simp: load_execution_def read_file_def result_simps Let_def)
  ultimately show "\<exists>cs fs'. save_candidate cx c fs = (Inr (), fs') \<and> candidate_files_ok cx xid fs'
      \<and> load_execution cx xid fs' = Inr (sn\<lparr>sn_candidates := cs\<rparr>) \<and> sorted (map ca_created_seq cs)
      \<and> mset cs = add_mset c {#d \<in># mset (sn_candidates sn). candidate_file d \<noteq> candidate_file c#}"
    using fs'(1) ok' cs(2) by blast
next
  obtain d where d: "bt_get fs xid = Some d" using load_execution_exists [OF assms(9)] by blast
  obtain s where s: "accumulator_text cx a = Inr s" "parse_accumulator cx s =
      Inr (accumulator_default\<lparr>ac_scoring_history_len := ac_scoring_history_len a,
        ac_completed_iterations := ac_completed_iterations a, ac_best_candidate_id := ac_best_candidate_id a,
        ac_best_candidate_overrides := ac_best_candidate_overrides a\<rparr>)"
    using parse_accumulator_text [OF assms(1,6,7)] by blast
  have "save_accumulator cx xid a fs = (Inr (), bt_insert xid (d\<lparr>xd_accumulator := Some s\<rparr>) fs)"
    using d s(1) by (simp add: save_accumulator_def read_write_dir)
  moreover have "load_candidates cx xid (bt_insert xid (d\<lparr>xd_accumulator := Some s\<rparr>) fs) = load_candidates cx xid fs"
    by (simp add: load_candidates_def d)
  ultimately show "\<exists>fs'. save_accumulator cx xid a fs = (Inr (), fs')
      \<and> load_execution cx xid fs' = Inr (sn\<lparr>sn_accumulator := \<lparr>ac_scoring_history_len = ac_scoring_history_len a,
          ac_completed_iterations = ac_completed_iterations a, ac_leader_proposals = [],
          ac_iterations_without_improvement = 0, ac_best_candidate_id = ac_best_candidate_id a,
          ac_best_candidate_overrides = ac_best_candidate_overrides a,
          ac_failure_counts = failure_counts_default, ac_supervision_reviews = [],
          ac_supervision_revision_rounds = [], ac_supervision_final_approval = None\<rparr>\<rparr>)"
    using assms(9) d s(2)
    by (auto simp: load_execution_def read_file_def result_simps Let_def accumulator_default_def)
qed

definition demo_record :: execution where
  "demo_record = execution_new ''e1'' ''swarm'' ''a goal''"

definition demo_candidate :: execution_candidate where
  "demo_candidate = (execution_candidate_new ''e1'' ''c1'' 3 0 CaRunning)
     \<lparr>ca_overrides := [(''k'', ''v'')], ca_metrics := [(''m'', Fin 2)]\<rparr>"

lemma candidate_kept_accumulator_projected_witness:
  "\<exists>fs'. save_candidate local_codec demo_candidate (snd (create_execution demo_record [])) = (Inr (), fs')
     \<and> (\<exists>sn. load_execution local_codec ''e1'' fs' = Inr sn \<and> sn_candidates sn = [demo_candidate])"
proof -
  let ?fs = "snd (create_execution demo_record [])"
  have fields: "execution_fields_ok demo_record"
    by (simp add: demo_record_def execution_fields_ok_def execution_new_def line_safe_def line_field_def)
  have fs: "bt_get ?fs ''e1'' = Some (empty_dir\<lparr>xd_execution := Some (execution_text demo_record)\<rparr>)"
    by (simp add: create_execution_def save_execution_def read_write_dir demo_record_def execution_new_def)
  have "load_execution local_codec ''e1'' ?fs = Inr \<lparr>sn_execution = demo_record, sn_events = [],
      sn_accumulator = accumulator_default, sn_candidates = []\<rparr>"
    by (simp add: load_execution_def read_file_def fs load_candidates_def parse_execution_text [OF fields])
      (simp add: empty_dir_def load_candidates_def fs)
  moreover have "candidate_files_ok local_codec ''e1'' ?fs"
    by (simp add: candidate_files_ok_def fs candidates_dir_def empty_dir_def)
  moreover note candidate_kept_accumulator_projected [OF local_map_codec_ok local_metrics_codec_ok,
      of demo_candidate accumulator_default "''e1''" ?fs]
  ultimately show ?thesis
    by (auto simp: demo_candidate_def bt_wf_def candidate_fields_ok_def execution_candidate_new_def
        line_safe_def line_field_def accumulator_default_def)
qed

text \<open>
  A goal (or a mode) with a line break does not survive the store: the file of an execution whose
  goal has two lines is never read back as that execution, and while no best candidate is known it
  cannot be read at all, so that loading the execution fails and listing the active executions fails
  for the whole store.
\<close>

theorem goal_line_break_corrupts:
  assumes "ex_goal x = a @ nl # b" and "line_safe a" and "line_safe b"
    and "line_safe (ex_execution_id x)" and "line_safe (ex_mode x)"
    and "ex_result_best_candidate_id x = None" and "bt_get fs (ex_execution_id x) = Some d"
    and "xd_execution d = Some (execution_text x)"
  shows "parse_execution (execution_text x) \<noteq> Inr x
    \<and> \<not> is_ok (load_execution cx (ex_execution_id x) fs)
    \<and> \<not> is_ok (list_active_execution_ids cx fs)"
proof -
  let ?id = "ex_execution_id x"
  have lines: "lines_of (execution_text x) = [?id, ex_mode x, a, b, status_to_str (ex_status x), [],
      word_to_string (ex_completed_iterations x), word_to_string (total_candidate_failures (ex_failure_counts x))]"
    using assms lines_of_join_nl [of "[?id, ex_mode x, a, b, status_to_str (ex_status x), [],
      word_to_string (ex_completed_iterations x)]" "word_to_string (total_candidate_failures (ex_failure_counts x))"]
    by (simp add: execution_text_def)
  have num: "\<exists>e. parse_or_default (parse_word :: string \<Rightarrow> string + u32) 0 (Some []) = Inl e"
    by (simp add: parse_or_default_def parse_word_def)
  have bad: "\<exists>e. parse_execution (execution_text x) = Inl e"
    using num by (auto simp: parse_execution_def lines required_line_def optional_line_def)
  obtain e where load: "load_execution cx ?id fs = Inl e"
    using bad assms(7,8) by (auto simp: load_execution_def read_file_def)
  have fails: "\<exists>e. res_map g ys = Inl e" if "z \<in> set ys" "g z = Inl e0"
    for g :: "string \<Rightarrow> io_error + string option" and z ys e0
    using that
  proof (induction ys)
    case (Cons y ys)
    then show ?case by (cases "g y") auto
  qed simp
  have "?id \<in> set (sort (map fst fs))"
    using bt_get_Some_mem [OF assms(7)] by force
  from fails [OF this, of "\<lambda>xid. map_ok (\<lambda>sn. if ex_status (sn_execution sn) \<in> {ExPending, ExRunning, ExPaused}
      then Some xid else None) (load_execution cx xid fs)" e] load
  obtain e' where "list_active_execution_ids cx fs = Inl e'"
    by (auto simp: list_active_execution_ids_def list_execution_ids_def)
  with bad load show ?thesis by auto
qed

lemma goal_line_break_corrupts_witness:
  "\<not> is_ok (list_active_execution_ids local_codec (snd (create_execution
      (execution_new ''e1'' ''swarm'' (''one'' @ nl # ''two'')) [])))"
  using goal_line_break_corrupts [of "execution_new ''e1'' ''swarm'' (''one'' @ nl # ''two'')" "''one''" "''two''"
      "snd (create_execution (execution_new ''e1'' ''swarm'' (''one'' @ nl # ''two'')) [])"
      "empty_dir\<lparr>xd_execution := Some (execution_text (execution_new ''e1'' ''swarm'' (''one'' @ nl # ''two'')))\<rparr>"
      local_codec]
  by (simp add: execution_new_def line_safe_def create_execution_def save_execution_def read_write_dir)

text \<open>A log of records, each on a line of its own.\<close>

definition ndjson_text :: "string list \<Rightarrow> string" where
  "ndjson_text ls = concat (map (\<lambda>l. l @ [nl]) ls)"

lemma ndjson_text_last: "ndjson_text ls = [] \<or> last (ndjson_text ls) = nl"
  by (induction ls) (auto simp: ndjson_text_def)

lemma lines_of_ndjson: "\<forall>l \<in> set ls. line_safe l \<Longrightarrow> lines_of (ndjson_text ls) = ls"
  by (induction ls) (auto simp: ndjson_text_def lines_of_sep)

lemma ndjson_records_all:
  "list_all2 (\<lambda>l r. trim l \<noteq> [] \<and> dec l = Inr r) ls rs \<Longrightarrow>
   ndjson_records dec (ls @ ms) = map_ok (\<lambda>qs. rs @ qs) (ndjson_records dec ms)"
proof (induction ls rs rule: list_all2_induct)
  case Nil
  then show ?case by (cases "ndjson_records dec ms") simp_all
next
  case (Cons l ls r rs)
  then show ?case by (cases "ndjson_records dec ms") simp_all
qed

text \<open>
  A record log tolerates a torn last line: whatever a crash left after the last complete record,
  as long as it does not decode, all complete records are loaded. But the tail is not removed: the next
  record is appended to it and lost, and with one record more the whole log is rejected.
\<close>

theorem torn_log_tail:
  assumes "list_all2 (\<lambda>l r. trim l \<noteq> [] \<and> dec l = Inr r) ls rs" and "list_all line_safe ls"
    and "nl \<notin> set torn" and "trim torn \<noteq> []" and "\<not> is_ok (dec torn)"
    and "line_safe r1" and "\<not> is_ok (dec (torn @ r1))" and "trim (torn @ r1) \<noteq> []"
    and "line_safe r2" and "r1 \<noteq> []" and "r2 \<noteq> []"
  shows "load_ndjson dec (Some (ndjson_text ls @ torn)) = Inr rs
    \<and> load_ndjson dec (Some ((ndjson_text ls @ torn) @ r1 @ [nl])) = Inr rs
    \<and> \<not> is_ok (load_ndjson dec (Some (((ndjson_text ls @ torn) @ r1 @ [nl]) @ r2 @ [nl])))"
proof -
  note lines = lines_of_append [OF ndjson_text_last [of ls]] lines_of_ndjson [of ls]
  have ls: "\<forall>l \<in> set ls. line_safe l" using assms(2) by (simp add: list_all_iff)
  have "torn \<noteq> []" using assms(4) by (auto simp: trim_def)
  then have l1: "lines_of (ndjson_text ls @ torn) = ls @ [torn]"
    using ls assms(3) by (simp add: lines lines_of_last)
  have safe: "line_safe (torn @ r1)" using assms(3,6,10) by (simp add: line_safe_def)
  have l2: "lines_of (ndjson_text ls @ torn @ r1 @ [nl]) = ls @ [torn @ r1]"
    using ls lines_of_sep [OF safe, of "[]"] by (simp add: lines)
  have l3: "lines_of (ndjson_text ls @ torn @ r1 @ nl # r2 @ [nl]) = ls @ [torn @ r1, r2]"
    using ls lines_of_sep [OF safe, of "r2 @ [nl]"] lines_of_sep [OF assms(9), of "[]"]
    by (simp add: lines)
  obtain e1 where e1: "dec torn = Inl e1" using assms(5) by (cases "dec torn") auto
  obtain e2 where e2: "dec (torn @ r1) = Inl e2" using assms(7) by (cases "dec (torn @ r1)") auto
  note all = ndjson_records_all [OF assms(1)]
  show ?thesis
    using assms(4,8) by (simp add: load_ndjson_def l1 l2 l3 all e1 e2)
qed

lemma torn_log_tail_witness:
  "load_ndjson (\<lambda>s. if s = ''{a}'' then Inr (1::nat) else Inl ''bad'') (Some (ndjson_text [''{a}''] @ ''{'')) = Inr [1]
   \<and> \<not> is_ok (load_ndjson (\<lambda>s. if s = ''{a}'' then Inr (1::nat) else Inl ''bad'')
       (Some (((ndjson_text [''{a}''] @ ''{'') @ ''{a}'' @ [nl]) @ ''{a}'' @ [nl])))"
  using torn_log_tail [of "\<lambda>s. if s = ''{a}'' then Inr (1::nat) else Inl ''bad''" "[''{a}'']" "[1]" "''{''" "''{a}''" "''{a}''"]
  by (simp add: line_safe_def trim_def is_ws_def)

end
