(* ===== verification/Claims.thy ===== *)
theory Claims
  imports Store
begin

text \<open>
  The claim files by which workers exclude each other (\<open>claim_execution\<close>, \<open>refresh_claim\<close>,
  \<open>release_claim\<close> of \<open>src/orchestration/store/fs.rs\<close>). The clock reading is the argument \<open>now\<close>.
  Lemmas: when a claim is granted; exclusion of workers that claim, refresh in time and release, each
  call taken as one step; and the interleavings of the single file operations that break it.
\<close>

record execution_claim =
  cl_worker_id :: string
  cl_claimed_at_ms :: u64

definition serialize_claim :: "execution_claim \<Rightarrow> string" where
  "serialize_claim c = cl_worker_id c @ ''|'' @ word_to_string (cl_claimed_at_ms c)"

definition parse_claim :: "string \<Rightarrow> execution_claim option" where
  "parse_claim contents =
     (let trimmed = trim contents in
      if trimmed = [] then None
      else case split_once (CHR ''|'') trimmed of
        None \<Rightarrow> None
      | Some (w, ms) \<Rightarrow> (case parse_word ms of
          Inl _ \<Rightarrow> None | Inr t \<Rightarrow> Some \<lparr>cl_worker_id = w, cl_claimed_at_ms = t\<rparr>))"

text \<open>\<open>VOID_CONTROL_CLAIM_TTL_MS\<close>, a positive number, or 30 seconds.\<close>

definition claim_ttl_ms :: "string option \<Rightarrow> u64" where
  "claim_ttl_ms var =
     (case Option.bind var (\<lambda>v. case parse_word v of Inl _ \<Rightarrow> None | Inr t \<Rightarrow> if 0 < t then Some t else None) of
        None \<Rightarrow> 30000 | Some t \<Rightarrow> t)"

definition claim_is_stale :: "u64 \<Rightarrow> u64 \<Rightarrow> execution_claim \<Rightarrow> bool" where
  "claim_is_stale now ttl c = (ttl < saturating_sub now (cl_claimed_at_ms c))"

definition claim_file :: "store_fs \<Rightarrow> string \<Rightarrow> string option" where
  "claim_file fs xid = Option.bind (bt_get fs xid) xd_claim"

definition load_claim_record :: "string \<Rightarrow> store_fs \<Rightarrow> io_error + execution_claim option" where
  "load_claim_record xid fs =
     (case claim_file fs xid of None \<Rightarrow> Inr None | Some s \<Rightarrow> Inr (parse_claim s))"

definition load_claim :: "string \<Rightarrow> store_fs \<Rightarrow> io_error + string option" where
  "load_claim xid fs = map_ok (map_option cl_worker_id) (load_claim_record xid fs)"

definition set_claim :: "string \<Rightarrow> string option \<Rightarrow> store_fs \<Rightarrow> store_fs" where
  "set_claim xid c fs = snd (write_dir xid (\<lambda>d. d\<lparr>xd_claim := c\<rparr>) fs)"

lemma claim_file_set: "claim_file (set_claim xid c fs) xid = (if bt_get fs xid = None then None else c)"
  by (auto simp: claim_file_def set_claim_def write_dir_def split: option.split)

text \<open>
  \<open>create_new\<close> succeeds only without a claim file; an unreadable or a stale claim is removed and the
  call made again. The clock is read once for the whole call; the source reads it for the new claim, for the
  age of the old one and again when the call is made again, which differs by the time the call itself takes.
\<close>

function claim_execution ::
    "u64 \<Rightarrow> u64 \<Rightarrow> string \<Rightarrow> string \<Rightarrow> store_fs \<Rightarrow> (io_error + bool) \<times> store_fs" where
  "claim_execution now ttl xid w fs =
     (let fs1 = create_dir_all xid fs in
      case claim_file fs1 xid of
        None \<Rightarrow> (Inr True, set_claim xid
                  (Some (serialize_claim \<lparr>cl_worker_id = w, cl_claimed_at_ms = now\<rparr>)) fs1)
      | Some s \<Rightarrow>
          (case parse_claim s of
             None \<Rightarrow> claim_execution now ttl xid w (set_claim xid None fs1)
           | Some c \<Rightarrow> if claim_is_stale now ttl c
               then claim_execution now ttl xid w (set_claim xid None fs1) else (Inr False, fs1)))"
  by pat_completeness auto

termination
  by (relation "measure (\<lambda>(now, ttl, xid, w, fs). if claim_file fs xid = None then 0 else 1)")
    (auto simp: claim_file_set, auto simp: claim_file_def create_dir_all_def empty_dir_def split: option.splits)

declare claim_execution.simps [simp del]

definition release_claim :: "string \<Rightarrow> store_fs \<Rightarrow> (io_error + unit) \<times> store_fs" where
  "release_claim xid fs = (Inr (), if claim_file fs xid = None then fs else set_claim xid None fs)"

definition refresh_claim :: "u64 \<Rightarrow> string \<Rightarrow> string \<Rightarrow> store_fs \<Rightarrow> (io_error + unit) \<times> store_fs" where
  "refresh_claim now xid w fs =
     (case load_claim_record xid fs of
        Inl e \<Rightarrow> (Inl e, fs)
      | Inr None \<Rightarrow> (Inl (io_err NotFound ''claim not found''), fs)
      | Inr (Some c) \<Rightarrow>
          if cl_worker_id c \<noteq> w then (Inl (io_err PermissionDenied ''claim owned by another worker''), fs)
          else (Inr (), set_claim xid
                 (Some (serialize_claim \<lparr>cl_worker_id = w, cl_claimed_at_ms = now\<rparr>)) fs))"

subsection \<open>Claim records\<close>

text \<open>A worker id such as \<open>pid-4711\<close>: no bar, no white space at its ends, not empty.\<close>

definition worker_ok :: "string \<Rightarrow> bool" where
  "worker_ok w = (w \<noteq> [] \<and> CHR ''|'' \<notin> set w \<and> \<not> is_ws (hd w))"

lemma trim_plain: "s \<noteq> [] \<Longrightarrow> \<not> is_ws (hd s) \<Longrightarrow> \<not> is_ws (last s) \<Longrightarrow> trim s = s"
proof -
  assume s: "s \<noteq> []" "\<not> is_ws (hd s)" "\<not> is_ws (last s)"
  then have "dropWhile is_ws s = s" by (cases s) auto
  moreover have "dropWhile is_ws (rev s) = rev s"
    using s hd_rev [of s] dropWhile_eq_self_iff [of is_ws "rev s"] by simp
  ultimately show ?thesis by (simp add: trim_def)
qed

lemma parse_serialize_claim: "worker_ok (cl_worker_id c) \<Longrightarrow> parse_claim (serialize_claim c) = Some c"
proof -
  assume ok: "worker_ok (cl_worker_id c)"
  have "last (nat_to_string (unat (cl_claimed_at_ms c))) \<in> set (nat_to_string (unat (cl_claimed_at_ms c)))"
    by (rule last_in_set) simp
  from nat_to_string_chars [OF this] obtain d where
    "d < 10" "last (nat_to_string (unat (cl_claimed_at_ms c))) = digit_char d" by blast
  then have "\<not> is_ws (last (serialize_claim c))"
    using digit_char_ne by (simp add: serialize_claim_def word_to_string_def)
  moreover have "hd (serialize_claim c) = hd (cl_worker_id c)" "serialize_claim c \<noteq> []"
    using ok by (simp_all add: serialize_claim_def worker_ok_def)
  ultimately have "trim (serialize_claim c) = serialize_claim c"
    using ok by (intro trim_plain) (simp_all add: worker_ok_def)
  with ok show ?thesis
    by (simp add: parse_claim_def serialize_claim_def split_once_sep worker_ok_def)
qed

lemma claim_file_create_dir [simp]: "claim_file (create_dir_all xid fs) xid = claim_file fs xid"
  by (auto simp: claim_file_def create_dir_all_def empty_dir_def split: option.split)

lemma claim_file_set' [simp]: "claim_file (set_claim xid c (create_dir_all xid fs)) xid = c"
  by (simp add: claim_file_set)

definition claimable :: "u64 \<Rightarrow> u64 \<Rightarrow> string option \<Rightarrow> bool" where
  "claimable now ttl file = (case Option.bind file parse_claim of None \<Rightarrow> True | Some c \<Rightarrow> claim_is_stale now ttl c)"

lemma claim_execution_result:
  "fst (claim_execution now ttl xid w fs) = Inr (claimable now ttl (claim_file fs xid))
   \<and> claim_file (snd (claim_execution now ttl xid w fs)) xid =
       (if claimable now ttl (claim_file fs xid)
        then Some (serialize_claim \<lparr>cl_worker_id = w, cl_claimed_at_ms = now\<rparr>) else claim_file fs xid)"
proof -
  have free: "fst (claim_execution now ttl xid w fs) = Inr True
      \<and> claim_file (snd (claim_execution now ttl xid w fs)) xid
        = Some (serialize_claim \<lparr>cl_worker_id = w, cl_claimed_at_ms = now\<rparr>)"
    if "claim_file fs xid = None" for fs
    using that by (subst (1 2) claim_execution.simps) (simp add: Let_def)
  show ?thesis
  proof (cases "claim_file fs xid")
    case None
    with free [OF None] show ?thesis by (simp add: claimable_def)
  next
    case (Some s)
    with free [of "set_claim xid None (create_dir_all xid fs)"] show ?thesis
      by (subst (1 2) claim_execution.simps) (simp add: Let_def claimable_def split: option.split)
  qed
qed

lemma refresh_claim_result:
  assumes "bt_get fs xid \<noteq> None" "claim_file fs xid = Some (serialize_claim c)" "worker_ok (cl_worker_id c)"
  shows "claim_file (snd (refresh_claim now xid w fs)) xid =
      (if cl_worker_id c = w then Some (serialize_claim \<lparr>cl_worker_id = w, cl_claimed_at_ms = now\<rparr>)
       else Some (serialize_claim c))"
  using assms by (auto simp: refresh_claim_def load_claim_record_def parse_serialize_claim claim_file_set)

subsection \<open>Workers that take whole calls as steps\<close>

text \<open>
  The holders are the workers whose \<open>claim_execution\<close> returned true and that did not release yet.
  Time passes only as far as the claim of a holder stays fresh: its refresher is in time.
\<close>

record claim_world =
  cw_fs :: store_fs
  cw_now :: u64
  cw_holders :: "string set"

inductive claim_step :: "u64 \<Rightarrow> string \<Rightarrow> claim_world \<Rightarrow> claim_world \<Rightarrow> bool" for ttl xid where
  claim: "worker_ok w \<Longrightarrow> claim_execution (cw_now s) ttl xid w (cw_fs s) = (Inr won, fs')
    \<Longrightarrow> claim_step ttl xid s
         (s\<lparr>cw_fs := fs', cw_holders := (if won then insert w (cw_holders s) else cw_holders s)\<rparr>)"
| refresh: "claim_step ttl xid s (s\<lparr>cw_fs := snd (refresh_claim (cw_now s) xid w (cw_fs s))\<rparr>)"
| release: "w \<in> cw_holders s
    \<Longrightarrow> claim_step ttl xid s (s\<lparr>cw_fs := snd (release_claim xid (cw_fs s)), cw_holders := cw_holders s - {w}\<rparr>)"
| tick: "cw_now s \<le> t
    \<Longrightarrow> (cw_holders s \<noteq> {} \<Longrightarrow> \<not> claimable t ttl (claim_file (cw_fs s) xid))
    \<Longrightarrow> claim_step ttl xid s (s\<lparr>cw_now := t\<rparr>)"

definition claim_inv :: "u64 \<Rightarrow> string \<Rightarrow> claim_world \<Rightarrow> bool" where
  "claim_inv ttl xid s = (cw_holders s = {} \<or>
     (\<exists>c. cw_holders s = {cl_worker_id c} \<and> worker_ok (cl_worker_id c)
        \<and> claim_file (cw_fs s) xid = Some (serialize_claim c) \<and> \<not> claim_is_stale (cw_now s) ttl c
        \<and> bt_get (cw_fs s) xid \<noteq> None))"

lemma claim_invE:
  assumes "claim_inv ttl xid s"
  obtains "cw_holders s = {}" | c where "cw_holders s = {cl_worker_id c}" "worker_ok (cl_worker_id c)"
    "claim_file (cw_fs s) xid = Some (serialize_claim c)" "\<not> claim_is_stale (cw_now s) ttl c"
    "bt_get (cw_fs s) xid \<noteq> None"
  using assms unfolding claim_inv_def by blast

lemma claim_file_exists: "claim_file fs xid = Some s \<Longrightarrow> bt_get fs xid \<noteq> None"
  by (auto simp: claim_file_def bind_eq_Some_conv)

lemma saturating_self [simp]: "\<not> claim_is_stale now ttl \<lparr>cl_worker_id = w, cl_claimed_at_ms = now\<rparr>"
  by (simp add: claim_is_stale_def saturating_sub_def)

lemma claim_inv_step: "claim_step ttl xid s t \<Longrightarrow> claim_inv ttl xid s \<Longrightarrow> claim_inv ttl xid t"
proof (induction rule: claim_step.induct)
  case (claim w s won fs')
  have res: "won = claimable (cw_now s) ttl (claim_file (cw_fs s) xid)"
    "claim_file fs' xid = (if won then Some (serialize_claim \<lparr>cl_worker_id = w, cl_claimed_at_ms = cw_now s\<rparr>)
       else claim_file (cw_fs s) xid)"
    using claim_execution_result [of "cw_now s" ttl xid w "cw_fs s"] claim.hyps(2) by auto
  from claim.prems show ?case
  proof (cases rule: claim_invE)
    case 1
    show ?thesis
    proof (cases won)
      case True
      with res(2) have "claim_file fs' xid = Some (serialize_claim \<lparr>cl_worker_id = w, cl_claimed_at_ms = cw_now s\<rparr>)"
        by simp
      with 1 True claim.hyps(1) claim_file_exists [OF this] show ?thesis
        by (auto simp: claim_inv_def intro!: exI [of _ "\<lparr>cl_worker_id = w, cl_claimed_at_ms = cw_now s\<rparr>"])
    next
      case False
      with 1 show ?thesis by (simp add: claim_inv_def)
    qed
  next
    case (2 c)
    then have "\<not> won" using res(1) by (simp add: claimable_def parse_serialize_claim)
    with 2 res(2) claim_file_exists [of fs' xid] show ?thesis by (auto simp: claim_inv_def)
  qed
next
  case (refresh s w)
  from refresh show ?case
  proof (cases rule: claim_invE)
    case 1
    then show ?thesis by (simp add: claim_inv_def)
  next
    case (2 c)
    define fs' where "fs' = snd (refresh_claim (cw_now s) xid w (cw_fs s))"
    define c' where "c' = (if cl_worker_id c = w then \<lparr>cl_worker_id = w, cl_claimed_at_ms = cw_now s\<rparr> else c)"
    have evf: "claim_file fs' xid = Some (serialize_claim c')"
      using refresh_claim_result [OF 2(5,3,2), of "cw_now s" w] by (simp add: fs'_def c'_def)
    have "cl_worker_id c' = cl_worker_id c" "\<not> claim_is_stale (cw_now s) ttl c'"
      using 2(4) by (simp_all add: c'_def)
    with 2(1,2) evf claim_file_exists [OF evf] show ?thesis
      unfolding fs'_def [symmetric] claim_inv_def by simp (intro exI [of _ c'], simp)
  qed
next
  case (release w s)
  from release.prems show ?case
  proof (cases rule: claim_invE)
    case 1
    then show ?thesis by (simp add: claim_inv_def)
  next
    case (2 c)
    with release.hyps have "cw_holders s - {w} = {}" by simp
    then show ?thesis by (simp add: claim_inv_def)
  qed
next
  case (tick s t)
  from tick.prems show ?case
  proof (cases rule: claim_invE)
    case 1
    then show ?thesis by (simp add: claim_inv_def)
  next
    case (2 c)
    then have "\<not> claim_is_stale t ttl c"
      using tick.hyps(2) by (simp add: claimable_def parse_serialize_claim)
    with 2 show ?thesis unfolding claim_inv_def by simp blast
  qed
qed

lemma claim_inv_reach: "(claim_step ttl xid)\<^sup>*\<^sup>* s t \<Longrightarrow> claim_inv ttl xid s \<Longrightarrow> claim_inv ttl xid t"
  by (induction rule: rtranclp_induct) (auto intro: claim_inv_step)

subsection \<open>Single file operations\<close>

text \<open>
  The same call as the operating system sees it: \<open>create_new\<close>, the write of the contents, the read,
  and the removal are separate. The file is the worker that created it (its inode) and its contents; a
  write through a handle whose file was removed meanwhile does not show.
\<close>

datatype claim_pc = PcCreate | PcWrite | PcRead | PcRemove | PcDone "io_error + bool"

record claim_micro =
  mi_file :: "(string \<times> string) option"
  mi_pc :: "string \<Rightarrow> claim_pc"

definition micro_step :: "u64 \<Rightarrow> u64 \<Rightarrow> string \<Rightarrow> claim_micro \<Rightarrow> claim_micro" where
  "micro_step now ttl w s =
     (let jump = (\<lambda>pc s. s\<lparr>mi_pc := (mi_pc s)(w := pc)\<rparr>) in
      case mi_pc s w of
        PcCreate \<Rightarrow> (case mi_file s of
            None \<Rightarrow> jump PcWrite (s\<lparr>mi_file := Some (w, [])\<rparr>)
          | Some _ \<Rightarrow> jump PcRead s)
      | PcWrite \<Rightarrow> (let contents = serialize_claim \<lparr>cl_worker_id = w, cl_claimed_at_ms = now\<rparr> in
          jump (PcDone (Inr True))
            (case mi_file s of
               Some (inode, _) \<Rightarrow> if inode = w then s\<lparr>mi_file := Some (w, contents)\<rparr> else s
             | None \<Rightarrow> s))
      | PcRead \<Rightarrow> (case Option.bind (mi_file s) (\<lambda>f. parse_claim (snd f)) of
            None \<Rightarrow> jump PcRemove s
          | Some c \<Rightarrow> if claim_is_stale now ttl c then jump PcRemove s else jump (PcDone (Inr False)) s)
      | PcRemove \<Rightarrow> (case mi_file s of
            None \<Rightarrow> jump (PcDone (Inl not_found)) s
          | Some _ \<Rightarrow> jump PcCreate (s\<lparr>mi_file := None\<rparr>))
      | PcDone r \<Rightarrow> s)"

definition micro_run :: "u64 \<Rightarrow> u64 \<Rightarrow> string list \<Rightarrow> claim_micro \<Rightarrow> claim_micro" where
  "micro_run now ttl schedule s = fold (micro_step now ttl) schedule s"

definition micro_init :: "(string \<times> string) option \<Rightarrow> claim_micro" where
  "micro_init file = \<lparr>mi_file = file, mi_pc = (\<lambda>_. PcCreate)\<rparr>"

subsection \<open>Properties\<close>

text \<open>
  C20: A claim is granted exactly when there is no claim file, or it does not parse, or it is older
  than the time to live; then the file names the worker and the current time, and otherwise the file is
  untouched. The call always returns, after at most one removal.
\<close>

theorem claim_granted_iff_free_or_stale:
  "let granted = (case Option.bind (claim_file fs xid) parse_claim of
         None \<Rightarrow> True | Some c \<Rightarrow> unat ttl < unat now - unat (cl_claimed_at_ms c))
   in fst (claim_execution now ttl xid w fs) = Inr granted
     \<and> claim_file (snd (claim_execution now ttl xid w fs)) xid =
         (if granted then Some (w @ ''|'' @ word_to_string now) else claim_file fs xid)"
  using claim_execution_result [of now ttl xid w fs]
  by (simp add: claimable_def claim_is_stale_def serialize_claim_def word_less_nat_alt Let_def
      split: option.split_asm option.split)

text \<open>
  C19: Workers exclude each other as long as calls do not interleave and refreshes are in time: from
  a state without holders, whatever sequence of claims, refreshes, releases and passing time, at most
  one worker holds the claim at any moment, and then the claim file is its own and fresh.
\<close>

theorem claim_mutual_exclusion:
  assumes "(claim_step ttl xid)\<^sup>*\<^sup>* \<lparr>cw_fs = fs, cw_now = now, cw_holders = {}\<rparr> s"
    and "v \<in> cw_holders s" and "w \<in> cw_holders s"
  shows "v = w \<and> load_claim xid (cw_fs s) = Inr (Some w) \<and> \<not> claimable (cw_now s) ttl (claim_file (cw_fs s) xid)"
proof -
  have "claim_inv ttl xid s"
    by (rule claim_inv_reach [OF assms(1)]) (simp add: claim_inv_def)
  then show ?thesis
  proof (cases rule: claim_invE)
    case 1
    with assms show ?thesis by simp
  next
    case (2 c)
    with assms show ?thesis
      by (simp add: load_claim_def load_claim_record_def parse_serialize_claim claimable_def)
  qed
qed

lemma claim_mutual_exclusion_witness:
  "load_claim ''e1'' (snd (claim_execution 5 30 ''e1'' ''w1'' [])) = Inr (Some ''w1'')"
proof -
  have "fst (claim_execution 5 30 ''e1'' ''w1'' []) = Inr True"
    using claim_execution_result [of 5 30 "''e1''" "''w1''" "[]"] by (simp add: claim_file_def claimable_def)
  then have "claim_execution 5 30 ''e1'' ''w1'' [] = (Inr True, snd (claim_execution 5 30 ''e1'' ''w1'' []))"
    by (metis prod.collapse)
  then have "claim_step 30 ''e1'' \<lparr>cw_fs = [], cw_now = 5, cw_holders = {}\<rparr>
      \<lparr>cw_fs = snd (claim_execution 5 30 ''e1'' ''w1'' []), cw_now = 5, cw_holders = {''w1''}\<rparr>"
    using claim [of "''w1''" "\<lparr>cw_fs = [], cw_now = 5, cw_holders = {}\<rparr>" 30 "''e1''" True]
    by (simp add: worker_ok_def is_ws_def)
  then have "(claim_step 30 ''e1'')\<^sup>*\<^sup>* \<lparr>cw_fs = [], cw_now = 5, cw_holders = {}\<rparr>
      \<lparr>cw_fs = snd (claim_execution 5 30 ''e1'' ''w1'' []), cw_now = 5, cw_holders = {''w1''}\<rparr>"
    by (rule r_into_rtranclp)
  from claim_mutual_exclusion [OF this, of "''w1''" "''w1''"]
  show ?thesis by simp
qed

text \<open>
  The file operations of two claims can interleave so that both are granted: after the first
  worker created the claim file and before it wrote its contents, the second reads an empty file, takes
  it for unreadable, removes it and claims; and of two workers that find the same stale claim, the slower
  one removes the fresh claim of the faster. In both schedules both calls return true.
\<close>

theorem claim_interleaving_grants_twice:
  assumes "w1 \<noteq> w2" and "parse_claim old = Some c" and "claim_is_stale now ttl c"
  shows "let s = micro_run now ttl [w1, w2, w2, w2, w2, w2, w1] (micro_init None);
             t = micro_run now ttl [w1, w1, w2, w2, w1, w1, w1, w2, w2, w2] (micro_init (Some (w0, old)))
    in mi_pc s w1 = PcDone (Inr True) \<and> mi_pc s w2 = PcDone (Inr True)
     \<and> mi_pc t w1 = PcDone (Inr True) \<and> mi_pc t w2 = PcDone (Inr True)"
  using assms by (simp add: micro_run_def micro_step_def micro_init_def parse_claim_def [of "[]"] trim_def Let_def)

lemma claim_interleaving_grants_twice_witness:
  "mi_pc (micro_run 90000 30000 [''w1'', ''w2'', ''w2'', ''w2'', ''w2'', ''w2'', ''w1''] (micro_init None)) ''w2''
     = PcDone (Inr True)"
proof -
  let ?c = "\<lparr>cl_worker_id = ''w0'', cl_claimed_at_ms = 1\<rparr>"
  have "parse_claim (serialize_claim ?c) = Some ?c"
    by (rule parse_serialize_claim) (simp add: worker_ok_def is_ws_def)
  from claim_interleaving_grants_twice [OF _ this, of "''w1''" "''w2''" 90000 30000]
  show ?thesis by (simp add: Let_def claim_is_stale_def saturating_sub_def word_less_nat_alt)
qed

text \<open>
  Releasing does not look at the owner: a worker whose claim went stale and was taken over removes
  the new owner's claim when it releases, and a third worker is granted the execution while the second
  still works on it.
\<close>

theorem release_removes_foreign_claim:
  assumes "claim_file fs xid = Some (serialize_claim \<lparr>cl_worker_id = w1, cl_claimed_at_ms = t1\<rparr>)"
    and "worker_ok w1" and "worker_ok w2" and "unat ttl < unat t2 - unat t1"
  shows "let (r2, fs2) = claim_execution t2 ttl xid w2 fs;
             (r1, fs1) = release_claim xid fs2;
             (r3, fs3) = claim_execution t2 ttl xid w3 fs1
    in r2 = Inr True \<and> load_claim xid fs2 = Inr (Some w2) \<and> r1 = Inr () \<and> r3 = Inr True"
proof -
  have stale: "claimable t2 ttl (claim_file fs xid)"
    using assms by (simp add: claimable_def parse_serialize_claim claim_is_stale_def word_less_nat_alt)
  obtain r2 fs2 where c2: "claim_execution t2 ttl xid w2 fs = (r2, fs2)" by force
  with claim_execution_result [of t2 ttl xid w2 fs] stale
  have r2: "r2 = Inr True" "claim_file fs2 xid = Some (serialize_claim \<lparr>cl_worker_id = w2, cl_claimed_at_ms = t2\<rparr>)"
    by auto
  define fs1 where "fs1 = snd (release_claim xid fs2)"
  have "claim_file fs1 xid = None"
    using claim_file_exists [OF r2(2)] by (simp add: fs1_def release_claim_def r2(2) claim_file_set)
  then have "fst (claim_execution t2 ttl xid w3 fs1) = Inr True"
    using claim_execution_result [of t2 ttl xid w3 fs1] by (simp add: claimable_def)
  moreover have "release_claim xid fs2 = (Inr (), fs1)" by (simp add: fs1_def release_claim_def)
  ultimately show ?thesis
    using r2 c2 assms(3) by (simp add: load_claim_def load_claim_record_def parse_serialize_claim split_beta)
qed

lemma release_removes_foreign_claim_witness:
  "fst (claim_execution 40000 30000 ''e1'' ''w3''
     (snd (release_claim ''e1'' (snd (claim_execution 40000 30000 ''e1'' ''w2''
        [(''e1'', empty_dir\<lparr>xd_claim := Some (serialize_claim \<lparr>cl_worker_id = ''w1'', cl_claimed_at_ms = 1\<rparr>)\<rparr>)]))))) = Inr True"
  using release_removes_foreign_claim [of
      "[(''e1'', empty_dir\<lparr>xd_claim := Some (serialize_claim \<lparr>cl_worker_id = ''w1'', cl_claimed_at_ms = 1\<rparr>)\<rparr>)]"
      "''e1''" "''w1''" 1 "''w2''" 30000 40000 "''w3''"]
  by (simp add: claim_file_def worker_ok_def is_ws_def split_beta Let_def)

end
