(* ===== verification/Io.thy ===== *)
theory Io
  imports Claims
begin

text \<open>
  Effects of the service: a computation takes the world and returns a result or a fault together with
  the new world; \<open>?\<close> is \<open>io_bind\<close>. A panic is a fault that no handler of errors catches. The world holds
  the file store, the clock, the counters of the service and the rest of the environment. What another
  task or process does while the service awaits is part of the operation it awaits. Lemmas: the rules by
  which an invariant of the world is shown to survive a computation.
\<close>

datatype fault = IoErr io_error | Panic string

type_synonym ('w, 'a) io = "'w \<Rightarrow> (fault + 'a) \<times> 'w"

definition io_return :: "'a \<Rightarrow> ('w, 'a) io" where
  "io_return x = (\<lambda>w. (Inr x, w))"

definition io_bind :: "('w, 'a) io \<Rightarrow> ('a \<Rightarrow> ('w, 'b) io) \<Rightarrow> ('w, 'b) io" where
  "io_bind m f = (\<lambda>w. case m w of (Inl e, w') \<Rightarrow> (Inl e, w') | (Inr x, w') \<Rightarrow> f x w')"

definition io_fail :: "io_error \<Rightarrow> ('w, 'a) io" where
  "io_fail e = (\<lambda>w. (Inl (IoErr e), w))"

definition io_panic :: "string \<Rightarrow> ('w, 'a) io" where
  "io_panic m = (\<lambda>w. (Inl (Panic m), w))"

text \<open>A \<open>Result\<close> looked at instead of passed on.\<close>

definition io_attempt :: "('w, 'a) io \<Rightarrow> ('w, io_error + 'a) io" where
  "io_attempt m = (\<lambda>w. case m w of
     (Inl (IoErr e), w') \<Rightarrow> (Inr (Inl e), w')
   | (Inl (Panic p), w') \<Rightarrow> (Inl (Panic p), w')
   | (Inr x, w') \<Rightarrow> (Inr (Inr x), w'))"

definition io_result :: "io_error + 'a \<Rightarrow> ('w, 'a) io" where
  "io_result r = (case r of Inl e \<Rightarrow> io_fail e | Inr x \<Rightarrow> io_return x)"

definition io_expect :: "string \<Rightarrow> 'a option \<Rightarrow> ('w, 'a) io" where
  "io_expect m v = (case v of None \<Rightarrow> io_panic m | Some x \<Rightarrow> io_return x)"

definition io_get :: "('w \<Rightarrow> 'a) \<Rightarrow> ('w, 'a) io" where
  "io_get f = (\<lambda>w. (Inr (f w), w))"

definition io_modify :: "('w \<Rightarrow> 'w) \<Rightarrow> ('w, unit) io" where
  "io_modify f = (\<lambda>w. (Inr (), f w))"

definition io_then :: "('w, unit) io \<Rightarrow> ('w, 'b) io \<Rightarrow> ('w, 'b) io" where
  "io_then m k = io_bind m (\<lambda>_. k)"

fun io_for :: "'a list \<Rightarrow> ('a \<Rightarrow> ('w, unit) io) \<Rightarrow> ('w, unit) io" where
  "io_for [] body = io_return ()"
| "io_for (x # xs) body = io_then (body x) (io_for xs body)"

record 'e world =
  wd_fs :: store_fs
  wd_now :: u64
  wd_next_execution_id :: u64
  wd_next_candidate_id :: u64
  wd_env :: 'e

text \<open>Operations of the store on the world.\<close>

definition store_do :: "(store_fs \<Rightarrow> (io_error + 'a) \<times> store_fs) \<Rightarrow> ('e world, 'a) io" where
  "store_do f = (\<lambda>w. case f (wd_fs w) of
     (Inl e, fs) \<Rightarrow> (Inl (IoErr e), w\<lparr>wd_fs := fs\<rparr>)
   | (Inr x, fs) \<Rightarrow> (Inr x, w\<lparr>wd_fs := fs\<rparr>))"

definition store_read :: "(store_fs \<Rightarrow> io_error + 'a) \<Rightarrow> ('e world, 'a) io" where
  "store_read f = (\<lambda>w. io_result (f (wd_fs w)) w)"

lemma io_bind_assoc: "io_bind (io_bind m f) g = io_bind m (\<lambda>x. io_bind (f x) g)"
  by (rule ext) (simp add: io_bind_def split: prod.split sum.split)

lemma io_bind_return [simp]: "io_bind (io_return x) f = f x"
  by (simp add: io_bind_def io_return_def)

lemma io_bind_Inr: "m w = (Inr x, w') \<Longrightarrow> io_bind m f w = f x w'"
  by (simp add: io_bind_def)

lemma io_bind_Inl: "m w = (Inl e, w') \<Longrightarrow> io_bind m f w = (Inl e, w')"
  by (simp add: io_bind_def)

lemma io_bind_eq_Inr:
  "io_bind m f w = (Inr y, w'') \<longleftrightarrow> (\<exists>x w'. m w = (Inr x, w') \<and> f x w' = (Inr y, w''))"
  by (auto simp: io_bind_def split: prod.splits sum.splits)

subsection \<open>Invariants of computations\<close>

named_theorems keeps_rules \<open>structural rules for preserved invariants\<close>

definition keeps :: "('w \<Rightarrow> bool) \<Rightarrow> ('w, 'a) io \<Rightarrow> bool" where
  "keeps P m = (\<forall>w. P w \<longrightarrow> P (snd (m w)))"

lemma keepsD: "keeps P m \<Longrightarrow> P w \<Longrightarrow> P (snd (m w))"
  by (simp add: keeps_def)

lemma keeps_return [keeps_rules]: "keeps P (io_return x)"
  by (simp add: keeps_def io_return_def)

lemma keeps_fail [keeps_rules]: "keeps P (io_fail e)"
  by (simp add: keeps_def io_fail_def)

lemma keeps_panic [keeps_rules]: "keeps P (io_panic e)"
  by (simp add: keeps_def io_panic_def)

lemma keeps_get [keeps_rules]: "keeps P (io_get f)"
  by (simp add: keeps_def io_get_def)

lemma keeps_result [keeps_rules]: "keeps P (io_result r)"
  by (simp add: io_result_def keeps_return keeps_fail split: sum.split)

lemma keeps_expect [keeps_rules]: "keeps P (io_expect m v)"
  by (simp add: io_expect_def keeps_return keeps_panic split: option.split)

lemma keeps_read [keeps_rules]: "keeps P (store_read f)"
  by (simp add: keeps_def store_read_def io_result_def io_fail_def io_return_def split: sum.split)

lemma keeps_bind [keeps_rules]:
  assumes "keeps P m" "\<And>x. keeps P (f x)"
  shows "keeps P (io_bind m f)"
  unfolding keeps_def io_bind_def
proof (intro allI impI)
  fix w
  assume "P w"
  with assms(1) have "P (snd (m w))" by (simp add: keeps_def)
  with assms(2) show "P (snd (case m w of (Inl e, w') \<Rightarrow> (Inl e, w') | (Inr x, w') \<Rightarrow> f x w'))"
    by (cases "m w"; cases "fst (m w)") (auto simp: keeps_def)
qed

lemma keeps_then [keeps_rules]: "keeps P m \<Longrightarrow> keeps P k \<Longrightarrow> keeps P (io_then m k)"
  by (simp add: io_then_def keeps_bind)

lemma keeps_attempt [keeps_rules]:
  assumes "keeps P m"
  shows "keeps P (io_attempt m)"
  unfolding keeps_def io_attempt_def
proof (intro allI impI)
  fix w
  assume "P w"
  with assms have "P (snd (m w))" by (simp add: keeps_def)
  then show "P (snd (case m w of
     (Inl (IoErr e), w') \<Rightarrow> (Inr (Inl e), w')
   | (Inl (Panic p), w') \<Rightarrow> (Inl (Panic p), w')
   | (Inr x, w') \<Rightarrow> (Inr (Inr x), w')))"
    by (auto split: prod.splits sum.splits fault.splits)
qed

lemma keeps_for [keeps_rules]: "(\<And>x. keeps P (body x)) \<Longrightarrow> keeps P (io_for xs body)"
  by (induction xs) (auto intro: keeps_rules)

lemma keeps_if [keeps_rules]: "(b \<Longrightarrow> keeps P m) \<Longrightarrow> (\<not> b \<Longrightarrow> keeps P k) \<Longrightarrow> keeps P (if b then m else k)"
  by simp

lemma keeps_case_option [keeps_rules]:
  "keeps P m \<Longrightarrow> (\<And>x. keeps P (f x)) \<Longrightarrow> keeps P (case v of None \<Rightarrow> m | Some x \<Rightarrow> f x)"
  by (simp split: option.split)

lemma keeps_case_sum [keeps_rules]:
  "(\<And>e. keeps P (f e)) \<Longrightarrow> (\<And>x. keeps P (g x)) \<Longrightarrow> keeps P (case v of Inl e \<Rightarrow> f e | Inr x \<Rightarrow> g x)"
  by (simp split: sum.split)

lemma keeps_case_prod [keeps_rules]: "(\<And>x y. keeps P (f x y)) \<Longrightarrow> keeps P (case v of (x, y) \<Rightarrow> f x y)"
  by (simp split: prod.split)

lemma keeps_let [keeps_rules]: "keeps P (f x) \<Longrightarrow> keeps P (let y = x in f y)"
  by simp

lemma keeps_store_do:
  assumes "\<And>w. P w \<Longrightarrow> P (w\<lparr>wd_fs := snd (f (wd_fs w))\<rparr>)"
  shows "keeps P (store_do f)"
  unfolding keeps_def
proof (intro allI impI)
  fix w
  assume "P w"
  then have "P (w\<lparr>wd_fs := snd (f (wd_fs w))\<rparr>)" by (rule assms)
  then show "P (snd (store_do f w))"
    by (auto simp: store_do_def split: prod.splits sum.splits)
qed

subsection \<open>Results of computations\<close>

text \<open>If the computation returns, its result and the new world satisfy \<open>Q\<close>; only the rules' use.\<close>

named_theorems ensures_rules \<open>structural rules for results\<close>

definition ensures :: "('w \<Rightarrow> bool) \<Rightarrow> ('w, 'a) io \<Rightarrow> ('a \<Rightarrow> 'w \<Rightarrow> bool) \<Rightarrow> bool" where
  "ensures P m Q = (\<forall>w x w'. P w \<longrightarrow> m w = (Inr x, w') \<longrightarrow> Q x w')"

lemma ensuresD: "ensures P m Q \<Longrightarrow> P w \<Longrightarrow> m w = (Inr x, w') \<Longrightarrow> Q x w'"
  unfolding ensures_def by blast

lemma keeps_True [simp]: "keeps (\<lambda>_. True) m"
  by (simp add: keeps_def)

lemma ensures_return: "(\<And>w. P w \<Longrightarrow> Q x w) \<Longrightarrow> ensures P (io_return x) Q"
  by (simp add: ensures_def io_return_def)

lemma ensures_fail [ensures_rules]: "ensures P (io_fail e) Q"
  by (simp add: ensures_def io_fail_def)

lemma ensures_panic [ensures_rules]: "ensures P (io_panic e) Q"
  by (simp add: ensures_def io_panic_def)

lemma ensures_seq:
  assumes "ensures P m R" "\<And>x. ensures (R x) (f x) Q"
  shows "ensures P (io_bind m f) Q"
  unfolding ensures_def
proof (intro allI impI)
  fix w y w''
  assume "P w" "io_bind m f w = (Inr y, w'')"
  then obtain x w' where "m w = (Inr x, w')" "f x w' = (Inr y, w'')"
    by (auto simp: io_bind_eq_Inr)
  then show "Q y w''"
    using ensuresD [OF assms(1) \<open>P w\<close>] ensuresD [OF assms(2)] by blast
qed

lemma ensures_bind [ensures_rules]:
  assumes "keeps P m" "\<And>x. ensures P (f x) Q"
  shows "ensures P (io_bind m f) Q"
proof (rule ensures_seq)
  show "ensures P m (\<lambda>_. P)"
    unfolding ensures_def using keepsD [OF assms(1)] by (metis snd_conv)
qed (rule assms(2))

lemma ensures_then [ensures_rules]: "keeps P m \<Longrightarrow> ensures P k Q \<Longrightarrow> ensures P (io_then m k) Q"
  by (simp add: io_then_def ensures_bind)

lemma ensures_seq_then: "ensures P m (\<lambda>_. R) \<Longrightarrow> ensures R k Q \<Longrightarrow> ensures P (io_then m k) Q"
  unfolding io_then_def by (rule ensures_seq)

lemma ensures_if [ensures_rules]:
  "(b \<Longrightarrow> ensures P m Q) \<Longrightarrow> (\<not> b \<Longrightarrow> ensures P k Q) \<Longrightarrow> ensures P (if b then m else k) Q"
  by simp

lemma ensures_let [ensures_rules]: "(\<And>y. y = x \<Longrightarrow> ensures P (f y) Q) \<Longrightarrow> ensures P (let y = x in f y) Q"
  by simp

lemma ensures_weaken: "ensures P m Q \<Longrightarrow> (\<And>w. P' w \<Longrightarrow> P w) \<Longrightarrow> (\<And>x w. Q x w \<Longrightarrow> Q' x w) \<Longrightarrow> ensures P' m Q'"
  unfolding ensures_def by blast

end
