(* ===== verification/Service.thy ===== *)
theory Service
  imports Io Contract Message_Box Strategy
begin

text \<open>
  The execution service (\<open>src/orchestration/service.rs\<close>): its interfaces to a runtime, a launch adapter
  and a delivery adapter, and every operation up to the dispatch of one candidate. The service's fields
  and the interfaces are the record \<open>service\<close>; its counters, the store and the clock are the world.
  An asynchronous call of an interface is a function on the world: what other tasks and the refresher
  thread of the claim do until it returns is part of it. The lemmas give the rules by which each
  operation keeps an invariant of the world.
\<close>

subsection \<open>Interfaces\<close>

datatype structured_output_result =
  OutputFound candidate_output | OutputMissing | OutputError contract_error

record void_box_run_ref =
  vr_daemon_base_url :: string
  vr_run_id :: string

type_synonym ('e, 'err, 'a) call = "'e world \<Rightarrow> ('err + 'a) \<times> 'e world"

text \<open>\<open>MessageDeliveryAdapter\<close>, the operations the service calls.\<close>

record 'e delivery_adapter =
  da_inject_at_launch :: "void_box_run_ref \<Rightarrow> candidate_spec \<Rightarrow> inbox_snapshot \<Rightarrow> ('e, io_error, unit) call"
  da_drain_intents :: "void_box_run_ref \<Rightarrow> ('e, io_error, communication_intent list) call"

text \<open>
  \<open>ExecutionService<R>\<close> with its \<open>ExecutionRuntime\<close> and \<open>ProviderLaunchAdapter\<close>, the process id, the claim
  time to live of the environment, and the library functions that print numbers and strings as JSON.
\<close>

record 'e service =
  svc_global :: global_config
  svc_codec :: codec
  svc_pid :: u32
  svc_ttl_var :: "string option"
  svc_num_text :: "json_number \<Rightarrow> string"
  svc_str_text :: "string \<Rightarrow> string"
  svc_start_run :: "start_request \<Rightarrow> ('e, contract_error, start_result) call"
  svc_inspect_run :: "string \<Rightarrow> ('e, contract_error, runtime_inspection) call"
  svc_take_structured_output :: "string \<Rightarrow> 'e world \<Rightarrow> structured_output_result \<times> 'e world"
  svc_inline_poll_budget :: usize
  svc_inline_poll_sleep_ms :: u64
  svc_sleep :: "u64 \<Rightarrow> 'e world \<Rightarrow> 'e world"
  svc_persisted_run_handle :: "string \<Rightarrow> string"
  svc_delivery_run_ref :: "string \<Rightarrow> void_box_run_ref option"
  svc_prepare_launch_request ::
    "start_request \<Rightarrow> candidate_spec \<Rightarrow> inbox_snapshot \<Rightarrow> ('e, contract_error, start_request) call"
  svc_delivery_adapter :: "'e delivery_adapter option"

datatype execution_control = ControlContinue | ControlPaused | ControlCanceled

datatype run_poll_outcome =
  PollTerminal runtime_inspection | PollInFlight runtime_inspection | PollCanceled

datatype dispatch_outcome =
  DispatchOutput candidate_output bool | DispatchInFlight | DispatchRetryable io_error | DispatchCanceled

record candidate_state_update =
  up_execution_id :: string
  up_candidate_id :: string
  up_created_seq :: u64
  up_iteration :: u32
  up_status :: candidate_status
  up_runtime_run_id :: "string option"
  up_overrides :: "(string, string) btree"
  up_succeeded :: "bool option"
  up_metrics :: "(string, f64) btree"
  up_review_status :: "worker_review_status option"
  up_revision_round :: u32

text \<open>Calls whose errors the service turns into \<open>io::Error\<close>, or looks at.\<close>

definition io_other :: "string \<Rightarrow> io_error" where
  "io_other m = io_err OtherKind m"

definition call_contract :: "('e, contract_error, 'a) call \<Rightarrow> ('e world, 'a) io" where
  "call_contract c = (\<lambda>w. case c w of
     (Inl e, w') \<Rightarrow> (Inl (IoErr (io_other (ce_message e))), w')
   | (Inr x, w') \<Rightarrow> (Inr x, w'))"

definition call_io :: "('e, io_error, 'a) call \<Rightarrow> ('e world, 'a) io" where
  "call_io c = (\<lambda>w. case c w of (Inl e, w') \<Rightarrow> (Inl (IoErr e), w') | (Inr x, w') \<Rightarrow> (Inr x, w'))"

definition call_total :: "('e world \<Rightarrow> 'a \<times> 'e world) \<Rightarrow> ('e world, 'a) io" where
  "call_total c = (\<lambda>w. case c w of (x, w') \<Rightarrow> (Inr x, w'))"

definition await_sleep :: "'e service \<Rightarrow> u64 \<Rightarrow> ('e world, unit) io" where
  "await_sleep sv n = (\<lambda>w. (Inr (), svc_sleep sv n w))"

subsection \<open>Control and polling\<close>

definition worker_id :: "'e service \<Rightarrow> string" where
  "worker_id sv = ''pid-'' @ word_to_string (svc_pid sv)"

definition load_snapshot :: "'e service \<Rightarrow> string \<Rightarrow> ('e world, execution_snapshot) io" where
  "load_snapshot sv xid = store_read (load_execution (svc_codec sv) xid)"

definition load_workable_execution ::
    "'e service \<Rightarrow> string \<Rightarrow> string \<Rightarrow> ('e world, execution_snapshot \<times> execution_spec) io" where
  "load_workable_execution sv xid invalid_message =
     io_bind (load_snapshot sv xid) (\<lambda>snapshot.
       if \<not> (ex_status (sn_execution snapshot) = ExPending \<or> ex_status (sn_execution snapshot) = ExRunning)
       then io_fail (io_err InvalidInput invalid_message)
       else io_bind (store_read (load_spec (svc_codec sv) xid)) (\<lambda>spec. io_return (snapshot, spec)))"

fun control_of_status :: "execution_status \<Rightarrow> execution_control" where
  "control_of_status ExPending = ControlContinue"
| "control_of_status ExRunning = ControlContinue"
| "control_of_status ExPaused = ControlPaused"
| "control_of_status ExCanceled = ControlCanceled"
| "control_of_status ExCompleted = ControlCanceled"
| "control_of_status ExFailed = ControlCanceled"

definition refresh_ignored :: "string \<Rightarrow> string \<Rightarrow> ('e world, unit) io" where
  "refresh_ignored xid w = io_bind (io_get wd_now) (\<lambda>now.
     io_bind (io_attempt (store_do (refresh_claim now xid w))) (\<lambda>_. io_return ()))"

definition check_execution_control ::
    "'e service \<Rightarrow> string \<Rightarrow> string \<Rightarrow> ('e world, execution_control) io" where
  "check_execution_control sv xid w =
     io_then (refresh_ignored xid w)
      (io_bind (load_snapshot sv xid) (\<lambda>snapshot.
         io_return (control_of_status (ex_status (sn_execution snapshot)))))"

text \<open>The polling loop: \<open>left\<close> polls remain, \<open>prev\<close> is the previous inspection.\<close>

fun poll_run ::
    "'e service \<Rightarrow> string \<Rightarrow> string \<Rightarrow> string \<Rightarrow> nat \<Rightarrow> runtime_inspection option
     \<Rightarrow> ('e world, run_poll_outcome) io" where
  "poll_run sv xid w handle 0 prev =
     (case prev of None \<Rightarrow> io_fail (io_err WouldBlock ''run did not reach terminal state'')
      | Some i \<Rightarrow> io_return (PollInFlight i))"
| "poll_run sv xid w handle (Suc left) prev =
     io_bind (check_execution_control sv xid w) (\<lambda>c. case c of
       ControlPaused \<Rightarrow> io_fail (io_err WouldBlock ''execution paused'')
     | ControlCanceled \<Rightarrow> io_return PollCanceled
     | ControlContinue \<Rightarrow>
         io_bind (call_contract (svc_inspect_run sv handle)) (\<lambda>inspection.
           if run_state_is_terminal (ri_state inspection) then io_return (PollTerminal inspection)
           else io_then (if left \<noteq> 0 \<and> 0 < svc_inline_poll_sleep_ms sv
                         then await_sleep sv (svc_inline_poll_sleep_ms sv) else io_return ())
             (poll_run sv xid w handle left (Some inspection))))"

definition wait_for_terminal_run ::
    "'e service \<Rightarrow> string \<Rightarrow> string \<Rightarrow> string \<Rightarrow> ('e world, run_poll_outcome) io" where
  "wait_for_terminal_run sv xid w handle =
     poll_run sv xid w handle (max (unat (svc_inline_poll_budget sv)) 1) None"

subsection \<open>Events, candidates, intents\<close>

definition append_event :: "'e service \<Rightarrow> string \<Rightarrow> control_event_type \<Rightarrow> ('e world, unit) io" where
  "append_event sv xid t =
     io_bind (load_snapshot sv xid) (\<lambda>snapshot.
       store_do (store_append_event xid
         (control_event_new xid (of_nat (length (sn_events snapshot)) + 1) t)))"

definition candidate_of_update :: "candidate_state_update \<Rightarrow> execution_candidate" where
  "candidate_of_update u =
     (execution_candidate_new (up_execution_id u) (up_candidate_id u) (up_created_seq u)
        (up_iteration u) (up_status u))
     \<lparr>ca_runtime_run_id := up_runtime_run_id u, ca_overrides := up_overrides u,
      ca_succeeded := up_succeeded u, ca_metrics := up_metrics u,
      ca_review_status := up_review_status u, ca_revision_round := up_revision_round u\<rparr>"

definition save_candidate_state :: "'e service \<Rightarrow> candidate_state_update \<Rightarrow> ('e world, unit) io" where
  "save_candidate_state sv u = store_do (save_candidate (svc_codec sv) (candidate_of_update u))"

text \<open>The event of a decision; \<open>PendingReview\<close> has none and skips the rest of the round.\<close>

fun review_event :: "worker_review_status \<Rightarrow> control_event_type option" where
  "review_event Approved = Some WorkerApproved"
| "review_event RevisionRequested = Some EvRevisionRequested"
| "review_event RetryRequested = Some EvRevisionRequested"
| "review_event Rejected = Some ExecutionFailed"
| "review_event PendingReview = None"

definition persist_supervision_reviews ::
    "'e service \<Rightarrow> execution \<Rightarrow> u32 \<Rightarrow> execution_candidate list \<Rightarrow> supervision_evaluation
     \<Rightarrow> ('e world, unit) io" where
  "persist_supervision_reviews sv x iteration candidates ev =
     io_for (su_decisions ev) (\<lambda>d.
       case find (\<lambda>c. ca_candidate_id c = wd_candidate_id d) candidates of
         None \<Rightarrow> io_return ()
       | Some c \<Rightarrow>
           io_then (append_event sv (ex_execution_id x) ReviewRequested)
            (case review_event (wd_status d) of
               None \<Rightarrow> io_return ()
             | Some t \<Rightarrow>
                 io_then (save_candidate_state sv
                   \<lparr>up_execution_id = ex_execution_id x, up_candidate_id = ca_candidate_id c,
                    up_created_seq = ca_created_seq c, up_iteration = iteration, up_status = ca_status c,
                    up_runtime_run_id = ca_runtime_run_id c, up_overrides = ca_overrides c,
                    up_succeeded = ca_succeeded c, up_metrics = ca_metrics c,
                    up_review_status = Some (wd_status d), up_revision_round = wd_revision_round d\<rparr>)
                  (append_event sv (ex_execution_id x) t)))"

definition load_launch_inbox_snapshot ::
    "'e service \<Rightarrow> string \<Rightarrow> u32 \<Rightarrow> string \<Rightarrow> ('e world, inbox_snapshot) io" where
  "load_launch_inbox_snapshot sv xid iteration candidate_id =
     io_bind (io_attempt (store_read (load_inbox_snapshot (svc_codec sv) xid iteration candidate_id))) (\<lambda>r.
       case r of
         Inr snapshot \<Rightarrow> io_return snapshot
       | Inl e \<Rightarrow> if io_kind e = NotFound
           then io_return \<lparr>is_execution_id = xid, is_candidate_id = candidate_id,
                           is_iteration = iteration, is_entries = []\<rparr>
           else io_fail e)"

definition persist_candidate_intents ::
    "'e service \<Rightarrow> string \<Rightarrow> u32 \<Rightarrow> string \<Rightarrow> communication_intent list \<Rightarrow> ('e world, unit) io" where
  "persist_candidate_intents sv xid iteration candidate_id intents =
     (let (valid, rejected) = normalize_intents candidate_id iteration intents in
      io_then (io_for [0 ..< rejected] (\<lambda>_. append_event sv xid CommunicationIntentRejected))
      (io_then (io_for valid (\<lambda>i. io_then (store_do (append_intent (svc_codec sv) xid i))
                                          (append_event sv xid CommunicationIntentEmitted)))
      (io_for (route_intents valid) (\<lambda>m. io_then (store_do (append_routed_message (svc_codec sv) xid m))
                                                 (append_event sv xid MessageRouted)))))"

definition no_run_ref :: io_error where
  "no_run_ref = io_err Unsupported ''delivery adapter configured for runtime without delivery run references''"

definition drain_delivery_intents :: "'e service \<Rightarrow> string \<Rightarrow> ('e world, communication_intent list) io" where
  "drain_delivery_intents sv handle =
     (case svc_delivery_adapter sv of
        None \<Rightarrow> io_return []
      | Some a \<Rightarrow> (case svc_delivery_run_ref sv handle of
            None \<Rightarrow> io_fail no_run_ref
          | Some r \<Rightarrow> call_io (da_drain_intents a r)))"

definition collect_candidate_intents ::
    "'e service \<Rightarrow> string \<Rightarrow> communication_intent list \<Rightarrow> ('e world, communication_intent list) io" where
  "collect_candidate_intents sv handle output_intents =
     io_bind (drain_delivery_intents sv handle) (\<lambda>drained.
       io_return (merge_and_dedup (svc_num_text sv) (svc_str_text sv) drained output_intents))"

definition collect_candidate_intents_best_effort ::
    "'e service \<Rightarrow> string \<Rightarrow> communication_intent list \<Rightarrow> ('e world, communication_intent list) io" where
  "collect_candidate_intents_best_effort sv handle output_intents =
     io_bind (io_attempt (collect_candidate_intents sv handle output_intents)) (\<lambda>r.
       io_return (case r of Inr intents \<Rightarrow> intents | Inl _ \<Rightarrow> output_intents))"

subsection \<open>Planning an iteration\<close>

definition materialize_iteration_inboxes ::
    "'e service \<Rightarrow> string \<Rightarrow> u32 \<Rightarrow> candidate_inbox list \<Rightarrow> ('e world, unit) io" where
  "materialize_iteration_inboxes sv xid iteration inboxes =
     io_bind (store_read (load_intents (svc_codec sv) xid)) (\<lambda>intents.
     io_bind (store_read (load_routed_messages (svc_codec sv) xid)) (\<lambda>messages.
       io_for (materialize_inbox_snapshots xid iteration inboxes intents messages) (\<lambda>(snapshot, delivered).
         io_then (store_do (save_inbox_snapshot (svc_codec sv) snapshot))
          (io_for delivered (\<lambda>m. io_then (store_do (append_routed_message (svc_codec sv) xid m))
                                         (append_event sv xid MessageDelivered))))))"

definition load_message_stats :: "'e service \<Rightarrow> string \<Rightarrow> u32 \<Rightarrow> ('e world, message_stats) io" where
  "load_message_stats sv xid iteration =
     io_bind (store_read (load_intents (svc_codec sv) xid)) (\<lambda>intents.
     io_bind (store_read (load_routed_messages (svc_codec sv) xid)) (\<lambda>messages.
       io_return (extract_message_stats intents messages iteration)))"

definition no_spec_panic :: string where
  "no_spec_panic = ''validated supervision spec''"

text \<open>A planned candidate is saved under the next number of the service and announced.\<close>

definition queue_candidate :: "'e service \<Rightarrow> execution \<Rightarrow> execution_spec \<Rightarrow> u32 \<Rightarrow> candidate_spec \<Rightarrow> ('e world, unit) io" where
  "queue_candidate sv x spec iteration c =
     io_bind (io_get wd_next_candidate_id) (\<lambda>candidate_seq.
     io_then (save_candidate_state sv
       \<lparr>up_execution_id = ex_execution_id x, up_candidate_id = cd_candidate_id c,
        up_created_seq = candidate_seq, up_iteration = iteration, up_status = CaQueued,
        up_runtime_run_id = None, up_overrides = cd_overrides c, up_succeeded = None,
        up_metrics = [], up_review_status = None, up_revision_round = 0\<rparr>)
     (io_then (append_event sv (ex_execution_id x) CandidateQueued)
     (io_then (if es_mode spec = ''supervision'' then append_event sv (ex_execution_id x) WorkerQueued
               else io_return ())
       (io_modify (\<lambda>w. w\<lparr>wd_next_candidate_id := wd_next_candidate_id w + 1\<rparr>)))))"

definition plan_iteration_candidates ::
    "'e service \<Rightarrow> execution \<Rightarrow> execution_spec \<Rightarrow> execution_accumulator \<Rightarrow> u32
     \<Rightarrow> ('e world, candidate_spec list) io" where
  "plan_iteration_candidates sv x spec acc iteration =
     io_bind (io_expect no_spec_panic (selected_strategy_new spec)) (\<lambda>strategy.
     io_then (append_event sv (ex_execution_id x) IterationStarted)
     (io_bind (store_read (load_intents (svc_codec sv) (ex_execution_id x))) (\<lambda>intents.
      io_bind (store_read (load_routed_messages (svc_codec sv) (ex_execution_id x))) (\<lambda>messages.
      let inboxes = build_candidate_inboxes iteration
            (unat (vc_candidates_per_iteration (es_variation spec))) intents messages in
      io_then (materialize_iteration_inboxes sv (ex_execution_id x) iteration inboxes)
      (io_bind (load_message_stats sv (ex_execution_id x) iteration) (\<lambda>stats.
       let candidates = strategy_plan strategy acc inboxes (Some stats) in
       io_then (io_for candidates (queue_candidate sv x spec iteration))
         (io_return candidates)))))))"

definition load_or_plan_iteration_candidates ::
    "'e service \<Rightarrow> execution \<Rightarrow> execution_spec \<Rightarrow> execution_accumulator \<Rightarrow> u32
     \<Rightarrow> ('e world, candidate_spec list) io" where
  "load_or_plan_iteration_candidates sv x spec acc iteration =
     io_bind (store_read (load_candidates (svc_codec sv) (ex_execution_id x))) (\<lambda>all.
       let persisted = filter (\<lambda>c. ca_iteration c = iteration) all in
       if persisted = [] then plan_iteration_candidates sv x spec acc iteration
       else io_return (map (\<lambda>c. \<lparr>cd_candidate_id = ca_candidate_id c, cd_overrides = ca_overrides c\<rparr>)
              (sort_key ca_created_seq persisted)))"

subsection \<open>Finishing a candidate\<close>

text \<open>The record of a finished candidate; the iteration is the execution's count of completed ones.\<close>

definition finished_update ::
    "execution \<Rightarrow> candidate_spec \<Rightarrow> u64 \<Rightarrow> string \<Rightarrow> candidate_status \<Rightarrow> bool \<Rightarrow> (string, f64) btree
     \<Rightarrow> candidate_state_update" where
  "finished_update x c created_seq run_id status succeeded metrics =
     \<lparr>up_execution_id = ex_execution_id x, up_candidate_id = cd_candidate_id c,
      up_created_seq = created_seq, up_iteration = ex_completed_iterations x, up_status = status,
      up_runtime_run_id = Some run_id, up_overrides = cd_overrides c, up_succeeded = Some succeeded,
      up_metrics = metrics, up_review_status = None, up_revision_round = 0\<rparr>"

text \<open>\<open>StructuredOutputResult::Found\<close>, in both finishing functions.\<close>

definition finish_with_output ::
    "'e service \<Rightarrow> execution \<Rightarrow> candidate_spec \<Rightarrow> u64 \<Rightarrow> string \<Rightarrow> runtime_inspection \<Rightarrow> candidate_output
     \<Rightarrow> ('e world, dispatch_outcome) io" where
  "finish_with_output sv x c created_seq handle inspection output =
     io_bind (collect_candidate_intents_best_effort sv handle (co_intents output)) (\<lambda>intents.
     io_then (save_candidate_state sv (finished_update x c created_seq (ri_run_id inspection)
                CaCompleted (co_succeeded output) (co_metrics output)))
     (io_then (append_event sv (ex_execution_id x) CandidateOutputCollected)
     (io_then (persist_candidate_intents sv (ex_execution_id x) (ex_completed_iterations x)
                (cd_candidate_id c) intents)
       (io_return (DispatchOutput (output\<lparr>co_candidate_id := cd_candidate_id c\<rparr>) False)))))"

text \<open>A terminal run without output: failed, or completed under a policy that allows it.\<close>

definition finish_without_output ::
    "'e service \<Rightarrow> execution \<Rightarrow> execution_spec \<Rightarrow> candidate_spec \<Rightarrow> u64 \<Rightarrow> string \<Rightarrow> runtime_inspection
     \<Rightarrow> ('e world, dispatch_outcome) io" where
  "finish_without_output sv x spec c created_seq handle inspection =
     io_bind (collect_candidate_intents_best_effort sv handle []) (\<lambda>intents.
     let failed = (ri_state inspection = RsFailed
                   \<or> op_missing_output_policy (es_policy spec) = ''mark_failed'') in
     io_then (save_candidate_state sv (finished_update x c created_seq (ri_run_id inspection)
                (if failed then CaFailed else CaCompleted) (\<not> failed) []))
     (io_then (append_event sv (ex_execution_id x) CandidateOutputCollected)
     (io_then (persist_candidate_intents sv (ex_execution_id x) (ex_completed_iterations x)
                (cd_candidate_id c) intents)
       (io_return (DispatchOutput (candidate_output_new (cd_candidate_id c) (\<not> failed) []) failed)))))"

text \<open>An output error that is neither missing nor retryable.\<close>

definition finish_failed ::
    "'e service \<Rightarrow> execution \<Rightarrow> candidate_spec \<Rightarrow> u64 \<Rightarrow> runtime_inspection \<Rightarrow> ('e world, dispatch_outcome) io" where
  "finish_failed sv x c created_seq inspection =
     io_then (save_candidate_state sv (finished_update x c created_seq (ri_run_id inspection) CaFailed False []))
     (io_then (append_event sv (ex_execution_id x) CandidateOutputCollected)
       (io_return (DispatchOutput (candidate_output_new (cd_candidate_id c) False []) True)))"

definition retryable_output_error :: "contract_error \<Rightarrow> bool" where
  "retryable_output_error e =
     (ce_code e \<in> {ArtifactPublicationIncomplete, ArtifactStoreUnavailable, RetrievalTimeout} \<and> ce_retryable e)"

definition finalize_candidate_after_terminal_inspection ::
    "'e service \<Rightarrow> execution \<Rightarrow> execution_spec \<Rightarrow> candidate_spec \<Rightarrow> u64 \<Rightarrow> string \<Rightarrow> runtime_inspection
     \<Rightarrow> ('e world, dispatch_outcome) io" where
  "finalize_candidate_after_terminal_inspection sv x spec c created_seq handle inspection =
     io_bind (call_total (svc_take_structured_output sv (ri_run_id inspection))) (\<lambda>r. case r of
       OutputFound output \<Rightarrow> finish_with_output sv x c created_seq handle inspection output
     | OutputMissing \<Rightarrow> finish_without_output sv x spec c created_seq handle inspection
     | OutputError e \<Rightarrow>
         if ce_code e = StructuredOutputMissing
         then finish_without_output sv x spec c created_seq handle inspection
         else if retryable_output_error e
         then io_return (DispatchRetryable (io_err WouldBlock (ce_message e)))
         else finish_failed sv x c created_seq inspection)"

definition try_finalize_candidate_from_ready_output ::
    "'e service \<Rightarrow> execution \<Rightarrow> execution_spec \<Rightarrow> candidate_spec \<Rightarrow> u64 \<Rightarrow> string \<Rightarrow> runtime_inspection
     \<Rightarrow> ('e world, dispatch_outcome option) io" where
  "try_finalize_candidate_from_ready_output sv x spec c created_seq handle inspection =
     (if run_state_is_terminal (ri_state inspection)
      then io_bind (finalize_candidate_after_terminal_inspection sv x spec c created_seq handle inspection)
             (\<lambda>r. io_return (Some r))
      else if 0 < ri_active_stage_count inspection \<or> 0 < ri_active_microvm_count inspection
      then io_return None
      else io_bind (call_total (svc_take_structured_output sv (ri_run_id inspection))) (\<lambda>r. case r of
         OutputFound output \<Rightarrow>
           io_bind (finish_with_output sv x c created_seq handle inspection output) (\<lambda>r. io_return (Some r))
       | OutputMissing \<Rightarrow> io_return None
       | OutputError e \<Rightarrow>
           if ce_code e \<in> {StructuredOutputMissing, ArtifactNotFound, CodeNotFound} then io_return None
           else if retryable_output_error e
           then io_return (Some (DispatchRetryable (io_err WouldBlock (ce_message e))))
           else io_bind (finish_failed sv x c created_seq inspection) (\<lambda>r. io_return (Some r))))"

subsection \<open>Dispatching a candidate\<close>

definition default_runtime_policy :: execution_policy where
  "default_runtime_policy =
     \<lparr>ep_max_parallel_microvms_per_run = 1, ep_max_stage_retries = 1, ep_stage_timeout_secs = 60,
      ep_cancel_grace_period_secs = 5\<rparr>"

text \<open>A candidate that is running, or was canceled while it was.\<close>

definition running_update ::
    "execution \<Rightarrow> candidate_spec \<Rightarrow> u64 \<Rightarrow> u32 \<Rightarrow> candidate_status \<Rightarrow> string \<Rightarrow> candidate_state_update" where
  "running_update x c created_seq iteration status run_id =
     \<lparr>up_execution_id = ex_execution_id x, up_candidate_id = cd_candidate_id c,
      up_created_seq = created_seq, up_iteration = iteration, up_status = status,
      up_runtime_run_id = Some run_id, up_overrides = cd_overrides c, up_succeeded = None,
      up_metrics = [], up_review_status = None, up_revision_round = 0\<rparr>"

text \<open>What both dispatching functions do with the outcome of polling; \<open>cancel\<close> records a cancelation.\<close>

definition conclude_poll ::
    "'e service \<Rightarrow> execution \<Rightarrow> execution_spec \<Rightarrow> candidate_spec \<Rightarrow> u64 \<Rightarrow> string \<Rightarrow> ('e world, unit) io
     \<Rightarrow> run_poll_outcome \<Rightarrow> ('e world, dispatch_outcome) io" where
  "conclude_poll sv x spec c created_seq handle cancel outcome = (case outcome of
       PollCanceled \<Rightarrow> io_then cancel (io_return DispatchCanceled)
     | PollInFlight inspection \<Rightarrow>
         io_bind (try_finalize_candidate_from_ready_output sv x spec c created_seq handle inspection)
           (\<lambda>r. io_return (case r of None \<Rightarrow> DispatchInFlight | Some d \<Rightarrow> d))
     | PollTerminal inspection \<Rightarrow>
         finalize_candidate_after_terminal_inspection sv x spec c created_seq handle inspection)"

definition launch_candidate ::
    "'e service \<Rightarrow> candidate_spec \<Rightarrow> inbox_snapshot \<Rightarrow> start_request \<Rightarrow> ('e world, start_result) io" where
  "launch_candidate sv c inbox request =
     io_bind (case svc_delivery_adapter sv of
        None \<Rightarrow> call_contract (svc_prepare_launch_request sv request c inbox)
      | Some _ \<Rightarrow> io_return request) (\<lambda>request'.
     io_bind (call_contract (svc_start_run sv request')) (\<lambda>started.
     io_then (case svc_delivery_adapter sv of
        None \<Rightarrow> io_return ()
      | Some a \<Rightarrow> (case svc_delivery_run_ref sv (st_handle started) of
            None \<Rightarrow> io_fail no_run_ref
          | Some r \<Rightarrow> call_io (da_inject_at_launch a r c inbox)))
       (io_return started)))"

definition dispatch_candidate ::
    "'e service \<Rightarrow> execution \<Rightarrow> execution_spec \<Rightarrow> string \<Rightarrow> candidate_spec \<Rightarrow> u32 \<Rightarrow> u64
     \<Rightarrow> ('e world, dispatch_outcome) io" where
  "dispatch_candidate sv x spec w c iteration created_seq =
     (let run_id = ''exec-run-candidate-'' @ word_to_string created_seq in
      io_then (append_event sv (ex_execution_id x) CandidateDispatched)
      (io_bind (load_launch_inbox_snapshot sv (ex_execution_id x) iteration (cd_candidate_id c)) (\<lambda>inbox.
       io_bind (launch_candidate sv c inbox
         \<lparr>sr_run_id = run_id, sr_workflow_spec = wt_template (es_workflow spec),
          sr_launch_context = None, sr_policy = default_runtime_policy\<rparr>) (\<lambda>started.
       io_then (save_candidate_state sv (running_update x c created_seq iteration CaRunning (st_handle started)))
       (io_bind (wait_for_terminal_run sv (ex_execution_id x) w (st_handle started))
         (conclude_poll sv x spec c created_seq (st_handle started)
           (save_candidate_state sv (running_update x c created_seq iteration CaCanceled run_id))))))))"

definition resume_running_candidate ::
    "'e service \<Rightarrow> execution \<Rightarrow> execution_spec \<Rightarrow> string \<Rightarrow> execution_candidate \<Rightarrow> ('e world, dispatch_outcome) io" where
  "resume_running_candidate sv x spec w candidate =
     (case ca_runtime_run_id candidate of
        None \<Rightarrow> io_fail (io_err InvalidData (''running candidate '' @ squoted (ca_candidate_id candidate)
                  @ '' missing persisted runtime run id''))
      | Some persisted_run_id \<Rightarrow>
          let handle = svc_persisted_run_handle sv persisted_run_id;
              c = \<lparr>cd_candidate_id = ca_candidate_id candidate, cd_overrides = ca_overrides candidate\<rparr> in
          io_bind (wait_for_terminal_run sv (ex_execution_id x) w handle)
            (conclude_poll sv x spec c (ca_created_seq candidate) handle
              (save_candidate_state sv (running_update x c (ca_created_seq candidate)
                 (ca_iteration candidate) CaCanceled persisted_run_id))))"

end
