(* ===== verification/Service_Run.thy ===== *)
theory Service_Run
  imports Service "HOL-Library.Product_Lexorder"
begin

text \<open>
  The run of an execution (\<open>src/orchestration/service.rs\<close>, \<open>execute_execution\<close>): the loop over the
  iterations with its early returns, the loop over the candidates of an iteration, and the decision at
  the end of an iteration. The loop is a terminating function: an iteration that continues has either
  advanced the iteration or used up the one retry.
\<close>

subsection \<open>Definitions\<close>

text \<open>What a part of the loop body does next: go on, or return the execution.\<close>

datatype 'a flow = Next 'a | Return execution

record exec_state =
  xs_execution :: execution
  xs_accumulator :: execution_accumulator
  xs_iteration :: u32
  xs_retry_used :: bool
  xs_dispatches_used :: nat

text \<open>The parameters of \<open>execute_execution\<close> that do not change.\<close>

record exec_params =
  xp_spec :: execution_spec
  xp_strategy :: selected_strategy
  xp_worker :: string
  xp_dispatch_limit :: "nat option"
  xp_prefer_queued :: bool

definition save_now :: "execution \<Rightarrow> ('e world, unit) io" where
  "save_now x = store_do (save_execution x)"

text \<open>Save with a new status, append the events, return the execution.\<close>

definition end_execution ::
    "'e service \<Rightarrow> execution \<Rightarrow> execution_status \<Rightarrow> control_event_type list \<Rightarrow> ('e world, 'a flow) io" where
  "end_execution sv x status ts =
     (let x' = x\<lparr>ex_status := status\<rparr> in
      io_then (save_now x')
      (io_then (io_for ts (append_event sv (ex_execution_id x))) (io_return (Return x'))))"

definition pause_now :: "execution \<Rightarrow> ('e world, 'a) io" where
  "pause_now x =
     io_then (save_now (x\<lparr>ex_status := ExPaused\<rparr>)) (io_fail (io_err WouldBlock ''execution paused''))"

text \<open>The check of the persisted status before each iteration and each candidate.\<close>

definition guard_control ::
    "'e service \<Rightarrow> execution \<Rightarrow> string \<Rightarrow> ('e world, 'a flow) io \<Rightarrow> ('e world, 'a flow) io" where
  "guard_control sv x w k =
     io_bind (check_execution_control sv (ex_execution_id x) w) (\<lambda>c. case c of
       ControlContinue \<Rightarrow> k
     | ControlPaused \<Rightarrow> pause_now x
     | ControlCanceled \<Rightarrow> end_execution sv x ExCanceled [ExecutionCanceled])"

definition candidate_entry ::
    "u32 \<Rightarrow> execution_candidate list \<Rightarrow> candidate_spec
     \<Rightarrow> io_error + (candidate_spec \<times> execution_candidate)" where
  "candidate_entry iteration persisted c =
     (case find (\<lambda>saved. ca_iteration saved = iteration \<and> ca_candidate_id saved = cd_candidate_id c) persisted of
        None \<Rightarrow> Inl (io_err NotFound (''missing persisted candidate '' @ squoted (cd_candidate_id c)))
      | Some saved \<Rightarrow> Inr (c, saved))"

fun entry_priority :: "bool \<Rightarrow> candidate_status \<Rightarrow> nat" where
  "entry_priority has_capacity CaQueued = (if has_capacity then 0 else 1)"
| "entry_priority has_capacity CaRunning = (if has_capacity then 1 else 0)"
| "entry_priority has_capacity _ = 2"

text \<open>The bridge's order: fill free capacity first, then resume what runs.\<close>

definition order_entries ::
    "exec_params \<Rightarrow> (candidate_spec \<times> execution_candidate) list \<Rightarrow> (candidate_spec \<times> execution_candidate) list" where
  "order_entries xp entries =
     (if xp_dispatch_limit xp = Some 1 \<and> xp_prefer_queued xp then
        let running_count = length (filter (\<lambda>(_, r). ca_status r = CaRunning) entries);
            has_capacity = running_count
              < unat (max_concurrent_candidates (op_concurrency (es_policy (xp_spec xp))))
        in sort_key (\<lambda>(_, r). (entry_priority has_capacity (ca_status r), ca_created_seq r)) entries
      else entries)"

definition limit_reached :: "nat option \<Rightarrow> nat \<Rightarrow> bool" where
  "limit_reached limit used = (case limit of None \<Rightarrow> False | Some l \<Rightarrow> l \<le> used)"

text \<open>The loop over the candidates of an iteration; it yields the number of dispatches used.\<close>

fun run_entries ::
    "'e service \<Rightarrow> exec_params \<Rightarrow> execution \<Rightarrow> u32 \<Rightarrow> (candidate_spec \<times> execution_candidate) list \<Rightarrow> nat
     \<Rightarrow> ('e world, nat flow) io" where
  "run_entries sv xp x iteration [] used = io_return (Next used)"
| "run_entries sv xp x iteration ((c, r) # entries) used =
     guard_control sv x (xp_worker xp)
      (if limit_reached (xp_dispatch_limit xp) used
       then io_then (save_now x) (io_return (Return x))
       else if ca_status r = CaQueued \<or> ca_status r = CaRunning then
         io_bind (if ca_status r = CaQueued
                  then dispatch_candidate sv x (xp_spec xp) (xp_worker xp) c iteration (ca_created_seq r)
                  else resume_running_candidate sv x (xp_spec xp) (xp_worker xp) r) (\<lambda>outcome. case outcome of
           DispatchOutput _ _ \<Rightarrow> run_entries sv xp x iteration entries (used + 1)
         | DispatchInFlight \<Rightarrow> run_entries sv xp x iteration entries (used + 1)
         | DispatchRetryable e \<Rightarrow> io_then (save_now (x\<lparr>ex_status := ExPending\<rparr>)) (io_fail e)
         | DispatchCanceled \<Rightarrow> end_execution sv x ExCanceled [ExecutionCanceled])
       else run_entries sv xp x iteration entries used)"

text \<open>The accumulator after the evaluation of an iteration.\<close>

definition swarm_failures :: "iteration_evaluation \<Rightarrow> u32 \<Rightarrow> execution_accumulator \<Rightarrow> execution_accumulator" where
  "swarm_failures ev failures acc =
     acc\<lparr>ac_failure_counts := (ac_failure_counts acc)\<lparr>total_candidate_failures :=
       saturating_sub (total_candidate_failures (ac_failure_counts acc))
         (of_nat (length (filter (\<lambda>r. \<not> rc_pass r) (iv_ranked_candidates ev)))) + failures\<rparr>\<rparr>"

definition supervision_failures ::
    "supervision_evaluation \<Rightarrow> u32 \<Rightarrow> execution_accumulator \<Rightarrow> execution_accumulator" where
  "supervision_failures ev failures acc =
     (let acc1 = acc\<lparr>ac_completed_iterations := ac_completed_iterations acc + 1\<rparr>;
          acc2 = acc1\<lparr>ac_failure_counts := (ac_failure_counts acc1)\<lparr>total_candidate_failures :=
                   total_candidate_failures (ac_failure_counts acc1) + failures\<rparr>\<rparr>
      in case find (\<lambda>d. wd_status d = Approved) (su_decisions ev) of
           None \<Rightarrow> acc2
         | Some d \<Rightarrow> acc2\<lparr>ac_best_candidate_id := Some (wd_candidate_id d)\<rparr>)"

definition reduce_panic :: string where
  "reduce_panic = ''strategy and evaluation mismatch''"

definition absorb_evaluation ::
    "'e service \<Rightarrow> exec_params \<Rightarrow> exec_state \<Rightarrow> execution_candidate list \<Rightarrow> u32 \<Rightarrow> strategy_evaluation
     \<Rightarrow> ('e world, execution_accumulator) io" where
  "absorb_evaluation sv xp xs candidates failures ev =
     (case ev of
        SwarmEval e \<Rightarrow>
          io_then (append_event sv (ex_execution_id (xs_execution xs)) CandidateScored)
          (io_bind (io_expect reduce_panic (strategy_reduce (xp_strategy xp) (xs_accumulator xs) ev)) (\<lambda>acc.
             io_return (swarm_failures e failures acc)))
      | SupervisionEval e \<Rightarrow>
          io_then (persist_supervision_reviews sv (xs_execution xs) (xs_iteration xs) candidates e)
          (io_bind (io_expect reduce_panic (strategy_reduce (xp_strategy xp) (xs_accumulator xs) ev)) (\<lambda>acc.
             io_return (supervision_failures e failures acc))))"

text \<open>The end of an iteration that neither failed as a whole nor exceeded the failure limit.\<close>

definition conclude_iteration ::
    "'e service \<Rightarrow> exec_params \<Rightarrow> exec_state \<Rightarrow> strategy_evaluation \<Rightarrow> ('e world, exec_state flow) io" where
  "conclude_iteration sv xp xs ev =
     (let x = xs_execution xs;
          next = io_then (append_event sv (ex_execution_id x) IterationCompleted)
                   (io_return (Next (xs\<lparr>xs_iteration := xs_iteration xs + 1\<rparr>)))
      in case ev of
        SwarmEval _ \<Rightarrow>
          io_bind (io_expect reduce_panic (strategy_should_stop (xp_strategy xp) (xs_accumulator xs) ev)) (\<lambda>stop.
            if stop \<noteq> None then end_execution sv x ExCompleted [IterationCompleted, ExecutionCompleted]
            else next)
      | SupervisionEval e \<Rightarrow>
          if su_final_approval_ready e \<and> ac_supervision_final_approval (xs_accumulator xs) = Some True
          then end_execution sv x ExCompleted [IterationCompleted, ExecutionFinalized, ExecutionCompleted]
          else if list_ex (\<lambda>d. wd_status d = Rejected) (su_decisions e)
          then end_execution sv x ExFailed [ExecutionFailed]
          else next)"

definition is_swarm_eval :: "strategy_evaluation \<Rightarrow> bool" where
  "is_swarm_eval ev = (case ev of SwarmEval _ \<Rightarrow> True | SupervisionEval _ \<Rightarrow> False)"

definition retry_iteration :: "'e service \<Rightarrow> exec_state \<Rightarrow> ('e world, exec_state flow) io" where
  "retry_iteration sv xs =
     io_then (store_do (clear_iteration_candidates (svc_codec sv)
                (ex_execution_id (xs_execution xs)) (xs_iteration xs)))
       (let completed = saturating_sub (ac_completed_iterations (xs_accumulator xs)) 1 in
        io_return (Next (xs\<lparr>xs_retry_used := True,
          xs_accumulator := (xs_accumulator xs)\<lparr>ac_completed_iterations := completed\<rparr>,
          xs_execution := (xs_execution xs)\<lparr>ex_completed_iterations := completed\<rparr>\<rparr>)))"

definition decide_iteration ::
    "'e service \<Rightarrow> exec_params \<Rightarrow> exec_state \<Rightarrow> candidate_output list \<Rightarrow> u32 \<Rightarrow> strategy_evaluation
     \<Rightarrow> ('e world, exec_state flow) io" where
  "decide_iteration sv xp xs outputs failures ev =
     (let x = xs_execution xs; policy = es_policy (xp_spec xp);
          all_failed = list_all (\<lambda>o'. \<not> co_succeeded o') outputs
      in if is_swarm_eval ev \<and> all_failed then
           (if op_iteration_failure_policy policy = ''continue''
            then io_return (Next (xs\<lparr>xs_iteration := xs_iteration xs + 1\<rparr>))
            else if op_iteration_failure_policy policy = ''retry_iteration'' \<and> \<not> xs_retry_used xs
            then retry_iteration sv xs
            else end_execution sv x ExFailed [ExecutionFailed])
         else if op_max_candidate_failures_per_iteration policy \<le> failures
         then end_execution sv x ExFailed [ExecutionFailed]
         else conclude_iteration sv xp xs ev)"

text \<open>All candidates of the iteration are finished: evaluate, save the accumulator, decide.\<close>

definition record_accumulator :: "execution_accumulator \<Rightarrow> exec_state \<Rightarrow> exec_state" where
  "record_accumulator acc xs =
     xs\<lparr>xs_accumulator := acc, xs_execution := (xs_execution xs)
       \<lparr>ex_completed_iterations := ac_completed_iterations acc, ex_failure_counts := ac_failure_counts acc,
        ex_result_best_candidate_id := ac_best_candidate_id acc\<rparr>\<rparr>"

definition evaluate_iteration ::
    "'e service \<Rightarrow> exec_params \<Rightarrow> exec_state \<Rightarrow> execution_candidate list \<Rightarrow> ('e world, exec_state flow) io" where
  "evaluate_iteration sv xp xs candidates =
     (let outputs = map (\<lambda>c. candidate_output_new (ca_candidate_id c)
            (case ca_succeeded c of None \<Rightarrow> False | Some b \<Rightarrow> b) (ca_metrics c)) candidates;
          failures = of_nat (length (filter (\<lambda>c. ca_succeeded c = Some False) candidates));
          ev = strategy_evaluate (xp_strategy xp) (xs_accumulator xs) outputs
      in io_bind (absorb_evaluation sv xp xs candidates failures ev) (\<lambda>acc.
           io_then (store_do (save_accumulator (svc_codec sv) (ex_execution_id (xs_execution xs)) acc))
             (decide_iteration sv xp (record_accumulator acc xs) outputs failures ev)))"

definition iteration_body ::
    "'e service \<Rightarrow> exec_params \<Rightarrow> exec_state \<Rightarrow> ('e world, exec_state flow) io" where
  "iteration_body sv xp xs =
     (let x = xs_execution xs; xid = ex_execution_id x; iteration = xs_iteration xs in
      guard_control sv x (xp_worker xp)
      (io_bind (load_or_plan_iteration_candidates sv x (xp_spec xp) (xs_accumulator xs) iteration) (\<lambda>candidates.
       io_bind (store_read (load_candidates (svc_codec sv) xid)) (\<lambda>persisted.
       io_bind (io_result (res_map (candidate_entry iteration persisted) candidates)) (\<lambda>entries.
       io_bind (run_entries sv xp x iteration (order_entries xp entries) (xs_dispatches_used xs)) (\<lambda>r.
         case r of
           Return x' \<Rightarrow> io_return (Return x')
         | Next used \<Rightarrow>
             io_bind (store_read (load_candidates (svc_codec sv) xid)) (\<lambda>all.
               let mine = filter (\<lambda>c. ca_iteration c = iteration) all in
               if list_ex (\<lambda>c. ca_status c = CaQueued \<or> ca_status c = CaRunning) mine
               then io_then (save_now x) (io_return (Return x))
               else evaluate_iteration sv xp (xs\<lparr>xs_dispatches_used := used\<rparr>) mine)))))))"

definition max_iterations :: "execution_spec \<Rightarrow> u32" where
  "max_iterations spec = (case bp_max_iterations (op_budget (es_policy spec)) of None \<Rightarrow> 0 | Some n \<Rightarrow> n)"

text \<open>After the last iteration.\<close>

definition finish_execution :: "'e service \<Rightarrow> execution \<Rightarrow> ('e world, execution) io" where
  "finish_execution sv x =
     (let x' = x\<lparr>ex_status := if ex_result_best_candidate_id x \<noteq> None then ExCompleted else ExFailed\<rparr> in
      io_then (save_now x')
      (io_then (append_event sv (ex_execution_id x)
                 (if ex_status x' = ExCompleted then ExecutionCompleted else ExecutionFailed))
        (io_return x')))"

text \<open>What a continuing iteration changes.\<close>

definition flow_step :: "exec_state \<Rightarrow> exec_state \<Rightarrow> bool" where
  "flow_step xs xs' =
     (ex_execution_id (xs_execution xs') = ex_execution_id (xs_execution xs)
      \<and> ex_status (xs_execution xs') = ex_status (xs_execution xs)
      \<and> (xs_iteration xs' = xs_iteration xs + 1 \<and> xs_retry_used xs' = xs_retry_used xs
         \<or> xs_iteration xs' = xs_iteration xs \<and> \<not> xs_retry_used xs \<and> xs_retry_used xs'))"

abbreviation steps_to :: "exec_state \<Rightarrow> exec_state flow \<Rightarrow> bool" where
  "steps_to xs r \<equiv> (case r of Next xs' \<Rightarrow> flow_step xs xs' | Return _ \<Rightarrow> True)"

lemma end_execution_returns:
  "ensures (\<lambda>_. True) (end_execution sv x status ts) (\<lambda>r _. case r of Next _ \<Rightarrow> False | Return _ \<Rightarrow> True)"
  unfolding end_execution_def Let_def by (intro ensures_rules ensures_return) auto

lemma end_execution_steps:
  "ensures (\<lambda>_. True) (end_execution sv x status ts) (\<lambda>r _. steps_to xs r)"
  unfolding end_execution_def Let_def by (intro ensures_rules ensures_return) auto

lemma guard_control_steps:
  assumes "ensures (\<lambda>_. True) k (\<lambda>r _. steps_to xs r)"
  shows "ensures (\<lambda>_. True) (guard_control sv x w k) (\<lambda>r _. steps_to xs r)"
  unfolding guard_control_def pause_now_def
  by (intro ensures_bind keeps_True)
    (auto split: execution_control.split intro!: assms end_execution_steps ensures_then ensures_fail)

lemma decide_iteration_steps:
  assumes "ex_execution_id (xs_execution xs') = ex_execution_id (xs_execution xs)"
    and "ex_status (xs_execution xs') = ex_status (xs_execution xs)"
    and "xs_iteration xs' = xs_iteration xs" "xs_retry_used xs' = xs_retry_used xs"
  shows "ensures (\<lambda>_. True) (decide_iteration sv xp xs' outputs failures ev) (\<lambda>r _. steps_to xs r)"
proof -
  have nxt: "ensures (\<lambda>_. True) (io_return (Next (xs'\<lparr>xs_iteration := xs_iteration xs' + 1\<rparr>))) (\<lambda>r _. steps_to xs r)"
    by (rule ensures_return) (simp add: flow_step_def assms)
  have retry: "ensures (\<lambda>_. True) (retry_iteration sv xs') (\<lambda>r _. steps_to xs r)" if "\<not> xs_retry_used xs'"
    unfolding retry_iteration_def Let_def
    by (intro ensures_then keeps_True ensures_return) (use that in \<open>simp add: flow_step_def assms\<close>)
  have conclude: "ensures (\<lambda>_. True) (conclude_iteration sv xp xs' ev) (\<lambda>r _. steps_to xs r)"
    unfolding conclude_iteration_def Let_def
    by (cases ev) (auto intro!: ensures_bind ensures_then end_execution_steps nxt)
  show ?thesis
    unfolding decide_iteration_def Let_def
    by (auto intro!: nxt retry conclude end_execution_steps)
qed

lemma iteration_body_steps:
  "ensures (\<lambda>_. True) (iteration_body sv xp xs) (\<lambda>r _. steps_to xs r)"
proof -
  have eval: "ensures (\<lambda>_. True) (evaluate_iteration sv xp (xs\<lparr>xs_dispatches_used := used\<rparr>) cs) (\<lambda>r _. steps_to xs r)"
    for used cs
    unfolding evaluate_iteration_def Let_def
    by (intro ensures_bind ensures_then keeps_True decide_iteration_steps) (simp_all add: record_accumulator_def)
  show ?thesis
    unfolding iteration_body_def Let_def
    by (intro guard_control_steps ensures_bind keeps_True)
      (auto split: flow.split intro!: ensures_bind ensures_then ensures_return eval)
qed

definition loop_measure :: "exec_params \<Rightarrow> exec_state \<Rightarrow> nat" where
  "loop_measure xp xs = unat (max_iterations (xp_spec xp)) - unat (xs_iteration xs)
     + (if xs_retry_used xs then 0 else 1)"

lemma flow_step_measure:
  assumes "flow_step xs xs'" "xs_iteration xs < max_iterations (xp_spec xp)"
  shows "loop_measure xp xs = Suc (loop_measure xp xs')"
proof -
  have less: "unat (xs_iteration xs) < unat (max_iterations (xp_spec xp))"
    using assms(2) by (simp add: word_less_nat_alt)
  moreover have "unat (max_iterations (xp_spec xp)) < 2 ^ 32"
    by (rule order_less_le_trans [OF unsigned_less]) simp
  ultimately have "unat (xs_iteration xs + 1) = unat (xs_iteration xs) + 1"
    by (simp add: unat_word_ariths)
  with less assms(1) show ?thesis
    by (auto simp: flow_step_def loop_measure_def)
qed

lemma iteration_body_decreases:
  assumes "iteration_body sv xp xs w = (Inr (Next xs'), w')" "xs_iteration xs < max_iterations (xp_spec xp)"
  shows "loop_measure xp xs' < loop_measure xp xs"
  using ensuresD [OF iteration_body_steps TrueI assms(1)] flow_step_measure [OF _ assms(2)] by simp

function (sequential) execute_loop ::
    "'e service \<Rightarrow> exec_params \<Rightarrow> exec_state \<Rightarrow> ('e world, execution) io" where
  "execute_loop sv xp xs w =
     (if xs_iteration xs < max_iterations (xp_spec xp) then
        (case iteration_body sv xp xs w of
           (Inl e, w') \<Rightarrow> (Inl e, w')
         | (Inr (Return x), w') \<Rightarrow> (Inr x, w')
         | (Inr (Next xs'), w') \<Rightarrow> execute_loop sv xp xs' w')
      else finish_execution sv (xs_execution xs) w)"
  by pat_completeness auto

termination
  by (relation "measure (\<lambda>(sv, xp, xs, w). loop_measure xp xs)")
    (auto dest: iteration_body_decreases [OF sym])

declare execute_loop.simps [simp del]

text \<open>Rules for the loop: an invariant of the world, and what holds when the loop returns.\<close>

lemma loop_keeps:
  assumes body: "\<And>xs. keeps P (iteration_body sv xp xs)" and finish: "\<And>x. keeps P (finish_execution sv x)"
  shows "keeps P (execute_loop sv xp xs)"
  unfolding keeps_def
proof (intro allI impI)
  fix w
  assume "P w"
  then show "P (snd (execute_loop sv xp xs w))"
  proof (induction "loop_measure xp xs" arbitrary: xs w rule: less_induct)
    case less
    obtain r w' where r: "iteration_body sv xp xs w = (r, w')" by fastforce
    have w': "P w'" using keepsD [OF body less.prems] r by (metis snd_conv)
    show ?case
    proof (cases "xs_iteration xs < max_iterations (xp_spec xp)")
      case True
      have "P (snd (execute_loop sv xp xs' w'))" if "r = Inr (Next xs')" for xs'
        using less.hyps [OF _ w'] iteration_body_decreases [OF r [unfolded that] True] by simp
      with True w' r show ?thesis
        by (subst execute_loop.simps) (auto split: sum.split flow.split)
    next
      case False
      then show ?thesis
        using keepsD [OF finish less.prems] by (subst execute_loop.simps) simp
    qed
  qed
qed

lemma loop_ensures:
  assumes body: "\<And>xs. keeps P (iteration_body sv xp xs)"
    and step: "\<And>xs. J xs \<Longrightarrow> ensures P (iteration_body sv xp xs)
      (\<lambda>r w. case r of Next xs' \<Rightarrow> J xs' | Return x \<Rightarrow> Q x w)"
    and finish: "\<And>xs. J xs \<Longrightarrow> ensures P (finish_execution sv (xs_execution xs)) Q"
    and "J xs"
  shows "ensures P (execute_loop sv xp xs) Q"
  unfolding ensures_def
proof (intro allI impI)
  fix w y w''
  assume "P w" "execute_loop sv xp xs w = (Inr y, w'')"
  then show "Q y w''" using \<open>J xs\<close>
  proof (induction "loop_measure xp xs" arbitrary: xs w rule: less_induct)
    case less
    obtain r w' where r: "iteration_body sv xp xs w = (r, w')" by fastforce
    have w': "P w'" using keepsD [OF body less.prems(1)] r by (metis snd_conv)
    show ?case
    proof (cases "xs_iteration xs < max_iterations (xp_spec xp)")
      case True
      with less.prems(2) r obtain f where f: "r = Inr f" and run: "case f of Return x \<Rightarrow> (Inr x, w') = (Inr y, w'')
          | Next xs' \<Rightarrow> execute_loop sv xp xs' w' = (Inr y, w'')"
        by (subst (asm) execute_loop.simps) (auto split: sum.splits flow.splits)
      have Q: "case f of Next xs' \<Rightarrow> J xs' | Return x \<Rightarrow> Q x w'"
        using ensuresD [OF step [OF less.prems(3)] less.prems(1)] r f by blast
      show ?thesis
      proof (cases f)
        case (Next xs')
        with less.hyps [OF _ w', of xs'] run Q iteration_body_decreases [OF r [unfolded f Next] True]
        show ?thesis by simp
      next
        case (Return x)
        with run Q show ?thesis by simp
      qed
    next
      case False
      with less.prems(2) have "finish_execution sv (xs_execution xs) w = (Inr y, w'')"
        by (subst (asm) execute_loop.simps) simp
      then show ?thesis by (rule ensuresD [OF finish [OF less.prems(3)] less.prems(1)])
    qed
  qed
qed

definition execute_execution ::
    "'e service \<Rightarrow> execution \<Rightarrow> execution_spec \<Rightarrow> execution_accumulator \<Rightarrow> string \<Rightarrow> nat option \<Rightarrow> bool
     \<Rightarrow> ('e world, execution) io" where
  "execute_execution sv x spec acc w limit prefer_queued =
     io_bind (io_expect no_spec_panic (selected_strategy_new spec)) (\<lambda>strategy.
     io_then (if es_mode spec = ''supervision''
              then io_bind (load_snapshot sv (ex_execution_id x)) (\<lambda>snapshot.
                     if list_ex (\<lambda>e. ce_event_type e = SupervisorAssigned) (sn_events snapshot)
                     then io_return ()
                     else append_event sv (ex_execution_id x) SupervisorAssigned)
              else io_return ())
       (execute_loop sv
         \<lparr>xp_spec = spec, xp_strategy = strategy, xp_worker = w, xp_dispatch_limit = limit,
          xp_prefer_queued = prefer_queued\<rparr>
         \<lparr>xs_execution = x, xs_accumulator = acc, xs_iteration = ac_completed_iterations acc,
          xs_retry_used = False, xs_dispatches_used = 0\<rparr>))"

end
