(* ===== verification/Lifecycle.thy ===== *)
theory Lifecycle
  imports Service_Run
begin

text \<open>
  The entry points of the execution service (\<open>src/orchestration/service.rs\<close>): claiming around an
  operation, submitting, running, dispatching and planning an execution, the dry run, and the status and
  policy updates of the API.
\<close>

subsection \<open>Claimed operations\<close>

definition already_claimed :: io_error where
  "already_claimed = io_err WouldBlock ''execution is already claimed''"

text \<open>
  A panic of the operation leaves the claim in place. The refresher thread writes only the claim file,
  which only the claim operations read; its writes are part of the calls awaited by the operation. After a
  panic the thread is not told to stop and goes on refreshing the claim as long as the process lives; these
  later writes are not modelled.
\<close>

definition with_claimed_execution ::
    "'e service \<Rightarrow> string \<Rightarrow> (string \<Rightarrow> ('e world, 'a) io) \<Rightarrow> ('e world, 'a) io" where
  "with_claimed_execution sv xid operation =
     io_bind (io_get wd_now) (\<lambda>now.
     io_bind (store_do (claim_execution now (claim_ttl_ms (svc_ttl_var sv)) xid (worker_id sv))) (\<lambda>claimed.
       if \<not> claimed then io_fail already_claimed
       else io_bind (io_attempt (operation (worker_id sv))) (\<lambda>result.
            io_bind (io_attempt (store_do (release_claim xid))) (\<lambda>release_result.
              case release_result of Inl e \<Rightarrow> io_fail e | Inr _ \<Rightarrow> io_result result))))"

text \<open>\<open>VOID_CONTROL_CLAIM_REFRESH_MS\<close>\<close>

definition claim_refresh_interval_ms :: "string option \<Rightarrow> u64" where
  "claim_refresh_interval_ms var =
     (case Option.bind var (\<lambda>v. case parse_word v of Inl _ \<Rightarrow> None | Inr t \<Rightarrow> if 0 < t then Some t else None) of
        None \<Rightarrow> 5000 | Some t \<Rightarrow> t)"

definition start_if_pending :: "'e service \<Rightarrow> string \<Rightarrow> execution \<Rightarrow> ('e world, execution) io" where
  "start_if_pending sv xid x =
     (if ex_status x = ExPending
      then let x' = x\<lparr>ex_status := ExRunning\<rparr> in
           io_then (save_now x')
           (io_then (append_event sv xid ExecutionStarted) (io_return x'))
      else io_return x)"

definition process_execution_claimed :: "'e service \<Rightarrow> string \<Rightarrow> string \<Rightarrow> ('e world, execution) io" where
  "process_execution_claimed sv xid w =
     io_bind (load_workable_execution sv xid ''only pending or running executions can be processed'')
      (\<lambda>(snapshot, spec).
        let x = (sn_execution snapshot)\<lparr>ex_status := ExRunning\<rparr> in
        io_then (save_now x)
        (io_then (append_event sv xid ExecutionStarted)
          (execute_execution sv x spec (sn_accumulator snapshot) w None False)))"

definition dispatch_execution_once_claimed ::
    "'e service \<Rightarrow> string \<Rightarrow> string \<Rightarrow> bool \<Rightarrow> ('e world, execution) io" where
  "dispatch_execution_once_claimed sv xid w prefer_queued =
     io_bind (load_workable_execution sv xid ''only pending or running executions can be dispatched'')
      (\<lambda>(snapshot, spec).
        io_bind (start_if_pending sv xid (sn_execution snapshot)) (\<lambda>x.
          execute_execution sv x spec (sn_accumulator snapshot) w (Some 1) prefer_queued))"

definition plan_execution_claimed :: "'e service \<Rightarrow> string \<Rightarrow> ('e world, execution) io" where
  "plan_execution_claimed sv xid =
     io_bind (load_workable_execution sv xid ''only pending or running executions can be planned'')
      (\<lambda>(snapshot, spec).
        io_bind (start_if_pending sv xid (sn_execution snapshot)) (\<lambda>x.
          let acc = sn_accumulator snapshot; iteration = ac_completed_iterations acc in
          if list_ex (\<lambda>c. ca_iteration c = iteration) (sn_candidates snapshot) then io_return x
          else io_bind (plan_iteration_candidates sv x spec acc iteration) (\<lambda>_. io_return x)))"

definition process_execution :: "'e service \<Rightarrow> string \<Rightarrow> ('e world, execution) io" where
  "process_execution sv xid = with_claimed_execution sv xid (process_execution_claimed sv xid)"

definition dispatch_execution_once :: "'e service \<Rightarrow> string \<Rightarrow> ('e world, execution) io" where
  "dispatch_execution_once sv xid =
     with_claimed_execution sv xid (\<lambda>w. dispatch_execution_once_claimed sv xid w False)"

definition bridge_dispatch_execution_once :: "'e service \<Rightarrow> string \<Rightarrow> ('e world, execution) io" where
  "bridge_dispatch_execution_once sv xid =
     with_claimed_execution sv xid (\<lambda>w. dispatch_execution_once_claimed sv xid w True)"

definition plan_execution :: "'e service \<Rightarrow> string \<Rightarrow> ('e world, execution) io" where
  "plan_execution sv xid = with_claimed_execution sv xid (\<lambda>_. plan_execution_claimed sv xid)"

subsection \<open>Running and submitting\<close>

definition invalid_input :: "string \<Rightarrow> io_error" where
  "invalid_input m = io_err InvalidInput m"

definition run_to_completion :: "'e service \<Rightarrow> execution_spec \<Rightarrow> ('e world, execution) io" where
  "run_to_completion sv spec =
     io_then (io_result (map_err invalid_input (spec_validate spec (svc_global sv))))
     (io_bind (io_get wd_next_execution_id) (\<lambda>n.
      let xid = ''exec-'' @ word_to_string n; x = execution_new xid (es_mode spec) (es_goal spec);
          x' = x\<lparr>ex_status := ExRunning\<rparr> in
      io_then (io_modify (\<lambda>w. w\<lparr>wd_next_execution_id := wd_next_execution_id w + 1\<rparr>))
      (io_then (store_do (create_execution x))
      (io_then (append_event sv xid ExecutionCreated)
      (io_then (append_event sv xid ExecutionSubmitted)
      (io_then (save_now x')
      (io_then (append_event sv xid ExecutionStarted)
        (execute_execution sv x' spec accumulator_default (worker_id sv) None False))))))))"

definition submit_execution :: "codec \<Rightarrow> string \<Rightarrow> execution_spec \<Rightarrow> ('e world, execution) io" where
  "submit_execution cx xid spec =
     (let x = execution_new xid (es_mode spec) (es_goal spec) in
      io_then (store_do (create_execution x))
      (io_then (store_do (store_append_event xid (control_event_new xid 1 ExecutionCreated)))
      (io_then (store_do (store_append_event xid (control_event_new xid 2 ExecutionSubmitted)))
      (io_then (store_do (save_spec cx xid spec)) (io_return x)))))"

subsection \<open>The dry run\<close>

record dry_run_plan =
  dr_candidates_per_iteration :: u32
  dr_max_iterations :: "u32 option"
  dr_max_child_runs :: "u32 option"
  dr_estimated_concurrent_peak :: u32
  dr_variation_source :: string
  dr_parameter_space_size :: "u64 option"

record dry_run_result =
  dr_valid :: bool
  dr_plan :: dry_run_plan
  dr_warnings :: "string list"
  dr_errors :: "string list"

definition parameter_space_size :: "variation_config \<Rightarrow> u64" where
  "parameter_space_size v = prod_list (map (\<lambda>(_, values). of_nat (length values)) (vc_parameter_space v))"

definition dry_run :: "global_config \<Rightarrow> execution_spec \<Rightarrow> dry_run_result" where
  "dry_run global spec =
     (let errors = (case spec_validate spec global of Inl e \<Rightarrow> [e] | Inr _ \<Rightarrow> []);
          budget = op_budget (es_policy spec); v = es_variation spec
      in \<lparr>dr_valid = (errors = []),
          dr_plan =
            \<lparr>dr_candidates_per_iteration = vc_candidates_per_iteration v,
             dr_max_iterations = bp_max_iterations budget,
             dr_max_child_runs = map_option (\<lambda>n. n * vc_candidates_per_iteration v) (bp_max_iterations budget),
             dr_estimated_concurrent_peak = max_concurrent_candidates (op_concurrency (es_policy spec)),
             dr_variation_source = vc_source v,
             dr_parameter_space_size =
               (if vc_source v = ''parameter_space'' then Some (parameter_space_size v) else None)\<rparr>,
          dr_warnings = (if bp_max_cost_usd_millis budget = None then [''max_cost_usd not set''] else []),
          dr_errors = errors\<rparr>)"

subsection \<open>Updates by the API\<close>

datatype execution_action = ActPause | ActResume | ActCancel

fun next_status :: "execution_action \<Rightarrow> execution_status \<Rightarrow> io_error + execution_status" where
  "next_status ActPause ExRunning = Inr ExPaused"
| "next_status ActResume ExPaused = Inr ExRunning"
| "next_status ActCancel ExRunning = Inr ExCanceled"
| "next_status ActCancel ExPaused = Inr ExCanceled"
| "next_status ActCancel ExPending = Inr ExCanceled"
| "next_status ActPause _ = Inl (invalid_input ''pause is only valid for running executions'')"
| "next_status ActResume _ = Inl (invalid_input ''resume is only valid for paused executions'')"
| "next_status ActCancel _ =
     Inl (invalid_input ''cancel is only valid for pending, running, or paused executions'')"

fun action_event :: "execution_action \<Rightarrow> control_event_type" where
  "action_event ActPause = ExecutionPaused"
| "action_event ActResume = ExecutionResumed"
| "action_event ActCancel = ExecutionCanceled"

definition update_execution_status ::
    "codec \<Rightarrow> string \<Rightarrow> execution_action \<Rightarrow> ('e world, execution) io" where
  "update_execution_status cx xid action =
     io_bind (store_read (load_execution cx xid)) (\<lambda>snapshot.
     io_bind (io_result (next_status action (ex_status (sn_execution snapshot)))) (\<lambda>status.
     let x = (sn_execution snapshot)\<lparr>ex_status := status\<rparr> in
     io_then (save_now x)
     (io_then (store_do (store_append_event xid
                (control_event_new xid (of_nat (length (sn_events snapshot)) + 1) (action_event action))))
       (io_return x))))"

record policy_patch =
  pp_max_iterations :: "u32 option"
  pp_max_concurrent_candidates :: "u32 option"

definition patch_policy :: "policy_patch \<Rightarrow> orchestration_policy \<Rightarrow> orchestration_policy" where
  "patch_policy patch p =
     (let p1 = (case pp_max_iterations patch of None \<Rightarrow> p
                | Some n \<Rightarrow> p\<lparr>op_budget := (op_budget p)\<lparr>bp_max_iterations := Some n\<rparr>\<rparr>)
      in case pp_max_concurrent_candidates patch of None \<Rightarrow> p1
         | Some n \<Rightarrow> p1\<lparr>op_concurrency := (op_concurrency p1)\<lparr>max_concurrent_candidates := n\<rparr>\<rparr>)"

definition patch_execution_policy ::
    "codec \<Rightarrow> string \<Rightarrow> policy_patch \<Rightarrow> global_config \<Rightarrow> ('e world, execution_spec) io" where
  "patch_execution_policy cx xid patch global =
     io_bind (store_read (load_execution cx xid)) (\<lambda>snapshot.
       if ex_status (sn_execution snapshot) \<notin> {ExPending, ExRunning, ExPaused}
       then io_fail (invalid_input ''policy updates are only valid for pending, running, or paused executions'')
       else io_bind (store_read (load_spec cx xid)) (\<lambda>spec.
         let spec' = spec\<lparr>es_policy := patch_policy patch (es_policy spec)\<rparr> in
         io_then (io_result (map_err invalid_input (spec_validate spec' global)))
         (io_then (store_do (save_spec cx xid spec')) (io_return spec'))))"

end
