(* ===== verification/Service_Invariants.thy ===== *)
theory Service_Invariants
  imports Lifecycle
begin

text \<open>
  Invariants of the execution service. The locale \<open>runtime_contract\<close> is what the service needs from its
  runtime and adapters for an invariant of the world; \<open>service_contract\<close> adds what it needs from the
  store. Inside it every operation of the service is shown to keep the invariant. The contract is
  interpreted for the event logs. Further lemmas: what a run leaves in the store when it returns.
\<close>

subsection \<open>Contracts\<close>

locale runtime_contract =
  fixes sv :: "'e service" and P :: "'e world \<Rightarrow> bool"
  assumes start_run: "P w \<Longrightarrow> P (snd (svc_start_run sv q w))"
    and inspect_run: "P w \<Longrightarrow> P (snd (svc_inspect_run sv h w))"
    and take_output: "P w \<Longrightarrow> P (snd (svc_take_structured_output sv rid w))"
    and sleep: "P w \<Longrightarrow> P (svc_sleep sv n w)"
    and prepare: "P w \<Longrightarrow> P (snd (svc_prepare_launch_request sv q c b w))"
    and inject: "svc_delivery_adapter sv = Some a \<Longrightarrow> P w \<Longrightarrow> P (snd (da_inject_at_launch a r c b w))"
    and drain: "svc_delivery_adapter sv = Some a \<Longrightarrow> P w \<Longrightarrow> P (snd (da_drain_intents a r w))"

lemma keeps_call_contract: "(\<And>w. P w \<Longrightarrow> P (snd (c w))) \<Longrightarrow> keeps P (call_contract c)"
  unfolding keeps_def call_contract_def by (simp split: prod.splits sum.splits) (metis snd_conv)

lemma keeps_call_io: "(\<And>w. P w \<Longrightarrow> P (snd (c w))) \<Longrightarrow> keeps P (call_io c)"
  unfolding keeps_def call_io_def by (simp split: prod.splits sum.splits) (metis snd_conv)

lemma keeps_call_total: "(\<And>w. P w \<Longrightarrow> P (snd (c w))) \<Longrightarrow> keeps P (call_total c)"
  unfolding keeps_def call_total_def by (simp split: prod.splits) (metis snd_conv)

lemma keeps_modify: "(\<And>w. P w \<Longrightarrow> P (f w)) \<Longrightarrow> keeps P (io_modify f)"
  by (simp add: keeps_def io_modify_def)

lemma keeps_load_snapshot: "keeps P (load_snapshot sv xid)"
  by (simp add: load_snapshot_def keeps_read)

lemma keeps_load_workable: "keeps P (load_workable_execution sv xid m)"
  unfolding load_workable_execution_def by (intro keeps_rules keeps_load_snapshot)

lemma keeps_load_inbox: "keeps P (load_launch_inbox_snapshot sv xid it c)"
  unfolding load_launch_inbox_snapshot_def by (intro keeps_rules)

lemma keeps_load_stats: "keeps P (load_message_stats sv xid it)"
  unfolding load_message_stats_def by (intro keeps_rules)

locale service_contract = runtime_contract sv P
  for sv :: "'e service" and P +
  assumes event: "keeps P (append_event sv xid t)"
    and save: "keeps P (store_do (save_execution x))"
    and create: "keeps P (store_do (create_execution x))"
    and candidate: "keeps P (store_do (save_candidate (svc_codec sv) c))"
    and accumulator: "keeps P (store_do (save_accumulator (svc_codec sv) xid a))"
    and clear: "keeps P (store_do (clear_iteration_candidates (svc_codec sv) xid it))"
    and intent: "keeps P (store_do (append_intent (svc_codec sv) xid i))"
    and message: "keeps P (store_do (append_routed_message (svc_codec sv) xid m))"
    and inbox: "keeps P (store_do (save_inbox_snapshot (svc_codec sv) s))"
    and claim: "keeps P (store_do (claim_execution now ttl xid v))"
    and refresh: "keeps P (store_do (refresh_claim now xid v))"
    and unclaim: "keeps P (store_do (release_claim xid))"
    and candidate_id: "P w \<Longrightarrow> P (w\<lparr>wd_next_candidate_id := n\<rparr>)"
    and execution_id: "P w \<Longrightarrow> P (w\<lparr>wd_next_execution_id := n\<rparr>)"
begin

lemma keeps_control: "keeps P (check_execution_control sv xid v)"
  unfolding check_execution_control_def refresh_ignored_def
  by (intro keeps_rules refresh keeps_load_snapshot)

lemma keeps_poll: "keeps P (poll_run sv xid v h n prev)"
proof (induction n arbitrary: prev)
  case 0
  then show ?case by (auto split: option.split intro: keeps_rules)
next
  case (Suc n)
  have "keeps P (await_sleep sv k)" for k
    by (simp add: keeps_def await_sleep_def sleep)
  then show ?case
    by (auto split: execution_control.split
        intro!: keeps_bind keeps_then keeps_return keeps_fail keeps_control keeps_call_contract inspect_run Suc)
qed

lemma keeps_wait: "keeps P (wait_for_terminal_run sv xid v h)"
  by (simp add: wait_for_terminal_run_def keeps_poll)

lemma keeps_save_candidate_state: "keeps P (save_candidate_state sv u)"
  by (simp add: save_candidate_state_def candidate)

lemma keeps_reviews: "keeps P (persist_supervision_reviews sv x it cs ev)"
  unfolding persist_supervision_reviews_def
  by (intro keeps_rules event keeps_save_candidate_state)

lemma keeps_intents: "keeps P (persist_candidate_intents sv xid it c is)"
  unfolding persist_candidate_intents_def Let_def
  by (intro keeps_rules event intent message)

lemma keeps_drain: "keeps P (drain_delivery_intents sv h)"
  unfolding drain_delivery_intents_def
  by (auto split: option.split intro!: keeps_return keeps_fail keeps_call_io drain)

lemma keeps_collect: "keeps P (collect_candidate_intents_best_effort sv h is)"
  unfolding collect_candidate_intents_best_effort_def collect_candidate_intents_def
  by (intro keeps_rules keeps_drain)

lemma keeps_materialize: "keeps P (materialize_iteration_inboxes sv xid it bs)"
  unfolding materialize_iteration_inboxes_def
  by (intro keeps_rules event inbox message)

lemma keeps_queue: "keeps P (queue_candidate sv x spec it c)"
  unfolding queue_candidate_def
  by (intro keeps_rules event keeps_save_candidate_state keeps_modify candidate_id)

lemma keeps_plan: "keeps P (plan_iteration_candidates sv x spec acc it)"
  unfolding plan_iteration_candidates_def Let_def
  by (intro keeps_rules event keeps_materialize keeps_load_stats keeps_queue)

lemma keeps_load_or_plan: "keeps P (load_or_plan_iteration_candidates sv x spec acc it)"
  unfolding load_or_plan_iteration_candidates_def Let_def
  by (intro keeps_rules keeps_plan)

lemma keeps_finish:
  "keeps P (finish_with_output sv x c n h i out)"
  "keeps P (finish_without_output sv x spec c n h i)"
  "keeps P (finish_failed sv x c n i)"
  unfolding finish_with_output_def finish_without_output_def finish_failed_def Let_def
  by (intro keeps_rules keeps_collect keeps_save_candidate_state event keeps_intents)+

lemma keeps_take: "keeps P (call_total (svc_take_structured_output sv rid))"
  by (intro keeps_call_total take_output)

lemma keeps_finalize: "keeps P (finalize_candidate_after_terminal_inspection sv x spec c n h i)"
  unfolding finalize_candidate_after_terminal_inspection_def
  by (intro keeps_bind keeps_take) (auto split: structured_output_result.split intro: keeps_finish keeps_return)

lemma keeps_try_finalize: "keeps P (try_finalize_candidate_from_ready_output sv x spec c n h i)"
  unfolding try_finalize_candidate_from_ready_output_def
  by (intro keeps_if keeps_bind keeps_take keeps_return keeps_finalize)
    (auto split: structured_output_result.split intro: keeps_bind keeps_finish keeps_return)

lemma keeps_conclude: "keeps P cancel \<Longrightarrow> keeps P (conclude_poll sv x spec c n h cancel r)"
  unfolding conclude_poll_def
  by (cases r) (auto intro: keeps_then keeps_bind keeps_return keeps_try_finalize keeps_finalize)

lemma keeps_launch: "keeps P (launch_candidate sv c b q)"
  unfolding launch_candidate_def
  by (intro keeps_bind keeps_then keeps_return)
    (auto split: option.split intro!: keeps_return keeps_fail keeps_call_contract keeps_call_io prepare start_run inject)

lemma keeps_dispatch: "keeps P (dispatch_candidate sv x spec v c it n)"
  unfolding dispatch_candidate_def Let_def
  by (intro keeps_bind keeps_then event keeps_load_inbox keeps_launch keeps_save_candidate_state keeps_wait
      keeps_conclude)

lemma keeps_resume: "keeps P (resume_running_candidate sv x spec v c)"
  unfolding resume_running_candidate_def Let_def
  by (auto split: option.split intro!: keeps_bind keeps_fail keeps_wait keeps_conclude keeps_save_candidate_state)

lemma keeps_save_now: "keeps P (save_now x)"
  by (simp add: save_now_def save)

lemma keeps_end: "keeps P (end_execution sv x status ts)"
  unfolding end_execution_def Let_def by (intro keeps_rules keeps_save_now event)

lemma keeps_guard: "keeps P k \<Longrightarrow> keeps P (guard_control sv x v k)"
  unfolding guard_control_def pause_now_def
  by (intro keeps_bind keeps_control)
    (auto split: execution_control.split intro: keeps_end keeps_then keeps_save_now keeps_fail)

lemma keeps_run_entries: "keeps P (run_entries sv xp x it es n)"
proof (induction es arbitrary: n)
  case Nil
  then show ?case by (simp add: keeps_return)
next
  case (Cons e es)
  obtain c r where e: "e = (c, r)" by fastforce
  have "keeps P (case out of DispatchOutput _ _ \<Rightarrow> run_entries sv xp x it es (n + 1)
         | DispatchInFlight \<Rightarrow> run_entries sv xp x it es (n + 1)
         | DispatchRetryable e \<Rightarrow> io_then (save_now (x\<lparr>ex_status := ExPending\<rparr>)) (io_fail e)
         | DispatchCanceled \<Rightarrow> end_execution sv x ExCanceled [ExecutionCanceled])" for out
    by (cases out) (auto intro: Cons keeps_then keeps_save_now keeps_fail keeps_end)
  then show ?case
    unfolding e run_entries.simps
    by (intro keeps_guard keeps_if keeps_then keeps_save_now keeps_return keeps_bind keeps_dispatch
        keeps_resume Cons)
qed

lemma keeps_decide: "keeps P (decide_iteration sv xp xs os n ev)"
  unfolding decide_iteration_def conclude_iteration_def retry_iteration_def Let_def
  by (cases ev) (auto intro!: keeps_bind keeps_then keeps_return keeps_expect keeps_end clear event)

lemma keeps_evaluate: "keeps P (evaluate_iteration sv xp xs cs)"
  unfolding evaluate_iteration_def absorb_evaluation_def Let_def
  by (intro keeps_bind keeps_then accumulator keeps_decide)
    (auto split: strategy_evaluation.split
      intro!: keeps_bind keeps_then keeps_return keeps_expect event keeps_reviews)

lemma keeps_body: "keeps P (iteration_body sv xp xs)"
  unfolding iteration_body_def Let_def
  by (intro keeps_guard keeps_bind keeps_load_or_plan keeps_read keeps_result keeps_run_entries)
    (auto split: flow.split intro!: keeps_bind keeps_read keeps_return keeps_then keeps_save_now keeps_evaluate)

lemma keeps_finish_execution: "keeps P (finish_execution sv x)"
  unfolding finish_execution_def Let_def by (intro keeps_rules keeps_save_now event)

lemma keeps_execute: "keeps P (execute_execution sv x spec acc v limit pq)"
  unfolding execute_execution_def
  by (intro keeps_rules keeps_load_snapshot event loop_keeps keeps_body keeps_finish_execution)

lemma keeps_start: "keeps P (start_if_pending sv xid x)"
  unfolding start_if_pending_def Let_def by (intro keeps_rules keeps_save_now event)

lemma keeps_claimed: "(\<And>v. keeps P (f v)) \<Longrightarrow> keeps P (with_claimed_execution sv xid f)"
  unfolding with_claimed_execution_def already_claimed_def
  by (intro keeps_rules claim unclaim)

lemma keeps_entry_points:
  "keeps P (process_execution sv xid)" "keeps P (dispatch_execution_once sv xid)"
  "keeps P (bridge_dispatch_execution_once sv xid)" "keeps P (plan_execution sv xid)"
  "keeps P (run_to_completion sv spec)"
  unfolding process_execution_def dispatch_execution_once_def bridge_dispatch_execution_once_def
    plan_execution_def process_execution_claimed_def dispatch_execution_once_claimed_def
    plan_execution_claimed_def run_to_completion_def Let_def
  by (intro keeps_claimed keeps_rules keeps_load_workable keeps_save_now event keeps_execute keeps_start
      keeps_plan keeps_modify create execution_id)+

end

subsection \<open>Event logs\<close>

text \<open>Every event log is numbered 1, 2, 3, \<dots> and carries the id of its execution.\<close>

definition logs_ok :: "'e world \<Rightarrow> bool" where
  "logs_ok w = (\<forall>y. log_id_ok y \<longrightarrow> log_ok (wd_fs w) y)"

lemma log_ok_cong: "(\<And>y. events_file fs' y = events_file fs y) \<Longrightarrow> log_ok fs' xid = log_ok fs xid"
  by (simp add: log_ok_def event_log_def)

lemma logs_ok_frame:
  assumes "\<And>fs y. events_file (snd (f fs)) y = events_file fs y"
  shows "keeps logs_ok (store_do f)"
proof (rule keeps_store_do)
  fix w :: "'b world"
  assume "logs_ok w"
  moreover have "log_ok (snd (f (wd_fs w))) y = log_ok (wd_fs w) y" for y
    by (rule log_ok_cong [OF assms])
  ultimately show "logs_ok (w\<lparr>wd_fs := snd (f (wd_fs w))\<rparr>)"
    by (simp add: logs_ok_def)
qed

lemma append_event_keeps_logs: "keeps logs_ok (append_event sv xid t)"
  unfolding keeps_def
proof (intro allI impI)
  fix w :: "'a world"
  assume w: "logs_ok w"
  show "logs_ok (snd (append_event sv xid t w))"
  proof (cases "load_execution (svc_codec sv) xid (wd_fs w)")
    case (Inl e)
    with w show ?thesis
      by (simp add: append_event_def io_bind_def load_snapshot_def store_read_def io_result_def io_fail_def)
  next
    case (Inr sn)
    define e where "e = control_event_new xid (of_nat (length (event_log (wd_fs w) xid)) + 1) t"
    define fs' where "fs' = snd (store_append_event xid e (wd_fs w))"
    have run: "wd_fs (snd (append_event sv xid t w)) = fs'"
      using Inr load_execution_events [OF Inr]
      by (auto simp: append_event_def io_bind_def load_snapshot_def store_read_def io_result_def io_return_def
          store_do_def e_def fs'_def split: prod.splits sum.splits)
    have "log_ok fs' y" if y: "log_id_ok y" for y
    proof (cases "y = xid")
      case True
      then show ?thesis
        using log_append [of "wd_fs w" xid e t] y w load_execution_exists [OF Inr]
        by (simp add: fs'_def e_def logs_ok_def)
    next
      case False
      then have "events_file fs' y = events_file (wd_fs w) y" by (simp add: fs'_def events_append)
      then have "log_ok fs' y = log_ok (wd_fs w) y" by (simp add: log_ok_def event_log_def)
      with w y show ?thesis by (simp add: logs_ok_def)
    qed
    then show ?thesis by (simp add: logs_ok_def run)
  qed
qed

lemma events_claim [simp]:
  "events_file (snd (claim_execution now ttl xid v fs)) y = events_file fs y"
  "events_file (snd (refresh_claim now xid v fs)) y = events_file fs y"
  "events_file (snd (release_claim xid fs)) y = events_file fs y"
proof -
  have set: "events_file (set_claim xid c fs) y = events_file fs y" for c fs
    by (simp add: set_claim_def events_write_dir)
  show "events_file (snd (claim_execution now ttl xid v fs)) y = events_file fs y"
    by (induction now ttl xid v fs rule: claim_execution.induct)
      (subst claim_execution.simps, auto simp: Let_def events_write_dir set_claim_def split: option.split)
  show "events_file (snd (refresh_claim now xid v fs)) y = events_file fs y"
    by (auto simp: refresh_claim_def set split: sum.split option.split)
  show "events_file (snd (release_claim xid fs)) y = events_file fs y"
    by (simp add: release_claim_def set)
qed

text \<open>A runtime that keeps the logs is all the service needs to keep them.\<close>

locale log_runtime = runtime_contract sv logs_ok for sv :: "'e service"

sublocale log_runtime \<subseteq> service_contract sv logs_ok
  by unfold_locales (simp_all add: append_event_keeps_logs logs_ok_frame, simp_all add: logs_ok_def)

context log_runtime
begin

lemma log_service: "service_contract sv logs_ok"
  by (rule service_contract_axioms)

end

end
