(* ===== verification/Mock_Runtime.thy ===== *)
theory Mock_Runtime
  imports Service_Invariants
begin

text \<open>
  The in-process runtime (\<open>src/runtime/mock.rs\<close>, and its \<open>impl ExecutionRuntime\<close> in
  \<open>src/runtime/mod.rs\<close>): its runs, seeded outcomes and operations, and the execution service over it.
  Lemmas: every reachable runtime has well-formed runs (one terminal event, at the end, exactly for the
  terminal ones); the contracts of the service hold for it.
\<close>

subsection \<open>Runs\<close>

record run_record =
  rn_run_id :: string
  rn_handle :: string
  rn_attempt_id :: u32
  rn_state :: run_state
  rn_started_at :: string
  rn_updated_at :: string
  rn_terminal_reason :: "string option"
  rn_exit_code :: "i32 option"
  rn_events :: "event_envelope list"
  rn_next_seq :: u64

datatype seeded_outcome = SeedSuccess candidate_output | SeedFailure | SeedMissingOutput | SeedMalformedOutput

record mock_runtime =
  mk_runs :: "run_record list"
  mk_seeded :: "(string, seeded_outcome) btree"

definition mock_new :: mock_runtime where
  "mock_new = \<lparr>mk_runs = [], mk_seeded = []\<rparr>"

text \<open>\<open>now_rfc3339_like\<close>: the seconds of the clock\<close>

definition now_text :: "u64 \<Rightarrow> string" where
  "now_text ms = word_to_string (ms div 1000) @ ''Z''"

definition run_handle :: "string \<Rightarrow> string" where
  "run_handle rid = ''run-handle:'' @ rid"

definition run_record_new :: "string \<Rightarrow> string \<Rightarrow> run_record" where
  "run_record_new now rid =
     \<lparr>rn_run_id = rid, rn_handle = run_handle rid, rn_attempt_id = 1, rn_state = RsRunning,
      rn_started_at = now, rn_updated_at = now, rn_terminal_reason = None, rn_exit_code = None,
      rn_events = [], rn_next_seq = 1\<rparr>"

definition mock_event_id :: "string \<Rightarrow> u64 \<Rightarrow> string" where
  "mock_event_id rid seq = ''evt_'' @ rid @ ''_'' @ word_to_string seq"

definition push_event :: "string \<Rightarrow> event_type \<Rightarrow> run_record \<Rightarrow> run_record" where
  "push_event now t r =
     r\<lparr>rn_updated_at := now, rn_next_seq := rn_next_seq r + 1,
       rn_events := rn_events r @
         [\<lparr>ev_event_id = mock_event_id (rn_run_id r) (rn_next_seq r), ev_event_type = t,
           ev_run_id = rn_run_id r, ev_attempt_id = rn_attempt_id r, ev_timestamp = now,
           ev_seq = rn_next_seq r, ev_payload = []\<rparr>]\<rparr>"

subsection \<open>Operations\<close>

definition seeded_record :: "string \<Rightarrow> seeded_outcome option \<Rightarrow> run_record \<Rightarrow> run_record" where
  "seeded_record now seed r = (case seed of
       None \<Rightarrow> r
     | Some (SeedSuccess _) \<Rightarrow> push_event now RunCompleted (r\<lparr>rn_state := RsSucceeded\<rparr>)
     | Some SeedMissingOutput \<Rightarrow> push_event now RunCompleted (r\<lparr>rn_state := RsSucceeded\<rparr>)
     | Some SeedMalformedOutput \<Rightarrow> push_event now RunFailed (r\<lparr>rn_state := RsFailed,
         rn_exit_code := Some 1, rn_terminal_reason := Some ''malformed structured output''\<rparr>)
     | Some SeedFailure \<Rightarrow> push_event now RunFailed (r\<lparr>rn_state := RsFailed,
         rn_exit_code := Some 1, rn_terminal_reason := Some ''seeded failure''\<rparr>))"

definition start_result_of :: "run_record \<Rightarrow> start_result" where
  "start_result_of r = \<lparr>st_handle = rn_handle r, st_attempt_id = rn_attempt_id r, st_state = rn_state r\<rparr>"

definition mock_start ::
    "string \<Rightarrow> start_request \<Rightarrow> mock_runtime \<Rightarrow> (contract_error + start_result) \<times> mock_runtime" where
  "mock_start now q m =
     (case execution_policy_validate (sr_policy q) of
        Inl msg \<Rightarrow> (Inl (contract_error_new InvalidPolicy msg False), m)
      | Inr _ \<Rightarrow>
          (case find (\<lambda>r. rn_run_id r = sr_run_id q) (mk_runs m) of
             Some existing \<Rightarrow>
               if run_state_is_terminal (rn_state existing)
               then (Inl (contract_error_new AlreadyTerminal ''run is already terminal'' False), m)
               else (Inr (start_result_of existing), m)
           | None \<Rightarrow>
               let record = seeded_record now (bt_get (mk_seeded m) (sr_run_id q))
                     (push_event now RunStarted (run_record_new now (sr_run_id q)))
               in (Inr (start_result_of record), m\<lparr>mk_runs := mk_runs m @ [record]\<rparr>)))"

definition handle_not_found :: contract_error where
  "handle_not_found = contract_error_new CodeNotFound ''run handle not found'' False"

text \<open>\<open>iter_mut().find\<close>: the first record with the handle is updated.\<close>

fun update_first :: "('a \<Rightarrow> bool) \<Rightarrow> ('a \<Rightarrow> 'a) \<Rightarrow> 'a list \<Rightarrow> 'a list" where
  "update_first p f [] = []"
| "update_first p f (x # xs) = (if p x then f x # xs else x # update_first p f xs)"

definition canceled_record :: "string \<Rightarrow> string \<Rightarrow> run_record \<Rightarrow> run_record" where
  "canceled_record now reason r =
     push_event now RunCanceled (r\<lparr>rn_state := RsCanceled, rn_terminal_reason := Some reason,
       rn_exit_code := Some 130\<rparr>)"

definition terminal_event_id :: "run_record \<Rightarrow> string" where
  "terminal_event_id r = (case find event_is_terminal (rev (rn_events r)) of
     None \<Rightarrow> ''evt_missing_terminal'' | Some e \<Rightarrow> ev_event_id e)"

definition mock_stop ::
    "string \<Rightarrow> stop_request \<Rightarrow> mock_runtime \<Rightarrow> (contract_error + stop_result) \<times> mock_runtime" where
  "mock_stop now q m =
     (case find (\<lambda>r. rn_handle r = sp_handle q) (mk_runs m) of
        None \<Rightarrow> (Inl handle_not_found, m)
      | Some r \<Rightarrow>
          if run_state_is_terminal (rn_state r)
          then (Inr \<lparr>so_state = rn_state r, so_terminal_event_id = terminal_event_id r\<rparr>, m)
          else (Inr \<lparr>so_state = RsCanceled,
                     so_terminal_event_id = mock_event_id (rn_run_id r) (rn_next_seq r)\<rparr>,
                m\<lparr>mk_runs := update_first (\<lambda>r. rn_handle r = sp_handle q)
                     (canceled_record now (sp_reason q)) (mk_runs m)\<rparr>))"

definition mock_inspect :: "string \<Rightarrow> mock_runtime \<Rightarrow> contract_error + runtime_inspection" where
  "mock_inspect handle m =
     (case find (\<lambda>r. rn_handle r = handle) (mk_runs m) of
        None \<Rightarrow> Inl handle_not_found
      | Some r \<Rightarrow> Inr
          \<lparr>ri_run_id = rn_run_id r, ri_attempt_id = rn_attempt_id r, ri_state = rn_state r,
           ri_active_stage_count = (if rn_state r = RsRunning then 1 else 0),
           ri_active_microvm_count = (if rn_state r = RsRunning then 1 else 0),
           ri_started_at = rn_started_at r, ri_updated_at = rn_updated_at r,
           ri_terminal_reason = rn_terminal_reason r, ri_exit_code = rn_exit_code r\<rparr>)"

text \<open>Events after the given one; all of them without one or when it is unknown.\<close>

fun events_after :: "string \<Rightarrow> event_envelope list \<Rightarrow> event_envelope list option" where
  "events_after eid [] = None"
| "events_after eid (e # es) = (if ev_event_id e = eid then Some es else events_after eid es)"

definition mock_subscribe_events ::
    "subscribe_events_request \<Rightarrow> mock_runtime \<Rightarrow> contract_error + event_envelope list" where
  "mock_subscribe_events q m =
     (case find (\<lambda>r. rn_handle r = se_handle q) (mk_runs m) of
        None \<Rightarrow> Inl handle_not_found
      | Some r \<Rightarrow> Inr
          (case Option.bind (se_from_event_id q) (\<lambda>eid. events_after eid (rn_events r)) of
             None \<Rightarrow> rn_events r | Some es \<Rightarrow> es))"

definition mock_seed :: "string \<Rightarrow> seeded_outcome \<Rightarrow> mock_runtime \<Rightarrow> mock_runtime" where
  "mock_seed rid outcome m = m\<lparr>mk_seeded := bt_insert rid outcome (mk_seeded m)\<rparr>"

definition mock_take_structured_output :: "string \<Rightarrow> mock_runtime \<Rightarrow> structured_output_result" where
  "mock_take_structured_output rid m =
     (case bt_get (mk_seeded m) rid of
        Some (SeedSuccess output) \<Rightarrow> OutputFound output
      | Some SeedMalformedOutput \<Rightarrow> OutputError (contract_error_new StructuredOutputMalformed
          (''run '' @ squoted rid @ '' emitted malformed structured output'') False)
      | _ \<Rightarrow> OutputMissing)"

definition mock_persisted_run_handle :: "string \<Rightarrow> string" where
  "mock_persisted_run_handle rid =
     (if starts_with ''run-handle:'' rid then rid else run_handle rid)"

subsection \<open>The service over the runtime\<close>

definition mock_call :: "(mock_runtime \<Rightarrow> 'a \<times> mock_runtime) \<Rightarrow> mock_runtime world \<Rightarrow> 'a \<times> mock_runtime world" where
  "mock_call f w = (case f (wd_env w) of (r, m) \<Rightarrow> (r, w\<lparr>wd_env := m\<rparr>))"

text \<open>\<open>ExecutionService::new\<close> with the mock runtime: no delivery adapter; \<open>prepare\<close> is the launch adapter.\<close>

definition mock_service ::
    "global_config \<Rightarrow> codec \<Rightarrow> (start_request \<Rightarrow> candidate_spec \<Rightarrow> inbox_snapshot \<Rightarrow> contract_error + start_request)
     \<Rightarrow> mock_runtime service" where
  "mock_service global cx prepare =
     \<lparr>svc_global = global, svc_codec = cx, svc_pid = 1, svc_ttl_var = None,
      svc_num_text = (\<lambda>_. ''0''), svc_str_text = (\<lambda>s. s),
      svc_start_run = (\<lambda>q w. mock_call (mock_start (now_text (wd_now w)) q) w),
      svc_inspect_run = (\<lambda>h. mock_call (\<lambda>m. (mock_inspect h m, m))),
      svc_take_structured_output = (\<lambda>rid. mock_call (\<lambda>m. (mock_take_structured_output rid m, m))),
      svc_inline_poll_budget = 40, svc_inline_poll_sleep_ms = 100,
      svc_sleep = (\<lambda>n w. w\<lparr>wd_now := wd_now w + n\<rparr>),
      svc_persisted_run_handle = mock_persisted_run_handle, svc_delivery_run_ref = (\<lambda>_. None),
      svc_prepare_launch_request = (\<lambda>q c b w. (prepare q c b, w)), svc_delivery_adapter = None\<rparr>"

lemma mock_call_fs: "(\<And>u. P (w\<lparr>wd_env := u\<rparr>) = P w) \<Longrightarrow> P w \<Longrightarrow> P (snd (mock_call f w))"
  by (simp add: mock_call_def split: prod.split)

interpretation mock: log_runtime "mock_service global cx prepare"
proof unfold_locales
  have logs: "logs_ok (w\<lparr>wd_env := u\<rparr>) = logs_ok w" for w :: "mock_runtime world" and u
    by (simp add: logs_ok_def)
  show "logs_ok (snd (svc_start_run (mock_service global cx prepare) q w))" if "logs_ok w" for q w
    using mock_call_fs [of logs_ok, OF logs that] by (simp add: mock_service_def)
  show "logs_ok (snd (svc_inspect_run (mock_service global cx prepare) h w))" if "logs_ok w" for h w
    using mock_call_fs [of logs_ok, OF logs that] by (simp add: mock_service_def)
  show "logs_ok (snd (svc_take_structured_output (mock_service global cx prepare) h w))" if "logs_ok w" for h w
    using mock_call_fs [of logs_ok, OF logs that] by (simp add: mock_service_def)
qed (simp_all add: mock_service_def logs_ok_def)

subsection \<open>Well-formed runs\<close>

text \<open>
  Events numbered from 1, with the run's id; a terminal event only at the end, and exactly when the run
  is terminal; the first event is the start.
\<close>

definition run_ok :: "run_record \<Rightarrow> bool" where
  "run_ok r =
     (rn_handle r = run_handle (rn_run_id r)
      \<and> map ev_seq (rn_events r) = seq_upto (length (rn_events r))
      \<and> rn_next_seq r = of_nat (length (rn_events r)) + 1
      \<and> list_all (\<lambda>e. ev_run_id e = rn_run_id r) (rn_events r)
      \<and> rn_events r \<noteq> [] \<and> ev_event_type (hd (rn_events r)) = RunStarted
      \<and> list_all (\<lambda>e. \<not> event_is_terminal e) (butlast (rn_events r))
      \<and> event_is_terminal (last (rn_events r)) = run_state_is_terminal (rn_state r)
      \<and> (rn_state r = RsRunning \<or> run_state_is_terminal (rn_state r)))"

definition mock_ok :: "mock_runtime \<Rightarrow> bool" where
  "mock_ok m = (list_all run_ok (mk_runs m) \<and> distinct (map rn_run_id (mk_runs m)))"

inductive mock_step :: "mock_runtime \<Rightarrow> mock_runtime \<Rightarrow> bool" where
  step_start: "mock_step m (snd (mock_start now q m))"
| step_stop: "mock_step m (snd (mock_stop now q m))"
| step_seed: "mock_step m (mock_seed rid outcome m)"

lemma push_event_ok:
  assumes "rn_handle r = run_handle (rn_run_id r)"
    and "map ev_seq (rn_events r) = seq_upto (length (rn_events r))"
    and "rn_next_seq r = of_nat (length (rn_events r)) + 1"
    and "list_all (\<lambda>e. ev_run_id e = rn_run_id r) (rn_events r)"
    and "list_all (\<lambda>e. \<not> event_is_terminal e) (rn_events r)"
    and "if rn_events r = [] then t = RunStarted else ev_event_type (hd (rn_events r)) = RunStarted"
    and "(t \<in> {RunCompleted, RunFailed, RunCanceled}) = run_state_is_terminal (rn_state r)"
    and "rn_state r = RsRunning \<or> run_state_is_terminal (rn_state r)"
  shows "run_ok (push_event now t r)"
  using assms by (auto simp: run_ok_def push_event_def seq_upto_Suc event_is_terminal_def hd_append
      split: if_splits)

lemma run_not_terminal_events:
  assumes "run_ok r" "\<not> run_state_is_terminal (rn_state r)"
  shows "list_all (\<lambda>e. \<not> event_is_terminal e) (rn_events r)"
  using assms by (cases "rn_events r" rule: rev_cases) (auto simp: run_ok_def)

lemma run_ok_same_handle:
  assumes "run_ok r" "run_ok s" "rn_handle s = rn_handle r"
  shows "rn_run_id s = rn_run_id r"
  using assms by (simp add: run_ok_def run_handle_def)

lemma canceled_record_ok: "run_ok r \<Longrightarrow> \<not> run_state_is_terminal (rn_state r) \<Longrightarrow> run_ok (canceled_record now reason r)"
  unfolding canceled_record_def
  by (rule push_event_ok) (use run_not_terminal_events [of r] in
      \<open>auto simp: run_ok_def run_state_is_terminal_def\<close>)

lemma started_record_ok: "run_ok (push_event now RunStarted (run_record_new now rid))"
  by (rule push_event_ok) (simp_all add: run_record_new_def run_state_is_terminal_def)

lemma seeded_record_ok: "run_ok (seeded_record now seed (push_event now RunStarted (run_record_new now rid)))"
proof -
  let ?r = "push_event now RunStarted (run_record_new now rid)"
  have r: "run_ok ?r" by (rule started_record_ok)
  have running: "\<not> run_state_is_terminal (rn_state ?r)"
    by (simp add: push_event_def run_record_new_def run_state_is_terminal_def)
  have ok: "run_ok (push_event now t (?r\<lparr>rn_state := s\<rparr>))"
    "run_ok (push_event now t (?r\<lparr>rn_state := s, rn_exit_code := c, rn_terminal_reason := n\<rparr>))"
    if "run_state_is_terminal s" "t \<in> {RunCompleted, RunFailed, RunCanceled}" for t s c n
    by (rule push_event_ok; use r run_not_terminal_events [OF r running] that in \<open>auto simp: run_ok_def\<close>)+
  show ?thesis
    by (cases seed rule: option.exhaust [OF _ option.exhaust])
      (auto simp: seeded_record_def r run_state_is_terminal_def split: option.split seeded_outcome.split intro!: ok)
qed

lemma set_update_first: "set (update_first p f xs) \<subseteq> set xs \<union> f ` {x \<in> set xs. p x}"
  by (induction xs) auto

lemma map_update_first: "(\<And>x. g (f x) = g x) \<Longrightarrow> map g (update_first p f xs) = map g xs"
  by (induction xs) auto

lemma mock_step_ok:
  assumes "mock_step m m'" "mock_ok m"
  shows "mock_ok m'"
  using assms
proof cases
  case (step_start now q)
  have fresh: "sr_run_id q \<notin> set (map rn_run_id (mk_runs m))" if "find (\<lambda>r. rn_run_id r = sr_run_id q) (mk_runs m) = None"
    using that by (auto simp: find_None_iff)
  have rid: "rn_run_id (seeded_record now seed (push_event now RunStarted (run_record_new now (sr_run_id q)))) = sr_run_id q" for seed
    by (auto simp: seeded_record_def push_event_def run_record_new_def split: option.split seeded_outcome.split)
  show ?thesis
    using assms(2) fresh unfolding step_start(1)
    by (auto simp: mock_start_def mock_ok_def seeded_record_ok rid Let_def split: sum.split option.split)
next
  case (step_stop now q)
  show ?thesis
  proof (cases "find (\<lambda>r. rn_handle r = sp_handle q) (mk_runs m)")
    case None
    then show ?thesis using assms(2) by (simp add: step_stop mock_stop_def)
  next
    case (Some r)
    let ?p = "\<lambda>r. rn_handle r = sp_handle q"
    let ?rs = "update_first ?p (canceled_record now (sp_reason q)) (mk_runs m)"
    have r: "r \<in> set (mk_runs m)" "?p r" using Some by (auto simp: find_Some_iff)
    have ok: "list_all run_ok (mk_runs m)" "distinct (map rn_run_id (mk_runs m))"
      using assms(2) by (auto simp: mock_ok_def)
    have only: "s = r" if "s \<in> set (mk_runs m)" "?p s" for s
    proof -
      have "rn_run_id s = rn_run_id r"
        using run_ok_same_handle [of r s] that r ok(1) by (auto simp: list_all_iff)
      with that(1) r(1) ok(2) show ?thesis by (metis distinct_map inj_onD)
    qed
    have "mock_ok (m\<lparr>mk_runs := ?rs\<rparr>)" if live: "\<not> run_state_is_terminal (rn_state r)"
    proof -
      have "run_ok s" if s: "s \<in> set ?rs" for s
      proof -
        consider "s \<in> set (mk_runs m)" | "s = canceled_record now (sp_reason q) r"
          using s set_update_first [of ?p "canceled_record now (sp_reason q)" "mk_runs m"] only by blast
        then show ?thesis using r(1) ok(1) canceled_record_ok live by cases (auto simp: list_all_iff)
      qed
      moreover have "map rn_run_id ?rs = map rn_run_id (mk_runs m)"
        by (rule map_update_first) (simp add: canceled_record_def push_event_def)
      ultimately show ?thesis using ok(2) by (simp add: mock_ok_def list_all_iff)
    qed
    then show ?thesis using assms(2) Some by (auto simp: step_stop mock_stop_def)
  qed
next
  case (step_seed rid outcome)
  then show ?thesis using assms(2) by (simp add: mock_ok_def mock_seed_def)
qed

lemma mock_reachable_ok: "mock_step\<^sup>*\<^sup>* mock_new m \<Longrightarrow> mock_ok m"
  by (induction rule: rtranclp_induct) (simp add: mock_ok_def mock_new_def, rule mock_step_ok)

lemma mock_step_terminal:
  assumes "mock_step m m'" "mock_ok m" "r \<in> set (mk_runs m)" "run_state_is_terminal (rn_state r)"
  shows "r \<in> set (mk_runs m')"
  using assms(1)
proof cases
  case (step_start now q)
  then show ?thesis
    using assms(3) by (auto simp: mock_start_def Let_def split: sum.split option.split)
next
  case (step_stop now q)
  have keep: "x \<in> set xs \<Longrightarrow> \<not> p x \<Longrightarrow> x \<in> set (update_first p f xs)" for x p f and xs :: "run_record list"
    by (induction xs) auto
  show ?thesis
  proof (cases "find (\<lambda>r. rn_handle r = sp_handle q) (mk_runs m)")
    case None
    then show ?thesis using assms(3) by (simp add: step_stop mock_stop_def)
  next
    case (Some s)
    have s: "s \<in> set (mk_runs m)" "rn_handle s = sp_handle q" using Some by (auto simp: find_Some_iff)
    have "rn_handle r \<noteq> sp_handle q" if "\<not> run_state_is_terminal (rn_state s)"
    proof
      assume "rn_handle r = sp_handle q"
      then have "rn_run_id r = rn_run_id s"
        using run_ok_same_handle [of s r] assms(2,3) s by (auto simp: mock_ok_def list_all_iff)
      then have "r = s" using assms(2,3) s(1) by (metis mock_ok_def distinct_map inj_onD)
      with that assms(4) show False by simp
    qed
    then show ?thesis using Some assms(3) keep by (auto simp: step_stop mock_stop_def)
  qed
next
  case (step_seed rid outcome)
  then show ?thesis using assms(3) by (simp add: mock_seed_def)
qed

subsection \<open>Properties\<close>

text \<open>
  In every state of the in-process runtime reached by starting, stopping and seeding, the runs have
  distinct ids, their events are numbered from 1 and begin with the start, a terminal event occurs
  exactly in terminal runs and only at the end, so stopping a terminal run answers with that event; and
  from then on a terminal run never changes.
\<close>

theorem mock_runs_well_formed:
  assumes "mock_step\<^sup>*\<^sup>* mock_new m" and "r \<in> set (mk_runs m)"
  shows "mock_ok m \<and> run_ok r
    \<and> (run_state_is_terminal (rn_state r) \<longrightarrow> terminal_event_id r = ev_event_id (last (rn_events r))
         \<and> (\<forall>m'. mock_step\<^sup>*\<^sup>* m m' \<longrightarrow> r \<in> set (mk_runs m')))"
proof (intro conjI impI allI)
  show m: "mock_ok m" by (rule mock_reachable_ok [OF assms(1)])
  with assms(2) show r: "run_ok r" by (simp add: mock_ok_def list_all_iff)
  assume live: "run_state_is_terminal (rn_state r)"
  from r live show "terminal_event_id r = ev_event_id (last (rn_events r))"
    by (cases "rn_events r" rule: rev_cases) (auto simp: terminal_event_id_def run_ok_def)
  fix m'
  assume "mock_step\<^sup>*\<^sup>* m m'"
  then have "mock_ok m' \<and> r \<in> set (mk_runs m')"
  proof (induction rule: rtranclp_induct)
    case base
    show ?case using m assms(2) ..
  next
    case (step y z)
    then show ?case using mock_step_ok mock_step_terminal [OF _ _ _ live] by blast
  qed
  then show "r \<in> set (mk_runs m')" ..
qed

definition demo_request :: start_request where
  "demo_request = \<lparr>sr_run_id = ''r'', sr_workflow_spec = ''w'', sr_launch_context = None, sr_policy = default_runtime_policy\<rparr>"

definition demo_failed :: mock_runtime where
  "demo_failed = snd (mock_start ''0Z'' demo_request (mock_seed ''r'' SeedFailure mock_new))"

lemma mock_runs_well_formed_witness:
  "\<exists>r. mk_runs demo_failed = [r] \<and> run_ok r \<and> rn_state r = RsFailed
     \<and> terminal_event_id r = ev_event_id (last (rn_events r))"
proof -
  let ?m1 = "mock_seed ''r'' SeedFailure mock_new"
  obtain r where r: "mk_runs demo_failed = [r]" "rn_state r = RsFailed"
    by (simp add: demo_failed_def mock_start_def mock_new_def mock_seed_def demo_request_def default_runtime_policy_def
        execution_policy_validate_def seeded_record_def push_event_def Let_def)
  have "mock_step\<^sup>*\<^sup>* mock_new ?m1" by (intro r_into_rtranclp step_seed)
  moreover have "mock_step ?m1 demo_failed" unfolding demo_failed_def by (rule step_start)
  ultimately have "mock_step\<^sup>*\<^sup>* mock_new demo_failed" by (rule rtranclp.rtrancl_into_rtrancl)
  from mock_runs_well_formed [OF this, of r] r show ?thesis by (simp add: run_state_is_terminal_def)
qed

end
