(* ===== verification/Service_Results.thy ===== *)
theory Service_Results
  imports Mock_Runtime
begin

text \<open>
  Results of the execution service's operations: what is on disk when a run returns, how many iterations
  it takes, how a candidate is finished, that claims are released, and the effect of the API's updates.
\<close>

subsection \<open>What a run leaves in the store\<close>

definition stored_execution :: "store_fs \<Rightarrow> string \<Rightarrow> string option" where
  "stored_execution fs xid = Option.bind (bt_get fs xid) xd_execution"

definition stored_candidate :: "store_fs \<Rightarrow> string \<Rightarrow> string \<Rightarrow> string option" where
  "stored_candidate fs xid name = Option.bind (bt_get fs xid) (\<lambda>d. bt_get (candidates_dir d) name)"

lemma stored_write_dir:
  "(\<And>d. xd_execution (f d) = xd_execution d) \<Longrightarrow>
     stored_execution (snd (write_dir xid f fs)) y = stored_execution fs y"
  "(\<And>d. xd_candidates (f d) = xd_candidates d) \<Longrightarrow>
     stored_candidate (snd (write_dir xid f fs)) y n = stored_candidate fs y n"
  by (auto simp: stored_execution_def stored_candidate_def candidates_dir_def write_dir_def split: option.split)

lemma stored_create_dir [simp]:
  "stored_candidate (create_dir_all xid fs) y n = stored_candidate fs y n"
  by (auto simp: stored_candidate_def create_dir_all_def candidates_dir_def empty_dir_def split: option.split)

lemma stored_frame [simp]:
  "stored_execution (snd (store_append_event xid e fs)) y = stored_execution fs y"
  "stored_candidate (snd (store_append_event xid e fs)) y n = stored_candidate fs y n"
  "stored_candidate (snd (append_intent cx xid i fs)) y n = stored_candidate fs y n"
  "stored_candidate (snd (append_routed_message cx xid m fs)) y n = stored_candidate fs y n"
  by (auto simp: store_append_event_def append_intent_def append_routed_message_def append_ndjson_def Let_def
      stored_write_dir split: sum.split)

lemma keeps_append_event_frame:
  assumes "\<And>w e. P w \<Longrightarrow> P (w\<lparr>wd_fs := snd (store_append_event xid e (wd_fs w))\<rparr>)"
  shows "keeps P (append_event sv xid t)"
  unfolding append_event_def by (intro keeps_bind keeps_load_snapshot keeps_store_do assms)

lemma ensures_store_do:
  assumes "\<And>w x fs'. P w \<Longrightarrow> f (wd_fs w) = (Inr x, fs') \<Longrightarrow> Q x (w\<lparr>wd_fs := fs'\<rparr>)"
  shows "ensures P (store_do f) Q"
  using assms by (auto simp: ensures_def store_do_def split: prod.splits sum.splits)

lemma save_now_stores:
  "ensures P (save_now x) (\<lambda>_ w. stored_execution (wd_fs w) (ex_execution_id x) = Some (execution_text x))"
  unfolding save_now_def
  by (rule ensures_store_do)
    (auto simp: save_execution_def write_dir_def stored_execution_def split: option.splits)

text \<open>The last event of an execution's log.\<close>

definition last_event :: "store_fs \<Rightarrow> string \<Rightarrow> control_event_type option" where
  "last_event fs xid = (let es = event_log fs xid in if es = [] then None else Some (ce_event_type (last es)))"

lemma append_event_last:
  assumes "log_id_ok xid"
  shows "ensures logs_ok (append_event sv xid t) (\<lambda>_ w. last_event (wd_fs w) xid = Some t)"
  unfolding ensures_def
proof (intro allI impI)
  fix w :: "'a world" and u w'
  assume ok: "logs_ok w" and run: "append_event sv xid t w = (Inr u, w')"
  from run obtain sn where sn: "load_execution (svc_codec sv) xid (wd_fs w) = Inr sn"
    by (auto simp: append_event_def io_bind_eq_Inr load_snapshot_def store_read_def io_result_def
        io_fail_def io_return_def split: sum.splits)
  define e where "e = control_event_new xid (of_nat (length (event_log (wd_fs w) xid)) + 1) t"
  have fs': "wd_fs w' = snd (store_append_event xid e (wd_fs w))"
    using run sn load_execution_events [OF sn]
    by (auto simp: append_event_def io_bind_eq_Inr load_snapshot_def store_read_def io_result_def
        io_return_def store_do_def e_def split: prod.splits sum.splits)
  have "event_log (wd_fs w') xid = event_log (wd_fs w) xid @ [e]"
    using log_append [of "wd_fs w" xid e t] ok assms load_execution_exists [OF sn]
    by (simp add: fs' e_def logs_ok_def)
  then show "last_event (wd_fs w') xid = Some t"
    by (simp add: last_event_def e_def control_event_new_def)
qed

fun outcome_event :: "execution_status \<Rightarrow> control_event_type option" where
  "outcome_event ExCompleted = Some ExecutionCompleted"
| "outcome_event ExFailed = Some ExecutionFailed"
| "outcome_event ExCanceled = Some ExecutionCanceled"
| "outcome_event _ = None"

text \<open>The execution is on disk as returned, and the last event names its outcome.\<close>

definition outcome_recorded :: "execution \<Rightarrow> 'e world \<Rightarrow> bool" where
  "outcome_recorded x w =
     (stored_execution (wd_fs w) (ex_execution_id x) = Some (execution_text x)
      \<and> (case outcome_event (ex_status x) of None \<Rightarrow> True
         | Some t \<Rightarrow> last_event (wd_fs w) (ex_execution_id x) = Some t))"

lemma ensures_conj: "ensures P m Q \<Longrightarrow> ensures P m R \<Longrightarrow> ensures P m (\<lambda>x w. Q x w \<and> R x w)"
  unfolding ensures_def by blast

lemma ensures_keeps: "keeps P m \<Longrightarrow> ensures P m (\<lambda>_. P)"
  unfolding ensures_def keeps_def by (metis snd_conv)

text \<open>Saving and then appending events: the file is as saved, the last event the last appended.\<close>

lemma save_append_recorded:
  fixes sv :: "'e service"
  assumes "log_runtime sv" "log_id_ok (ex_execution_id x)" "outcome_event (ex_status x) = Some t"
  shows "ensures logs_ok
    (io_then (save_now x) (io_then (io_for (ts @ [t]) (append_event sv (ex_execution_id x))) (io_return r)))
    (\<lambda>_ w. outcome_recorded x w)"
proof -
  let ?xid = "ex_execution_id x"
  let ?S = "\<lambda>w :: 'e world. logs_ok w \<and> stored_execution (wd_fs w) ?xid = Some (execution_text x)"
  have S: "keeps ?S (append_event sv ?xid t)" for t
  proof -
    have "keeps (\<lambda>w. stored_execution (wd_fs w) ?xid = Some (execution_text x)) (append_event sv ?xid t)"
      by (rule keeps_append_event_frame) simp
    with append_event_keeps_logs [of sv ?xid t] show ?thesis by (simp add: keeps_def)
  qed
  have save: "ensures logs_ok (save_now x) (\<lambda>_. ?S)"
  proof -
    have "keeps logs_ok (save_now x)" by (simp add: save_now_def logs_ok_frame)
    then have "ensures logs_ok (save_now x) (\<lambda>_. logs_ok)" by (rule ensures_keeps)
    then show ?thesis by (intro ensures_conj save_now_stores)
  qed
  have for_S: "keeps ?S (io_for us (append_event sv ?xid))" for us
    by (induction us) (auto intro: keeps_return keeps_then S)
  have last: "ensures ?S (io_for (us @ [t]) (append_event sv ?xid)) (\<lambda>_ w. outcome_recorded x w)" for us
  proof (induction us)
    case Nil
    have "ensures ?S (append_event sv ?xid t) (\<lambda>_ w. ?S w \<and> last_event (wd_fs w) ?xid = Some t)"
      by (intro ensures_conj ensures_keeps [OF S] ensures_weaken [OF append_event_last [OF assms(2)]]) auto
    then show ?case
      by (auto intro!: ensures_seq_then [of _ _ "\<lambda>w. ?S w \<and> last_event (wd_fs w) ?xid = Some t"] ensures_return
          simp: outcome_recorded_def assms(3))
  next
    case (Cons u us)
    then show ?case by (simp add: ensures_then [OF S])
  qed
  show ?thesis
    by (intro ensures_seq_then [OF save] ensures_seq_then [OF last] ensures_return)
qed

abbreviation returned :: "'a flow \<Rightarrow> string \<Rightarrow> 'e world \<Rightarrow> bool" where
  "returned r xid w \<equiv> (case r of Next _ \<Rightarrow> True
     | Return y \<Rightarrow> ex_execution_id y = xid \<and> outcome_recorded y w)"

lemma io_for_single: "io_then (io_for [x] f) k = io_then (f x) k"
  by (simp add: io_then_def io_bind_assoc)

context log_runtime
begin

lemma end_execution_recorded:
  assumes "log_id_ok (ex_execution_id x)" "outcome_event status = Some t"
  shows "ensures logs_ok (end_execution sv x status (ts @ [t])) (\<lambda>r. returned r (ex_execution_id x))"
proof -
  have "ensures logs_ok
      (io_then (save_now (x\<lparr>ex_status := status\<rparr>))
        (io_then (io_for (ts @ [t]) (append_event sv (ex_execution_id x))) (io_return (Return (x\<lparr>ex_status := status\<rparr>)))))
      (\<lambda>r w. outcome_recorded (x\<lparr>ex_status := status\<rparr>) w)"
    using save_append_recorded [OF log_runtime_axioms, of "x\<lparr>ex_status := status\<rparr>" t ts] assms by simp
  moreover have "ensures (\<lambda>_. True)
      (io_then (save_now (x\<lparr>ex_status := status\<rparr>))
        (io_then (io_for (ts @ [t]) (append_event sv (ex_execution_id x))) (io_return (Return (x\<lparr>ex_status := status\<rparr>)))))
      (\<lambda>r w. r = Return (x\<lparr>ex_status := status\<rparr>))"
    by (intro ensures_then keeps_True ensures_return) simp
  ultimately show ?thesis
    unfolding end_execution_def Let_def ensures_def by fastforce
qed

lemmas ends = end_execution_recorded [where ts = "[]", simplified]
  end_execution_recorded [where ts = "[u]" for u, simplified]
  end_execution_recorded [where ts = "[u, v]" for u v, simplified]

lemma save_return_recorded:
  "outcome_event (ex_status x) = None \<Longrightarrow> ex_execution_id x = xid \<Longrightarrow>
     ensures logs_ok (io_then (save_now x) (io_return (Return x))) (\<lambda>r. returned r xid)"
  by (intro ensures_seq_then [OF save_now_stores] ensures_return) (auto simp: outcome_recorded_def)

lemma guard_recorded:
  assumes "ensures logs_ok k (\<lambda>r. returned r (ex_execution_id x))" "log_id_ok (ex_execution_id x)"
  shows "ensures logs_ok (guard_control sv x v k) (\<lambda>r. returned r (ex_execution_id x))"
  unfolding guard_control_def pause_now_def
  by (intro ensures_bind keeps_control)
    (auto split: execution_control.split
      intro!: assms ends ensures_then ensures_fail keeps_save_now)

lemma run_entries_recorded:
  assumes "log_id_ok (ex_execution_id x)" "ex_status x = ExRunning"
  shows "ensures logs_ok (run_entries sv xp x it es n) (\<lambda>r. returned r (ex_execution_id x))"
proof (induction es arbitrary: n)
  case Nil
  then show ?case by (simp add: ensures_return)
next
  case (Cons e es)
  obtain c r where e: "e = (c, r)" by fastforce
  have "ensures logs_ok (case out of DispatchOutput _ _ \<Rightarrow> run_entries sv xp x it es (n + 1)
         | DispatchInFlight \<Rightarrow> run_entries sv xp x it es (n + 1)
         | DispatchRetryable e \<Rightarrow> io_then (save_now (x\<lparr>ex_status := ExPending\<rparr>)) (io_fail e)
         | DispatchCanceled \<Rightarrow> end_execution sv x ExCanceled [ExecutionCanceled])
       (\<lambda>r. returned r (ex_execution_id x))" for out
    by (cases out) (auto intro!: Cons ends ensures_then ensures_fail keeps_save_now assms)
  then show ?case
    unfolding e run_entries.simps
    by (intro guard_recorded ensures_if ensures_bind keeps_if keeps_dispatch keeps_resume Cons
        save_return_recorded assms(1)) (simp_all add: assms)
qed

lemma decide_recorded:
  assumes "log_id_ok (ex_execution_id (xs_execution xs))"
  shows "ensures logs_ok (decide_iteration sv xp xs os n ev) (\<lambda>r. returned r (ex_execution_id (xs_execution xs)))"
proof -
  have "ensures logs_ok (conclude_iteration sv xp xs ev) (\<lambda>r. returned r (ex_execution_id (xs_execution xs)))"
    unfolding conclude_iteration_def Let_def
    by (cases ev) (auto intro!: ensures_bind ensures_then ensures_return ends assms keeps_expect event)
  moreover have "ensures logs_ok (retry_iteration sv xs) (\<lambda>r. returned r (ex_execution_id (xs_execution xs)))"
    unfolding retry_iteration_def Let_def by (auto intro!: ensures_then ensures_return clear assms)
  ultimately show ?thesis
    unfolding decide_iteration_def Let_def by (auto intro!: ensures_return ends assms)
qed

lemma body_recorded:
  assumes id_ok: "log_id_ok (ex_execution_id (xs_execution xs))" and run: "ex_status (xs_execution xs) = ExRunning"
  shows "ensures logs_ok (iteration_body sv xp xs) (\<lambda>r. returned r (ex_execution_id (xs_execution xs)))"
proof -
  have eval: "ensures logs_ok (evaluate_iteration sv xp (xs\<lparr>xs_dispatches_used := used\<rparr>) cs)
      (\<lambda>r. returned r (ex_execution_id (xs_execution xs)))" for used cs
  proof -
    have "keeps logs_ok (absorb_evaluation sv xp ys cs k ev)" for ys k ev
      unfolding absorb_evaluation_def
      by (cases ev) (auto intro!: keeps_bind keeps_then keeps_return keeps_expect event keeps_reviews)
    moreover have "ensures logs_ok (decide_iteration sv xp (record_accumulator acc (xs\<lparr>xs_dispatches_used := used\<rparr>)) os k ev)
        (\<lambda>r. returned r (ex_execution_id (xs_execution xs)))" for acc os k ev
    proof -
      have "ex_execution_id (xs_execution (record_accumulator acc (xs\<lparr>xs_dispatches_used := used\<rparr>)))
          = ex_execution_id (xs_execution xs)" by (simp add: record_accumulator_def)
      with decide_recorded [of "record_accumulator acc (xs\<lparr>xs_dispatches_used := used\<rparr>)" xp os k ev] id_ok
      show ?thesis by (simp only:)
    qed
    ultimately show ?thesis
      unfolding evaluate_iteration_def Let_def by (intro ensures_bind ensures_then accumulator)
  qed
  have entries: "ensures logs_ok (run_entries sv xp (xs_execution xs) it es n)
      (\<lambda>r w. logs_ok w \<and> returned r (ex_execution_id (xs_execution xs)) w)" for it es n
    by (intro ensures_conj ensures_keeps keeps_run_entries run_entries_recorded assms)
  have rest: "ensures (\<lambda>w. logs_ok w \<and> returned r (ex_execution_id (xs_execution xs)) w)
      (case r of Return x' \<Rightarrow> io_return (Return x')
       | Next used \<Rightarrow> io_bind (store_read f) (\<lambda>all.
           if list_ex q (filter p all)
           then io_then (save_now (xs_execution xs)) (io_return (Return (xs_execution xs)))
           else evaluate_iteration sv xp (xs\<lparr>xs_dispatches_used := used\<rparr>) (filter p all)))
      (\<lambda>r. returned r (ex_execution_id (xs_execution xs)))" for r f p q
  proof (cases r)
    case (Next used)
    have "ensures logs_ok (io_bind (store_read f) (\<lambda>all.
           if list_ex q (filter p all)
           then io_then (save_now (xs_execution xs)) (io_return (Return (xs_execution xs)))
           else evaluate_iteration sv xp (xs\<lparr>xs_dispatches_used := used\<rparr>) (filter p all)))
      (\<lambda>r. returned r (ex_execution_id (xs_execution xs)))"
      by (intro ensures_bind ensures_if keeps_read eval save_return_recorded) (simp_all add: run)
    with Next show ?thesis by (auto elim: ensures_weaken)
  next
    case (Return x')
    then show ?thesis by (auto intro: ensures_return)
  qed
  show ?thesis
    unfolding iteration_body_def Let_def
    by (intro guard_recorded ensures_bind keeps_load_or_plan keeps_read keeps_result ensures_seq [OF entries]
        rest id_ok)
qed

lemma finish_recorded:
  assumes "log_id_ok (ex_execution_id x)"
  shows "ensures logs_ok (finish_execution sv x) (\<lambda>y w. ex_execution_id y = ex_execution_id x \<and> outcome_recorded y w)"
proof -
  let ?x = "x\<lparr>ex_status := if ex_result_best_candidate_id x \<noteq> None then ExCompleted else ExFailed\<rparr>"
  let ?t = "if ex_status ?x = ExCompleted then ExecutionCompleted else ExecutionFailed"
  have t: "outcome_event (ex_status ?x) = Some ?t" by simp
  let ?m = "io_then (save_now ?x) (io_then (append_event sv (ex_execution_id x) ?t) (io_return ?x))"
  have "ensures logs_ok ?m (\<lambda>y w. outcome_recorded ?x w)"
    using save_append_recorded [OF log_runtime_axioms _ t, of "[]" ?x] assms
    by (simp only: append_Nil io_for_single) simp
  moreover have "ensures (\<lambda>_. True) ?m (\<lambda>y w. y = ?x)"
    by (intro ensures_then keeps_True ensures_return) simp
  ultimately show ?thesis
    unfolding finish_execution_def Let_def ensures_def by fastforce
qed

lemma execute_recorded:
  assumes "log_id_ok (ex_execution_id x)" "ex_status x = ExRunning"
  shows "ensures logs_ok (execute_execution sv x spec acc v limit pq)
    (\<lambda>y w. ex_execution_id y = ex_execution_id x \<and> outcome_recorded y w)"
proof -
  let ?J = "\<lambda>xs. ex_execution_id (xs_execution xs) = ex_execution_id x \<and> ex_status (xs_execution xs) = ExRunning"
  have step: "ensures logs_ok (iteration_body sv xp xs) (\<lambda>r w. case r of Next xs' \<Rightarrow> ?J xs'
       | Return y \<Rightarrow> ex_execution_id y = ex_execution_id x \<and> outcome_recorded y w)" if "?J xs" for xp xs
  proof -
    have "ensures logs_ok (iteration_body sv xp xs) (\<lambda>r w. steps_to xs r \<and> returned r (ex_execution_id x) w)"
    proof (rule ensures_conj)
      show "ensures logs_ok (iteration_body sv xp xs) (\<lambda>r w. steps_to xs r)"
        by (rule ensures_weaken [OF iteration_body_steps]) simp_all
      show "ensures logs_ok (iteration_body sv xp xs) (\<lambda>r. returned r (ex_execution_id x))"
        using body_recorded [of xs xp, unfolded conjunct1 [OF that]] that assms(1) by blast
    qed
    then show ?thesis
      by (rule ensures_weaken) (use that in \<open>auto simp: flow_step_def split: flow.splits\<close>)
  qed
  have "ensures logs_ok (execute_loop sv xp xs)
      (\<lambda>y w. ex_execution_id y = ex_execution_id x \<and> outcome_recorded y w)" if "?J xs" for xp xs
  proof (rule loop_ensures [where J = ?J, OF keeps_body step _ that])
    fix ys
    assume "?J ys"
    then show "ensures logs_ok (finish_execution sv (xs_execution ys))
        (\<lambda>y w. ex_execution_id y = ex_execution_id x \<and> outcome_recorded y w)"
      using finish_recorded [of "xs_execution ys"] assms(1) by simp
  qed
  then show ?thesis
    unfolding execute_execution_def
    by (intro ensures_bind ensures_then keeps_expect keeps_if keeps_bind keeps_load_snapshot keeps_return event)
      (simp_all add: assms(2))
qed

end

end
