(* ===== verification/Service_Props.thy ===== *)
theory Service_Props
  imports Service_Results
begin

text \<open>
  The properties of the execution service: outcomes, bounded iterations, finishing a
  candidate, claims, and the updates by the API.
\<close>

subsection \<open>Bounded iterations\<close>

inductive body_runs ::
    "'e service \<Rightarrow> exec_params \<Rightarrow> exec_state \<Rightarrow> 'e world \<Rightarrow> nat \<Rightarrow> exec_state \<Rightarrow> 'e world \<Rightarrow> bool"
  for sv xp where
  runs_none: "body_runs sv xp xs w 0 xs w"
| runs_more: "xs_iteration xs < max_iterations (xp_spec xp) \<Longrightarrow>
    iteration_body sv xp xs w = (Inr (Next xs1), w1) \<Longrightarrow> body_runs sv xp xs1 w1 n xs2 w2 \<Longrightarrow>
    body_runs sv xp xs w (Suc n) xs2 w2"

text \<open>How the loop ends: after the last iteration, or by the body of an iteration.\<close>

definition loop_ends :: "'e service \<Rightarrow> exec_params \<Rightarrow> exec_state \<Rightarrow> 'e world \<Rightarrow> (fault + execution) \<times> 'e world \<Rightarrow> bool" where
  "loop_ends sv xp xs w r =
     (if xs_iteration xs < max_iterations (xp_spec xp)
      then (case iteration_body sv xp xs w of
              (Inl e, w') \<Rightarrow> r = (Inl e, w')
            | (Inr (Return y), w') \<Rightarrow> r = (Inr y, w')
            | (Inr (Next _), w') \<Rightarrow> False)
      else r = finish_execution sv (xs_execution xs) w)"

lemma loop_runs:
  "\<exists>n xs' w'. n \<le> loop_measure xp xs \<and> body_runs sv xp xs w n xs' w'
     \<and> loop_ends sv xp xs' w' (execute_loop sv xp xs w)"
proof (induction "loop_measure xp xs" arbitrary: xs w rule: less_induct)
  case less
  show ?case
  proof (cases "\<exists>xs1 w1. xs_iteration xs < max_iterations (xp_spec xp)
      \<and> iteration_body sv xp xs w = (Inr (Next xs1), w1)")
    case True
    then obtain xs1 w1 where nxt: "xs_iteration xs < max_iterations (xp_spec xp)"
      "iteration_body sv xp xs w = (Inr (Next xs1), w1)" by blast
    then have m: "loop_measure xp xs1 < loop_measure xp xs" by (intro iteration_body_decreases)
    from less [OF m, of w1] obtain n xs' w' where "n \<le> loop_measure xp xs1" "body_runs sv xp xs1 w1 n xs' w'"
      "loop_ends sv xp xs' w' (execute_loop sv xp xs1 w1)" by blast
    moreover have "execute_loop sv xp xs w = execute_loop sv xp xs1 w1"
      using nxt by (subst execute_loop.simps) simp
    ultimately show ?thesis
      using runs_more [OF nxt] m by (intro exI [of _ "Suc n"] exI [of _ xs'] exI [of _ w']) simp
  next
    case False
    then have "loop_ends sv xp xs w (execute_loop sv xp xs w)"
      by (subst execute_loop.simps) (auto simp: loop_ends_def split: prod.splits sum.splits flow.splits)
    then show ?thesis using runs_none by blast
  qed
qed

text \<open>
  C9: The loop over the iterations always ends, after at most as many repeated bodies as iterations are
  left under the limit plus one for the single retry of a failed iteration; it ends by an early return
  or error of a body, or by the final save after the last iteration.
\<close>

theorem iterations_bounded:
  "\<exists>n xs' w'. n \<le> unat (max_iterations (xp_spec xp)) - unat (xs_iteration xs) + (if xs_retry_used xs then 0 else 1)
     \<and> body_runs sv xp xs w n xs' w' \<and> loop_ends sv xp xs' w' (execute_loop sv xp xs w)"
  using loop_runs unfolding loop_measure_def .

subsection \<open>Logs and outcomes\<close>

definition empty_world :: "mock_runtime world" where
  "empty_world = \<lparr>wd_fs = [], wd_now = 0, wd_next_execution_id = 1, wd_next_candidate_id = 1, wd_env = mock_new\<rparr>"

definition local_service :: "mock_runtime service" where
  "local_service = mock_service \<lparr>max_concurrent_child_runs = 4\<rparr> local_codec (\<lambda>q c b. Inr q)"

lemma empty_world_logs: "logs_ok empty_world"
  by (simp add: logs_ok_def empty_world_def log_ok_def event_log_def events_file_def)

lemma local_service_log_runtime: "log_runtime local_service"
  unfolding local_service_def by (rule mock.log_runtime_axioms)

text \<open>
  C2: What a run returns is what it recorded: when the run of an execution returns, the execution is on
  disk exactly as returned, under its id, and if it was completed, failed or canceled, the last event of
  its log says so.
\<close>

theorem run_outcome_recorded:
  assumes "log_runtime sv" and "logs_ok w" and "log_id_ok (ex_execution_id x)" and "ex_status x = ExRunning"
    and "execute_execution sv x spec acc v limit pq w = (Inr y, w')"
  shows "ex_execution_id y = ex_execution_id x
    \<and> stored_execution (wd_fs w') (ex_execution_id x) = Some (execution_text y)
    \<and> (ex_status y = ExCompleted \<longrightarrow> last_event (wd_fs w') (ex_execution_id x) = Some ExecutionCompleted)
    \<and> (ex_status y = ExFailed \<longrightarrow> last_event (wd_fs w') (ex_execution_id x) = Some ExecutionFailed)
    \<and> (ex_status y = ExCanceled \<longrightarrow> last_event (wd_fs w') (ex_execution_id x) = Some ExecutionCanceled)"
  using ensuresD [OF log_runtime.execute_recorded [OF assms(1,3,4)] assms(2,5)]
  by (auto simp: outcome_recorded_def)

text \<open>A specification without a limit on iterations, as validation accepts it.\<close>

definition unlimited_spec :: execution_spec where
  "unlimited_spec = sample_spec\<lparr>es_policy := policy_default\<lparr>op_budget := budget_default\<lparr>bp_max_iterations := None\<rparr>\<rparr>\<rparr>"

lemma unlimited_spec_valid: "spec_validate unlimited_spec \<lparr>max_concurrent_child_runs = 4\<rparr> = Inr ()"
  by (simp add: unlimited_spec_def spec_validate_iff spec_ok_def sample_spec_def supervision_ok_def policy_ok_def
      convergence_ok_def policy_default_def budget_default_def concurrency_default_def
      convergence_default_def variation_explicit_def known_variation_source_def trim_def is_ws_def)

lemma unlimited_run:
  assumes "bp_max_iterations (op_budget (es_policy spec)) = None" and "es_mode spec = ''swarm''"
  shows "execute_execution sv x spec acc v limit pq = finish_execution sv x"
proof (rule ext)
  fix w
  obtain st where "selected_strategy_new spec = Some st"
    using assms(2) by (simp add: selected_strategy_new_def)
  then show "execute_execution sv x spec acc v limit pq w = finish_execution sv x w"
    using assms by (simp add: execute_execution_def io_expect_def io_then_def io_bind_return
        execute_loop.simps max_iterations_def)
qed

definition demo_execution :: execution where
  "demo_execution = (execution_new ''e1'' ''swarm'' ''g'')\<lparr>ex_status := ExRunning\<rparr>"

lemma demo_run:
  "\<exists>w'. execute_execution local_service demo_execution unlimited_spec accumulator_default v None False empty_world
     = (Inr (demo_execution\<lparr>ex_status := ExFailed\<rparr>), w')"
proof -
  have "execution_fields_ok (demo_execution\<lparr>ex_status := ExFailed\<rparr>)"
    by (simp add: demo_execution_def execution_fields_ok_def execution_new_def line_safe_def line_field_def)
  note parse = parse_execution_text [OF this]
  have spec: "bp_max_iterations (op_budget (es_policy unlimited_spec)) = None" "es_mode unlimited_spec = ''swarm''"
    by (simp_all add: unlimited_spec_def sample_spec_def)
  show ?thesis
    unfolding unlimited_run [OF spec] finish_execution_def
    using parse
    by (simp add: demo_execution_def execution_new_def Let_def io_then_def io_bind_def save_now_def store_do_def save_execution_def
        create_dir_all_def write_dir_def empty_world_def empty_dir_def append_event_def load_snapshot_def store_read_def
        load_execution_def read_file_def load_candidates_def store_append_event_def io_result_def io_return_def result_simps)
qed

lemma run_outcome_recorded_witness:
  "\<exists>w' :: mock_runtime world. last_event (wd_fs w') ''e1'' = Some ExecutionFailed
    \<and> stored_execution (wd_fs w') ''e1'' = Some (execution_text (demo_execution\<lparr>ex_status := ExFailed\<rparr>))"
proof -
  obtain w' where run: "execute_execution local_service demo_execution unlimited_spec accumulator_default ''pid-1''
      None False empty_world = (Inr (demo_execution\<lparr>ex_status := ExFailed\<rparr>), w')"
    using demo_run by blast
  have "log_id_ok (ex_execution_id demo_execution)" "ex_status demo_execution = ExRunning"
    "ex_execution_id demo_execution = ''e1''"
    by (simp_all add: demo_execution_def execution_new_def log_id_ok_def line_safe_def)
  with run_outcome_recorded [OF local_service_log_runtime empty_world_logs _ _ run]
  have "last_event (wd_fs w') ''e1'' = Some ExecutionFailed
    \<and> stored_execution (wd_fs w') ''e1'' = Some (execution_text (demo_execution\<lparr>ex_status := ExFailed\<rparr>))"
    by simp
  then show ?thesis by blast
qed

subsection \<open>Claims around operations\<close>

lemma release_clears:
  "release_claim xid fs = (Inr (), fs') \<Longrightarrow> claim_file fs' xid = None"
  by (auto simp: release_claim_def claim_file_set split: if_splits)

text \<open>
  C14: An operation on an execution runs only with the claim granted, and the claim is gone afterwards
  whether the operation succeeded or failed; only a panic leaves it behind. Without the claim nothing
  runs and the caller is told the execution is claimed.
\<close>

theorem claim_released_unless_panic:
  "case store_do (claim_execution (wd_now w) (claim_ttl_ms (svc_ttl_var sv)) xid (worker_id sv)) w of
     (Inl e, w1) \<Rightarrow> with_claimed_execution sv xid operation w = (Inl e, w1)
   | (Inr False, w1) \<Rightarrow> with_claimed_execution sv xid operation w = (Inl (IoErr already_claimed), w1)
   | (Inr True, w1) \<Rightarrow>
       (case operation (worker_id sv) w1 of
          (Inl (Panic p), w2) \<Rightarrow> with_claimed_execution sv xid operation w = (Inl (Panic p), w2)
        | (r, w2) \<Rightarrow> fst (with_claimed_execution sv xid operation w) = r
            \<and> claim_file (wd_fs (snd (with_claimed_execution sv xid operation w))) xid = None)"
proof -
  obtain r w1 where claim: "store_do (claim_execution (wd_now w) (claim_ttl_ms (svc_ttl_var sv)) xid (worker_id sv)) w = (r, w1)"
    by fastforce
  obtain r2 w2 where op: "operation (worker_id sv) w1 = (r2, w2)" by fastforce
  obtain fs3 where rel: "release_claim xid (wd_fs w2) = (Inr (), fs3)"
    by (simp add: release_claim_def)
  note fs3 = release_clears [OF rel]
  have run: "with_claimed_execution sv xid operation w = (case r of
      Inl e \<Rightarrow> (Inl e, w1)
    | Inr c \<Rightarrow> if \<not> c then (Inl (IoErr already_claimed), w1)
        else (case r2 of Inl (Panic p) \<Rightarrow> (Inl (Panic p), w2)
          | _ \<Rightarrow> (r2, w2\<lparr>wd_fs := fs3\<rparr>)))"
    unfolding with_claimed_execution_def
    by (auto simp: io_bind_def io_get_def claim op io_attempt_def io_fail_def io_return_def io_result_def
        store_do_def [of "release_claim xid"] rel split: sum.split fault.split)
  show ?thesis
    by (auto simp: claim op run fs3 split: sum.split bool.split fault.split)
qed

subsection \<open>Finishing a candidate\<close>

lemma save_candidate_stores:
  "ensures P (save_candidate_state sv u)
    (\<lambda>_ w. \<exists>body. candidate_text (svc_codec sv) (candidate_of_update u) = Inr body
       \<and> stored_candidate (wd_fs w) (up_execution_id u) (candidate_file (candidate_of_update u)) = Some body)"
  unfolding save_candidate_state_def
proof (rule ensures_store_do)
  fix w :: "'a world" and y fs'
  let ?c = "candidate_of_update u"
  assume "save_candidate (svc_codec sv) ?c (wd_fs w) = (Inr y, fs')"
  then show "\<exists>body. candidate_text (svc_codec sv) ?c = Inr body
       \<and> stored_candidate (wd_fs (w\<lparr>wd_fs := fs'\<rparr>)) (up_execution_id u) (candidate_file ?c) = Some body"
    by (auto simp: save_candidate_def write_dir_def stored_candidate_def candidates_dir_def candidate_of_update_def
        execution_candidate_new_def Let_def split: sum.splits option.splits)
qed

text \<open>The record of a finished candidate is on disk.\<close>

definition finished_recorded ::
    "'e service \<Rightarrow> execution \<Rightarrow> candidate_spec \<Rightarrow> u64 \<Rightarrow> string \<Rightarrow> dispatch_outcome \<Rightarrow> 'e world \<Rightarrow> bool" where
  "finished_recorded sv x c n run_id out w = (case out of
     DispatchOutput o' failed \<Rightarrow>
       let u = finished_update x c n run_id (if failed then CaFailed else CaCompleted) (co_succeeded o') (co_metrics o')
       in co_candidate_id o' = cd_candidate_id c \<and> (failed \<longrightarrow> \<not> co_succeeded o')
          \<and> (\<exists>body. candidate_text (svc_codec sv) (candidate_of_update u) = Inr body
               \<and> stored_candidate (wd_fs w) (ex_execution_id x) (candidate_file (candidate_of_update u)) = Some body)
   | _ \<Rightarrow> False)"

lemma keeps_stored_intents:
  "keeps (\<lambda>w. stored_candidate (wd_fs w) y n = v) (append_event sv xid t)"
  "keeps (\<lambda>w. stored_candidate (wd_fs w) y n = v) (persist_candidate_intents sv xid it c is)"
proof -
  show ev: "keeps (\<lambda>w. stored_candidate (wd_fs w) y n = v) (append_event sv xid t)" for t
    by (rule keeps_append_event_frame) simp
  show "keeps (\<lambda>w. stored_candidate (wd_fs w) y n = v) (persist_candidate_intents sv xid it c is)"
    unfolding persist_candidate_intents_def Let_def
    by (intro keeps_rules ev keeps_store_do) simp_all
qed

lemma save_then_recorded:
  assumes "\<And>y n v. keeps (\<lambda>w. stored_candidate (wd_fs w) y n = v) k"
    and "co_candidate_id o' = cd_candidate_id c" "failed \<Longrightarrow> \<not> co_succeeded o'"
  shows "ensures P
    (io_then (save_candidate_state sv (finished_update x c n rid (if failed then CaFailed else CaCompleted)
        (co_succeeded o') (co_metrics o')))
      (io_then k (io_return (DispatchOutput o' failed))))
    (\<lambda>out w. out = DispatchOutput o' failed \<and> finished_recorded sv x c n rid out w)"
proof -
  let ?u = "finished_update x c n rid (if failed then CaFailed else CaCompleted) (co_succeeded o') (co_metrics o')"
  let ?S = "\<lambda>body w. candidate_text (svc_codec sv) (candidate_of_update ?u) = Inr body
       \<and> stored_candidate (wd_fs w) (ex_execution_id x) (candidate_file (candidate_of_update ?u)) = Some body"
  have k: "keeps (\<lambda>w. \<exists>body. ?S body w) k"
    using assms(1) unfolding keeps_def by blast
  have xid: "up_execution_id ?u = ex_execution_id x" by (simp add: finished_update_def)
  have save: "ensures P (save_candidate_state sv ?u) (\<lambda>_ w. \<exists>body. ?S body w)"
    using save_candidate_stores [of P sv ?u] unfolding xid .
  show ?thesis
    by (rule ensures_seq_then [OF save], rule ensures_then [OF k], rule ensures_return)
      (use assms(2,3) in \<open>simp add: finished_recorded_def Let_def\<close>)
qed

lemma io_then_assoc: "io_then (io_then a b) c = io_then a (io_then b c)"
  by (simp add: io_then_def io_bind_assoc)

lemma finish_with_output_recorded:
  "ensures (\<lambda>_. True) (finish_with_output sv x c n h i o') (\<lambda>out w.
     out = DispatchOutput (o'\<lparr>co_candidate_id := cd_candidate_id c\<rparr>) False
     \<and> finished_recorded sv x c n (ri_run_id i) out w)"
proof -
  have "ensures (\<lambda>_. True)
      (io_then (save_candidate_state sv (finished_update x c n (ri_run_id i) CaCompleted (co_succeeded o') (co_metrics o')))
       (io_then (io_then (append_event sv (ex_execution_id x) CandidateOutputCollected)
                  (persist_candidate_intents sv (ex_execution_id x) (ex_completed_iterations x) (cd_candidate_id c) is))
         (io_return (DispatchOutput (o'\<lparr>co_candidate_id := cd_candidate_id c\<rparr>) False)))) (\<lambda>out w.
     out = DispatchOutput (o'\<lparr>co_candidate_id := cd_candidate_id c\<rparr>) False
     \<and> finished_recorded sv x c n (ri_run_id i) out w)" for "is"
    using save_then_recorded [where o' = "o'\<lparr>co_candidate_id := cd_candidate_id c\<rparr>" and failed = False and c = c,
        OF keeps_then [OF keeps_stored_intents(1) keeps_stored_intents(2)]]
    by simp
  then show ?thesis
    unfolding finish_with_output_def io_then_assoc by (intro ensures_bind keeps_True)
qed

lemma candidate_output_new_sel [simp]:
  "co_candidate_id (candidate_output_new cid s m) = cid"
  "co_succeeded (candidate_output_new cid s m) = s" "co_metrics (candidate_output_new cid s m) = m"
  by (simp_all add: candidate_output_new_def)

lemma finish_without_output_recorded:
  fixes spec
  defines "failed i \<equiv> ri_state i = RsFailed \<or> op_missing_output_policy (es_policy spec) = ''mark_failed''"
  shows "ensures (\<lambda>_. True) (finish_without_output sv x spec c n h i) (\<lambda>out w.
     out = DispatchOutput (candidate_output_new (cd_candidate_id c) (\<not> failed i) []) (failed i)
     \<and> finished_recorded sv x c n (ri_run_id i) out w)"
proof -
  have "ensures (\<lambda>_. True)
      (io_then (save_candidate_state sv (finished_update x c n (ri_run_id i)
          (if failed i then CaFailed else CaCompleted) (\<not> failed i) []))
       (io_then (io_then (append_event sv (ex_execution_id x) CandidateOutputCollected)
                  (persist_candidate_intents sv (ex_execution_id x) (ex_completed_iterations x) (cd_candidate_id c) is))
         (io_return (DispatchOutput (candidate_output_new (cd_candidate_id c) (\<not> failed i) []) (failed i))))) (\<lambda>out w.
     out = DispatchOutput (candidate_output_new (cd_candidate_id c) (\<not> failed i) []) (failed i)
     \<and> finished_recorded sv x c n (ri_run_id i) out w)" for "is"
    by (rule save_then_recorded [where o' = "candidate_output_new (cd_candidate_id c) (\<not> failed i) []"
          and failed = "failed i" and c = c, unfolded candidate_output_new_sel,
          OF keeps_then [OF keeps_stored_intents(1) keeps_stored_intents(2)]]) simp_all
  then show ?thesis
    unfolding finish_without_output_def io_then_assoc failed_def Let_def by (intro ensures_bind keeps_True)
qed

lemma finish_failed_recorded:
  "ensures (\<lambda>_. True) (finish_failed sv x c n i) (\<lambda>out w.
     out = DispatchOutput (candidate_output_new (cd_candidate_id c) False []) True
     \<and> finished_recorded sv x c n (ri_run_id i) out w)"
  using save_then_recorded [where o' = "candidate_output_new (cd_candidate_id c) False []"
      and failed = True and c = c, OF keeps_stored_intents(1)]
  by (simp add: finish_failed_def)

text \<open>
  C11: How a candidate of a terminated run is finished. With an output it completes with the output's
  success and metrics; without one it fails if the run failed or the policy says so, and else completes;
  a retryable error leaves everything as it was; any other error fails it. In each finishing case the
  candidate's record on disk has the status, success and metrics of the outcome that is returned.
\<close>

theorem finished_candidate_recorded:
  assumes "finalize_candidate_after_terminal_inspection sv x spec c n h i w = (Inr out, w')"
    and "svc_take_structured_output sv (ri_run_id i) w = (res, w1)"
    and "failed = (ri_state i = RsFailed \<or> op_missing_output_policy (es_policy spec) = ''mark_failed'')"
    and "without = (out = DispatchOutput (candidate_output_new (cd_candidate_id c) (\<not> failed) []) failed
           \<and> finished_recorded sv x c n (ri_run_id i) out w')"
  shows "case res of
      OutputFound o' \<Rightarrow> out = DispatchOutput (o'\<lparr>co_candidate_id := cd_candidate_id c\<rparr>) False
         \<and> finished_recorded sv x c n (ri_run_id i) out w'
    | OutputMissing \<Rightarrow> without
    | OutputError e \<Rightarrow>
        if ce_code e = StructuredOutputMissing then without
        else if retryable_output_error e
        then out = DispatchRetryable (io_err WouldBlock (ce_message e)) \<and> w' = w1
        else out = DispatchOutput (candidate_output_new (cd_candidate_id c) False []) True
          \<and> finished_recorded sv x c n (ri_run_id i) out w'"
proof -
  have run: "finalize_candidate_after_terminal_inspection sv x spec c n h i w = (case res of
       OutputFound output \<Rightarrow> finish_with_output sv x c n h i output
     | OutputMissing \<Rightarrow> finish_without_output sv x spec c n h i
     | OutputError e \<Rightarrow>
         if ce_code e = StructuredOutputMissing then finish_without_output sv x spec c n h i
         else if retryable_output_error e then io_return (DispatchRetryable (io_err WouldBlock (ce_message e)))
         else finish_failed sv x c n i) w1"
    by (simp add: finalize_candidate_after_terminal_inspection_def io_bind_def call_total_def assms(2))
  show ?thesis
  proof (cases res)
    case (OutputFound o')
    then show ?thesis
      using ensuresD [OF finish_with_output_recorded TrueI] assms(1) by (simp add: run)
  next
    case OutputMissing
    then show ?thesis
      using ensuresD [OF finish_without_output_recorded TrueI] assms(1) by (simp add: run assms(3,4))
  next
    case (OutputError e)
    then show ?thesis
      using ensuresD [OF finish_without_output_recorded TrueI] ensuresD [OF finish_failed_recorded TrueI] assms(1)
      by (simp add: run assms(3,4) io_return_def split: if_splits)
  qed
qed

definition retrying_service :: "mock_runtime service" where
  "retrying_service = local_service\<lparr>svc_take_structured_output :=
     (\<lambda>_ w. (OutputError (contract_error_new RetrievalTimeout ''timeout'' True), w))\<rparr>"

definition demo_inspection :: runtime_inspection where
  "demo_inspection = \<lparr>ri_run_id = ''exec-run-candidate-1'', ri_attempt_id = 1, ri_state = RsSucceeded,
     ri_active_stage_count = 0, ri_active_microvm_count = 0, ri_started_at = ''0Z'', ri_updated_at = ''0Z'',
     ri_terminal_reason = None, ri_exit_code = None\<rparr>"

lemma finished_candidate_recorded_witness:
  "finalize_candidate_after_terminal_inspection retrying_service demo_execution unlimited_spec
     \<lparr>cd_candidate_id = ''candidate-1'', cd_overrides = []\<rparr> 1 ''h'' demo_inspection empty_world
   = (Inr (DispatchRetryable (io_err WouldBlock ''timeout'')), empty_world)"
proof -
  let ?fin = "finalize_candidate_after_terminal_inspection retrying_service demo_execution unlimited_spec
     \<lparr>cd_candidate_id = ''candidate-1'', cd_overrides = []\<rparr> 1 ''h'' demo_inspection empty_world"
  have take: "svc_take_structured_output retrying_service (ri_run_id demo_inspection) empty_world
     = (OutputError (contract_error_new RetrievalTimeout ''timeout'' True), empty_world)"
    by (simp add: retrying_service_def)
  obtain out w' where run: "?fin = (Inr out, w')"
    by (simp add: finalize_candidate_after_terminal_inspection_def io_bind_def call_total_def take
        retryable_output_error_def contract_error_new_def io_return_def)
  from finished_candidate_recorded [OF run take refl refl] run show ?thesis
    by (simp add: retryable_output_error_def contract_error_new_def)
qed

subsection \<open>A specification without an iteration limit\<close>

text \<open>
  Validation accepts a specification whose only budget is a wall-clock limit, but a run takes the
  missing iteration limit for zero: it plans and dispatches nothing, saves the execution as failed (or as
  completed, if an earlier run found a best candidate) and returns.
\<close>

theorem unlimited_spec_runs_nothing:
  assumes "spec_validate spec global = Inr ()" and "bp_max_iterations (op_budget (es_policy spec)) = None"
    and "es_mode spec = ''swarm''" and "ex_result_best_candidate_id x = None"
  shows "execute_execution sv x spec acc v limit pq =
    io_then (save_now (x\<lparr>ex_status := ExFailed\<rparr>))
     (io_then (append_event sv (ex_execution_id x) ExecutionFailed) (io_return (x\<lparr>ex_status := ExFailed\<rparr>)))"
  unfolding unlimited_run [OF assms(2,3)] finish_execution_def Let_def by (simp add: assms(4))

lemma unlimited_spec_runs_nothing_witness:
  "execute_execution local_service demo_execution unlimited_spec accumulator_default ''pid-1'' None False =
    io_then (save_now (demo_execution\<lparr>ex_status := ExFailed\<rparr>))
     (io_then (append_event local_service ''e1'' ExecutionFailed) (io_return (demo_execution\<lparr>ex_status := ExFailed\<rparr>)))"
proof -
  have spec: "bp_max_iterations (op_budget (es_policy unlimited_spec)) = None" "es_mode unlimited_spec = ''swarm''"
    by (simp_all add: unlimited_spec_def sample_spec_def)
  have x: "ex_result_best_candidate_id demo_execution = None" "ex_execution_id demo_execution = ''e1''"
    by (simp_all add: demo_execution_def execution_new_def)
  show ?thesis
    using unlimited_spec_runs_nothing [OF unlimited_spec_valid spec x(1), of local_service accumulator_default
        "''pid-1''" None False] by (simp only: x(2))
qed

subsection \<open>Updates by the API\<close>

lemma save_execution_ok:
  "\<exists>fs1. save_execution x fs = (Inr (), fs1) \<and> bt_get fs1 (ex_execution_id x) \<noteq> None"
  by (cases "bt_get fs (ex_execution_id x)") (simp_all add: save_execution_def write_dir_def create_dir_all_def)

lemma next_status_replay:
  "next_status a s = Inr s' \<Longrightarrow> s \<notin> {ExCompleted, ExFailed, ExCanceled}
     \<and> fst (replay_event (action_event a) (x, acc)) = x\<lparr>ex_status := s'\<rparr>"
  by (cases a; cases s) auto

lemma next_status_error: "next_status a s = Inl e \<Longrightarrow> io_kind e = InvalidInput"
  by (cases a; cases s) (auto simp: invalid_input_def)

text \<open>
  C15: Pausing, resuming and canceling through the API: a terminal execution is never changed, a refused
  action is an \<open>InvalidInput\<close> error that changes nothing, and an accepted one stores the new status,
  appends exactly one event to the log, numbered next, and replaying that event gives the stored status.
\<close>

theorem status_update_effect:
  assumes "load_execution cx xid (wd_fs w) = Inr sn" and "ex_execution_id (sn_execution sn) = xid"
    and "log_ok (wd_fs w) xid" and "log_id_ok xid"
    and "update_execution_status cx xid a w = (r, w')"
  shows "case next_status a (ex_status (sn_execution sn)) of
      Inl e \<Rightarrow> r = Inl (IoErr e) \<and> w' = w \<and> io_kind e = InvalidInput
    | Inr s \<Rightarrow> ex_status (sn_execution sn) \<notin> {ExCompleted, ExFailed, ExCanceled}
        \<and> r = Inr ((sn_execution sn)\<lparr>ex_status := s\<rparr>)
        \<and> stored_execution (wd_fs w') xid = Some (execution_text ((sn_execution sn)\<lparr>ex_status := s\<rparr>))
        \<and> event_log (wd_fs w') xid = event_log (wd_fs w) xid
            @ [control_event_new xid (of_nat (length (event_log (wd_fs w) xid)) + 1) (action_event a)]
        \<and> log_ok (wd_fs w') xid
        \<and> fst (replay_event (action_event a) (sn_execution sn, sn_accumulator sn)) = (sn_execution sn)\<lparr>ex_status := s\<rparr>"
proof (cases "next_status a (ex_status (sn_execution sn))")
  case (Inl e)
  then show ?thesis
    using assms(1,5) next_status_error [OF Inl]
    by (simp add: update_execution_status_def io_bind_def store_read_def io_result_def io_return_def io_fail_def)
next
  case (Inr s)
  let ?x = "(sn_execution sn)\<lparr>ex_status := s\<rparr>"
  let ?e = "control_event_new xid (of_nat (length (event_log (wd_fs w) xid)) + 1) (action_event a)"
  obtain fs1 where save: "save_execution ?x (wd_fs w) = (Inr (), fs1)" and dir: "bt_get fs1 xid \<noteq> None"
    using save_execution_ok [of ?x "wd_fs w"] assms(2) by auto
  obtain fs2 where append: "store_append_event xid ?e fs1 = (Inr (), fs2)"
    using dir by (auto simp: store_append_event_def write_dir_def Let_def split: option.split)
  have snds: "fs1 = snd (save_execution ?x (wd_fs w))" "fs2 = snd (store_append_event xid ?e fs1)"
    using save append by simp_all
  have events: "event_log fs1 xid = event_log (wd_fs w) xid" "log_ok fs1 xid"
    using assms(3) by (simp_all add: event_log_def log_ok_def snds(1))
  have run: "r = Inr ?x \<and> w' = w\<lparr>wd_fs := fs2\<rparr>"
    using assms(1,5) Inr save append load_execution_events [OF assms(1)]
    by (simp add: update_execution_status_def io_bind_def store_read_def io_result_def io_return_def io_then_def
        save_now_def store_do_def Let_def)
  have "stored_execution fs1 xid = Some (execution_text ?x)"
    using ensuresD [OF save_now_stores [of "\<lambda>_. True" ?x], of w] save assms(2)
    by (simp add: save_now_def store_do_def)
  then have stored: "stored_execution fs2 xid = Some (execution_text ?x)" by (simp add: snds(2))
  have logged: "log_ok fs2 xid \<and> event_log fs2 xid = event_log fs1 xid @ [?e]"
    unfolding snds(2) by (rule log_append [OF events(2) assms(4) dir]) (simp add: events(1))
  have fs: "wd_fs w' = fs2" and r: "r = Inr ?x" using run by simp_all
  show ?thesis
    unfolding fs r Inr sum.case
    using next_status_replay [OF Inr] stored logged events(1) by simp
qed

definition demo_world :: "mock_runtime world" where
  "demo_world = empty_world\<lparr>wd_fs := snd (save_execution demo_execution [])\<rparr>"

lemma demo_world_load:
  "load_execution cx ''e1'' (wd_fs demo_world) = Inr \<lparr>sn_execution = demo_execution, sn_events = [],
     sn_accumulator = accumulator_default, sn_candidates = []\<rparr>"
proof -
  have "execution_fields_ok demo_execution"
    by (simp add: demo_execution_def execution_fields_ok_def execution_new_def line_safe_def line_field_def)
  note parse = parse_execution_text [OF this]
  have x: "ex_execution_id demo_execution = ''e1''" by (simp add: demo_execution_def execution_new_def)
  show ?thesis
    by (simp add: demo_world_def x parse save_execution_def create_dir_all_def write_dir_def empty_dir_def
        load_execution_def read_file_def load_candidates_def result_simps)
qed

lemma demo_world_log: "log_ok (wd_fs demo_world) xid" "event_log (wd_fs demo_world) xid = []"
  by (simp_all add: demo_world_def log_ok_def event_log_def events_file_def save_execution_def create_dir_all_def
      write_dir_def empty_dir_def demo_execution_def execution_new_def)

lemma status_update_effect_witness:
  "\<exists>w'. update_execution_status local_codec ''e1'' ActPause demo_world
      = (Inr (demo_execution\<lparr>ex_status := ExPaused\<rparr>), w')
    \<and> event_log (wd_fs w') ''e1'' = [control_event_new ''e1'' 1 ExecutionPaused]"
proof -
  obtain r w' where run: "update_execution_status local_codec ''e1'' ActPause demo_world = (r, w')" by fastforce
  have x: "ex_execution_id demo_execution = ''e1''" "ex_status demo_execution = ExRunning" "log_id_ok ''e1''"
    by (simp_all add: demo_execution_def execution_new_def log_id_ok_def line_safe_def)
  show ?thesis
    using status_update_effect [OF demo_world_load _ demo_world_log(1) x(3) run] run
    by (simp add: x demo_world_log(2))
qed

text \<open>
  Patching the policy of an execution: the stored specification changes only in the patched limits
  and is still valid; a terminal execution or a patch that would make the specification invalid is
  refused and nothing changes.
\<close>

theorem policy_patch_effect:
  assumes "load_execution cx xid (wd_fs w) = Inr sn" and "load_spec cx xid (wd_fs w) = Inr spec"
    and "spec' = spec\<lparr>es_policy := patch_policy patch (es_policy spec)\<rparr>" and "cx_spec_enc cx spec' = Inr body"
    and "patch_execution_policy cx xid patch global w = (r, w')"
  shows "(r = Inr spec' \<longleftrightarrow> ex_status (sn_execution sn) \<in> {ExPending, ExRunning, ExPaused} \<and> spec_validate spec' global = Inr ())
    \<and> (r = Inr spec' \<longrightarrow> Option.bind (bt_get (wd_fs w') xid) xd_spec = Some body)
    \<and> (r \<noteq> Inr spec' \<longrightarrow> w' = w \<and> (\<exists>e. r = Inl (IoErr e) \<and> io_kind e = InvalidInput))
    \<and> op_budget (es_policy spec') = (op_budget (es_policy spec))\<lparr>bp_max_iterations :=
         (case pp_max_iterations patch of None \<Rightarrow> bp_max_iterations (op_budget (es_policy spec)) | Some n \<Rightarrow> Some n)\<rparr>
    \<and> max_concurrent_candidates (op_concurrency (es_policy spec')) =
         (case pp_max_concurrent_candidates patch of
            None \<Rightarrow> max_concurrent_candidates (op_concurrency (es_policy spec)) | Some n \<Rightarrow> n)
    \<and> es_policy spec' = (es_policy spec)\<lparr>op_budget := op_budget (es_policy spec'),
         op_concurrency := op_concurrency (es_policy spec')\<rparr>"
proof -
  obtain d where d: "bt_get (wd_fs w) xid = Some d"
    using load_execution_exists [OF assms(1)] by auto
  have save: "\<exists>fs'. save_spec cx xid spec' (wd_fs w) = (Inr (), fs') \<and> Option.bind (bt_get fs' xid) xd_spec = Some body"
    by (simp add: save_spec_def create_dir_all_def write_dir_def d assms(4) Let_def)
  then obtain fs' where fs': "save_spec cx xid spec' (wd_fs w) = (Inr (), fs')"
    "Option.bind (bt_get fs' xid) xd_spec = Some body" by blast
  have run: "(r, w') = (if ex_status (sn_execution sn) \<in> {ExPending, ExRunning, ExPaused}
      then (case spec_validate spec' global of Inl e \<Rightarrow> (Inl (IoErr (invalid_input e)), w)
            | Inr _ \<Rightarrow> (Inr spec', w\<lparr>wd_fs := fs'\<rparr>))
      else (Inl (IoErr (invalid_input ''policy updates are only valid for pending, running, or paused executions'')), w))"
    unfolding assms(5) [symmetric] patch_execution_policy_def
    using fs'(1) by (auto simp: io_bind_def store_read_def io_result_def io_return_def io_fail_def io_then_def
        store_do_def Let_def assms(1,2,3) split: sum.split)
  have policy: "op_budget (es_policy spec') = (op_budget (es_policy spec))\<lparr>bp_max_iterations :=
         (case pp_max_iterations patch of None \<Rightarrow> bp_max_iterations (op_budget (es_policy spec)) | Some n \<Rightarrow> Some n)\<rparr>"
    "max_concurrent_candidates (op_concurrency (es_policy spec')) =
         (case pp_max_concurrent_candidates patch of
            None \<Rightarrow> max_concurrent_candidates (op_concurrency (es_policy spec)) | Some n \<Rightarrow> n)"
    "es_policy spec' = (es_policy spec)\<lparr>op_budget := op_budget (es_policy spec'),
         op_concurrency := op_concurrency (es_policy spec')\<rparr>"
    by (simp_all add: assms(3) patch_policy_def Let_def split: option.split)
  have result: "(r = Inr spec' \<longleftrightarrow> ex_status (sn_execution sn) \<in> {ExPending, ExRunning, ExPaused} \<and> spec_validate spec' global = Inr ())
    \<and> (r = Inr spec' \<longrightarrow> Option.bind (bt_get (wd_fs w') xid) xd_spec = Some body)
    \<and> (r \<noteq> Inr spec' \<longrightarrow> w' = w \<and> (\<exists>e. r = Inl (IoErr e) \<and> io_kind e = InvalidInput))"
    using run fs'(2)
    by (cases "ex_status (sn_execution sn) \<in> {ExPending, ExRunning, ExPaused}"; cases "spec_validate spec' global")
      (auto simp: invalid_input_def)
  from result policy show ?thesis by blast
qed

subsection \<open>Submission\<close>

definition log_terminated :: "store_fs \<Rightarrow> string \<Rightarrow> bool" where
  "log_terminated fs xid = (case events_file fs xid of None \<Rightarrow> True | Some s \<Rightarrow> s = [] \<or> last s = nl)"

lemma log_append_raw:
  assumes "log_terminated fs xid" "log_id_ok xid" "bt_get fs xid \<noteq> None" "ce_execution_id e = xid"
  shows "\<exists>fs'. store_append_event xid e fs = (Inr (), fs') \<and> log_terminated fs' xid
    \<and> event_log fs' xid = event_log fs xid @ [e] \<and> bt_get fs' xid \<noteq> None
    \<and> stored_execution fs' xid = stored_execution fs xid"
proof -
  define s where "s = (case events_file fs xid of None \<Rightarrow> [] | Some s \<Rightarrow> s)"
  have s: "s = [] \<or> last s = nl" "event_log fs xid = parse_events s"
    using assms(1) by (auto simp: log_terminated_def s_def event_log_def parse_events_def split: option.splits)
  let ?fs' = "snd (store_append_event xid e fs)"
  have evf: "events_file ?fs' xid = Some (s @ event_line e)"
    using assms(3) by (simp add: events_append s_def)
  have log: "event_log ?fs' xid = event_log fs xid @ [e]"
    using parse_events_append [OF s(1)] assms(2,4) by (subst event_log_def) (simp add: evf s(2))
  have "last (s @ event_line e) = nl" by (simp add: event_line_def)
  then have ended: "log_terminated ?fs' xid" by (simp add: log_terminated_def evf)
  have ok: "fst (store_append_event xid e fs) = Inr ()" "bt_get ?fs' xid \<noteq> None"
    using assms(3) by (auto simp: store_append_event_def write_dir_def Let_def split: option.split)
  show ?thesis
    by (rule exI [of _ ?fs']) (simp add: log ended ok prod_eq_iff)
qed

lemma log_ok_two_more:
  assumes "log_ok fs xid" "length (event_log fs xid) < 2 ^ 64" "log_terminated fs' xid"
    and "event_log fs' xid = event_log fs xid @ [control_event_new xid 1 t, control_event_new xid 2 u]"
  shows "log_ok fs' xid = (event_log fs xid = [])"
proof -
  let ?n = "length (event_log fs xid)"
  have up: "seq_upto (Suc (Suc ?n)) = seq_upto ?n @ [of_nat ?n + 1, of_nat ?n + 2]"
    by (simp add: seq_upto_Suc)
  have log: "log_ok fs' xid = (map ce_seq (event_log fs' xid) = seq_upto (length (event_log fs' xid)))"
    using assms(1,3) by (auto simp: log_ok_def log_terminated_def assms(4) control_event_new_def)
  have n: "unat (of_nat ?n :: u64) = ?n" using assms(2) by (simp add: unat_of_nat)
  have "of_nat ?n = (0 :: u64) \<longleftrightarrow> ?n = 0" unfolding unat_eq_zero [symmetric] n by simp
  with assms(1) show ?thesis
    unfolding log assms(4) by (auto simp: up log_ok_def control_event_new_def)
qed

text \<open>
  A submitted execution is stored as pending with its specification and a log of two events, when
  its id is new. Submitting an id a second time resets the stored execution to pending, keeps the old
  events and appends events numbered 1 and 2 again, so that the log is no longer contiguous.
\<close>

theorem submission_effect:
  assumes "log_id_ok xid" and "cx_spec_enc cx spec = Inr body" and "log_ok (wd_fs w) xid"
    and "length (event_log (wd_fs w) xid) < 2 ^ 64" and "submit_execution cx xid spec w = (r, w')"
  shows "r = Inr (execution_new xid (es_mode spec) (es_goal spec))
    \<and> stored_execution (wd_fs w') xid = Some (execution_text (execution_new xid (es_mode spec) (es_goal spec)))
    \<and> event_log (wd_fs w') xid = event_log (wd_fs w) xid
        @ [control_event_new xid 1 ExecutionCreated, control_event_new xid 2 ExecutionSubmitted]
    \<and> log_ok (wd_fs w') xid = (event_log (wd_fs w) xid = [])"
proof -
  let ?x = "execution_new xid (es_mode spec) (es_goal spec)"
  have xid: "ex_execution_id ?x = xid" by (simp add: execution_new_def)
  obtain fs1 where create: "create_execution ?x (wd_fs w) = (Inr (), fs1)" and dir: "bt_get fs1 xid \<noteq> None"
    using save_execution_ok [of ?x "create_dir_all xid (wd_fs w)"] by (auto simp: create_execution_def xid)
  have fs1: "fs1 = snd (create_execution ?x (wd_fs w))" by (simp add: create)
  have stored: "stored_execution fs1 xid = Some (execution_text ?x)"
    using create by (auto simp: create_execution_def save_execution_def write_dir_def stored_execution_def xid
        split: option.splits)
  have events: "event_log fs1 xid = event_log (wd_fs w) xid" "log_terminated fs1 xid"
    using assms(3) by (simp_all add: event_log_def log_ok_def log_terminated_def fs1)
  from log_append_raw [OF events(2) assms(1) dir, of "control_event_new xid 1 ExecutionCreated"]
  obtain fs2 where fs2: "store_append_event xid (control_event_new xid 1 ExecutionCreated) fs1 = (Inr (), fs2)"
    "log_terminated fs2 xid" "event_log fs2 xid = event_log fs1 xid @ [control_event_new xid 1 ExecutionCreated]"
    "bt_get fs2 xid \<noteq> None" "stored_execution fs2 xid = stored_execution fs1 xid"
    by (auto simp: control_event_new_def)
  from log_append_raw [OF fs2(2) assms(1) fs2(4), of "control_event_new xid 2 ExecutionSubmitted"]
  obtain fs3 where fs3: "store_append_event xid (control_event_new xid 2 ExecutionSubmitted) fs2 = (Inr (), fs3)"
    "log_terminated fs3 xid" "event_log fs3 xid = event_log fs2 xid @ [control_event_new xid 2 ExecutionSubmitted]"
    "bt_get fs3 xid \<noteq> None" "stored_execution fs3 xid = stored_execution fs2 xid"
    by (auto simp: control_event_new_def)
  obtain fs4 where fs4: "save_spec cx xid spec fs3 = (Inr (), fs4)" "stored_execution fs4 xid = stored_execution fs3 xid"
    using fs3(4) assms(2)
    by (auto simp: save_spec_def create_dir_all_def write_dir_def stored_execution_def split: option.splits)
  have ev4: "events_file fs4 xid = events_file fs3 xid"
    using events_frame(8) [of cx xid spec fs3 xid] by (simp add: fs4(1))
  have run: "(r, w') = (Inr ?x, w\<lparr>wd_fs := fs4\<rparr>)"
    unfolding assms(5) [symmetric] submit_execution_def
    by (simp add: io_then_def io_bind_def store_do_def create fs2(1) fs3(1) fs4(1) io_return_def Let_def)
  have log: "event_log fs4 xid = event_log (wd_fs w) xid
      @ [control_event_new xid 1 ExecutionCreated, control_event_new xid 2 ExecutionSubmitted]"
    using fs3(3) fs2(3) events(1) ev4 by (simp add: event_log_def)
  have ended: "log_terminated fs4 xid" using fs3(2) ev4 by (simp add: log_terminated_def)
  show ?thesis
    using run log log_ok_two_more [OF assms(3,4) ended log] stored fs2(5) fs3(5) fs4(2) by simp
qed

definition plain_codec :: codec where
  "plain_codec = local_codec\<lparr>cx_spec_enc := (\<lambda>_. Inr ''spec''), cx_spec_dec := (\<lambda>_. Inr sample_spec)\<rparr>"

definition demo_patch :: policy_patch where
  "demo_patch = \<lparr>pp_max_iterations = Some 3, pp_max_concurrent_candidates = None\<rparr>"

definition patched_spec :: execution_spec where
  "patched_spec = sample_spec\<lparr>es_policy := patch_policy demo_patch (es_policy sample_spec)\<rparr>"

definition patch_world :: "mock_runtime world" where
  "patch_world = demo_world\<lparr>wd_fs := snd (save_spec plain_codec ''e1'' sample_spec (wd_fs demo_world))\<rparr>"

lemma policy_patch_effect_witness:
  "\<exists>w'. patch_execution_policy plain_codec ''e1'' demo_patch \<lparr>max_concurrent_child_runs = 4\<rparr> patch_world
     = (Inr patched_spec, w')"
proof -
  let ?g = "\<lparr>max_concurrent_child_runs = 4\<rparr>"
  have "execution_fields_ok demo_execution"
    by (simp add: demo_execution_def execution_fields_ok_def execution_new_def line_safe_def line_field_def)
  note parse = parse_execution_text [OF this]
  have x: "ex_execution_id demo_execution = ''e1''" "ex_status demo_execution = ExRunning"
    by (simp_all add: demo_execution_def execution_new_def)
  have load: "load_execution plain_codec ''e1'' (wd_fs patch_world) = Inr \<lparr>sn_execution = demo_execution,
      sn_events = [], sn_accumulator = accumulator_default, sn_candidates = []\<rparr>"
    by (simp add: patch_world_def demo_world_def x parse save_execution_def create_dir_all_def write_dir_def
        empty_dir_def load_execution_def read_file_def load_candidates_def result_simps save_spec_def plain_codec_def)
  have spec: "load_spec plain_codec ''e1'' (wd_fs patch_world) = Inr sample_spec"
    by (simp add: patch_world_def demo_world_def x save_execution_def create_dir_all_def write_dir_def
        empty_dir_def load_spec_def read_file_def result_simps save_spec_def plain_codec_def)
  have enc: "cx_spec_enc plain_codec patched_spec = Inr ''spec''" by (simp add: plain_codec_def)
  have valid: "spec_validate patched_spec ?g = Inr ()"
    by (simp add: patched_spec_def demo_patch_def patch_policy_def spec_validate_iff spec_ok_def sample_spec_def
        supervision_ok_def policy_ok_def convergence_ok_def policy_default_def budget_default_def
        concurrency_default_def convergence_default_def variation_explicit_def known_variation_source_def
        trim_def is_ws_def)
  obtain r w' where run: "patch_execution_policy plain_codec ''e1'' demo_patch ?g patch_world = (r, w')" by fastforce
  have "r = Inr patched_spec"
    using policy_patch_effect [OF load spec patched_spec_def enc run] valid x(2) by simp
  with run show ?thesis by blast
qed

lemma submission_effect_witness:
  "\<exists>w'. submit_execution plain_codec ''e1'' sample_spec demo_world = (Inr (execution_new ''e1'' ''swarm'' ''g''), w')
    \<and> log_ok (wd_fs w') ''e1''"
proof -
  obtain r w' where run: "submit_execution plain_codec ''e1'' sample_spec demo_world = (r, w')" by fastforce
  have "log_id_ok ''e1''" "cx_spec_enc plain_codec sample_spec = Inr ''spec''"
    by (simp_all add: log_id_ok_def line_safe_def plain_codec_def)
  from submission_effect [OF this demo_world_log(1) _ run] run show ?thesis
    by (simp add: demo_world_log(2) sample_spec_def)
qed

end
