(* ===== verification/Worker.thy ===== *)
theory Worker
  imports Service_Props Scheduler
begin

text \<open>
  The background worker (\<open>process_pending_executions_once\<close> of \<open>src/bridge.rs\<close>) and the reload of active
  executions (\<open>src/orchestration/reconcile.rs\<close>). One tick plans every pending or running execution,
  builds a scheduler from what is on disk, dispatches executions that only have running candidates, and
  then follows the scheduler's grants. Lemmas: the loop over the grants ends and leaves nothing to grant,
  a tick keeps the event logs, what registering from disk does to the slots, what is reloaded.
\<close>

subsection \<open>Reloading\<close>

definition reload_active_executions :: "codec \<Rightarrow> store_fs \<Rightarrow> io_error + execution_snapshot list" where
  "reload_active_executions cx fs =
     res_bind (list_active_execution_ids cx fs) (res_map (\<lambda>xid. load_execution cx xid fs))"

definition is_queued :: "execution_candidate \<Rightarrow> bool" where
  "is_queued c = (ca_status c = CaQueued)"

definition reload_queued_candidates :: "codec \<Rightarrow> store_fs \<Rightarrow> io_error + execution_candidate list" where
  "reload_queued_candidates cx fs =
     map_ok (\<lambda>sns. sort_key ca_created_seq
         (concat (map (\<lambda>sn. if ex_status (sn_execution sn) = ExPaused then []
            else filter is_queued (sn_candidates sn)) sns)))
       (reload_active_executions cx fs)"

subsection \<open>A tick of the worker\<close>

text \<open>The kinds of error a tick passes over.\<close>

definition tolerated :: "io_error \<Rightarrow> bool" where
  "tolerated e = (io_kind e = WouldBlock \<or> io_kind e = InvalidInput)"

definition io_tolerate :: "('w, 'a) io \<Rightarrow> ('w, unit) io" where
  "io_tolerate m = io_bind (io_attempt m) (\<lambda>r. case r of
     Inr _ \<Rightarrow> io_return () | Inl e \<Rightarrow> if tolerated e then io_return () else io_fail e)"

fun io_fold :: "('a \<Rightarrow> 's \<Rightarrow> ('w, 's) io) \<Rightarrow> 'a list \<Rightarrow> 's \<Rightarrow> ('w, 's) io" where
  "io_fold f [] s = io_return s"
| "io_fold f (x # xs) s = io_bind (f x s) (io_fold f xs)"

text \<open>\<open>ExecutionService::new\<close>: no delivery adapter, and the counters of ids start at 1.\<close>

definition new_service :: "'e service \<Rightarrow> 'e service" where
  "new_service sv = sv\<lparr>svc_delivery_adapter := None\<rparr>"

definition new_counters :: "('e world, unit) io" where
  "new_counters = io_modify (\<lambda>w. w\<lparr>wd_next_execution_id := 1, wd_next_candidate_id := 1\<rparr>)"

definition plan_active :: "'e service \<Rightarrow> string \<Rightarrow> ('e world, unit) io" where
  "plan_active sv xid =
     io_bind (load_snapshot sv xid) (\<lambda>sn.
       if ex_status (sn_execution sn) = ExPending \<or> ex_status (sn_execution sn) = ExRunning
       then io_tolerate (plan_execution sv xid) else io_return ())"

definition running_count :: "execution_snapshot \<Rightarrow> usize" where
  "running_count sn = of_nat (length (filter (\<lambda>c. ca_status c = CaRunning) (sn_candidates sn)))"

definition register_snapshot ::
    "string \<Rightarrow> execution_snapshot \<Rightarrow> execution_spec \<Rightarrow> global_scheduler \<Rightarrow> global_scheduler" where
  "register_snapshot xid sn spec =
     register_execution xid (ex_status (sn_execution sn) = ExPaused) (running_count sn)
       (ucast (max_concurrent_candidates (op_concurrency (es_policy spec))))"

definition enqueue_snapshot :: "string \<Rightarrow> execution_snapshot \<Rightarrow> global_scheduler \<Rightarrow> global_scheduler" where
  "enqueue_snapshot xid sn =
     fold (\<lambda>c. enqueue (queued_candidate_new xid (ca_candidate_id c) (ca_created_seq c)))
       (filter is_queued (sn_candidates sn))"

definition schedule_snapshot ::
    "string \<Rightarrow> execution_snapshot \<Rightarrow> execution_spec \<Rightarrow> global_scheduler \<times> string list
     \<Rightarrow> global_scheduler \<times> string list" where
  "schedule_snapshot xid sn spec = (\<lambda>(s, running_only).
     (enqueue_snapshot xid sn (register_snapshot xid sn spec s),
      if filter is_queued (sn_candidates sn) = [] \<and> ex_status (sn_execution sn) = ExRunning
      then running_only @ [xid] else running_only))"

text \<open>The specification of an execution, if there is one.\<close>

definition spec_if_any :: "'e service \<Rightarrow> string \<Rightarrow> ('e world, execution_spec option) io" where
  "spec_if_any sv xid =
     io_bind (io_attempt (store_read (load_spec (svc_codec sv) xid))) (\<lambda>r. case r of
       Inr spec \<Rightarrow> io_return (Some spec)
     | Inl e \<Rightarrow> if io_kind e = NotFound then io_return None else io_fail e)"

definition schedule_execution ::
    "'e service \<Rightarrow> string \<Rightarrow> global_scheduler \<times> string list
     \<Rightarrow> ('e world, global_scheduler \<times> string list) io" where
  "schedule_execution sv xid st =
     io_bind (load_snapshot sv xid) (\<lambda>sn.
       if ex_status (sn_execution sn) \<noteq> ExRunning \<and> ex_status (sn_execution sn) \<noteq> ExPaused
       then io_return st
       else io_bind (spec_if_any sv xid) (\<lambda>spec. case spec of
              None \<Rightarrow> io_return st
            | Some spec \<Rightarrow> io_return (schedule_snapshot xid sn spec st)))"

definition dispatch_granted ::
    "'e service \<Rightarrow> dispatch_grant \<Rightarrow> global_scheduler \<Rightarrow> ('e world, global_scheduler) io" where
  "dispatch_granted sv g s =
     io_then (io_tolerate (bridge_dispatch_execution_once sv (dg_execution_id g)))
     (io_bind (load_snapshot sv (dg_execution_id g)) (\<lambda>sn.
      io_bind (spec_if_any sv (dg_execution_id g)) (\<lambda>spec. case spec of
        None \<Rightarrow> io_return s
      | Some spec \<Rightarrow> io_return (register_snapshot (dg_execution_id g) sn spec s))))"

text \<open>The loop over the grants, with fuel; \<open>None\<close> means that the fuel did not suffice.\<close>

fun dispatch_rounds :: "'e service \<Rightarrow> nat \<Rightarrow> global_scheduler \<Rightarrow> ('e world, global_scheduler option) io" where
  "dispatch_rounds sv 0 s = io_return None"
| "dispatch_rounds sv (Suc n) s =
     (case next_dispatch s of
        (None, s') \<Rightarrow> io_return (Some s')
      | (Some g, s') \<Rightarrow> io_bind (dispatch_granted sv g (mark_running g s')) (dispatch_rounds sv n))"

definition process_pending_executions_once :: "'e service \<Rightarrow> ('e world, unit) io" where
  "process_pending_executions_once sv0 =
     (let sv = new_service sv0 in
      io_then new_counters
      (io_bind (store_read list_execution_ids) (\<lambda>ids.
       io_then (io_for ids (plan_active sv))
       (io_bind (io_fold (schedule_execution sv) ids
                  (scheduler_new (ucast (max_concurrent_child_runs (svc_global sv))), [])) (\<lambda>(s, running_only).
        io_then (io_for running_only (\<lambda>xid. io_tolerate (bridge_dispatch_execution_once sv xid)))
        (io_bind (dispatch_rounds sv (Suc (total_queued s)) s) (\<lambda>_. io_return ())))))))"

subsection \<open>The tick keeps what the operations keep\<close>

lemma keeps_tolerate: "keeps P m \<Longrightarrow> keeps P (io_tolerate m)"
  unfolding io_tolerate_def by (intro keeps_rules)

lemma keeps_fold: "(\<And>x s. keeps P (f x s)) \<Longrightarrow> keeps P (io_fold f xs s)"
  by (induction xs arbitrary: s) (auto intro: keeps_rules)

lemma keeps_spec_if_any: "keeps P (spec_if_any sv xid)"
  unfolding spec_if_any_def by (intro keeps_rules)

lemma keeps_schedule: "keeps P (schedule_execution sv xid st)"
  unfolding schedule_execution_def by (intro keeps_rules keeps_load_snapshot keeps_spec_if_any)

context service_contract
begin

lemma keeps_plan_active: "keeps P (plan_active sv xid)"
  unfolding plan_active_def by (intro keeps_rules keeps_load_snapshot keeps_tolerate keeps_entry_points)

lemma keeps_granted: "keeps P (dispatch_granted sv g s)"
  unfolding dispatch_granted_def
  by (intro keeps_rules keeps_load_snapshot keeps_tolerate keeps_entry_points keeps_spec_if_any)

lemma keeps_rounds: "keeps P (dispatch_rounds sv n s)"
  by (induction n arbitrary: s) (auto split: prod.split option.split intro!: keeps_bind keeps_return keeps_granted)

lemma keeps_new_counters: "keeps P new_counters"
  unfolding new_counters_def
proof (rule keeps_modify)
  fix w
  assume "P w"
  from candidate_id [OF execution_id [OF this]]
  show "P (w\<lparr>wd_next_execution_id := 1, wd_next_candidate_id := 1\<rparr>)" by simp
qed

lemma keeps_tick: "new_service sv = sv \<Longrightarrow> keeps P (process_pending_executions_once sv)"
  unfolding process_pending_executions_once_def Let_def
  by (auto simp del: dispatch_rounds.simps intro!: keeps_rules keeps_new_counters keeps_plan_active keeps_fold keeps_schedule keeps_tolerate
      keeps_entry_points keeps_rounds)

end

lemma new_service_idem [simp]: "new_service (new_service sv) = new_service sv"
  by (simp add: new_service_def)

lemma tick_new_service: "process_pending_executions_once (new_service sv) = process_pending_executions_once sv"
  by (simp add: process_pending_executions_once_def new_service_def)

lemma log_runtime_new_service: "log_runtime sv \<Longrightarrow> log_runtime (new_service sv)"
  by (simp add: log_runtime_def runtime_contract_def new_service_def)

subsection \<open>The loop over the grants\<close>

lemma register_snapshot_queued:
  "bt_wf (gs_executions s) \<Longrightarrow> total_queued (register_snapshot xid sn spec s) = total_queued s
     \<and> bt_wf (gs_executions (register_snapshot xid sn spec s))"
  by (simp add: register_snapshot_def register_queued)

lemma dispatch_granted_queued:
  assumes "bt_wf (gs_executions s)" "dispatch_granted sv g s w = (Inr t, w')"
  shows "bt_wf (gs_executions t) \<and> total_queued t = total_queued s"
proof -
  have "ensures (\<lambda>_. True) (dispatch_granted sv g s)
      (\<lambda>t _. bt_wf (gs_executions t) \<and> total_queued t = total_queued s)"
    unfolding dispatch_granted_def
    using assms(1) register_snapshot_queued [OF assms(1)]
    by (intro ensures_then ensures_bind) (auto split: option.split intro: ensures_return)
  from ensuresD [OF this _ assms(2)] show ?thesis by simp
qed

lemma rounds_end:
  assumes "bt_wf (gs_executions s)" "total_queued s < n"
  shows "(\<forall>m \<ge> n. dispatch_rounds sv m s w = dispatch_rounds sv n s w)
    \<and> (\<forall>r w'. dispatch_rounds sv n s w = (Inr r, w') \<longrightarrow>
         (\<exists>t. r = Some t \<and> bt_wf (gs_executions t) \<and> next_dispatch t = (None, t)))"
  using assms
proof (induction n arbitrary: s w)
  case 0
  then show ?case by simp
next
  case (Suc n)
  obtain r s' where nd: "next_dispatch s = (r, s')" by fastforce
  have more: "\<exists>m'. m = Suc m' \<and> n \<le> m'" if "Suc n \<le> m" for m using that by (cases m) auto
  show ?case
  proof (cases r)
    case None
    with nd next_dispatch_None [of s s'] Suc.prems(1) show ?thesis
      by (auto simp: io_return_def dest!: more)
  next
    case (Some g)
    let ?s = "mark_running g s'"
    have wf: "bt_wf (gs_executions ?s)" and less: "total_queued ?s < n"
      using next_dispatch_left [OF Suc.prems(1) nd] mark_running_queued [of s' g] Some Suc.prems(2) by auto
    obtain x w1 where g: "dispatch_granted sv g ?s w = (x, w1)" by fastforce
    have run: "dispatch_rounds sv (Suc m) s w = (case x of Inl e \<Rightarrow> (Inl e, w1) | Inr t \<Rightarrow> dispatch_rounds sv m t w1)"
      for m by (simp add: nd Some io_bind_def g)
    show ?thesis
    proof (cases x)
      case (Inl e)
      with run show ?thesis by (auto dest!: more)
    next
      case (Inr t)
      from dispatch_granted_queued [OF wf g [unfolded Inr]] less
      have t: "bt_wf (gs_executions t)" "total_queued t < n" by auto
      have runs: "dispatch_rounds sv (Suc m) s w = dispatch_rounds sv m t w1" for m
        using run [of m] Inr by simp
      note rec = Suc.IH [OF t, of w1]
      have "dispatch_rounds sv m s w = dispatch_rounds sv (Suc n) s w" if m: "Suc n \<le> m" for m
      proof -
        obtain m' where m': "m = Suc m'" "n \<le> m'" using more [OF m] by blast
        have "dispatch_rounds sv m' t w1 = dispatch_rounds sv n t w1" using rec m'(2) by blast
        then show ?thesis unfolding m'(1) runs .
      qed
      with rec show ?thesis unfolding runs by blast
    qed
  qed
qed

subsection \<open>The scheduler built from the store\<close>

text \<open>What is scheduled of one execution: its snapshot and its specification.\<close>

definition schedulable ::
    "codec \<Rightarrow> store_fs \<Rightarrow> string \<Rightarrow> (string \<times> execution_snapshot \<times> execution_spec) option" where
  "schedulable cx fs xid = (case load_execution cx xid fs of
     Inl _ \<Rightarrow> None
   | Inr sn \<Rightarrow> if ex_status (sn_execution sn) = ExRunning \<or> ex_status (sn_execution sn) = ExPaused
       then (case load_spec cx xid fs of Inl _ \<Rightarrow> None | Inr spec \<Rightarrow> Some (xid, sn, spec)) else None)"

definition schedule_all ::
    "(string \<times> execution_snapshot \<times> execution_spec) list \<Rightarrow> global_scheduler \<times> string list
     \<Rightarrow> global_scheduler \<times> string list" where
  "schedule_all = fold (\<lambda>(xid, sn, spec). schedule_snapshot xid sn spec)"

lemma schedule_execution_run:
  assumes "schedule_execution sv xid st w = (Inr st', w')"
  shows "w' = w \<and> st' = (case schedulable (svc_codec sv) (wd_fs w) xid of
      None \<Rightarrow> st | Some (y, sn, spec) \<Rightarrow> schedule_snapshot y sn spec st)"
  using assms
  by (auto simp: schedule_execution_def schedulable_def load_snapshot_def spec_if_any_def io_bind_def
      store_read_def io_attempt_def io_result_def io_fail_def io_return_def split: sum.splits if_splits)

lemma schedule_execution_of:
  "schedulable (svc_codec sv) (wd_fs w) xid = Some (y, sn, spec)
    \<Longrightarrow> schedule_execution sv xid st w = (Inr (schedule_snapshot y sn spec st), w)"
  by (auto simp: schedule_execution_def schedulable_def load_snapshot_def spec_if_any_def io_bind_def
      store_read_def io_attempt_def io_result_def io_fail_def io_return_def split: sum.splits if_splits)

lemma schedule_pass:
  assumes "io_fold (schedule_execution sv) ids st w = (Inr st', w')"
  shows "w' = w \<and> st' = schedule_all (List.map_filter (schedulable (svc_codec sv) (wd_fs w)) ids) st"
  using assms
proof (induction ids arbitrary: st)
  case Nil
  then show ?case by (simp add: io_return_def schedule_all_def List.map_filter_simps)
next
  case (Cons xid ids)
  from Cons.prems obtain st1 w1 where s: "schedule_execution sv xid st w = (Inr st1, w1)"
    "io_fold (schedule_execution sv) ids st1 w1 = (Inr st', w')"
    by (auto simp: io_bind_eq_Inr)
  from schedule_execution_run [OF s(1)] Cons.IH [of st1] s(2) show ?case
    by (auto simp: schedule_all_def List.map_filter_simps split: option.splits)
qed

lemma enqueue_snapshot_facts:
  "gs_active_slots (enqueue_snapshot xid sn s) = gs_active_slots s
   \<and> fst ` set (gs_executions s) \<subseteq> fst ` set (gs_executions (enqueue_snapshot xid sn s))
   \<and> fst ` set (gs_executions (enqueue_snapshot xid sn s)) \<subseteq> insert xid (fst ` set (gs_executions s))
   \<and> (bt_wf (gs_executions s) \<longrightarrow> bt_wf (gs_executions (enqueue_snapshot xid sn s))
        \<and> total_running (enqueue_snapshot xid sn s) = total_running s)"
proof -
  have step: "gs_active_slots (enqueue c s) = gs_active_slots s
      \<and> fst ` set (gs_executions (enqueue c s)) = insert (qc_execution_id c) (fst ` set (gs_executions s))
      \<and> (bt_wf (gs_executions s) \<longrightarrow> bt_wf (gs_executions (enqueue c s)) \<and> total_running (enqueue c s) = total_running s)"
    for c and s :: global_scheduler
  proof (cases "bt_get (gs_executions s) (qc_execution_id c)")
    case (Some q)
    then show ?thesis
      using total_set_queue_old(1) [of s "qc_execution_id c" q "q\<lparr>eq_queued := eq_queued q @ [c]\<rparr>"]
      by (auto simp: enqueue_def queue_or_def Let_def)
  qed (auto simp: enqueue_def queue_or_def Let_def total_set_queue_new)
  have "gs_active_slots (fold (\<lambda>c. enqueue (f c)) cs s) = gs_active_slots s
     \<and> fst ` set (gs_executions s) \<subseteq> fst ` set (gs_executions (fold (\<lambda>c. enqueue (f c)) cs s))
     \<and> fst ` set (gs_executions (fold (\<lambda>c. enqueue (f c)) cs s)) \<subseteq> insert xid (fst ` set (gs_executions s))
     \<and> (bt_wf (gs_executions s) \<longrightarrow> bt_wf (gs_executions (fold (\<lambda>c. enqueue (f c)) cs s))
          \<and> total_running (fold (\<lambda>c. enqueue (f c)) cs s) = total_running s)"
    if f: "\<And>c. qc_execution_id (f c) = xid" for f and cs :: "execution_candidate list" and s
  proof (induction cs arbitrary: s)
    case (Cons c cs)
    from Cons.IH [of "enqueue (f c) s"] step [of "f c" s] f [of c] show ?case by auto
  qed auto
  then show ?thesis by (simp add: enqueue_snapshot_def queued_candidate_new_def)
qed

lemma schedule_snapshot_slots:
  assumes "bt_wf (gs_executions s)" "xid \<notin> fst ` set (gs_executions s)"
  shows "unat (gs_active_slots (fst (schedule_snapshot xid sn spec (s, ro))))
      = max (unat (gs_active_slots s)) (unat (running_count sn))
    \<and> total_running (fst (schedule_snapshot xid sn spec (s, ro))) = total_running s + unat (running_count sn)
    \<and> bt_wf (gs_executions (fst (schedule_snapshot xid sn spec (s, ro))))
    \<and> fst ` set (gs_executions (fst (schedule_snapshot xid sn spec (s, ro)))) = insert xid (fst ` set (gs_executions s))"
proof -
  let ?r = "register_snapshot xid sn spec s"
  have none: "bt_get (gs_executions s) xid = None" using assms(2) by (simp add: bt_get_None_iff)
  have keys: "fst ` set (gs_executions ?r) = insert xid (fst ` set (gs_executions s))"
    by (simp add: register_snapshot_def register_execution_def Let_def)
  have "unat (gs_active_slots ?r) = max (unat (gs_active_slots s)) (unat (running_count sn))"
    "total_running ?r = total_running s + unat (running_count sn)"
    using register_fresh_slots [OF none] by (simp_all add: register_snapshot_def active_slots_def)
  moreover note register_snapshot_queued [OF assms(1)] enqueue_snapshot_facts [of xid sn ?r] keys
  ultimately show ?thesis by (simp add: schedule_snapshot_def) blast
qed

lemma schedule_all_slots:
  assumes "bt_wf (gs_executions s)" "distinct (map fst xs)" "fst ` set xs \<inter> fst ` set (gs_executions s) = {}"
  shows "unat (gs_active_slots (fst (schedule_all xs (s, ro))))
      = fold (\<lambda>(_, sn, _). max (unat (running_count sn))) xs (unat (gs_active_slots s))
    \<and> total_running (fst (schedule_all xs (s, ro)))
      = total_running s + sum_list (map (\<lambda>(_, sn, _). unat (running_count sn)) xs)
    \<and> bt_wf (gs_executions (fst (schedule_all xs (s, ro))))"
  using assms
proof (induction xs arbitrary: s ro)
  case Nil
  then show ?case by (simp add: schedule_all_def)
next
  case (Cons x xs)
  obtain xid sn spec where x: "x = (xid, sn, spec)" by (cases x) auto
  obtain s1 ro1 where s1: "schedule_snapshot xid sn spec (s, ro) = (s1, ro1)" by fastforce
  have "xid \<notin> fst ` set (gs_executions s)" using Cons.prems(3) x by auto
  from schedule_snapshot_slots [OF Cons.prems(1) this, of sn spec ro] s1
  have f: "unat (gs_active_slots s1) = max (unat (gs_active_slots s)) (unat (running_count sn))"
    "total_running s1 = total_running s + unat (running_count sn)" "bt_wf (gs_executions s1)"
    "fst ` set (gs_executions s1) = insert xid (fst ` set (gs_executions s))" by auto
  have "fst ` set xs \<inter> fst ` set (gs_executions s1) = {}" "distinct (map fst xs)"
    using Cons.prems(2,3) x f(4) by auto
  from Cons.IH [OF f(3) this(2,1), of ro1] show ?case
    using x s1 f(1,2) by (simp add: schedule_all_def max.commute)
qed

lemma res_map_set: "res_map f xs = Inr ys \<Longrightarrow> set ys = {y. \<exists>x \<in> set xs. f x = Inr y}"
  by (induction xs arbitrary: ys) (auto simp: result_simps)

lemma map_fst_map_filter:
  "(\<And>i x. f i = Some x \<Longrightarrow> fst x = i) \<Longrightarrow> map fst (List.map_filter f ids) = filter (\<lambda>i. f i \<noteq> None) ids"
  by (induction ids) (auto simp: List.map_filter_simps split: option.splits)

lemma active_ids_set:
  assumes "list_active_execution_ids cx fs = Inr ids"
  shows "set ids = {xid \<in> fst ` set fs. \<exists>sn. load_execution cx xid fs = Inr sn
      \<and> ex_status (sn_execution sn) \<in> {ExPending, ExRunning, ExPaused}}"
proof -
  let ?f = "\<lambda>xid. map_ok (\<lambda>sn. if ex_status (sn_execution sn) \<in> {ExPending, ExRunning, ExPaused}
            then Some xid else None) (load_execution cx xid fs)"
  obtain rs where rs: "res_map ?f (sort (map fst fs)) = Inr rs" "ids = List.map_filter (\<lambda>r. r) rs"
    using assms by (auto simp: list_active_execution_ids_def list_execution_ids_def map_ok_Inr_iff)
  have "set ids = {xid. Some xid \<in> set rs}"
    by (auto simp: rs(2) List.map_filter_def intro!: image_eqI [where x = "Some _"])
  also have "\<dots> = {xid. \<exists>y \<in> fst ` set fs. ?f y = Inr (Some xid)}"
    using res_map_set [OF rs(1)] by simp
  finally show ?thesis by (auto simp: map_ok_Inr_iff split: if_splits)
qed

subsection \<open>Properties\<close>

text \<open>
  A tick of the worker keeps every event log contiguous, whatever it plans, dispatches or passes over,
  and also when it ends with an error.
\<close>

theorem worker_tick_keeps_logs:
  assumes "log_runtime sv" and "logs_ok w"
  shows "logs_ok (snd (process_pending_executions_once sv w))"
  using service_contract.keeps_tick [OF log_runtime.log_service [OF log_runtime_new_service [OF assms(1)]]]
    assms(2) by (simp add: tick_new_service keeps_def)

lemma worker_tick_keeps_logs_witness: "logs_ok (snd (process_pending_executions_once local_service demo_world))"
proof (rule worker_tick_keeps_logs [OF local_service_log_runtime])
  show "logs_ok demo_world" by (simp add: logs_ok_def demo_world_log)
qed

text \<open>
  C10: The worker's loop over the grants ends: one round more than there are queued candidates is enough
  fuel, more fuel changes nothing, and when no error occurs the loop leaves a scheduler that has nothing
  to grant.
\<close>

theorem worker_rounds_terminate:
  assumes "bt_wf (gs_executions s)" and "total_queued s < n"
  shows "dispatch_rounds sv n s w = dispatch_rounds sv (Suc (total_queued s)) s w
    \<and> (case fst (dispatch_rounds sv n s w) of Inl _ \<Rightarrow> True | Inr None \<Rightarrow> False
       | Inr (Some t) \<Rightarrow> next_dispatch t = (None, t))"
proof -
  have "Suc (total_queued s) \<le> n" using assms(2) by simp
  with rounds_end [OF assms(1) lessI, of sv w] have eq:
    "dispatch_rounds sv n s w = dispatch_rounds sv (Suc (total_queued s)) s w" by blast
  obtain r w' where run: "dispatch_rounds sv n s w = (r, w')" by fastforce
  have res: "\<exists>t. v = Some t \<and> next_dispatch t = (None, t)" if "r = Inr v" for v
    using rounds_end [OF assms, of sv w] run that by blast
  have "case r of Inl _ \<Rightarrow> True | Inr None \<Rightarrow> False | Inr (Some t) \<Rightarrow> next_dispatch t = (None, t)"
    by (cases r) (auto dest: res)
  moreover have "fst (dispatch_rounds sv n s w) = r" by (simp only: run fst_conv)
  ultimately show ?thesis using eq by (simp only: simp_thms)
qed

lemma worker_rounds_terminate_witness:
  "total_queued two_queues = 3
   \<and> dispatch_rounds local_service 9 two_queues demo_world = dispatch_rounds local_service 4 two_queues demo_world"
proof -
  have "total_queued two_queues = 3"
    by (simp add: two_queues_def total_queued_def enqueue_def queue_or_def set_queue_def scheduler_new_def
        queued_candidate_new_def Let_def)
  with worker_rounds_terminate [OF two_queues_wf, of 9 local_service demo_world] show ?thesis by simp
qed

text \<open>
  The scheduler a tick builds from the store counts too few active slots: it takes the largest number
  of running candidates of any one execution instead of their sum. So with several executions running the
  worker grants candidates beyond the global limit.
\<close>

theorem worker_undercounts_slots:
  assumes "distinct ids"
    and "io_fold (schedule_execution sv) ids (scheduler_new n, []) w = (Inr (s, running_only), w')"
  defines "xs \<equiv> List.map_filter (schedulable (svc_codec sv) (wd_fs w)) ids"
  shows "unat (active_slots s) = fold (\<lambda>(_, sn, _). max (unat (running_count sn))) xs 0
    \<and> total_running s = sum_list (map (\<lambda>(_, sn, _). unat (running_count sn)) xs)"
proof -
  have fst_id: "schedulable cx fs xid = Some x \<Longrightarrow> fst x = xid" for cx fs xid x
    by (auto simp: schedulable_def split: sum.splits if_splits)
  have "map fst xs = filter (\<lambda>i. schedulable (svc_codec sv) (wd_fs w) i \<noteq> None) ids"
    unfolding xs_def by (rule map_fst_map_filter [OF fst_id])
  then have "distinct (map fst xs)" using assms(1) by simp
  moreover have "(s, running_only) = schedule_all xs (scheduler_new n, [])"
    using schedule_pass [OF assms(2)] by (simp add: xs_def)
  ultimately show ?thesis
    using schedule_all_slots [of "scheduler_new n" xs "[]"]
    by (cases "schedule_all xs (scheduler_new n, [])")
      (simp add: scheduler_new_def active_slots_def total_running_def)
qed

text \<open>Two executions with one candidate each.\<close>

definition busy_snapshot :: "candidate_status \<Rightarrow> string \<Rightarrow> execution_snapshot" where
  "busy_snapshot st xid = \<lparr>sn_execution = demo_execution\<lparr>ex_execution_id := xid\<rparr>, sn_events = [],
     sn_accumulator = accumulator_default, sn_candidates = [execution_candidate_new xid ''c1'' 1 0 st]\<rparr>"

definition busy_dir :: "candidate_status \<Rightarrow> string \<Rightarrow> exec_dir" where
  "busy_dir st xid = empty_dir\<lparr>xd_execution := Some (execution_text (sn_execution (busy_snapshot st xid))),
     xd_spec := Some ''spec'',
     xd_candidates := Some [(''1-c1.txt'', case candidate_text plain_codec (execution_candidate_new xid ''c1'' 1 0 st)
        of Inl _ \<Rightarrow> [] | Inr s \<Rightarrow> s)]\<rparr>"

definition busy_world :: "candidate_status \<Rightarrow> mock_runtime world" where
  "busy_world st = empty_world\<lparr>wd_fs := [(''e1'', busy_dir st ''e1''), (''e2'', busy_dir st ''e2'')]\<rparr>"

lemma busy_schedulable:
  assumes "line_safe xid" "bt_get fs xid = Some (busy_dir st xid)"
  shows "schedulable plain_codec fs xid = Some (xid, busy_snapshot st xid, sample_spec)"
    and "load_execution plain_codec xid fs = Inr (busy_snapshot st xid)"
proof -
  let ?c = "execution_candidate_new xid ''c1'' 1 0 st"
  have "execution_fields_ok (sn_execution (busy_snapshot st xid))"
    using assms(1) by (simp add: busy_snapshot_def demo_execution_def execution_fields_ok_def execution_new_def
        line_safe_def line_field_def)
  note parse = parse_execution_text [OF this]
  have "cx_map_enc plain_codec = cx_map_enc local_codec" "cx_map_dec plain_codec = cx_map_dec local_codec"
    "cx_metrics_enc plain_codec = cx_metrics_enc local_codec" "cx_metrics_dec plain_codec = cx_metrics_dec local_codec"
    by (simp_all add: plain_codec_def)
  then obtain s where s: "candidate_text plain_codec ?c = Inr s" "parse_candidate plain_codec s = Inr ?c"
    using parse_candidate_text [of plain_codec bt_wf ?c bt_wf] local_map_codec_ok local_metrics_codec_ok assms(1)
    by (auto simp: execution_candidate_new_def candidate_fields_ok_def line_safe_def line_field_def)
  show load: "load_execution plain_codec xid fs = Inr (busy_snapshot st xid)"
    using assms(2) parse s by (simp add: load_execution_def read_file_def busy_dir_def empty_dir_def
        load_candidates_def result_simps) (simp add: busy_snapshot_def)
  have "load_spec plain_codec xid fs = Inr sample_spec"
    using assms(2) by (simp add: load_spec_def read_file_def busy_dir_def plain_codec_def result_simps)
  with load show "schedulable plain_codec fs xid = Some (xid, busy_snapshot st xid, sample_spec)"
    by (simp add: schedulable_def) (simp add: busy_snapshot_def demo_execution_def)
qed

lemma busy_world_get:
  "bt_get (wd_fs (busy_world st)) ''e1'' = Some (busy_dir st ''e1'')"
  "bt_get (wd_fs (busy_world st)) ''e2'' = Some (busy_dir st ''e2'')"
  "line_safe ''e1''" "line_safe ''e2''" "map fst (wd_fs (busy_world st)) = [''e1'', ''e2'']"
  by (simp_all add: busy_world_def line_safe_def)

lemma worker_undercounts_slots_witness:
  "\<exists>s ro. io_fold (schedule_execution (local_service\<lparr>svc_codec := plain_codec\<rparr>)) [''e1'', ''e2'']
      (scheduler_new 2, []) (busy_world CaRunning) = (Inr (s, ro), (busy_world CaRunning))
    \<and> unat (active_slots s) = 1 \<and> total_running s = 2"
proof -
  let ?sv = "local_service\<lparr>svc_codec := plain_codec\<rparr>"
  note b = busy_schedulable [OF busy_world_get(3,1)] busy_schedulable [OF busy_world_get(4,2)]
  have run: "unat (running_count (busy_snapshot CaRunning xid)) = 1" for xid
    by (simp add: running_count_def busy_snapshot_def execution_candidate_new_def)
  have "schedule_execution ?sv xid st (busy_world CaRunning)
      = (Inr (schedule_snapshot xid (busy_snapshot CaRunning xid) sample_spec st), busy_world CaRunning)"
    if "schedulable plain_codec (wd_fs (busy_world CaRunning)) xid = Some (xid, busy_snapshot CaRunning xid, sample_spec)"
    for xid st
    by (rule schedule_execution_of) (simp add: that)
  note s = this [OF b(1)] this [OF b(3)]
  have "\<exists>st2. io_fold (schedule_execution ?sv) [''e1'', ''e2''] (scheduler_new 2, []) (busy_world CaRunning)
      = (Inr st2, busy_world CaRunning)"
    by (simp add: io_bind_def io_return_def s)
  then obtain s ro where pass: "io_fold (schedule_execution ?sv) [''e1'', ''e2''] (scheduler_new 2, [])
      (busy_world CaRunning) = (Inr (s, ro), busy_world CaRunning)" by fastforce
  from worker_undercounts_slots [OF _ pass] pass show ?thesis
    by (simp add: List.map_filter_simps b(1,3) run)
qed

text \<open>
  Reloading the queue gives, ordered by sequence number, exactly the queued candidates of the
  pending and running executions: those of paused and of terminal executions are left out.
\<close>

theorem reload_queued_exact:
  assumes "reload_queued_candidates cx fs = Inr cs"
  shows "sorted (map ca_created_seq cs)
    \<and> set cs = {c. \<exists>xid sn. xid \<in> fst ` set fs \<and> load_execution cx xid fs = Inr sn
         \<and> ex_status (sn_execution sn) \<in> {ExPending, ExRunning} \<and> c \<in> set (sn_candidates sn) \<and> ca_status c = CaQueued}"
proof -
  obtain ids sns where ids: "list_active_execution_ids cx fs = Inr ids"
      and sns: "res_map (\<lambda>xid. load_execution cx xid fs) ids = Inr sns"
      and cs: "cs = sort_key ca_created_seq
         (concat (map (\<lambda>sn. if ex_status (sn_execution sn) = ExPaused then []
            else filter is_queued (sn_candidates sn)) sns))"
    using assms by (auto simp: reload_queued_candidates_def reload_active_executions_def result_simps)
  have active: "set ids = {xid \<in> fst ` set fs. \<exists>sn. load_execution cx xid fs = Inr sn
      \<and> ex_status (sn_execution sn) \<in> {ExPending, ExRunning, ExPaused}}"
    using active_ids_set [OF ids] .
  have "set sns = {sn. \<exists>xid \<in> set ids. load_execution cx xid fs = Inr sn}"
    using res_map_set [OF sns] by auto
  then have set_sns: "sn \<in> set sns \<longleftrightarrow> (\<exists>xid \<in> fst ` set fs. load_execution cx xid fs = Inr sn
      \<and> ex_status (sn_execution sn) \<in> {ExPending, ExRunning, ExPaused})" for sn
    using active by auto
  have split: "c \<in> set cs \<longleftrightarrow> (\<exists>sn \<in> set sns. ex_status (sn_execution sn) \<noteq> ExPaused
      \<and> c \<in> set (sn_candidates sn) \<and> ca_status c = CaQueued)" for c
    by (auto simp: cs is_queued_def)
  have st: "s \<in> {ExPending, ExRunning, ExPaused} \<and> s \<noteq> ExPaused \<longleftrightarrow> s \<in> {ExPending, ExRunning}" for s
    by auto
  have "c \<in> set cs \<longleftrightarrow> (\<exists>xid sn. xid \<in> fst ` set fs \<and> load_execution cx xid fs = Inr sn
      \<and> (ex_status (sn_execution sn) \<in> {ExPending, ExRunning, ExPaused} \<and> ex_status (sn_execution sn) \<noteq> ExPaused)
      \<and> c \<in> set (sn_candidates sn) \<and> ca_status c = CaQueued)" for c
    unfolding split Bex_def set_sns by (simp only: conj_assoc ex_simps) (metis (no_types, lifting))
  then have "set cs = {c. \<exists>xid sn. xid \<in> fst ` set fs \<and> load_execution cx xid fs = Inr sn
         \<and> ex_status (sn_execution sn) \<in> {ExPending, ExRunning} \<and> c \<in> set (sn_candidates sn) \<and> ca_status c = CaQueued}"
    unfolding st by (simp only: set_eq_iff mem_Collect_eq simp_thms)
  moreover have "sorted (map ca_created_seq cs)"
    unfolding cs by (rule sorted_sort_key)
  ultimately show ?thesis by blast
qed

lemma reload_queued_exact_witness:
  "\<exists>cs. reload_queued_candidates plain_codec (wd_fs (busy_world CaQueued)) = Inr cs
    \<and> execution_candidate_new ''e2'' ''c1'' 1 0 CaQueued \<in> set cs"
proof -
  note b = busy_schedulable [OF busy_world_get(3,1)] busy_schedulable [OF busy_world_get(4,2)]
  have "list_active_execution_ids plain_codec (wd_fs (busy_world CaQueued)) = Inr [''e1'', ''e2'']"
    by (simp add: list_active_execution_ids_def list_execution_ids_def busy_world_get(5) b(2,4) List.map_filter_simps)
      (simp add: busy_snapshot_def demo_execution_def)
  then obtain cs where cs: "reload_queued_candidates plain_codec (wd_fs (busy_world CaQueued)) = Inr cs"
    by (simp add: reload_queued_candidates_def reload_active_executions_def b(2,4))
  have "ex_status (sn_execution (busy_snapshot CaQueued ''e2'')) = ExRunning"
    "execution_candidate_new ''e2'' ''c1'' 1 0 CaQueued \<in> set (sn_candidates (busy_snapshot CaQueued ''e2''))"
    "ca_status (execution_candidate_new ''e2'' ''c1'' 1 0 CaQueued) = CaQueued"
    "''e2'' \<in> fst ` set (wd_fs (busy_world CaQueued))"
    by (simp_all add: busy_snapshot_def demo_execution_def execution_candidate_new_def busy_world_def)
  with reload_queued_exact [OF cs] b(4) cs show ?thesis by blast
qed

end
