(* ===== verification/Worker_Faults.thy ===== *)
theory Worker_Faults
  imports Worker
begin

text \<open>
  What a stored execution can do to the background worker (\<open>src/bridge.rs\<close>): one that cannot be read ends
  every tick before anything is planned, one whose specification has no section for its mode makes the
  tick panic. Lemmas: claiming leaves what is read unchanged, a tick that fails on the first execution
  that it plans.
\<close>

subsection \<open>Claims and what is read\<close>

text \<open>The directory of an execution without its claim.\<close>

definition unclaimed_dir :: "store_fs \<Rightarrow> string \<Rightarrow> exec_dir option" where
  "unclaimed_dir fs xid = map_option (\<lambda>d. d\<lparr>xd_claim := None\<rparr>) (bt_get fs xid)"

lemma unclaimed_set_claim: "unclaimed_dir (set_claim xid c fs) y = unclaimed_dir fs y"
  by (auto simp: unclaimed_dir_def set_claim_def write_dir_def split: option.split)

lemma unclaimed_create_dir: "bt_get fs xid \<noteq> None \<Longrightarrow> create_dir_all xid fs = fs"
  by (auto simp: create_dir_all_def split: option.split)

lemma unclaimed_claim:
  assumes "bt_get fs xid \<noteq> None"
  shows "unclaimed_dir (snd (claim_execution now ttl xid w fs)) y = unclaimed_dir fs y"
proof -
  have free: "unclaimed_dir (snd (claim_execution now ttl xid w fs)) y = unclaimed_dir fs y"
    if "bt_get fs xid \<noteq> None" "claim_file fs xid = None" for fs
    using that by (subst claim_execution.simps) (simp add: Let_def unclaimed_create_dir unclaimed_set_claim)
  have set: "bt_get (set_claim xid None fs) xid \<noteq> None" "claim_file (set_claim xid None fs) xid = None"
    using assms by (auto simp: set_claim_def write_dir_def claim_file_def split: option.splits)
  show ?thesis
  proof (cases "claim_file fs xid")
    case None
    with free assms show ?thesis by blast
  next
    case (Some s)
    with free [OF set] assms show ?thesis
      by (subst claim_execution.simps) (simp add: Let_def unclaimed_create_dir unclaimed_set_claim split: option.split)
  qed
qed

lemma reads_unclaimed:
  assumes "unclaimed_dir fs' xid = unclaimed_dir fs xid"
  shows "load_execution cx xid fs' = load_execution cx xid fs" "load_spec cx xid fs' = load_spec cx xid fs"
proof -
  have same: "Option.bind (bt_get fs' xid) f = Option.bind (bt_get fs xid) f"
    if "\<And>d. f (d\<lparr>xd_claim := None\<rparr>) = f d" for f :: "exec_dir \<Rightarrow> 'a option"
  proof -
    have "Option.bind (map_option (\<lambda>d. d\<lparr>xd_claim := None\<rparr>) (bt_get fs' xid)) f
        = Option.bind (map_option (\<lambda>d. d\<lparr>xd_claim := None\<rparr>) (bt_get fs xid)) f"
      using assms by (simp add: unclaimed_dir_def)
    then show ?thesis by (simp add: bind_map_option comp_def that)
  qed
  show "load_spec cx xid fs' = load_spec cx xid fs"
    by (simp add: load_spec_def read_file_def same)
  show "load_execution cx xid fs' = load_execution cx xid fs"
    by (simp add: load_execution_def read_file_def load_candidates_def same)
qed

text \<open>Writing the execution and its log leaves the claim; what was written is read back.\<close>

lemma claim_frame:
  "claim_file (snd (save_execution x fs)) y = claim_file fs y"
  "claim_file (snd (store_append_event xid e fs)) y = claim_file fs y"
  by (auto simp: claim_file_def save_execution_def store_append_event_def write_dir_def create_dir_all_def empty_dir_def
      Let_def split: option.splits)

lemma load_after_save:
  assumes "load_execution cx xid fs = Inr sn" "execution_fields_ok x" "ex_execution_id x = xid"
  obtains fs1 where "save_execution x fs = (Inr (), fs1)" "load_execution cx xid fs1 = Inr (sn\<lparr>sn_execution := x\<rparr>)"
    "bt_get fs1 xid \<noteq> None"
proof -
  obtain d where d: "bt_get fs xid = Some d" using load_execution_exists [OF assms(1)] by blast
  let ?fs1 = "bt_insert xid (d\<lparr>xd_execution := Some (execution_text x)\<rparr>) fs"
  have "save_execution x fs = (Inr (), ?fs1)"
    using d assms(3) by (simp add: save_execution_def write_dir_def create_dir_all_def)
  moreover have "load_execution cx xid ?fs1 = Inr (sn\<lparr>sn_execution := x\<rparr>)"
    using assms(1) parse_execution_text [OF assms(2)] d
    by (auto simp: load_execution_def read_file_def load_candidates_def result_simps Let_def)
  ultimately show ?thesis using that by simp
qed

lemma append_event_runs:
  assumes "load_execution (svc_codec sv) xid (wd_fs w) = Inr sn"
  obtains e where "append_event sv xid t w
      = (Inr (), w\<lparr>wd_fs := snd (store_append_event xid e (wd_fs w))\<rparr>)"
proof -
  let ?e = "control_event_new xid (of_nat (length (sn_events sn)) + 1) t"
  have "\<exists>fs'. store_append_event xid ?e (wd_fs w) = (Inr (), fs')"
    using load_execution_exists [OF assms] by (auto simp: store_append_event_def write_dir_def Let_def split: option.split)
  then show ?thesis
    using that [of ?e] assms
    by (auto simp: append_event_def load_snapshot_def store_read_def io_result_def io_return_def io_bind_def store_do_def)
qed

subsection \<open>A specification without a strategy\<close>

lemma plan_without_strategy:
  assumes "load_execution (svc_codec sv) xid (wd_fs w) = Inr sn" and "ex_status (sn_execution sn) = ExPending"
    and "ex_execution_id (sn_execution sn) = xid" and "execution_fields_ok (sn_execution sn)"
    and "load_spec (svc_codec sv) xid (wd_fs w) = Inr spec" and "selected_strategy_new spec = None"
    and "sn_candidates sn = []"
  shows "\<exists>w'. plan_execution_claimed sv xid w = (Inl (Panic no_spec_panic), w')
    \<and> claim_file (wd_fs w') xid = claim_file (wd_fs w) xid"
proof -
  let ?x = "(sn_execution sn)\<lparr>ex_status := ExRunning\<rparr>"
  have "execution_fields_ok ?x" using assms(4) by (simp add: execution_fields_ok_def)
  from load_after_save [OF assms(1) this] obtain fs1 where fs1: "save_execution ?x (wd_fs w) = (Inr (), fs1)"
    "load_execution (svc_codec sv) xid fs1 = Inr (sn\<lparr>sn_execution := ?x\<rparr>)"
    using assms(3) by auto
  obtain e where e: "append_event sv xid ExecutionStarted (w\<lparr>wd_fs := fs1\<rparr>)
      = (Inr (), w\<lparr>wd_fs := snd (store_append_event xid e fs1)\<rparr>)"
    using append_event_runs [of sv xid "w\<lparr>wd_fs := fs1\<rparr>"] fs1(2) by auto
  have "start_if_pending sv xid (sn_execution sn) w
      = (Inr ?x, w\<lparr>wd_fs := snd (store_append_event xid e fs1)\<rparr>)"
    using assms(2) fs1(1) e
    by (simp add: start_if_pending_def Let_def save_now_def io_then_def io_bind_def store_do_def io_return_def)
  then have "plan_execution_claimed sv xid w
      = (Inl (Panic no_spec_panic), w\<lparr>wd_fs := snd (store_append_event xid e fs1)\<rparr>)"
    using assms(1,2,5,6,7)
    by (simp add: plan_execution_claimed_def load_workable_execution_def load_snapshot_def store_read_def io_result_def
        io_return_def io_bind_def Let_def plan_iteration_candidates_def io_expect_def io_panic_def)
  moreover have "fs1 = snd (save_execution ?x (wd_fs w))" by (simp add: fs1(1))
  ultimately show ?thesis by (simp add: claim_frame)
qed

text \<open>Executions that can be read and are neither pending nor running are passed over.\<close>

definition idle_execution :: "codec \<Rightarrow> store_fs \<Rightarrow> string \<Rightarrow> bool" where
  "idle_execution cx fs xid = (case load_execution cx xid fs of
     Inl _ \<Rightarrow> False | Inr sn \<Rightarrow> ex_status (sn_execution sn) \<notin> {ExPending, ExRunning})"

lemma plan_idle:
  assumes "list_all (idle_execution (svc_codec sv) (wd_fs w)) before"
  shows "io_for (before @ ids) (plan_active sv) w = io_for ids (plan_active sv) w"
  using assms
proof (induction before)
  case (Cons y before)
  then have "plan_active sv y w = (Inr (), w)"
    by (auto simp: idle_execution_def plan_active_def load_snapshot_def store_read_def io_result_def io_return_def
        io_bind_def split: sum.splits)
  with Cons show ?case by (simp add: io_then_def io_bind_def)
qed simp

lemma supervision_tick_panics:
  assumes "list_execution_ids (wd_fs w) = Inr (before @ xid # ids)"
    and "list_all (idle_execution (svc_codec sv) (wd_fs w)) before"
    and "load_execution (svc_codec sv) xid (wd_fs w) = Inr sn" and "ex_status (sn_execution sn) = ExPending"
    and "ex_execution_id (sn_execution sn) = xid" and "execution_fields_ok (sn_execution sn)"
    and "sn_candidates sn = []" and "claimable (wd_now w) (claim_ttl_ms (svc_ttl_var sv)) (claim_file (wd_fs w) xid)"
    and "load_spec (svc_codec sv) xid (wd_fs w) = Inr spec"
    and "es_mode spec = ''supervision''" and "es_supervision spec = None"
  shows "\<exists>w'. process_pending_executions_once sv w = (Inl (Panic ''validated supervision spec''), w')
    \<and> claim_file (wd_fs w') xid = Some (serialize_claim \<lparr>cl_worker_id = worker_id sv, cl_claimed_at_ms = wd_now w\<rparr>)"
proof -
  let ?sv = "new_service sv"
  let ?w = "w\<lparr>wd_next_execution_id := 1, wd_next_candidate_id := 1\<rparr>"
  have sv: "svc_codec ?sv = svc_codec sv" "svc_ttl_var ?sv = svc_ttl_var sv" "worker_id ?sv = worker_id sv"
    by (simp_all add: new_service_def worker_id_def)
  let ?c = "claim_execution (wd_now w) (claim_ttl_ms (svc_ttl_var sv)) xid (worker_id sv) (wd_fs w)"
  have claim: "fst ?c = Inr True"
    "claim_file (snd ?c) xid = Some (serialize_claim \<lparr>cl_worker_id = worker_id sv, cl_claimed_at_ms = wd_now w\<rparr>)"
    using claim_execution_result [of "wd_now w" "claim_ttl_ms (svc_ttl_var sv)" xid "worker_id sv" "wd_fs w"] assms(8)
    by simp_all
  have dir: "bt_get (wd_fs w) xid \<noteq> None" using load_execution_exists [OF assms(3)] .
  note same = reads_unclaimed [OF unclaimed_claim [OF dir]]
  let ?w1 = "?w\<lparr>wd_fs := snd ?c\<rparr>"
  have none: "selected_strategy_new spec = None" using assms(10,11) by (simp add: selected_strategy_new_def)
  have "load_execution (svc_codec ?sv) xid (wd_fs ?w1) = Inr sn" "load_spec (svc_codec ?sv) xid (wd_fs ?w1) = Inr spec"
    using assms(3,9) by (simp_all add: sv same)
  from plan_without_strategy [OF this(1) assms(4,5,6) this(2) none assms(7)] obtain w' where
    plan: "plan_execution_claimed ?sv xid ?w1 = (Inl (Panic no_spec_panic), w')"
      "claim_file (wd_fs w') xid = claim_file (snd ?c) xid" by auto
  have "?c = (Inr True, snd ?c)" using claim(1) by (metis prod.collapse)
  then have "store_do (claim_execution (wd_now w) (claim_ttl_ms (svc_ttl_var sv)) xid (worker_id sv)) ?w = (Inr True, ?w1)"
    by (auto simp: store_do_def split: prod.split sum.split)
  then have "plan_execution ?sv xid ?w = (Inl (Panic no_spec_panic), w')"
    by (simp add: plan_execution_def with_claimed_execution_def io_bind_def io_get_def sv io_attempt_def plan(1))
  then have "plan_active ?sv xid ?w = (Inl (Panic no_spec_panic), w')"
    using assms(3,4)
    by (simp add: plan_active_def load_snapshot_def store_read_def sv io_result_def io_return_def io_bind_def
        io_tolerate_def io_attempt_def)
  moreover have "io_for (before @ xid # ids) (plan_active ?sv) ?w = io_for (xid # ids) (plan_active ?sv) ?w"
    using plan_idle [of ?sv ?w before "xid # ids"] assms(2) by (simp add: sv)
  ultimately have "process_pending_executions_once sv w = (Inl (Panic no_spec_panic), w')"
    using assms(1)
    by (simp add: process_pending_executions_once_def Let_def new_counters_def io_modify_def io_then_def io_bind_def
        store_read_def io_result_def io_return_def)
  with plan(2) claim(2) show ?thesis by (simp add: no_spec_panic_def)
qed

text \<open>
  C26: A pending execution whose specification asks for supervision but has no supervision section (the
  create endpoint accepts it) makes the whole tick of the worker panic, with the claim of the execution left in
  place, when it is the first execution of the store that the tick plans: every execution listed before it can
  be read and is neither pending nor running. It has no candidates yet, nobody holds a fresh claim on it, and
  it can be read back from its file (its texts have one line each). Executions after it are not even looked at.
\<close>

theorem unsupervised_spec_kills_worker:
  assumes "list_execution_ids (wd_fs w) = Inr (before @ xid # ids)"
    and "list_all (idle_execution (svc_codec sv) (wd_fs w)) before"
    and "load_execution (svc_codec sv) xid (wd_fs w) = Inr sn" and "ex_status (sn_execution sn) = ExPending"
    and "ex_execution_id (sn_execution sn) = xid" and "execution_fields_ok (sn_execution sn)"
    and "sn_candidates sn = []" and "claimable (wd_now w) (claim_ttl_ms (svc_ttl_var sv)) (claim_file (wd_fs w) xid)"
    and "load_spec (svc_codec sv) xid (wd_fs w) = Inr spec"
    and "es_mode spec = ''supervision''" and "es_supervision spec = None"
  shows "\<exists>w'. process_pending_executions_once sv w = (Inl (Panic ''validated supervision spec''), w')
    \<and> claim_file (wd_fs w') xid = Some (serialize_claim \<lparr>cl_worker_id = worker_id sv, cl_claimed_at_ms = wd_now w\<rparr>)"
  by (rule supervision_tick_panics) (rule assms)+

definition unsupervised_spec :: execution_spec where
  "unsupervised_spec = sample_spec\<lparr>es_mode := ''supervision'', es_supervision := None\<rparr>"

definition unsupervised_service :: "mock_runtime service" where
  "unsupervised_service =
     local_service\<lparr>svc_codec := plain_codec\<lparr>cx_spec_dec := \<lambda>_. Inr unsupervised_spec\<rparr>\<rparr>"

definition unsupervised_world :: "mock_runtime world" where
  "unsupervised_world = empty_world\<lparr>wd_fs := snd (save_spec plain_codec ''e1'' unsupervised_spec
     (snd (save_execution (execution_new ''e1'' ''supervision'' ''g'') [])))\<rparr>"

lemma unsupervised_store:
  fixes cx
  assumes "cx_spec_dec cx = (\<lambda>_. Inr unsupervised_spec)"
  shows "list_execution_ids (wd_fs unsupervised_world) = Inr [''e1'']"
    and "load_execution cx ''e1'' (wd_fs unsupervised_world) = Inr \<lparr>sn_execution = execution_new ''e1'' ''supervision'' ''g'',
      sn_events = [], sn_accumulator = accumulator_default, sn_candidates = []\<rparr>"
    and "claimable n t (claim_file (wd_fs unsupervised_world) ''e1'')"
    and "load_spec cx ''e1'' (wd_fs unsupervised_world) = Inr unsupervised_spec"
    and "execution_fields_ok (execution_new ''e1'' ''supervision'' ''g'')"
proof -
  let ?x = "execution_new ''e1'' ''supervision'' ''g''"
  show ok: "execution_fields_ok ?x"
    by (simp add: execution_fields_ok_def execution_new_def line_safe_def line_field_def)
  note parse = parse_execution_text [OF ok]
  have x: "ex_execution_id ?x = ''e1''" by (simp add: execution_new_def)
  have fs: "wd_fs unsupervised_world
      = [(''e1'', empty_dir\<lparr>xd_execution := Some (execution_text ?x), xd_spec := Some ''spec''\<rparr>)]"
    by (simp add: unsupervised_world_def save_spec_def save_execution_def x create_dir_all_def write_dir_def
        plain_codec_def)
  show "load_execution cx ''e1'' (wd_fs unsupervised_world)
      = Inr \<lparr>sn_execution = ?x, sn_events = [], sn_accumulator = accumulator_default, sn_candidates = []\<rparr>"
    unfolding fs by (simp add: load_execution_def read_file_def load_candidates_def empty_dir_def result_simps parse)
  show "list_execution_ids (wd_fs unsupervised_world) = Inr [''e1'']"
    unfolding fs by (simp add: list_execution_ids_def)
  show "claimable n t (claim_file (wd_fs unsupervised_world) ''e1'')"
    unfolding fs by (simp add: claim_file_def empty_dir_def claimable_def)
  show "load_spec cx ''e1'' (wd_fs unsupervised_world) = Inr unsupervised_spec"
    unfolding fs by (simp add: load_spec_def read_file_def assms)
qed

lemma unsupervised_spec_kills_worker_witness:
  "\<exists>w'. process_pending_executions_once unsupervised_service unsupervised_world
       = (Inl (Panic ''validated supervision spec''), w') \<and> claim_file (wd_fs w') ''e1'' \<noteq> None"
proof -
  have cx: "cx_spec_dec (svc_codec unsupervised_service) = (\<lambda>_. Inr unsupervised_spec)"
    by (simp add: unsupervised_service_def)
  note store = unsupervised_store [OF cx]
  have "es_mode unsupervised_spec = ''supervision''" "es_supervision unsupervised_spec = None"
    by (simp_all add: unsupervised_spec_def)
  from unsupervised_spec_kills_worker [of unsupervised_world "[]" "''e1''" "[]" unsupervised_service, unfolded append_Nil,
      OF store(1) _ store(2) _ _ _ _ store(3,4) this] store(5) show ?thesis
    by (auto simp: execution_new_def)
qed

text \<open>
  An execution that cannot be read and whose id sorts first ends every tick with its error before
  anything is planned or dispatched, and nothing on disk changes, so no tick after it does better.
\<close>

theorem unreadable_execution_blocks_worker:
  assumes "list_execution_ids (wd_fs w) = Inr (xid # ids)"
    and "load_execution (svc_codec sv) xid (wd_fs w) = Inl e"
  shows "process_pending_executions_once sv w
    = (Inl (IoErr e), w\<lparr>wd_next_execution_id := 1, wd_next_candidate_id := 1\<rparr>)"
proof -
  have sv: "svc_codec (new_service sv) = svc_codec sv" by (simp add: new_service_def)
  show ?thesis
    using assms
    by (simp add: process_pending_executions_once_def Let_def new_counters_def io_modify_def io_then_def io_bind_def
        store_read_def io_result_def io_return_def io_fail_def plan_active_def load_snapshot_def sv)
qed

text \<open>A directory without an execution, as a creation that was interrupted leaves it.\<close>

lemma unreadable_execution_blocks_worker_witness:
  "\<forall>(sv :: mock_runtime service). fst (process_pending_executions_once sv (empty_world\<lparr>wd_fs := [(''e1'', empty_dir)]\<rparr>))
     = Inl (IoErr not_found)"
proof
  fix sv :: "mock_runtime service"
  have "list_execution_ids [(''e1'', empty_dir)] = Inr [''e1'']" by (simp add: list_execution_ids_def)
  moreover have "load_execution (svc_codec sv) ''e1'' [(''e1'', empty_dir)] = Inl not_found"
    by (simp add: load_execution_def read_file_def empty_dir_def)
  ultimately show "fst (process_pending_executions_once sv (empty_world\<lparr>wd_fs := [(''e1'', empty_dir)]\<rparr>))
      = Inl (IoErr not_found)"
    using unreadable_execution_blocks_worker [of "empty_world\<lparr>wd_fs := [(''e1'', empty_dir)]\<rparr>" "''e1''" "[]" sv not_found]
    by simp
qed

end
