(* ===== verification/Batch.thy ===== *)
theory Batch
  imports Strategy
begin

text \<open>
  Batch submissions (\<open>src/batch/\<close>): the schema with its validation and the compilation to an execution
  specification. Reading YAML or JSON into the schema is the library's and a parameter. Lemmas: when a
  batch compiles, what the compiled execution plans.
\<close>

record batch_metadata =
  bm_name :: "string option"

record batch_worker =
  bw_template :: string
  bw_provider :: "string option"

record batch_mode =
  bo_parallelism :: "u32 option"
  bo_background :: "bool option"
  bo_interaction :: "string option"

record batch_job =
  bj_name :: "string option"
  bj_prompt :: string

record batch_spec =
  bs_api_version :: string
  bs_kind :: string
  bs_metadata :: "batch_metadata option"
  bs_worker :: batch_worker
  bs_mode :: "batch_mode option"
  bs_jobs :: "batch_job list"

subsection \<open>Validation\<close>

definition validate_batch_kind :: "string \<Rightarrow> string + string" where
  "validate_batch_kind k =
     (if k = ''batch'' then Inr k else if k = ''yolo'' then Inr ''batch''
      else Inl (''kind must be '' @ squoted ''batch'' @ '' or '' @ squoted ''yolo'' @ '', got '' @ squoted k))"

fun validate_jobs :: "nat \<Rightarrow> batch_job list \<Rightarrow> string + unit" where
  "validate_jobs i [] = Inr ()"
| "validate_jobs i (j # js) =
     (if trim (bj_prompt j) = [] then Inl (''jobs['' @ nat_to_string i @ ''].prompt is required'')
      else validate_jobs (Suc i) js)"

definition batch_parallelism :: "batch_spec \<Rightarrow> u32 option" where
  "batch_parallelism s = Option.bind (bs_mode s) bo_parallelism"

definition batch_validate_and_normalize :: "batch_spec \<Rightarrow> string + batch_spec" where
  "batch_validate_and_normalize s =
     (if trim (bs_api_version s) = [] then Inl ''api_version is required''
      else res_bind (validate_batch_kind (bs_kind s)) (\<lambda>k.
        if trim (bw_template (bs_worker s)) = [] then Inl ''worker.template is required''
        else if bs_jobs s = [] then Inl ''jobs must not be empty''
        else res_bind (validate_jobs 0 (bs_jobs s)) (\<lambda>_.
          if batch_parallelism s = Some 0 then Inl ''mode.parallelism must be positive''
          else Inr (s\<lparr>bs_kind := k\<rparr>))))"

text \<open>\<open>parse_batch_yaml\<close> and \<open>parse_batch_json\<close>, given the library's reader.\<close>

definition parse_batch_yaml :: "(string \<Rightarrow> string + batch_spec) \<Rightarrow> string \<Rightarrow> string + batch_spec" where
  "parse_batch_yaml decode text =
     res_bind (map_err (\<lambda>e. ''invalid batch yaml: '' @ e) (decode text)) batch_validate_and_normalize"

definition parse_batch_json :: "(string \<Rightarrow> string + batch_spec) \<Rightarrow> string \<Rightarrow> string + batch_spec" where
  "parse_batch_json decode text =
     res_bind (map_err (\<lambda>e. ''invalid batch json: '' @ e) (decode text)) batch_validate_and_normalize"

subsection \<open>Compilation\<close>

text \<open>The configuration against which the front ends validate.\<close>

definition front_end_global :: global_config where
  "front_end_global = \<lparr>max_concurrent_child_runs = 20\<rparr>"

definition batch_goal :: "batch_spec \<Rightarrow> string" where
  "batch_goal s =
     (case Option.bind (bs_metadata s) bm_name of
        None \<Rightarrow> ''run '' @ nat_to_string (length (bs_jobs s)) @ '' background jobs''
      | Some name \<Rightarrow> name)"

definition job_proposal :: "batch_spec \<Rightarrow> batch_job \<Rightarrow> variation_proposal" where
  "job_proposal s j =
     (let overrides = bt_insert ''agent.prompt'' (bj_prompt j) [] in
      \<lparr>vp_overrides = (case bw_provider (bs_worker s) of None \<Rightarrow> overrides
         | Some p \<Rightarrow> bt_insert ''llm.provider'' p overrides)\<rparr>)"

definition effective_parallelism :: "batch_spec \<Rightarrow> u32" where
  "effective_parallelism s = (case batch_parallelism s of Some p \<Rightarrow> p | None \<Rightarrow> len_u32 (bs_jobs s))"

definition batch_execution :: "batch_spec \<Rightarrow> execution_spec" where
  "batch_execution s =
     \<lparr>es_mode = ''swarm'', es_goal = batch_goal s,
      es_workflow = \<lparr>wt_template = bw_template (bs_worker s)\<rparr>,
      es_policy = \<lparr>op_budget = \<lparr>bp_max_iterations = Some 1, bp_max_child_runs = Some (len_u32 (bs_jobs s)),
          bp_max_wall_clock_secs = Some 1800, bp_max_cost_usd_millis = None\<rparr>,
        op_concurrency = \<lparr>max_concurrent_candidates = effective_parallelism s\<rparr>,
        op_convergence = \<lparr>cp_strategy = ''exhaustive'', cp_min_score = None,
          cp_max_iterations_without_improvement = None\<rparr>,
        op_max_candidate_failures_per_iteration = len_u32 (bs_jobs s),
        op_missing_output_policy = ''mark_failed'', op_iteration_failure_policy = ''continue''\<rparr>,
      es_evaluation = \<lparr>ec_scoring_type = ''weighted_metrics'', ec_weights = [(''success'', Fin 1)],
        ec_pass_threshold = Some (Fin 1), ec_ranking = ''highest_score'', ec_tie_breaking = ''success''\<rparr>,
      es_variation = variation_explicit (effective_parallelism s) (map (job_proposal s) (bs_jobs s)),
      es_swarm = True, es_supervision = None\<rparr>"

definition compile_batch_spec :: "batch_spec \<Rightarrow> string + execution_spec" where
  "compile_batch_spec s =
     (let x = batch_execution s in
      map_ok (\<lambda>_. x) (map_err (\<lambda>e. ''compiled execution spec is invalid: '' @ e)
        (spec_validate x front_end_global)))"

subsection \<open>Lemmas\<close>

lemma validate_jobs_Inr: "validate_jobs i js = Inr u \<longleftrightarrow> (\<forall>j \<in> set js. trim (bj_prompt j) \<noteq> [])"
  by (induction js arbitrary: i) auto

definition batch_ok :: "batch_spec \<Rightarrow> bool" where
  "batch_ok s = (trim (bs_api_version s) \<noteq> [] \<and> bs_kind s = ''batch'' \<and> trim (bw_template (bs_worker s)) \<noteq> []
     \<and> bs_jobs s \<noteq> [] \<and> (\<forall>j \<in> set (bs_jobs s). trim (bj_prompt j) \<noteq> []) \<and> batch_parallelism s \<noteq> Some 0)"

lemma batch_validate_Inr:
  "batch_validate_and_normalize s = Inr s' \<longleftrightarrow>
     bs_kind s \<in> {''batch'', ''yolo''} \<and> s' = s\<lparr>bs_kind := ''batch''\<rparr> \<and> batch_ok s'"
  by (auto simp: batch_validate_and_normalize_def validate_batch_kind_def batch_ok_def result_simps
      validate_jobs_Inr batch_parallelism_def)

lemma compile_batch_Inr:
  "compile_batch_spec s = Inr x \<longleftrightarrow> x = batch_execution s \<and> spec_ok front_end_global x"
  by (auto simp: compile_batch_spec_def Let_def map_ok_Inr_iff spec_validate_Inr)

lemma batch_spec_ok:
  "spec_ok front_end_global (batch_execution s) \<longleftrightarrow>
     0 < unat (effective_parallelism s) \<and> unat (effective_parallelism s) \<le> 20
     \<and> trim (bw_template (bs_worker s)) \<noteq> []"
  by (auto simp: spec_ok_def batch_execution_def supervision_ok_def policy_ok_def convergence_ok_def
      variation_explicit_def known_variation_source_def front_end_global_def)

lemma generate_explicit_fresh:
  assumes "ac_scoring_history_len acc = 0"
  shows "generate (variation_explicit n ps) acc
    = (if ps = [] then [] else map (\<lambda>i. ps ! (i mod length ps)) [0 ..< unat n])"
  using assms by (simp add: generate_def generate_explicit_def variation_explicit_def Let_def)

text \<open>The overrides of the first plan of an explicit execution, whatever the inboxes.\<close>

lemma first_plan_overrides:
  assumes "selected_strategy_new x = Some st" "es_variation x = variation_explicit n ps" "ps \<noteq> []"
    and "ac_scoring_history_len acc = 0"
  shows "map cd_overrides (strategy_plan st acc inboxes None)
    = map (\<lambda>i. vp_overrides (ps ! (i mod length ps))) [0 ..< unat n]"
  using assms
  by (auto simp: selected_strategy_new_def swarm_plan_candidates_def supervision_plan_candidates_def
      advisory_message_stats_def candidate_specs_overrides generate_explicit_fresh o_def
      split: if_splits option.splits)

lemma map_nth_mod_all: "map (\<lambda>i. f (xs ! (i mod length xs))) [0 ..< length xs] = map f xs"
  by (rule nth_equalityI) simp_all

subsection \<open>Properties\<close>

text \<open>
  Which batches are accepted: the kind \<open>yolo\<close> is normalised to \<open>batch\<close>, and a batch that passes
  validation compiles exactly if its parallelism - the number of jobs when none is given - is between 1
  and 20; what is compiled is the fixed one-iteration swarm execution, valid under the limits of the
  front ends.
\<close>

theorem batch_compiles_iff:
  assumes "batch_validate_and_normalize s = Inr s'"
  shows "bs_kind s' = ''batch'' \<and> (case compile_batch_spec s' of
      Inr x \<Rightarrow> unat (effective_parallelism s') \<in> {1..20} \<and> x = batch_execution s' \<and> spec_ok front_end_global x
    | Inl _ \<Rightarrow> unat (effective_parallelism s') \<notin> {1..20})"
proof -
  have ok: "batch_ok s'" using assms by (auto simp: batch_validate_Inr)
  then have iff: "(\<exists>x. compile_batch_spec s' = Inr x) \<longleftrightarrow> unat (effective_parallelism s') \<in> {1..20}"
    by (auto simp: compile_batch_Inr batch_spec_ok batch_ok_def)
  show ?thesis
  proof (cases "compile_batch_spec s'")
    case (Inl e)
    with ok iff show ?thesis by (auto simp: batch_ok_def)
  next
    case (Inr x)
    then have "x = batch_execution s' \<and> spec_ok front_end_global x" by (auto simp: compile_batch_Inr)
    with ok iff Inr show ?thesis by (auto simp: batch_ok_def)
  qed
qed

definition demo_batch :: "u32 option \<Rightarrow> batch_spec" where
  "demo_batch p = \<lparr>bs_api_version = ''v1'', bs_kind = ''yolo'', bs_metadata = None,
     bs_worker = \<lparr>bw_template = ''t.yaml'', bw_provider = None\<rparr>,
     bs_mode = Some \<lparr>bo_parallelism = p, bo_background = None, bo_interaction = None\<rparr>,
     bs_jobs = [\<lparr>bj_name = None, bj_prompt = ''a''\<rparr>, \<lparr>bj_name = None, bj_prompt = ''b''\<rparr>, \<lparr>bj_name = None, bj_prompt = ''c''\<rparr>]\<rparr>"

lemma demo_batch_valid:
  "p \<noteq> Some 0 \<Longrightarrow> batch_validate_and_normalize (demo_batch p) = Inr ((demo_batch p)\<lparr>bs_kind := ''batch''\<rparr>)"
  by (simp add: batch_validate_Inr batch_ok_def) (simp add: demo_batch_def batch_parallelism_def trim_def is_ws_def)

lemma batch_compiles_iff_witness:
  "(case compile_batch_spec ((demo_batch (Some 21))\<lparr>bs_kind := ''batch''\<rparr>) of Inl _ \<Rightarrow> True | Inr _ \<Rightarrow> False)
   \<and> (case compile_batch_spec ((demo_batch None)\<lparr>bs_kind := ''batch''\<rparr>) of Inl _ \<Rightarrow> False | Inr _ \<Rightarrow> True)"
proof -
  have "unat (effective_parallelism ((demo_batch (Some 21))\<lparr>bs_kind := ''batch''\<rparr>)) = 21"
    "unat (effective_parallelism ((demo_batch None)\<lparr>bs_kind := ''batch''\<rparr>)) = 3"
    by (simp_all add: effective_parallelism_def batch_parallelism_def demo_batch_def len_u32_def)
  with batch_compiles_iff [OF demo_batch_valid, of "Some 21"] batch_compiles_iff [OF demo_batch_valid, of None]
  show ?thesis by (auto split: sum.splits)
qed

text \<open>
  C23: The compiled batch plans one iteration only, with as many candidates as the parallelism, and these
  carry the prompts of the jobs in order, starting over after the last job. So with a parallelism below
  the number of jobs the remaining jobs are never run, with a larger one jobs are run twice, and every
  job is run exactly once when the parallelism is the number of jobs or is not given.
\<close>

theorem batch_plan_covers_prefix:
  assumes "compile_batch_spec s = Inr x" and "bs_jobs s \<noteq> []" and "selected_strategy_new x = Some st"
  shows "bp_max_iterations (op_budget (es_policy x)) = Some 1
    \<and> map (\<lambda>c. bt_get (cd_overrides c) ''agent.prompt'') (strategy_plan st accumulator_default inboxes None)
      = map (\<lambda>i. Some (bj_prompt (bs_jobs s ! (i mod length (bs_jobs s))))) [0 ..< unat (effective_parallelism s)]
    \<and> (unat (effective_parallelism s) = length (bs_jobs s) \<longrightarrow>
        map (\<lambda>c. bt_get (cd_overrides c) ''agent.prompt'') (strategy_plan st accumulator_default inboxes None)
        = map (\<lambda>j. Some (bj_prompt j)) (bs_jobs s))"
proof -
  let ?n = "effective_parallelism s"
  have x: "x = batch_execution s" using assms(1) by (simp add: compile_batch_Inr)
  have prompt: "bt_get (vp_overrides (job_proposal s j)) ''agent.prompt'' = Some (bj_prompt j)" for j
    by (simp add: job_proposal_def Let_def split: option.split)
  have "map cd_overrides (strategy_plan st accumulator_default inboxes None)
      = map (\<lambda>i. vp_overrides (map (job_proposal s) (bs_jobs s) ! (i mod length (map (job_proposal s) (bs_jobs s)))))
          [0 ..< unat ?n]"
    by (rule first_plan_overrides [OF assms(3)]) (simp_all add: x batch_execution_def assms(2) accumulator_default_def)
  then have "map (\<lambda>m. bt_get m ''agent.prompt'') (map cd_overrides (strategy_plan st accumulator_default inboxes None))
      = map (\<lambda>i. bt_get (vp_overrides (map (job_proposal s) (bs_jobs s) ! (i mod length (bs_jobs s)))) ''agent.prompt'')
          [0 ..< unat ?n]"
    by simp
  also have "\<dots> = map (\<lambda>i. Some (bj_prompt (bs_jobs s ! (i mod length (bs_jobs s))))) [0 ..< unat ?n]"
    using assms(2) by (simp add: prompt)
  finally have plan: "map (\<lambda>c. bt_get (cd_overrides c) ''agent.prompt'') (strategy_plan st accumulator_default inboxes None)
      = map (\<lambda>i. Some (bj_prompt (bs_jobs s ! (i mod length (bs_jobs s))))) [0 ..< unat ?n]" by (simp add: o_def)
  have "bp_max_iterations (op_budget (es_policy x)) = Some 1" by (simp add: x batch_execution_def)
  with plan map_nth_mod_all [of "\<lambda>j. Some (bj_prompt j)" "bs_jobs s"] show ?thesis by simp
qed

lemma batch_plan_covers_prefix_witness:
  "\<exists>x st. compile_batch_spec ((demo_batch (Some 2))\<lparr>bs_kind := ''batch''\<rparr>) = Inr x
    \<and> selected_strategy_new x = Some st
    \<and> map (\<lambda>c. bt_get (cd_overrides c) ''agent.prompt'') (strategy_plan st accumulator_default [] None)
      = [Some ''a'', Some ''b'']"
proof -
  let ?s = "(demo_batch (Some 2))\<lparr>bs_kind := ''batch''\<rparr>"
  have n: "unat (effective_parallelism ?s) = 2" "bs_jobs ?s \<noteq> []" "trim (bw_template (bs_worker ?s)) \<noteq> []"
    by (simp_all add: effective_parallelism_def batch_parallelism_def demo_batch_def trim_def is_ws_def)
  then have x: "compile_batch_spec ?s = Inr (batch_execution ?s)"
    by (simp add: compile_batch_Inr batch_spec_ok)
  obtain st where st: "selected_strategy_new (batch_execution ?s) = Some st"
    by (simp add: selected_strategy_new_def batch_execution_def)
  have "[0 ..< 2] = [0, 1 :: nat]" by (simp add: upt_conv_Cons)
  with batch_plan_covers_prefix [OF x n(2) st, of "[]"] x st n(1) show ?thesis
    by (simp add: demo_batch_def)
qed

end
