(* ===== verification/Team.thy ===== *)
theory Team
  imports Batch
begin

text \<open>
  Team submissions (\<open>src/team/\<close>): the schema, its validation and the compilation to an execution
  specification. Lemmas: what a valid team guarantees, when it compiles, which tasks its plans cover.
\<close>

record team_metadata =
  tm_name :: "string option"

record agent_spec =
  ag_name :: string
  ag_role :: string
  ag_goal :: string
  ag_template :: "string option"

record task_spec =
  tk_name :: string
  tk_description :: string
  tk_agent :: "string option"
  tk_depends_on :: "string list"

record process_spec =
  ps_kind :: string
  ps_lead :: "string option"

record team_spec =
  ts_api_version :: string
  ts_kind :: string
  ts_metadata :: "team_metadata option"
  ts_agents :: "agent_spec list"
  ts_tasks :: "task_spec list"
  ts_process :: process_spec

subsection \<open>Validation\<close>

definition named :: "string \<Rightarrow> string \<Rightarrow> string" where
  "named prefix name = prefix @ ''['' @ squoted name @ '']''"

text \<open>The loop over the agents with the set of the names seen.\<close>

fun validate_agents :: "string set \<Rightarrow> agent_spec list \<Rightarrow> string + string set" where
  "validate_agents seen [] = Inr seen"
| "validate_agents seen (a # as) =
     (if trim (ag_name a) = [] then Inl ''agents[].name is required''
      else if trim (ag_role a) = [] then Inl (named ''agents'' (ag_name a) @ ''.role is required'')
      else if trim (ag_goal a) = [] then Inl (named ''agents'' (ag_name a) @ ''.goal is required'')
      else if ag_name a \<in> seen then Inl (''duplicate agent name '' @ squoted (ag_name a))
      else validate_agents (insert (ag_name a) seen) as)"

definition known_process :: "string \<Rightarrow> bool" where
  "known_process k = (k = ''sequential'' \<or> k = ''parallel'' \<or> k = ''lead_worker'')"

definition validate_process :: "string set \<Rightarrow> process_spec \<Rightarrow> string + unit" where
  "validate_process names p =
     (if \<not> known_process (ps_kind p)
      then Inl (''process.type must be one of sequential, parallel, lead_worker; got '' @ squoted (ps_kind p))
      else if ps_kind p = ''lead_worker'' \<and> ps_lead p = None
      then Inl ''process.lead is required for lead_worker teams''
      else case ps_lead p of
        None \<Rightarrow> Inr ()
      | Some lead \<Rightarrow> if lead \<notin> names
          then Inl (''process.lead references unknown agent '' @ squoted lead) else Inr ())"

definition unknown_agent :: "task_spec \<Rightarrow> string \<Rightarrow> string" where
  "unknown_agent t a = named ''tasks'' (tk_name t) @ ''.agent references unknown agent '' @ squoted a"

definition validate_task :: "string set \<Rightarrow> bool \<Rightarrow> string \<Rightarrow> task_spec \<Rightarrow> string + unit" where
  "validate_task names single process t =
     (if trim (tk_name t) = [] then Inl ''tasks[].name is required''
      else if trim (tk_description t) = []
      then Inl (named ''tasks'' (tk_name t) @ ''.description is required'')
      else if tk_depends_on t \<noteq> []
      then Inl (''phase1 team spec does not support depends_on; remove it from '' @ named ''tasks'' (tk_name t))
      else case tk_agent t of
        Some a \<Rightarrow> if a \<notin> names then Inl (unknown_agent t a) else Inr ()
      | None \<Rightarrow> if \<not> single \<and> process \<noteq> ''parallel''
          then Inl (named ''tasks'' (tk_name t) @ ''.agent is required unless process.type is parallel'')
          else Inr ())"

fun validate_tasks :: "string set \<Rightarrow> bool \<Rightarrow> string \<Rightarrow> task_spec list \<Rightarrow> string + unit" where
  "validate_tasks names single process [] = Inr ()"
| "validate_tasks names single process (t # ts) =
     res_bind (validate_task names single process t) (\<lambda>_. validate_tasks names single process ts)"

definition team_validate :: "team_spec \<Rightarrow> string + unit" where
  "team_validate s =
     (if trim (ts_api_version s) = [] then Inl ''api_version is required''
      else if ts_kind s \<noteq> ''team''
      then Inl (''kind must be '' @ squoted ''team'' @ '', got '' @ squoted (ts_kind s))
      else if ts_agents s = [] then Inl ''team spec must include at least one agent''
      else if ts_tasks s = [] then Inl ''team spec must include at least one task''
      else res_bind (validate_agents {} (ts_agents s)) (\<lambda>names.
           res_bind (validate_process names (ts_process s)) (\<lambda>_.
             validate_tasks names (length (ts_agents s) = 1) (ps_kind (ts_process s)) (ts_tasks s))))"

definition parse_team_yaml :: "(string \<Rightarrow> string + team_spec) \<Rightarrow> string \<Rightarrow> string + team_spec" where
  "parse_team_yaml decode text =
     res_bind (map_err (\<lambda>e. ''invalid team yaml: '' @ e) (decode text)) (\<lambda>s. map_ok (\<lambda>_. s) (team_validate s))"

definition parse_team_json :: "(string \<Rightarrow> string + team_spec) \<Rightarrow> string \<Rightarrow> string + team_spec" where
  "parse_team_json decode text =
     res_bind (map_err (\<lambda>e. ''invalid team json: '' @ e) (decode text)) (\<lambda>s. map_ok (\<lambda>_. s) (team_validate s))"

subsection \<open>Compilation\<close>

definition default_team_template :: string where
  "default_team_template = ''examples/runtime-templates/warm_agent_basic.yaml''"

definition find_agent :: "team_spec \<Rightarrow> string \<Rightarrow> agent_spec option" where
  "find_agent s name = find (\<lambda>a. ag_name a = name) (ts_agents s)"

definition task_agents :: "team_spec \<Rightarrow> task_spec \<Rightarrow> string + agent_spec list" where
  "task_agents s t =
     (case tk_agent t of
        None \<Rightarrow> Inr (ts_agents s)
      | Some name \<Rightarrow> (case find_agent s name of
            None \<Rightarrow> Inl (unknown_agent t name) | Some a \<Rightarrow> Inr [a]))"

definition task_proposal :: "task_spec \<Rightarrow> agent_spec \<Rightarrow> variation_proposal" where
  "task_proposal t a =
     \<lparr>vp_overrides = bt_insert ''agent.goal'' (ag_goal a) (bt_insert ''agent.role'' (ag_role a)
        (bt_insert ''agent.prompt'' (tk_description t) []))\<rparr>"

fun team_proposals :: "team_spec \<Rightarrow> task_spec list \<Rightarrow> string + variation_proposal list" where
  "team_proposals s [] = Inr []"
| "team_proposals s (t # ts) =
     res_bind (task_agents s t) (\<lambda>agents.
     res_bind (team_proposals s ts) (\<lambda>ps. Inr (map (task_proposal t) agents @ ps)))"

text \<open>The loop over the agents' templates with the one chosen so far.\<close>

fun choose_template :: "string option \<Rightarrow> agent_spec list \<Rightarrow> string + string option" where
  "choose_template chosen [] = Inr chosen"
| "choose_template chosen (a # as) =
     (case ag_template a of
        None \<Rightarrow> choose_template chosen as
      | Some template \<Rightarrow>
          if trim template = [] then choose_template chosen as
          else (case chosen of
                  None \<Rightarrow> choose_template (Some template) as
                | Some current \<Rightarrow> if current \<noteq> template
                    then Inl ''team agents must share the same template in phase1''
                    else choose_template chosen as))"

definition workflow_template :: "team_spec \<Rightarrow> string + string" where
  "workflow_template s =
     map_ok (\<lambda>c. case c of None \<Rightarrow> default_team_template | Some t \<Rightarrow> t) (choose_template None (ts_agents s))"

definition concurrency_limit :: "team_spec \<Rightarrow> u32" where
  "concurrency_limit s =
     (if ps_kind (ts_process s) = ''sequential'' then 1
      else if ps_kind (ts_process s) = ''parallel'' then of_nat (max (length (ts_agents s)) 1)
      else of_nat (max (length (ts_tasks s)) 1))"

definition team_supervision :: "team_spec \<Rightarrow> supervision_config option" where
  "team_supervision s =
     (if ps_kind (ts_process s) \<noteq> ''lead_worker'' then None
      else case ps_lead (ts_process s) of
        None \<Rightarrow> None
      | Some lead \<Rightarrow> Some
          \<lparr>sc_supervisor_role = (case find_agent s lead of Some a \<Rightarrow> ag_role a | None \<Rightarrow> ''Supervisor''),
           sc_review_policy = \<lparr>rp_max_revision_rounds = 1, rp_retry_on_runtime_failure = True,
             rp_require_final_approval = False\<rparr>\<rparr>)"

definition team_goal :: "team_spec \<Rightarrow> string" where
  "team_goal s =
     (case Option.bind (ts_metadata s) tm_name of
        None \<Rightarrow> ''run '' @ nat_to_string (length (ts_tasks s)) @ '' team tasks''
      | Some name \<Rightarrow> name)"

definition candidates_per_iteration :: "team_spec \<Rightarrow> u32" where
  "candidates_per_iteration s =
     (if ps_kind (ts_process s) = ''sequential'' then 1
      else max 1 (fold (\<lambda>t count. count + (if tk_agent t \<noteq> None then 1 else len_u32 (ts_agents s)))
             (ts_tasks s) 0))"

definition team_execution :: "team_spec \<Rightarrow> variation_proposal list \<Rightarrow> string \<Rightarrow> execution_spec" where
  "team_execution s explicit template =
     \<lparr>es_mode = (if ps_kind (ts_process s) = ''lead_worker'' then ''supervision'' else ''swarm''),
      es_goal = team_goal s,
      es_workflow = \<lparr>wt_template = template\<rparr>,
      es_policy = \<lparr>op_budget =
          \<lparr>bp_max_iterations = (if ps_kind (ts_process s) = ''sequential'' then Some (len_u32 (ts_tasks s)) else Some 1),
           bp_max_child_runs = Some (len_u32 explicit), bp_max_wall_clock_secs = Some 1800,
           bp_max_cost_usd_millis = None\<rparr>,
        op_concurrency = \<lparr>max_concurrent_candidates = concurrency_limit s\<rparr>,
        op_convergence = \<lparr>cp_strategy = ''exhaustive'', cp_min_score = None,
          cp_max_iterations_without_improvement = None\<rparr>,
        op_max_candidate_failures_per_iteration = len_u32 explicit,
        op_missing_output_policy = ''mark_failed'', op_iteration_failure_policy = ''continue''\<rparr>,
      es_evaluation = \<lparr>ec_scoring_type = ''weighted_metrics'', ec_weights = [(''success'', Fin 1)],
        ec_pass_threshold = Some (Fin 1), ec_ranking = ''highest_score'', ec_tie_breaking = ''success''\<rparr>,
      es_variation = variation_explicit (candidates_per_iteration s) explicit,
      es_swarm = True, es_supervision = team_supervision s\<rparr>"

definition compile_team_spec :: "team_spec \<Rightarrow> string + execution_spec" where
  "compile_team_spec s =
     res_bind (team_validate s) (\<lambda>_.
     res_bind (team_proposals s (ts_tasks s)) (\<lambda>explicit.
     res_bind (workflow_template s) (\<lambda>template.
       let x = team_execution s explicit template in
       map_ok (\<lambda>_. x) (map_err (\<lambda>e. ''compiled execution spec is invalid: '' @ e)
         (spec_validate x front_end_global)))))"

subsection \<open>What validation guarantees\<close>

definition task_ok :: "team_spec \<Rightarrow> task_spec \<Rightarrow> bool" where
  "task_ok s t = (trim (tk_name t) \<noteq> [] \<and> trim (tk_description t) \<noteq> [] \<and> tk_depends_on t = []
     \<and> (case tk_agent t of
          Some a \<Rightarrow> a \<in> ag_name ` set (ts_agents s)
        | None \<Rightarrow> length (ts_agents s) = 1 \<or> ps_kind (ts_process s) = ''parallel''))"

definition team_ok :: "team_spec \<Rightarrow> bool" where
  "team_ok s = (trim (ts_api_version s) \<noteq> [] \<and> ts_kind s = ''team'' \<and> ts_agents s \<noteq> [] \<and> ts_tasks s \<noteq> []
     \<and> distinct (map ag_name (ts_agents s))
     \<and> (\<forall>a \<in> set (ts_agents s). trim (ag_name a) \<noteq> [] \<and> trim (ag_role a) \<noteq> [] \<and> trim (ag_goal a) \<noteq> [])
     \<and> known_process (ps_kind (ts_process s))
     \<and> (ps_kind (ts_process s) = ''lead_worker'' \<longrightarrow> ps_lead (ts_process s) \<noteq> None)
     \<and> (\<forall>lead. ps_lead (ts_process s) = Some lead \<longrightarrow> lead \<in> ag_name ` set (ts_agents s))
     \<and> (\<forall>t \<in> set (ts_tasks s). task_ok s t))"

lemma validate_agents_Inr:
  "validate_agents seen as = Inr names \<longleftrightarrow>
     names = seen \<union> ag_name ` set as \<and> distinct (map ag_name as) \<and> seen \<inter> ag_name ` set as = {}
     \<and> (\<forall>a \<in> set as. trim (ag_name a) \<noteq> [] \<and> trim (ag_role a) \<noteq> [] \<and> trim (ag_goal a) \<noteq> [])"
  by (induction as arbitrary: seen) auto

lemma validate_process_Inr:
  "validate_process names p = Inr u \<longleftrightarrow> known_process (ps_kind p)
     \<and> (ps_kind p = ''lead_worker'' \<longrightarrow> ps_lead p \<noteq> None) \<and> (\<forall>lead. ps_lead p = Some lead \<longrightarrow> lead \<in> names)"
  by (auto simp: validate_process_def split: option.splits)

lemma validate_tasks_Inr:
  "validate_tasks names single process ts = Inr u \<longleftrightarrow> (\<forall>t \<in> set ts. validate_task names single process t = Inr ())"
  by (induction ts) (auto simp: result_simps)

lemma team_validate_Inr: "team_validate s = Inr u \<longleftrightarrow> team_ok s"
proof -
  have task: "validate_task (ag_name ` set (ts_agents s)) (length (ts_agents s) = 1) (ps_kind (ts_process s)) t = Inr ()
      \<longleftrightarrow> task_ok s t" for t
    by (auto simp: validate_task_def task_ok_def split: option.splits)
  show ?thesis
    unfolding team_validate_def team_ok_def
    by (auto simp: result_simps validate_agents_Inr validate_process_Inr validate_tasks_Inr task simp del: One_nat_def)
qed

subsection \<open>What is compiled\<close>

definition agents_for :: "team_spec \<Rightarrow> task_spec \<Rightarrow> agent_spec list" where
  "agents_for s t = (case tk_agent t of None \<Rightarrow> ts_agents s
     | Some name \<Rightarrow> [the (find_agent s name)])"

definition all_proposals :: "team_spec \<Rightarrow> variation_proposal list" where
  "all_proposals s = concat (map (\<lambda>t. map (task_proposal t) (agents_for s t)) (ts_tasks s))"

lemma find_agent_known:
  assumes "name \<in> ag_name ` set (ts_agents s)"
  shows "\<exists>a \<in> set (ts_agents s). find_agent s name = Some a \<and> ag_name a = name"
proof -
  have "find_agent s name \<noteq> None" using assms by (auto simp: find_agent_def find_None_iff)
  then obtain a where "find_agent s name = Some a" by blast
  then show ?thesis by (auto simp: find_agent_def find_Some_iff)
qed

lemma task_agents_ok: "task_ok s t \<Longrightarrow> task_agents s t = Inr (agents_for s t)"
  using find_agent_known [of _ s] by (fastforce simp: task_ok_def task_agents_def agents_for_def split: option.splits)

lemma team_proposals_ok:
  "(\<forall>t \<in> set ts. task_ok s t) \<Longrightarrow>
     team_proposals s ts = Inr (concat (map (\<lambda>t. map (task_proposal t) (agents_for s t)) ts))"
  by (induction ts) (simp_all add: task_agents_ok)

text \<open>The templates the agents name, blank ones left out.\<close>

definition declared :: "agent_spec list \<Rightarrow> string list" where
  "declared as = filter (\<lambda>t. trim t \<noteq> []) (List.map_filter ag_template as)"

definition templates_agree :: "team_spec \<Rightarrow> bool" where
  "templates_agree s = (\<forall>t \<in> set (declared (ts_agents s)). \<forall>u \<in> set (declared (ts_agents s)). t = u)"

lemma declared_Cons:
  "declared (a # as) = (case ag_template a of None \<Rightarrow> declared as
     | Some t \<Rightarrow> if trim t = [] then declared as else t # declared as)"
  by (simp add: declared_def List.map_filter_simps split: option.split)

lemma choose_template_Inr:
  "(\<exists>c. choose_template chosen as = Inr c) \<longleftrightarrow>
     (\<forall>t \<in> set (declared as). \<forall>u \<in> set (declared as) \<union> set_option chosen. t = u)"
proof (induction as arbitrary: chosen)
  case Nil
  then show ?case by (simp add: declared_def List.map_filter_simps)
next
  case (Cons a as)
  show ?case
  proof (cases "ag_template a")
    case None
    with Cons show ?thesis by (simp add: declared_Cons)
  next
    case (Some t)
    show ?thesis
    proof (cases "trim t = []")
      case True
      with Some Cons show ?thesis by (simp add: declared_Cons)
    next
      case False
      have d: "declared (a # as) = t # declared as" using Some False by (simp add: declared_Cons)
      show ?thesis
      proof (cases chosen)
        case None
        then have "(\<exists>c. choose_template chosen (a # as) = Inr c) \<longleftrightarrow>
            (\<forall>v \<in> set (declared as). \<forall>u \<in> set (declared as) \<union> {t}. v = u)"
          using Some False Cons [of "Some t"] by simp
        with None d show ?thesis by auto
      next
        case (Some c)
        then have "(\<exists>r. choose_template chosen (a # as) = Inr r) \<longleftrightarrow>
            c = t \<and> (\<forall>v \<in> set (declared as). \<forall>u \<in> set (declared as) \<union> {c}. v = u)"
          using \<open>ag_template a = Some t\<close> False Cons [of "Some c"] by (cases "c = t") auto
        with Some d show ?thesis by auto
      qed
    qed
  qed
qed

lemma choose_template_nonblank:
  "choose_template chosen as = Inr c \<Longrightarrow> (\<forall>u. chosen = Some u \<longrightarrow> trim u \<noteq> []) \<Longrightarrow> (\<forall>u. c = Some u \<longrightarrow> trim u \<noteq> [])"
proof (induction as arbitrary: chosen)
  case (Cons a as)
  obtain chosen' where "choose_template chosen' as = Inr c" "\<forall>u. chosen' = Some u \<longrightarrow> trim u \<noteq> []"
    using Cons.prems by (auto split: option.splits if_splits)
  then show ?case by (rule Cons.IH)
qed simp

lemma workflow_template_ok:
  "(\<exists>t. workflow_template s = Inr t) \<longleftrightarrow> templates_agree s"
  "workflow_template s = Inr t \<Longrightarrow> trim t \<noteq> []"
proof -
  have "(\<exists>t. workflow_template s = Inr t) \<longleftrightarrow> (\<exists>c. choose_template None (ts_agents s) = Inr c)"
    by (auto simp: workflow_template_def map_ok_Inr_iff)
  then show "(\<exists>t. workflow_template s = Inr t) \<longleftrightarrow> templates_agree s"
    unfolding choose_template_Inr templates_agree_def by simp
  have "trim default_team_template \<noteq> []" by (simp add: default_team_template_def trim_def is_ws_def)
  then show "workflow_template s = Inr t \<Longrightarrow> trim t \<noteq> []"
    using choose_template_nonblank [of None "ts_agents s"]
    by (auto simp: workflow_template_def map_ok_Inr_iff split: option.splits)
qed

lemma team_spec_ok:
  assumes "team_ok s" "trim template \<noteq> []"
  shows "spec_ok front_end_global (team_execution s explicit template) \<longleftrightarrow> unat (concurrency_limit s) \<in> {1..20}"
proof -
  have super: "supervision_ok (team_execution s explicit template)"
  proof (cases "ps_kind (ts_process s) = ''lead_worker''")
    case True
    then obtain lead where lead: "ps_lead (ts_process s) = Some lead" "lead \<in> ag_name ` set (ts_agents s)"
      using assms(1) by (auto simp: team_ok_def)
    from find_agent_known [OF lead(2)] obtain a where "a \<in> set (ts_agents s)" "find_agent s lead = Some a" by blast
    with True lead assms(1) show ?thesis
      by (simp add: supervision_ok_def team_execution_def team_supervision_def team_ok_def)
  qed (simp add: supervision_ok_def team_execution_def)
  have "candidates_per_iteration s \<noteq> 0"
    by (simp add: candidates_per_iteration_def max_def) (metis linorder_not_le word_le_0_iff word_not_simps(3) zero_neq_one)
  then have "0 < unat (candidates_per_iteration s)" by (simp add: unat_gt_0)
  with super assms(2) show ?thesis
    by (auto simp: spec_ok_def policy_ok_def convergence_ok_def known_variation_source_def
        front_end_global_def team_execution_def variation_explicit_def)
qed

lemma compile_team_Inr:
  assumes "team_ok s"
  shows "compile_team_spec s = Inr x \<longleftrightarrow> (\<exists>t. workflow_template s = Inr t
    \<and> x = team_execution s (all_proposals s) t \<and> spec_ok front_end_global x)"
proof -
  have "team_validate s = Inr ()" using assms by (simp add: team_validate_Inr)
  moreover have "team_proposals s (ts_tasks s) = Inr (all_proposals s)"
    using assms by (simp add: team_ok_def team_proposals_ok all_proposals_def)
  ultimately show ?thesis
    by (auto simp: compile_team_spec_def Let_def result_simps spec_validate_Inr)
qed

subsection \<open>What is planned\<close>

lemma sequential_proposals:
  assumes "team_ok s" "ps_kind (ts_process s) = ''sequential''"
  shows "all_proposals s = map (\<lambda>t. task_proposal t (hd (agents_for s t))) (ts_tasks s)"
proof -
  have "agents_for s t = [hd (agents_for s t)]" if "t \<in> set (ts_tasks s)" for t
  proof -
    have "length (agents_for s t) = 1"
      using assms that by (cases "tk_agent t") (auto simp: team_ok_def task_ok_def agents_for_def)
    then show ?thesis by (cases "agents_for s t") auto
  qed
  note single = this
  have "map (task_proposal t) (agents_for s t) = [task_proposal t (hd (agents_for s t))]"
    if "t \<in> set (ts_tasks s)" for t
    by (subst single [OF that]) simp
  then have "map (\<lambda>t. map (task_proposal t) (agents_for s t)) (ts_tasks s)
      = map (\<lambda>t. [task_proposal t (hd (agents_for s t))]) (ts_tasks s)"
    by (rule map_cong [OF refl])
  then show ?thesis unfolding all_proposals_def by (simp only: concat_map_singleton)
qed

lemma fold_count:
  "fold (\<lambda>t count. count + (if tk_agent t \<noteq> None then 1 else len_u32 (ts_agents s))) ts c
     = c + len_u32 (concat (map (\<lambda>t. map (task_proposal t) (agents_for s t)) ts))"
  by (induction ts arbitrary: c) (auto simp: len_u32_def agents_for_def split: option.split)

lemma candidates_all:
  assumes "ps_kind (ts_process s) \<noteq> ''sequential''" "all_proposals s \<noteq> []" "length (all_proposals s) < 2 ^ 32"
  shows "unat (candidates_per_iteration s) = length (all_proposals s)"
proof -
  have len: "unat (len_u32 (all_proposals s)) = length (all_proposals s)" using assms(3) by (rule unat_len_u32)
  then have "len_u32 (all_proposals s) \<noteq> 0" using assms(2) by auto
  then have "1 \<le> len_u32 (all_proposals s)" by (simp add: word_le_nat_alt len Suc_le_eq assms(2))
  moreover have "candidates_per_iteration s = max 1 (len_u32 (all_proposals s))"
    unfolding candidates_per_iteration_def fold_count all_proposals_def using assms(1) by simp
  ultimately show ?thesis using len by (simp add: max_def)
qed

lemma all_proposals_nonempty: "team_ok s \<Longrightarrow> all_proposals s \<noteq> []"
  by (cases "ts_tasks s"; cases "ts_agents s")
    (auto simp: team_ok_def all_proposals_def agents_for_def split: option.split)

lemma plan_overrides:
  assumes "selected_strategy_new x = Some st"
  shows "map cd_overrides (strategy_plan st acc inboxes None) = map vp_overrides (generate (es_variation x) acc)"
  using assms
  by (auto simp: selected_strategy_new_def swarm_plan_candidates_def supervision_plan_candidates_def
      advisory_message_stats_def candidate_specs_overrides split: if_splits option.splits)

subsection \<open>Properties\<close>

text \<open>
  C22: A valid team compiles exactly if its agents name at most one template and the concurrency its
  process asks for - one, the number of agents, or the number of tasks - is within 1 and 20; validation
  makes every lookup of an agent succeed, so nothing else can fail, and the compiled specification is
  valid under the limits of the front ends.
\<close>

theorem team_compiles_iff:
  assumes "team_validate s = Inr ()"
  shows "case compile_team_spec s of
      Inr x \<Rightarrow> templates_agree s \<and> unat (concurrency_limit s) \<in> {1..20} \<and> spec_ok front_end_global x
        \<and> (\<exists>t. workflow_template s = Inr t \<and> x = team_execution s (all_proposals s) t)
    | Inl _ \<Rightarrow> \<not> templates_agree s \<or> unat (concurrency_limit s) \<notin> {1..20}"
proof -
  have ok: "team_ok s" using assms by (simp add: team_validate_Inr)
  have valid: "spec_ok front_end_global (team_execution s ps t) \<longleftrightarrow> unat (concurrency_limit s) \<in> {1..20}"
    if "workflow_template s = Inr t" for t ps
    by (rule team_spec_ok [OF ok workflow_template_ok(2) [OF that]])
  show ?thesis
  proof (cases "compile_team_spec s")
    case (Inl e)
    then have "\<nexists>x. compile_team_spec s = Inr x" by simp
    with valid have "\<not> templates_agree s \<or> unat (concurrency_limit s) \<notin> {1..20}"
      unfolding compile_team_Inr [OF ok] workflow_template_ok(1) [symmetric] by blast
    with Inl show ?thesis by simp
  next
    case (Inr x)
    then obtain t where "workflow_template s = Inr t" "x = team_execution s (all_proposals s) t"
      "spec_ok front_end_global x"
      unfolding compile_team_Inr [OF ok] by blast
    with valid workflow_template_ok(1) [of s] Inr show ?thesis by auto
  qed
qed

definition demo_team :: "string \<Rightarrow> team_spec" where
  "demo_team k = \<lparr>ts_api_version = ''v1'', ts_kind = ''team'', ts_metadata = None,
     ts_agents = [\<lparr>ag_name = ''ann'', ag_role = ''lead'', ag_goal = ''g'', ag_template = None\<rparr>,
                  \<lparr>ag_name = ''bob'', ag_role = ''dev'', ag_goal = ''h'', ag_template = Some ''t.yaml''\<rparr>],
     ts_tasks = [\<lparr>tk_name = ''t1'', tk_description = ''d1'', tk_agent = Some ''ann'', tk_depends_on = []\<rparr>,
                 \<lparr>tk_name = ''t2'', tk_description = ''d2'', tk_agent = Some ''bob'', tk_depends_on = []\<rparr>],
     ts_process = \<lparr>ps_kind = k, ps_lead = Some ''ann''\<rparr>\<rparr>"

lemma demo_team_valid: "known_process k \<Longrightarrow> team_validate (demo_team k) = Inr ()"
  unfolding team_validate_Inr by (simp add: team_ok_def task_ok_def demo_team_def trim_def is_ws_def)

lemma team_compiles_iff_witness:
  "\<exists>x. compile_team_spec (demo_team ''lead_worker'') = Inr x \<and> spec_ok front_end_global x"
proof -
  have "templates_agree (demo_team ''lead_worker'')" "unat (concurrency_limit (demo_team ''lead_worker'')) = 2"
    by (simp_all add: templates_agree_def declared_def List.map_filter_simps concurrency_limit_def demo_team_def)
  with team_compiles_iff [OF demo_team_valid, of "''lead_worker''"] show ?thesis
    by (auto simp: known_process_def split: sum.splits)
qed

text \<open>
  What a compiled team plans. A sequential team has as many iterations as tasks and, with the k-th
  iteration planned after k scored ones, plans exactly the k-th task in it; the other processes have one
  iteration and plan every task for every agent it is meant for exactly once. So a lead-worker team, whose
  review policy allows a revision round, has no iteration left in which a revision could run.
\<close>

theorem team_plan_covers_tasks:
  assumes "compile_team_spec s = Inr x" and "selected_strategy_new x = Some st"
    and "length (all_proposals s) < 2 ^ 32" and "length (ts_tasks s) < 2 ^ 32"
  shows "if ps_kind (ts_process s) = ''sequential''
    then bp_max_iterations (op_budget (es_policy x)) = Some (len_u32 (ts_tasks s))
      \<and> (\<forall>k < length (ts_tasks s). \<forall>acc inboxes. ac_scoring_history_len acc = of_nat k \<longrightarrow>
          map (\<lambda>c. bt_get (cd_overrides c) ''agent.prompt'') (strategy_plan st acc inboxes None)
          = [Some (tk_description (ts_tasks s ! k))])
    else bp_max_iterations (op_budget (es_policy x)) = Some 1
      \<and> (ps_kind (ts_process s) = ''lead_worker'' \<longrightarrow>
          (\<exists>c. es_supervision x = Some c \<and> rp_max_revision_rounds (sc_review_policy c) = 1))
      \<and> (\<forall>inboxes. map cd_overrides (strategy_plan st accumulator_default inboxes None)
          = map vp_overrides (all_proposals s))"
proof -
  have ok: "team_ok s" using assms(1) by (auto simp: compile_team_spec_def result_simps team_validate_Inr)
  obtain t where x: "x = team_execution s (all_proposals s) t"
    using assms(1) unfolding compile_team_Inr [OF ok] by blast
  have var: "es_variation x = variation_explicit (candidates_per_iteration s) (all_proposals s)"
    by (simp add: x team_execution_def)
  note ne = all_proposals_nonempty [OF ok]
  have gen: "generate (es_variation x) acc ! i = all_proposals s ! ((unat (ac_scoring_history_len acc) + i) mod length (all_proposals s))"
    "length (generate (es_variation x) acc) = unat (candidates_per_iteration s)"
    if "i < unat (candidates_per_iteration s)" for acc i
    using nth_generate_explicit [of "es_variation x" i acc] length_generate_explicit [of "es_variation x" acc] ne that
    by (simp_all add: var generate_def variation_explicit_def)
  show ?thesis
  proof (cases "ps_kind (ts_process s) = ''sequential''")
    case True
    have one: "unat (candidates_per_iteration s) = 1" using True by (simp add: candidates_per_iteration_def)
    have plan: "map (\<lambda>c. bt_get (cd_overrides c) ''agent.prompt'') (strategy_plan st acc inboxes None)
        = [Some (tk_description (ts_tasks s ! k))]"
      if k: "k < length (ts_tasks s)" and acc: "ac_scoring_history_len acc = of_nat k" for k acc inboxes
    proof -
      have "unat (of_nat k :: u32) = k" using k assms(4) by (simp add: unat_of_nat)
      with k acc one gen [of 0 acc] sequential_proposals [OF ok True]
      have "generate (es_variation x) acc = [task_proposal (ts_tasks s ! k) (hd (agents_for s (ts_tasks s ! k)))]"
        by (auto simp: length_Suc_conv)
      with plan_overrides [OF assms(2), of acc inboxes]
      have "map cd_overrides (strategy_plan st acc inboxes None)
          = [vp_overrides (task_proposal (ts_tasks s ! k) (hd (agents_for s (ts_tasks s ! k))))]" by simp
      then show ?thesis by (auto simp: map_eq_Cons_conv task_proposal_def)
    qed
    have "bp_max_iterations (op_budget (es_policy x)) = Some (len_u32 (ts_tasks s))"
      using True by (simp add: x team_execution_def)
    with True plan show ?thesis by simp
  next
    case False
    note all = candidates_all [OF False ne assms(3)]
    have "generate (es_variation x) accumulator_default = all_proposals s"
    proof (rule nth_equalityI)
      show "length (generate (es_variation x) accumulator_default) = length (all_proposals s)"
        using gen(2) [of 0] all ne by simp
      fix i
      assume "i < length (generate (es_variation x) accumulator_default)"
      then have i: "i < length (all_proposals s)" using gen(2) [of 0] all ne by simp
      then have "generate (es_variation x) accumulator_default ! i
          = all_proposals s ! ((unat (0 :: u32) + i) mod length (all_proposals s))"
        using gen(1) [of i accumulator_default] all by (simp add: accumulator_default_def)
      with i show "generate (es_variation x) accumulator_default ! i = all_proposals s ! i" by simp
    qed
    with plan_overrides [OF assms(2)]
    have "map cd_overrides (strategy_plan st accumulator_default inboxes None) = map vp_overrides (all_proposals s)" for inboxes
      by simp
    moreover have "\<exists>c. es_supervision x = Some c \<and> rp_max_revision_rounds (sc_review_policy c) = 1"
      if "ps_kind (ts_process s) = ''lead_worker''"
      using ok that by (auto simp: x team_execution_def team_supervision_def team_ok_def)
    moreover have "bp_max_iterations (op_budget (es_policy x)) = Some 1"
      using False by (simp add: x team_execution_def)
    ultimately show ?thesis using False by simp
  qed
qed

lemma team_plan_covers_tasks_witness:
  "\<exists>x st. compile_team_spec (demo_team ''sequential'') = Inr x \<and> selected_strategy_new x = Some st
    \<and> bp_max_iterations (op_budget (es_policy x)) = Some 2
    \<and> map (\<lambda>c. bt_get (cd_overrides c) ''agent.prompt'')
        (strategy_plan st (accumulator_default\<lparr>ac_scoring_history_len := 1\<rparr>) [] None) = [Some ''d2'']"
proof -
  let ?s = "demo_team ''sequential''"
  have "team_validate ?s = Inr ()" by (rule demo_team_valid) (simp add: known_process_def)
  moreover have "templates_agree ?s" "unat (concurrency_limit ?s) = 1"
    by (simp_all add: templates_agree_def declared_def List.map_filter_simps concurrency_limit_def demo_team_def)
  ultimately obtain x where x: "compile_team_spec ?s = Inr x" "spec_ok front_end_global x"
    using team_compiles_iff [of ?s] by (auto split: sum.splits)
  then obtain st where st: "selected_strategy_new x = Some st"
    using selected_strategy_total by blast
  have n: "length (all_proposals ?s) = 2" "length (ts_tasks ?s) = 2"
    "tk_description (ts_tasks ?s ! 1) = ''d2''" "ps_kind (ts_process ?s) = ''sequential''" "len_u32 (ts_tasks ?s) = 2"
    by (simp_all add: all_proposals_def agents_for_def demo_team_def len_u32_def)
  have "bp_max_iterations (op_budget (es_policy x)) = Some 2"
    "ac_scoring_history_len acc = of_nat 1 \<Longrightarrow>
      map (\<lambda>c. bt_get (cd_overrides c) ''agent.prompt'') (strategy_plan st acc [] None) = [Some ''d2'']" for acc
    using team_plan_covers_tasks [OF x(1) st] n by (auto dest: spec [of _ 1])
  with x(1) st show ?thesis by simp
qed

end
