(* ===== verification/Templates.thy ===== *)
theory Templates
  imports Batch
begin

text \<open>
  Control templates (\<open>src/templates/\<close>): the schema and its validation, the inputs, the paths of
  bindings, and the compilation to an execution specification. The library's reading of YAML, its
  conversion between specifications and JSON and its printing of floats are the record \<open>serde\<close>.
  Lemmas: writing through a path changes exactly that place, targets of overrides are read back, what a
  compiled template guarantees.
\<close>

subsection \<open>Schema\<close>

record template_metadata =
  tp_id :: string
  tp_name :: string
  tp_execution_kind :: string
  tp_description :: string

record input_field =
  if_type :: string
  if_required :: bool
  if_description :: string
  if_default :: "json option"
  if_values :: "string list option"
  if_min :: "f64 option"
  if_max :: "f64 option"

record template_defaults =
  td_workflow_template :: string
  td_execution_spec :: execution_spec

record compile_binding =
  cb_input :: string
  cb_target :: string

record control_template =
  ct_api_version :: string
  ct_kind :: string
  ct_template :: template_metadata
  ct_inputs :: "(string, input_field) btree"
  ct_defaults :: template_defaults
  ct_bindings :: "compile_binding list"

record serde =
  se_template :: "string \<Rightarrow> string + control_template"
  se_spec_to_json :: "execution_spec \<Rightarrow> string + json"
  se_spec_from_json :: "json \<Rightarrow> string + execution_spec"
  se_float_text :: "f64 \<Rightarrow> string"

definition validate_field :: "string \<Rightarrow> input_field \<Rightarrow> string + unit" where
  "validate_field name f =
     (if if_type f \<in> {''string'', ''integer'', ''number'', ''boolean''} then Inr ()
      else if if_type f = ''enum'' then
        (case if_values f of
           None \<Rightarrow> Inl (''input '' @ squoted name @ '' of type enum must define values'')
         | Some vs \<Rightarrow> if vs = [] then Inl (''input '' @ squoted name @ '' enum values must not be empty'') else Inr ())
      else Inl (''unsupported input type '' @ squoted (if_type f) @ '' for '' @ squoted name))"

text \<open>A loop of checks that stops at the first error.\<close>

fun check_all :: "('a \<Rightarrow> 'e + unit) \<Rightarrow> 'a list \<Rightarrow> 'e + unit" where
  "check_all f [] = Inr ()"
| "check_all f (x # xs) = res_bind (f x) (\<lambda>_. check_all f xs)"

definition template_validate :: "control_template \<Rightarrow> string + unit" where
  "template_validate t =
     (if trim (ct_api_version t) = [] then Inl ''api_version is required''
      else if ct_kind t \<noteq> ''control_template''
      then Inl (''unsupported template kind '' @ squoted (ct_kind t))
      else if tp_execution_kind (ct_template t) \<notin> {''single_agent'', ''warm_agent'', ''execution''}
      then Inl (''unsupported execution_kind '' @ squoted (tp_execution_kind (ct_template t)))
      else if trim (td_workflow_template (ct_defaults t)) = []
      then Inl ''defaults.workflow_template is required''
      else if ct_bindings t = [] then Inl ''compile.bindings must not be empty''
      else res_bind (check_all (\<lambda>(name, f). validate_field name f) (ct_inputs t)) (\<lambda>_.
        check_all (\<lambda>b. if bt_get (ct_inputs t) (cb_input b) = None
          then Inl (''binding references unknown input '' @ squoted (cb_input b)) else Inr ()) (ct_bindings t)))"

definition parse_template_yaml :: "serde \<Rightarrow> string \<Rightarrow> string + control_template" where
  "parse_template_yaml se yaml =
     res_bind (map_err (\<lambda>e. ''invalid template yaml: '' @ e) (se_template se yaml)) (\<lambda>t.
       map_ok (\<lambda>_. t) (template_validate t))"

subsection \<open>Inputs\<close>

definition validate_numeric_range :: "serde \<Rightarrow> string \<Rightarrow> input_field \<Rightarrow> f64 \<Rightarrow> string + unit" where
  "validate_numeric_range se name f v =
     res_bind (case if_min f of None \<Rightarrow> Inr ()
       | Some lo \<Rightarrow> if f64_lt v lo
           then Inl (''input '' @ squoted name @ '' must be >= '' @ se_float_text se lo) else Inr ()) (\<lambda>_.
       case if_max f of None \<Rightarrow> Inr ()
       | Some hi \<Rightarrow> if f64_lt hi v
           then Inl (''input '' @ squoted name @ '' must be <= '' @ se_float_text se hi) else Inr ())"

text \<open>\<open>as_i64\<close>, or else \<open>as_u64\<close> cast to \<open>i64\<close>: the bits of the word are kept.\<close>

definition integer_of :: "json \<Rightarrow> i64 option" where
  "integer_of v = (case json_as_i64 v of Some i \<Rightarrow> Some i | None \<Rightarrow> json_as_u64 v)"

fun join_comma :: "string list \<Rightarrow> string" where
  "join_comma [] = []"
| "join_comma [s] = s"
| "join_comma (s # t # ss) = s @ '', '' @ join_comma (t # ss)"

definition validate_input_value :: "serde \<Rightarrow> string \<Rightarrow> input_field \<Rightarrow> json \<Rightarrow> string + unit" where
  "validate_input_value se name f v =
     (if if_type f = ''string'' then
        (if json_as_str v = None then Inl (''input '' @ squoted name @ '' must be a string'') else Inr ())
      else if if_type f = ''enum'' then
        (case json_as_str v of
           None \<Rightarrow> Inl (''input '' @ squoted name @ '' must be a string'')
         | Some raw \<Rightarrow> (case if_values f of
             None \<Rightarrow> Inl (''input '' @ squoted name @ '' enum values are not configured'')
           | Some vs \<Rightarrow> if raw \<notin> set vs
               then Inl (''input '' @ squoted name @ '' must be one of ['' @ join_comma vs @ '']'') else Inr ()))
      else if if_type f = ''integer'' then
        (case integer_of v of
           None \<Rightarrow> Inl (''input '' @ squoted name @ '' must be an integer'')
         | Some i \<Rightarrow> validate_numeric_range se name f (f64_of_int (sint i)))
      else if if_type f = ''number'' then
        (case json_as_f64 v of
           None \<Rightarrow> Inl (''input '' @ squoted name @ '' must be a number'')
         | Some d \<Rightarrow> validate_numeric_range se name f d)
      else if if_type f = ''boolean'' then
        (if json_as_bool v = None then Inl (''input '' @ squoted name @ '' must be a boolean'') else Inr ())
      else Inl (''unsupported input type '' @ squoted (if_type f) @ '' for '' @ squoted name))"

fun normalize_fields ::
    "serde \<Rightarrow> (string, json) btree \<Rightarrow> (string \<times> input_field) list \<Rightarrow> (string, json) btree
     \<Rightarrow> string + (string, json) btree" where
  "normalize_fields se inputs [] normalized = Inr normalized"
| "normalize_fields se inputs ((name, f) # fs) normalized =
     (case (case bt_get inputs name of Some v \<Rightarrow> Some v | None \<Rightarrow> if_default f) of
        None \<Rightarrow> if if_required f then Inl (''missing required input '' @ squoted name)
                else normalize_fields se inputs fs normalized
      | Some v \<Rightarrow> res_bind (validate_input_value se name f v) (\<lambda>_.
          normalize_fields se inputs fs (bt_insert name v normalized)))"

definition normalize_inputs ::
    "serde \<Rightarrow> control_template \<Rightarrow> (string, json) btree \<Rightarrow> string + (string, json) btree" where
  "normalize_inputs se t inputs =
     res_bind (check_all (\<lambda>(key, _). if bt_get (ct_inputs t) key = None
         then Inl (''unknown input '' @ squoted key) else Inr ()) inputs) (\<lambda>_.
       normalize_fields se inputs (ct_inputs t) [])"

subsection \<open>Paths\<close>

datatype path_token = PField string | PIndex usize

lemma split_once_length: "split_once c s = Some (a, b) \<Longrightarrow> length s = Suc (length a + length b)"
  by (induction s arbitrary: a) (auto split: if_splits option.splits)

text \<open>The inner loop of \<open>parse_path_tokens\<close> on one part of the path.\<close>

function part_tokens :: "string \<Rightarrow> string \<Rightarrow> string + path_token list" where
  "part_tokens path rest =
     (case split_once (CHR ''['') rest of
        None \<Rightarrow> Inr (if rest = [] then [] else [PField rest])
      | Some (name, r) \<Rightarrow>
          (case split_once (CHR '']'') r of
             None \<Rightarrow> Inl (''invalid binding path '' @ squoted path)
           | Some (digits, rest') \<Rightarrow>
               res_bind (map_err (\<lambda>_. ''invalid binding path '' @ squoted path) (parse_word digits)) (\<lambda>i.
               map_ok (\<lambda>ts. (if name = [] then [] else [PField name]) @ PIndex i # ts)
                 (if rest' = [] then Inr [] else part_tokens path rest'))))"
  by pat_completeness auto

termination
  by (relation "measure (\<lambda>(path, rest). length rest)") (auto dest!: split_once_length)

declare part_tokens.simps [simp del]

definition parse_path_tokens :: "string \<Rightarrow> string + path_token list" where
  "parse_path_tokens path =
     res_bind (map_ok concat (res_map (part_tokens path) (split_on (CHR ''.'') path))) (\<lambda>ts.
       if ts = [] then Inl ''binding path must not be empty'' else Inr ts)"

fun set_at :: "path_token list \<Rightarrow> json \<Rightarrow> json \<Rightarrow> string + json" where
  "set_at [] value v = Inl ''binding path must not be empty''"
| "set_at [PField name] value v =
     (case v of JObj m \<Rightarrow> Inr (JObj (bt_insert name value m))
      | _ \<Rightarrow> Inl (''execution_spec target parent for '' @ squoted name @ '' is not an object''))"
| "set_at [PIndex i] value v =
     (case v of JArr xs \<Rightarrow> if length xs \<le> unat i
         then Inl (''missing execution_spec index ['' @ word_to_string i @ '']'')
         else Inr (JArr (xs[unat i := value]))
      | _ \<Rightarrow> Inl (''execution_spec target parent for index ['' @ word_to_string i @ ''] is not an array''))"
| "set_at (PField name # ts) value v =
     (case v of JObj m \<Rightarrow> (case bt_get m name of
            None \<Rightarrow> Inl (''unknown execution_spec field '' @ squoted name)
          | Some sub \<Rightarrow> map_ok (\<lambda>sub'. JObj (bt_insert name sub' m)) (set_at ts value sub))
      | _ \<Rightarrow> Inl (''unknown execution_spec field '' @ squoted name))"
| "set_at (PIndex i # ts) value v =
     (case v of JArr xs \<Rightarrow> if length xs \<le> unat i
         then Inl (''missing execution_spec index ['' @ word_to_string i @ '']'')
         else map_ok (\<lambda>sub'. JArr (xs[unat i := sub'])) (set_at ts value (xs ! unat i))
      | _ \<Rightarrow> Inl (''missing execution_spec index ['' @ word_to_string i @ '']''))"

definition set_json_path :: "json \<Rightarrow> string \<Rightarrow> json \<Rightarrow> string + json" where
  "set_json_path doc path value = res_bind (parse_path_tokens path) (\<lambda>ts. set_at ts value doc)"

subsection \<open>Bindings\<close>

definition parse_explicit_override_target :: "string \<Rightarrow> string + (usize \<times> string) option" where
  "parse_explicit_override_target target =
     (let unsupported = ''unsupported binding target '' @ squoted target in
      case strip_prefix ''variation.explicit['' target of
        None \<Rightarrow> Inr None
      | Some rest \<Rightarrow> (case split_once (CHR '']'') rest of
          None \<Rightarrow> Inl unsupported
        | Some (digits, suffix) \<Rightarrow>
            res_bind (map_err (\<lambda>_. unsupported) (parse_word digits)) (\<lambda>index.
            case strip_prefix ''.overrides.'' suffix of
              None \<Rightarrow> Inl unsupported
            | Some key \<Rightarrow> if key = [] then Inl unsupported else Inr (Some (index, key)))))"

definition value_to_string :: "serde \<Rightarrow> json \<Rightarrow> string + string" where
  "value_to_string se v =
     (case json_as_str v of Some s \<Rightarrow> Inr s | None \<Rightarrow>
      case json_as_bool v of Some b \<Rightarrow> Inr (bool_to_string b) | None \<Rightarrow>
      case json_as_i64 v of Some i \<Rightarrow> Inr (i64_to_string i) | None \<Rightarrow>
      case json_as_u64 v of Some n \<Rightarrow> Inr (word_to_string n) | None \<Rightarrow>
      case json_as_f64 v of Some d \<Rightarrow> Inr (se_float_text se d) | None \<Rightarrow>
      Inl ''override bindings only support scalar input values'')"

definition bind_override :: "usize \<Rightarrow> string \<Rightarrow> string \<Rightarrow> execution_spec \<Rightarrow> string + execution_spec" where
  "bind_override index key raw x =
     (let ps = vc_explicit (es_variation x) in
      if length ps \<le> unat index
      then Inl (''variation.explicit['' @ word_to_string index @ ''] is required for override bindings'')
      else let p = ps ! unat index in
        Inr (x\<lparr>es_variation := (es_variation x)\<lparr>vc_explicit :=
          ps[unat index := p\<lparr>vp_overrides := bt_insert key raw (vp_overrides p)\<rparr>]\<rparr>\<rparr>))"

definition apply_binding :: "serde \<Rightarrow> execution_spec \<Rightarrow> string \<Rightarrow> json \<Rightarrow> string + execution_spec" where
  "apply_binding se x target value =
     (case strip_prefix ''execution_spec.'' target of
        Some path \<Rightarrow>
          res_bind (map_err (\<lambda>e. ''failed to serialize execution spec: '' @ e) (se_spec_to_json se x)) (\<lambda>j.
          res_bind (set_json_path j path value) (\<lambda>j'.
          map_err (\<lambda>e. ''failed to deserialize bound execution spec: '' @ e) (se_spec_from_json se j')))
      | None \<Rightarrow>
          res_bind (parse_explicit_override_target target) (\<lambda>r. case r of
            Some (index, key) \<Rightarrow> res_bind (value_to_string se value) (\<lambda>raw. bind_override index key raw x)
          | None \<Rightarrow> Inl (''unsupported binding target '' @ squoted target)))"

fun apply_bindings ::
    "serde \<Rightarrow> control_template \<Rightarrow> (string, json) btree \<Rightarrow> compile_binding list \<Rightarrow> execution_spec
     \<Rightarrow> string + execution_spec" where
  "apply_bindings se t normalized [] x = Inr x"
| "apply_bindings se t normalized (b # bs) x =
     (case bt_get normalized (cb_input b) of
        Some value \<Rightarrow> res_bind (apply_binding se x (cb_target b) value) (apply_bindings se t normalized bs)
      | None \<Rightarrow> (case bt_get (ct_inputs t) (cb_input b) of
            None \<Rightarrow> Inl (''binding references unknown normalized input '' @ squoted (cb_input b))
          | Some f \<Rightarrow> if if_required f \<or> if_default f \<noteq> None
              then Inl (''binding references missing normalized input '' @ squoted (cb_input b))
              else apply_bindings se t normalized bs x))"

definition validate_execution_kind_shape :: "control_template \<Rightarrow> execution_spec \<Rightarrow> string + unit" where
  "validate_execution_kind_shape t x =
     (let kind = tp_execution_kind (ct_template t) in
      if kind \<in> {''single_agent'', ''warm_agent''} then
        (if vc_source (es_variation x) \<noteq> ''explicit''
         then Inl (''execution_kind '' @ squoted kind @ '' requires variation.source=explicit'')
         else if length (vc_explicit (es_variation x)) \<noteq> 1
         then Inl (''execution_kind '' @ squoted kind @ '' requires exactly one explicit variation proposal'')
         else Inr ())
      else Inr ())"

record compiled_template =
  cl_template :: template_metadata
  cl_normalized_inputs :: "(string, json) btree"
  cl_execution_spec :: execution_spec

definition compile_template :: "serde \<Rightarrow> control_template \<Rightarrow> json \<Rightarrow> string + compiled_template" where
  "compile_template se t inputs =
     res_bind (ok_or ''template inputs must be a JSON object'' (json_as_object inputs)) (\<lambda>m.
     res_bind (normalize_inputs se t m) (\<lambda>normalized.
     let x = (td_execution_spec (ct_defaults t))
          \<lparr>es_workflow := \<lparr>wt_template = td_workflow_template (ct_defaults t)\<rparr>\<rparr> in
     res_bind (apply_bindings se t normalized (ct_bindings t) x) (\<lambda>x'.
     res_bind (validate_execution_kind_shape t x') (\<lambda>_.
     res_bind (map_err (\<lambda>e. ''compiled execution spec is invalid: '' @ e) (spec_validate x' front_end_global)) (\<lambda>_.
       Inr \<lparr>cl_template = ct_template t, cl_normalized_inputs = normalized, cl_execution_spec = x'\<rparr>)))))"

subsection \<open>The template directory\<close>

text \<open>The files of the directory by name; the directory's own name is part of the messages.\<close>

definition is_yaml_file :: "string \<Rightarrow> bool" where
  "is_yaml_file name = (case strip_suffix ''.yaml'' name of None \<Rightarrow> False | Some stem \<Rightarrow> stem \<noteq> [])"

definition load_template_from_path ::
    "serde \<Rightarrow> string \<Rightarrow> (string, string) btree \<Rightarrow> string \<Rightarrow> string + control_template" where
  "load_template_from_path se dir files name =
     (case bt_get files name of
        None \<Rightarrow> Inl (''failed to read template file '' @ squoted (dir @ ''/'' @ name)
                   @ '': No such file or directory (os error 2)'')
      | Some yaml \<Rightarrow> parse_template_yaml se yaml)"

definition load_template ::
    "serde \<Rightarrow> string \<Rightarrow> (string, string) btree \<Rightarrow> string \<Rightarrow> string + control_template" where
  "load_template se dir files xid = load_template_from_path se dir files (xid @ ''.yaml'')"

definition list_templates ::
    "serde \<Rightarrow> string \<Rightarrow> (string, string) btree \<Rightarrow> string + template_metadata list" where
  "list_templates se dir files =
     map_ok (\<lambda>ts. sort_key tp_id (map ct_template ts))
       (res_map (load_template_from_path se dir files) (filter is_yaml_file (map fst files)))"

subsection \<open>Reading and writing through paths\<close>

fun get_at :: "path_token list \<Rightarrow> json \<Rightarrow> json option" where
  "get_at [] v = Some v"
| "get_at (PField name # ts) v = Option.bind (json_get v name) (get_at ts)"
| "get_at (PIndex i # ts) v =
     (case json_as_array v of None \<Rightarrow> None
      | Some xs \<Rightarrow> if unat i < length xs then get_at ts (xs ! unat i) else None)"

text \<open>Two paths that part at some token.\<close>

definition diverge :: "path_token list \<Rightarrow> path_token list \<Rightarrow> bool" where
  "diverge p q = (\<exists>c a b p' q'. p = c @ a # p' \<and> q = c @ b # q' \<and> a \<noteq> b)"

lemma diverge_Cons: "diverge (a # p) (b # q) \<longleftrightarrow> a \<noteq> b \<or> diverge p q"
proof -
  have "\<exists>c x y p' q'. a # p = c @ x # p' \<and> b # q = c @ y # q' \<and> x \<noteq> y" if "a \<noteq> b"
    using that by (intro exI [of _ "[]"]) auto
  moreover have "\<exists>c x y p' q'. a # p = c @ x # p' \<and> a # q = c @ y # q' \<and> x \<noteq> y"
    if "p = c @ x # p'" "q = c @ y # q'" "x \<noteq> y" for c x y p' q'
    using that by (intro exI [of _ "a # c"]) auto
  ultimately show ?thesis
    unfolding diverge_def by (cases "a = b") (auto simp: Cons_eq_append_conv)
qed

lemma diverge_Nil [simp]: "\<not> diverge [] q" "\<not> diverge p []"
  by (auto simp: diverge_def)

lemma get_at_field_JObj: "get_at (PField n # ts) (JObj m) = Option.bind (bt_get m n) (get_at ts)"
  by simp

lemma set_at_step:
  assumes "ts \<noteq> []"
  shows "set_at (PField n # ts) x v = Inr v' \<longleftrightarrow> (\<exists>m sub sub'. v = JObj m \<and> bt_get m n = Some sub
      \<and> set_at ts x sub = Inr sub' \<and> v' = JObj (bt_insert n sub' m))"
    and "set_at (PIndex i # ts) x v = Inr v' \<longleftrightarrow> (\<exists>xs sub'. v = JArr xs \<and> unat i < length xs
      \<and> set_at ts x (xs ! unat i) = Inr sub' \<and> v' = JArr (xs[unat i := sub']))"
proof -
  obtain t ts' where ts: "ts = t # ts'" using assms by (cases ts) auto
  show "set_at (PField n # ts) x v = Inr v' \<longleftrightarrow> (\<exists>m sub sub'. v = JObj m \<and> bt_get m n = Some sub
      \<and> set_at ts x sub = Inr sub' \<and> v' = JObj (bt_insert n sub' m))"
    unfolding ts by (auto simp: map_ok_Inr_iff split: json.split option.split)
  show "set_at (PIndex i # ts) x v = Inr v' \<longleftrightarrow> (\<exists>xs sub'. v = JArr xs \<and> unat i < length xs
      \<and> set_at ts x (xs ! unat i) = Inr sub' \<and> v' = JArr (xs[unat i := sub']))"
    unfolding ts by (auto simp: map_ok_Inr_iff not_le split: json.split)
qed

lemma set_at_last:
  "set_at [PField n] x v = Inr v' \<longleftrightarrow> (\<exists>m. v = JObj m \<and> v' = JObj (bt_insert n x m))"
  "set_at [PIndex i] x v = Inr v' \<longleftrightarrow> (\<exists>xs. v = JArr xs \<and> unat i < length xs \<and> v' = JArr (xs[unat i := x]))"
  by (auto split: json.split)

lemma field_frame:
  assumes "diverge (PField n # ts) q"
    and "\<And>q'. diverge ts q' \<Longrightarrow> get_at q' y = Option.bind (bt_get m n) (get_at q')"
  shows "get_at q (JObj (bt_insert n y m)) = get_at q (JObj m)"
proof (cases q)
  case (Cons b q')
  with assms show ?thesis by (cases b) (auto simp: diverge_Cons)
qed (use assms(1) in simp)

lemma index_frame:
  assumes "diverge (PIndex i # ts) q" "unat i < length xs"
    and "\<And>q'. diverge ts q' \<Longrightarrow> get_at q' y = get_at q' (xs ! unat i)"
  shows "get_at q (JArr (xs[unat i := y])) = get_at q (JArr xs)"
proof (cases q)
  case (Cons b q')
  have "unat i = unat j \<longleftrightarrow> i = j" for i j :: usize by (auto simp: word_unat_eq_iff)
  with assms Cons show ?thesis by (cases b) (auto simp: diverge_Cons nth_list_update)
qed (use assms(1) in simp)

lemma set_at_exact:
  "set_at ts x v = Inr v' \<Longrightarrow> get_at ts v' = Some x \<and> (\<forall>q. diverge ts q \<longrightarrow> get_at q v' = get_at q v)"
proof (induction ts arbitrary: v v')
  case Nil
  then show ?case by simp
next
  case (Cons t ts)
  show ?case
  proof (cases t)
    case (PField n)
    obtain m y where v: "v = JObj m" "v' = JObj (bt_insert n y m)" "get_at ts y = Some x"
      and rest: "\<And>q'. diverge ts q' \<Longrightarrow> get_at q' y = Option.bind (bt_get m n) (get_at q')"
    proof (cases "ts = []")
      case True
      with Cons.prems PField have "set_at [PField n] x v = Inr v'" by (simp only:)
      then obtain m where "v = JObj m" "v' = JObj (bt_insert n x m)"
        unfolding set_at_last by blast
      with True that show ?thesis by simp
    next
      case False
      with Cons.prems PField obtain m sub sub' where "v = JObj m" "bt_get m n = Some sub"
        "set_at ts x sub = Inr sub'" "v' = JObj (bt_insert n sub' m)"
        by (auto simp: set_at_step)
      with Cons.IH [of sub sub'] that show ?thesis by simp
    qed
    with PField field_frame [OF _ rest] show ?thesis by simp
  next
    case (PIndex i)
    obtain xs y where v: "v = JArr xs" "unat i < length xs" "v' = JArr (xs[unat i := y])" "get_at ts y = Some x"
      and rest: "\<And>q'. diverge ts q' \<Longrightarrow> get_at q' y = get_at q' (xs ! unat i)"
    proof (cases "ts = []")
      case True
      with Cons.prems PIndex have "set_at [PIndex i] x v = Inr v'" by (simp only:)
      then obtain xs where "v = JArr xs" "unat i < length xs" "v' = JArr (xs[unat i := x])"
        unfolding set_at_last by blast
      with True that show ?thesis by simp
    next
      case False
      with Cons.prems PIndex obtain xs sub' where "v = JArr xs" "unat i < length xs"
        "set_at ts x (xs ! unat i) = Inr sub'" "v' = JArr (xs[unat i := sub'])"
        by (auto simp: set_at_step)
      with Cons.IH [of "xs ! unat i" sub'] that show ?thesis by simp
    qed
    with PIndex index_frame [OF _ v(2) rest] show ?thesis by simp
  qed
qed

subsection \<open>Inputs and bindings\<close>

lemma check_all_Inr: "check_all f xs = Inr u \<longleftrightarrow> (\<forall>x \<in> set xs. f x = Inr ())"
  by (induction xs) (auto simp: result_simps)

definition input_value :: "(string, json) btree \<Rightarrow> string \<times> input_field \<Rightarrow> json option" where
  "input_value inputs e = (case bt_get inputs (fst e) of Some v \<Rightarrow> Some v | None \<Rightarrow> if_default (snd e))"

lemma normalize_fields_Inr:
  "normalize_fields se inputs fs n0 = Inr n \<Longrightarrow> distinct (map fst fs) \<Longrightarrow>
     (\<forall>k. k \<notin> fst ` set fs \<longrightarrow> bt_get n k = bt_get n0 k)
     \<and> (\<forall>e \<in> set fs. case input_value inputs e of
          Some v \<Rightarrow> bt_get n (fst e) = Some v \<and> validate_input_value se (fst e) (snd e) v = Inr ()
        | None \<Rightarrow> \<not> if_required (snd e) \<and> bt_get n (fst e) = bt_get n0 (fst e))"
proof (induction fs arbitrary: n0)
  case Nil
  then show ?case by simp
next
  case (Cons e fs)
  obtain name f where e: "e = (name, f)" by fastforce
  have head: "input_value inputs e = (case bt_get inputs name of Some v \<Rightarrow> Some v | None \<Rightarrow> if_default f)"
    unfolding input_value_def e fst_conv snd_conv ..
  obtain n1 where n1: "normalize_fields se inputs fs n1 = Inr n"
      and step: "case input_value inputs e of
          Some v \<Rightarrow> n1 = bt_insert name v n0 \<and> validate_input_value se name f v = Inr ()
        | None \<Rightarrow> n1 = n0 \<and> \<not> if_required f"
    using Cons.prems(1)
    by (cases "input_value inputs e") (auto simp: e head [unfolded e, symmetric] result_simps split: if_splits option.splits)
  have name: "name \<notin> fst ` set fs" using Cons.prems(2) e by simp
  note rest = Cons.IH [OF n1]
  have "bt_get n name = bt_get n1 name" using rest name Cons.prems(2) by simp
  moreover have "bt_get n1 k = bt_get n0 k" if "k \<noteq> name" for k
    using step that by (cases "input_value inputs e") auto
  moreover have "fst d \<noteq> name" if "d \<in> set fs" for d using name that by auto
  ultimately show ?case
    using rest step Cons.prems(2) by (cases "input_value inputs e") (auto simp: e split: option.splits)
qed

lemma strip_prefix_variation:
  "strip_prefix ''execution_spec.'' (''variation.explicit['' @ s) = None"
  by (simp add: strip_prefix_def starts_with_def)

lemma split_close:
  "split_once (CHR '']'') (word_to_string (i :: 'a::len word) @ CHR '']'' # s) = Some (word_to_string i, s)"
proof (rule split_once_sep)
  show "CHR '']'' \<notin> set (word_to_string i)"
    by (auto simp: word_to_string_def digit_char_def dest!: nat_to_string_chars digit_cases)
qed

lemma parse_override_target:
  "key \<noteq> [] \<Longrightarrow> parse_explicit_override_target (''variation.explicit['' @ word_to_string i @ ''].overrides.'' @ key)
     = Inr (Some (i, key))"
  using strip_prefix_append [of "''variation.explicit[''" "word_to_string i @ ''].overrides.'' @ key"]
    strip_prefix_append [of "''.overrides.''" key]
  by (simp add: parse_explicit_override_target_def Let_def split_close)

lemma bind_override_target:
  fixes i :: usize
  assumes "key \<noteq> []" "value_to_string se v = Inr raw" "unat i < length (vc_explicit (es_variation x))"
  shows "apply_binding se x (''variation.explicit['' @ word_to_string i @ ''].overrides.'' @ key) v
    = Inr (x\<lparr>es_variation := (es_variation x)\<lparr>vc_explicit := (vc_explicit (es_variation x))
        [unat i := (vc_explicit (es_variation x) ! unat i)
          \<lparr>vp_overrides := bt_insert key raw (vp_overrides (vc_explicit (es_variation x) ! unat i))\<rparr>]\<rparr>\<rparr>)"
  using assms
  by (simp add: apply_binding_def strip_prefix_variation parse_override_target bind_override_def Let_def not_le
      del: append_assoc append_Cons)

subsection \<open>Properties\<close>

text \<open>
  Writing a value through a binding path puts it at exactly that place of the document: reading the
  path gives the value back, and every path that parts from it at some token reads what it read before.
\<close>

theorem set_json_path_exact:
  assumes "parse_path_tokens path = Inr ts" and "set_json_path doc path value = Inr doc'"
  shows "get_at ts doc' = Some value \<and> (\<forall>q. diverge ts q \<longrightarrow> get_at q doc' = get_at q doc)"
  using assms by (intro set_at_exact) (simp add: set_json_path_def)

lemma set_json_path_exact_witness:
  "\<exists>doc'. set_json_path (JObj [(''a'', JArr [JNull, JStr ''x'']), (''b'', JNull)]) ''a[1]'' (JBool True) = Inr doc'
    \<and> get_at [PField ''a'', PIndex 1] doc' = Some (JBool True) \<and> get_at [PField ''a'', PIndex 0] doc' = Some JNull
    \<and> get_at [PField ''b''] doc' = Some JNull"
proof -
  let ?d = "JObj [(''a'', JArr [JNull, JStr ''x'']), (''b'', JNull)]"
  have "(parse_word ''1'' :: string + usize) = Inr 1"
    by (simp add: parse_word_def digit_val_def)
  then have ts: "parse_path_tokens ''a[1]'' = Inr [PField ''a'', PIndex 1]"
    by (simp add: parse_path_tokens_def part_tokens.simps)
  obtain doc' where d: "set_json_path ?d ''a[1]'' (JBool True) = Inr doc'"
    by (simp add: set_json_path_def ts)
  have "diverge [PField ''a'', PIndex 1] [PField ''a'', PIndex 0]" "diverge [PField ''a'', PIndex 1] [PField ''b'']"
    by (simp_all add: diverge_Cons)
  with set_json_path_exact [OF ts d] d show ?thesis by auto
qed

text \<open>
  A binding to \<open>variation.explicit[i].overrides.<key>\<close> sets that override of the i-th proposal to the
  text of the input, for every key, dots and brackets included, and changes nothing else of the
  specification; if there is no i-th proposal it is refused.
\<close>

theorem override_binding_effect:
  fixes x :: execution_spec and i :: usize
  assumes "key \<noteq> []" and "value_to_string se v = Inr raw"
  defines "ps \<equiv> vc_explicit (es_variation x)"
  shows "apply_binding se x (''variation.explicit['' @ word_to_string i @ ''].overrides.'' @ key) v
    = (if unat i < length ps
       then Inr (x\<lparr>es_variation := (es_variation x)\<lparr>vc_explicit :=
         ps[unat i := (ps ! unat i)\<lparr>vp_overrides := bt_insert key raw (vp_overrides (ps ! unat i))\<rparr>]\<rparr>\<rparr>)
       else Inl (''variation.explicit['' @ word_to_string i @ ''] is required for override bindings''))"
proof (cases "unat i < length ps")
  case True
  with bind_override_target [OF assms(1,2)] show ?thesis by (simp add: ps_def)
next
  case False
  with assms(1,2) show ?thesis
    by (simp add: ps_def apply_binding_def strip_prefix_variation parse_override_target bind_override_def Let_def
        del: append_assoc append_Cons)
qed

definition plain_serde :: serde where
  "plain_serde = \<lparr>se_template = (\<lambda>_. Inl ''unreadable''), se_spec_to_json = (\<lambda>_. Inr (JObj [])),
     se_spec_from_json = (\<lambda>_. Inl ''no''), se_float_text = (\<lambda>_. ''0'')\<rparr>"

lemma override_binding_effect_witness:
  "map vp_overrides (vc_explicit (es_variation (case apply_binding plain_serde
      (sample_spec\<lparr>es_variation := variation_explicit 1 [\<lparr>vp_overrides = []\<rparr>]\<rparr>)
      (''variation.explicit['' @ word_to_string (0 :: usize) @ ''].overrides.'' @ ''agent.prompt'') (JStr ''hi'') of Inr x \<Rightarrow> x)))
   = [[(''agent.prompt'', ''hi'')]]"
proof -
  have "value_to_string plain_serde (JStr ''hi'') = Inr ''hi''" by (simp add: value_to_string_def)
  from override_binding_effect [OF _ this, of "''agent.prompt''"
      "sample_spec\<lparr>es_variation := variation_explicit 1 [\<lparr>vp_overrides = []\<rparr>]\<rparr>" 0]
  show ?thesis by (simp add: variation_explicit_def del: append_Cons append_assoc)
qed

text \<open>
  C21: What a compiled template guarantees: every input given is one the template declares; each declared
  input has the given value or else the default and has passed its type check, a required one is always
  there; the specification is valid under the limits of the front ends, and for the single-agent kinds it
  has exactly one explicit proposal.
\<close>

theorem compiled_template_guarantees:
  assumes "compile_template se t inputs = Inr c" and "bt_wf (ct_inputs t)"
  shows "\<exists>m. inputs = JObj m \<and> fst ` set m \<subseteq> fst ` set (ct_inputs t)
    \<and> (\<forall>e \<in> set (ct_inputs t). case input_value m e of
          Some v \<Rightarrow> bt_get (cl_normalized_inputs c) (fst e) = Some v \<and> validate_input_value se (fst e) (snd e) v = Inr ()
        | None \<Rightarrow> \<not> if_required (snd e) \<and> bt_get (cl_normalized_inputs c) (fst e) = None)
    \<and> spec_ok front_end_global (cl_execution_spec c)
    \<and> (tp_execution_kind (ct_template t) \<in> {''single_agent'', ''warm_agent''} \<longrightarrow>
        vc_source (es_variation (cl_execution_spec c)) = ''explicit''
        \<and> length (vc_explicit (es_variation (cl_execution_spec c))) = 1)"
proof -
  obtain m n x where m: "json_as_object inputs = Some m" and n: "normalize_inputs se t m = Inr n"
    and shape: "validate_execution_kind_shape t x = Inr ()" and valid: "spec_validate x front_end_global = Inr ()"
    and c: "c = \<lparr>cl_template = ct_template t, cl_normalized_inputs = n, cl_execution_spec = x\<rparr>"
    using assms(1) by (auto simp: compile_template_def result_simps Let_def)
  have cn: "cl_normalized_inputs c = n" "cl_execution_spec c = x" by (simp_all add: c)
  have obj: "inputs = JObj m" using m by (cases inputs) auto
  have known: "fst ` set m \<subseteq> fst ` set (ct_inputs t)"
    using n by (auto simp: normalize_inputs_def result_simps check_all_Inr bt_get_None_iff split: if_splits)
  have fields: "normalize_fields se m (ct_inputs t) [] = Inr n"
    using n by (auto simp: normalize_inputs_def result_simps)
  have kind: "tp_execution_kind (ct_template t) \<in> {''single_agent'', ''warm_agent''} \<longrightarrow>
      vc_source (es_variation x) = ''explicit'' \<and> length (vc_explicit (es_variation x)) = 1"
    using shape by (auto simp: validate_execution_kind_shape_def Let_def split: if_splits)
  from normalize_fields_Inr [OF fields bt_wf_distinct [OF assms(2)], unfolded bt_get.simps(1)]
    obj known kind valid show ?thesis
    unfolding cn by (simp add: spec_validate_Inr)
qed

definition demo_template :: control_template where
  "demo_template = \<lparr>ct_api_version = ''v1'', ct_kind = ''control_template'',
     ct_template = \<lparr>tp_id = ''t'', tp_name = ''T'', tp_execution_kind = ''single_agent'', tp_description = []\<rparr>,
     ct_inputs = [(''prompt'', \<lparr>if_type = ''string'', if_required = True, if_description = [], if_default = None,
        if_values = None, if_min = None, if_max = None\<rparr>)],
     ct_defaults = \<lparr>td_workflow_template = ''w.yaml'',
        td_execution_spec = sample_spec\<lparr>es_variation := variation_explicit 1 [\<lparr>vp_overrides = []\<rparr>]\<rparr>\<rparr>,
     ct_bindings = [\<lparr>cb_input = ''prompt'', cb_target = ''variation.explicit['' @ word_to_string (0 :: usize)
        @ ''].overrides.'' @ ''agent.prompt''\<rparr>]\<rparr>"

lemma compiled_template_guarantees_witness:
  "\<exists>c. compile_template plain_serde demo_template (JObj [(''prompt'', JStr ''hi'')]) = Inr c
    \<and> bt_get (cl_normalized_inputs c) ''prompt'' = Some (JStr ''hi'')
    \<and> spec_ok front_end_global (cl_execution_spec c)"
proof -
  let ?x = "sample_spec\<lparr>es_variation := variation_explicit 1 [\<lparr>vp_overrides = [(''agent.prompt'', ''hi'')]\<rparr>],
      es_workflow := \<lparr>wt_template = ''w.yaml''\<rparr>\<rparr>"
  have wf: "bt_wf (ct_inputs demo_template)" by (simp add: demo_template_def bt_wf_def)
  have n: "normalize_inputs plain_serde demo_template [(''prompt'', JStr ''hi'')] = Inr [(''prompt'', JStr ''hi'')]"
    by (simp add: normalize_inputs_def demo_template_def validate_input_value_def)
  have "value_to_string plain_serde (JStr ''hi'') = Inr ''hi''" by (simp add: value_to_string_def)
  note bind = bind_override_target [OF _ this, of "''agent.prompt''" 0]
  have b: "apply_bindings plain_serde demo_template [(''prompt'', JStr ''hi'')] (ct_bindings demo_template)
      ((td_execution_spec (ct_defaults demo_template))\<lparr>es_workflow := \<lparr>wt_template = ''w.yaml''\<rparr>\<rparr>) = Inr ?x"
    by (simp add: demo_template_def bind variation_explicit_def del: append_Cons append_assoc)
  have v: "spec_validate ?x front_end_global = Inr ()"
    by (simp add: front_end_global_def spec_validate_iff spec_ok_def sample_spec_def
        supervision_ok_def policy_ok_def convergence_ok_def policy_default_def budget_default_def
        concurrency_default_def convergence_default_def variation_explicit_def known_variation_source_def
        trim_def is_ws_def)
  have k: "validate_execution_kind_shape demo_template ?x = Inr ()"
    by (simp add: validate_execution_kind_shape_def demo_template_def variation_explicit_def)
  have w: "td_workflow_template (ct_defaults demo_template) = ''w.yaml''" by (simp add: demo_template_def)
  obtain c where c: "compile_template plain_serde demo_template (JObj [(''prompt'', JStr ''hi'')]) = Inr c"
    by (simp add: compile_template_def n w b k v Let_def)
  from compiled_template_guarantees [OF c wf] c show ?thesis
    by (auto simp: demo_template_def input_value_def)
qed

text \<open>An integer of 2^63 or more is checked against the limits as a negative number, so it passes any upper limit.\<close>

lemma large_integer_passes_maximum:
  assumes "if_type f = ''integer''" "if_min f = None" "if_max f = Some (Fin hi)" "0 \<le> hi" "2 ^ 63 \<le> uint n"
  shows "validate_input_value se name f (JNum (PosInt n)) = Inr ()"
proof -
  have n: "uint n < 2 * 2 ^ 63" using uint_lt2p [of n] by simp
  have "uint n div 2 ^ 63 = 1"
  proof (rule int_div_pos_eq)
    show "uint n = 2 ^ 63 * 1 + (uint n - 2 ^ 63)" by (simp only: mult_1_right add_diff_cancel_left' diff_add_cancel add_diff_eq)
    show "0 \<le> uint n - 2 ^ 63" using assms(5) by linarith
    show "uint n - 2 ^ 63 < 2 ^ 63" using n by linarith
  qed
  then have "bit (uint n) 63" by (simp add: bit_iff_odd)
  then have "sint n < 0" by (simp add: sint_uint signed_take_bit_negative_iff)
  then have "of_int (sint n) \<le> (0 :: rat)" by (simp only: of_int_le_0_iff)
  from round64_mono [OF this] have "f64_le (round64 (of_int (sint n))) (Fin 0)" by (simp only: round64_zero)
  then have "\<not> f64_lt (Fin hi) (round64 (of_int (sint n)))"
    using assms(4) by (cases "round64 (of_int (sint n))") (auto simp: f64_le_def)
  with assms show ?thesis
    by (simp add: validate_input_value_def integer_of_def validate_numeric_range_def f64_of_int_def)
qed

end
