(* ===== verification/Bridge_Requests.thy ===== *)
theory Bridge_Requests
  imports Team Templates Contract
begin

text \<open>
  The data of the bridge (\<open>src/bridge.rs\<close>): bodies of requests and of responses, the conversion of a
  request to an execution specification, the wrapping of a runtime specification, progress summaries,
  run policies and small conversions. Reading JSON and YAML is the library's: the record \<open>readers\<close>.
  Responses are modelled before they are printed as JSON.
\<close>

subsection \<open>Requests\<close>

record convergence_request =
  cq_strategy :: string
  cq_min_score :: "f64 option"
  cq_max_iterations_without_improvement :: "u32 option"

record policy_request =
  pq_max_iterations :: "u32 option"
  pq_max_child_runs :: "u32 option"
  pq_max_wall_clock_secs :: "u32 option"
  pq_max_cost_usd_millis :: "u64 option"
  pq_max_concurrent_candidates :: u32
  pq_convergence :: convergence_request
  pq_max_candidate_failures_per_iteration :: u32
  pq_missing_output_policy :: string
  pq_iteration_failure_policy :: string

record evaluation_request =
  eq_scoring_type :: string
  eq_weights :: "(string, f64) btree"
  eq_pass_threshold :: "f64 option"
  eq_ranking :: string
  eq_tie_breaking :: string

record variation_request =
  vq_source :: string
  vq_candidates_per_iteration :: u32
  vq_selection :: "string option"
  vq_parameter_space :: "(string, string list) btree option"
  vq_explicit :: "(string, string) btree list option"

record supervision_request =
  uq_supervisor_role :: string
  uq_max_revision_rounds :: u32
  uq_retry_on_runtime_failure :: bool
  uq_require_final_approval :: bool

record spec_request =
  sq_mode :: string
  sq_goal :: string
  sq_template :: string
  sq_policy :: policy_request
  sq_evaluation :: evaluation_request
  sq_variation :: variation_request
  sq_swarm :: bool
  sq_supervision :: "supervision_request option"

record policy_patch_request =
  tq_budget :: "u32 option option"
  tq_concurrency :: "u32 option option"
  tq_convergence :: "json option"
  tq_evaluation :: "json option"
  tq_variation :: "json option"

record run_policy_json =
  rj_max_parallel_microvms_per_run :: "u32 option"
  rj_max_stage_retries :: "u32 option"
  rj_stage_timeout_secs :: "u32 option"
  rj_cancel_grace_period_secs :: "u32 option"

record launch_request =
  lq_run_id :: "string option"
  lq_file :: "string option"
  lq_spec_text :: "string option"
  lq_spec_format :: "string option"
  lq_policy :: "run_policy_json option"

text \<open>\<open>serde_yaml::Value\<close>; its accessors look through tags.\<close>

datatype yaml = YNull | YBool bool | YNum string | YStr string | YSeq "yaml list"
  | YMap "(yaml \<times> yaml) list" | YTagged string yaml

fun yaml_as_mapping :: "yaml \<Rightarrow> (yaml \<times> yaml) list option" where
  "yaml_as_mapping (YMap m) = Some m"
| "yaml_as_mapping (YTagged _ v) = yaml_as_mapping v"
| "yaml_as_mapping _ = None"

fun yaml_as_str :: "yaml \<Rightarrow> string option" where
  "yaml_as_str (YStr s) = Some s"
| "yaml_as_str (YTagged _ v) = yaml_as_str v"
| "yaml_as_str _ = None"

definition yaml_get :: "(yaml \<times> yaml) list \<Rightarrow> string \<Rightarrow> yaml option" where
  "yaml_get m key = map_of m (YStr key)"

record readers =
  rd_spec_json :: "string \<Rightarrow> string + spec_request"
  rd_spec_yaml :: "string \<Rightarrow> string + spec_request"
  rd_yaml :: "string \<Rightarrow> string + yaml"
  rd_batch_json :: "string \<Rightarrow> string + batch_spec"
  rd_batch_yaml :: "string \<Rightarrow> string + batch_spec"
  rd_team_json :: "string \<Rightarrow> string + team_spec"
  rd_team_yaml :: "string \<Rightarrow> string + team_spec"
  rd_patch_json :: "string \<Rightarrow> string + policy_patch_request"
  rd_launch_json :: "string \<Rightarrow> string + launch_request"
  rd_template_request :: "string \<Rightarrow> string + json"
  rd_serde :: serde

subsection \<open>From a request to a specification\<close>

definition selection_or_sequential :: "string option \<Rightarrow> variation_selection" where
  "selection_or_sequential s = (if s = Some ''random'' then SelRandom else SelSequential)"

definition proposals_of :: "(string, string) btree list option \<Rightarrow> variation_proposal list" where
  "proposals_of ps = map (\<lambda>m. \<lparr>vp_overrides = m\<rparr>) (case ps of None \<Rightarrow> [] | Some xs \<Rightarrow> xs)"

definition space_of :: "(string, string list) btree option \<Rightarrow> (string, string list) btree" where
  "space_of m = (case m of None \<Rightarrow> [] | Some x \<Rightarrow> x)"

definition variation_of_request :: "variation_request \<Rightarrow> string + variation_config" where
  "variation_of_request v =
     (if vq_source v = ''parameter_space'' then
        Inr (variation_parameter_space (vq_candidates_per_iteration v)
          (selection_or_sequential (vq_selection v)) (space_of (vq_parameter_space v)))
      else if vq_source v = ''explicit'' then
        Inr (variation_explicit (vq_candidates_per_iteration v) (proposals_of (vq_explicit v)))
      else if vq_source v = ''signal_reactive'' then
        Inr \<lparr>vc_source = ''signal_reactive'', vc_candidates_per_iteration = vq_candidates_per_iteration v,
             vc_selection = Some (selection_or_sequential (vq_selection v)),
             vc_parameter_space = space_of (vq_parameter_space v), vc_explicit = proposals_of (vq_explicit v)\<rparr>
      else if vq_source v = ''leader_directed'' then
        Inr (variation_leader_directed (vq_candidates_per_iteration v))
      else Inl (''unsupported variation source '' @ squoted (vq_source v)))"

definition policy_of_request :: "policy_request \<Rightarrow> orchestration_policy" where
  "policy_of_request p =
     \<lparr>op_budget = \<lparr>bp_max_iterations = pq_max_iterations p, bp_max_child_runs = pq_max_child_runs p,
        bp_max_wall_clock_secs = pq_max_wall_clock_secs p, bp_max_cost_usd_millis = pq_max_cost_usd_millis p\<rparr>,
      op_concurrency = \<lparr>max_concurrent_candidates = pq_max_concurrent_candidates p\<rparr>,
      op_convergence = \<lparr>cp_strategy = cq_strategy (pq_convergence p), cp_min_score = cq_min_score (pq_convergence p),
        cp_max_iterations_without_improvement = cq_max_iterations_without_improvement (pq_convergence p)\<rparr>,
      op_max_candidate_failures_per_iteration = pq_max_candidate_failures_per_iteration p,
      op_missing_output_policy = pq_missing_output_policy p,
      op_iteration_failure_policy = pq_iteration_failure_policy p\<rparr>"

definition supervision_of_request :: "supervision_request \<Rightarrow> supervision_config" where
  "supervision_of_request u =
     \<lparr>sc_supervisor_role = uq_supervisor_role u,
      sc_review_policy = \<lparr>rp_max_revision_rounds = uq_max_revision_rounds u,
        rp_retry_on_runtime_failure = uq_retry_on_runtime_failure u,
        rp_require_final_approval = uq_require_final_approval u\<rparr>\<rparr>"

definition try_into_spec :: "spec_request \<Rightarrow> string + execution_spec" where
  "try_into_spec r =
     (let mode = trim (sq_mode r) in
      if mode \<noteq> ''swarm'' \<and> mode \<noteq> ''supervision'' then Inl (''unsupported mode '' @ squoted mode)
      else map_ok (\<lambda>v.
        \<lparr>es_mode = mode, es_goal = trim (sq_goal r), es_workflow = \<lparr>wt_template = trim (sq_template r)\<rparr>,
         es_policy = policy_of_request (sq_policy r),
         es_evaluation = \<lparr>ec_scoring_type = eq_scoring_type (sq_evaluation r), ec_weights = eq_weights (sq_evaluation r),
           ec_pass_threshold = eq_pass_threshold (sq_evaluation r), ec_ranking = eq_ranking (sq_evaluation r),
           ec_tie_breaking = eq_tie_breaking (sq_evaluation r)\<rparr>,
         es_variation = v, es_swarm = sq_swarm r,
         es_supervision = map_option supervision_of_request (sq_supervision r)\<rparr>)
        (variation_of_request (sq_variation r)))"

definition parse_execution_spec_request :: "readers \<Rightarrow> string \<Rightarrow> string + spec_request" where
  "parse_execution_spec_request rd body =
     (case rd_spec_json rd body of
        Inr r \<Rightarrow> Inr r
      | Inl je \<Rightarrow> map_err (\<lambda>ye. ''invalid execution spec body: JSON parse error: '' @ je
            @ ''; YAML parse error: '' @ ye) (rd_spec_yaml rd body))"

definition parse_runtime_spec_document :: "readers \<Rightarrow> string \<Rightarrow> string + yaml" where
  "parse_runtime_spec_document rd body = map_err (\<lambda>e. ''invalid runtime spec body: '' @ e) (rd_yaml rd body)"

definition looks_like_runtime_spec :: "yaml \<Rightarrow> bool" where
  "looks_like_runtime_spec doc =
     (case yaml_as_mapping doc of
        None \<Rightarrow> False
      | Some m \<Rightarrow> list_ex (\<lambda>key. yaml_get m key \<noteq> None) [''kind'', ''agent'', ''stages'', ''sandbox'', ''llm''])"

definition runtime_goal :: "yaml \<Rightarrow> string" where
  "runtime_goal doc =
     (case yaml_as_mapping doc of
        None \<Rightarrow> ''runtime execution''
      | Some m \<Rightarrow>
          (case Option.bind (yaml_get m ''name'') yaml_as_str of
             Some name \<Rightarrow> ''run '' @ name
           | None \<Rightarrow> (case Option.bind (yaml_get m ''kind'') yaml_as_str of
                 Some kind \<Rightarrow> ''run '' @ kind
               | None \<Rightarrow> ''runtime execution'')))"

definition wrap_runtime_spec_as_execution :: "string \<Rightarrow> string \<Rightarrow> execution_spec" where
  "wrap_runtime_spec_as_execution template goal =
     \<lparr>es_mode = ''swarm'', es_goal = goal, es_workflow = \<lparr>wt_template = template\<rparr>,
      es_policy = \<lparr>op_budget = \<lparr>bp_max_iterations = Some 1, bp_max_child_runs = Some 1,
          bp_max_wall_clock_secs = Some 600, bp_max_cost_usd_millis = None\<rparr>,
        op_concurrency = \<lparr>max_concurrent_candidates = 1\<rparr>,
        op_convergence = \<lparr>cp_strategy = ''exhaustive'', cp_min_score = None,
          cp_max_iterations_without_improvement = None\<rparr>,
        op_max_candidate_failures_per_iteration = 1,
        op_missing_output_policy = ''mark_failed'', op_iteration_failure_policy = ''fail_execution''\<rparr>,
      es_evaluation = \<lparr>ec_scoring_type = ''weighted_metrics'', ec_weights = [], ec_pass_threshold = None,
        ec_ranking = ''highest_score'', ec_tie_breaking = ''lexicographic''\<rparr>,
      es_variation = variation_explicit 1 [\<lparr>vp_overrides = []\<rparr>],
      es_swarm = True, es_supervision = None\<rparr>"

subsection \<open>Run policies and small conversions\<close>

definition default_policy :: execution_policy where
  "default_policy = \<lparr>ep_max_parallel_microvms_per_run = 2, ep_max_stage_retries = 1,
     ep_stage_timeout_secs = 300, ep_cancel_grace_period_secs = 10\<rparr>"

definition unwrap_or :: "'a \<Rightarrow> 'a option \<Rightarrow> 'a" where
  "unwrap_or d v = (case v of None \<Rightarrow> d | Some x \<Rightarrow> x)"

definition policy_from_json :: "run_policy_json option \<Rightarrow> execution_policy" where
  "policy_from_json raw =
     (case raw of
        None \<Rightarrow> default_policy
      | Some r \<Rightarrow>
          \<lparr>ep_max_parallel_microvms_per_run =
             unwrap_or (ep_max_parallel_microvms_per_run default_policy) (rj_max_parallel_microvms_per_run r),
           ep_max_stage_retries = unwrap_or (ep_max_stage_retries default_policy) (rj_max_stage_retries r),
           ep_stage_timeout_secs = unwrap_or (ep_stage_timeout_secs default_policy) (rj_stage_timeout_secs r),
           ep_cancel_grace_period_secs =
             unwrap_or (ep_cancel_grace_period_secs default_policy) (rj_cancel_grace_period_secs r)\<rparr>)"

definition run_id_from_handle :: "string \<Rightarrow> string" where
  "run_id_from_handle handle =
     (case strip_prefix ''void-box:'' handle of Some r \<Rightarrow> r
      | None \<Rightarrow> (case strip_prefix ''vb:'' handle of Some r \<Rightarrow> r | None \<Rightarrow> handle))"

fun state_to_str :: "run_state \<Rightarrow> string" where
  "state_to_str RsPending = ''pending''"
| "state_to_str RsStarting = ''starting''"
| "state_to_str RsRunning = ''running''"
| "state_to_str RsSucceeded = ''succeeded''"
| "state_to_str RsFailed = ''failed''"
| "state_to_str RsCanceled = ''cancelled''"

definition looks_like_json :: "string \<Rightarrow> bool" where
  "looks_like_json s = (starts_with ''{'' (trim_start s) \<or> starts_with ''['' (trim_start s))"

definition infer_ext :: "string option \<Rightarrow> string \<Rightarrow> string" where
  "infer_ext fmt spec_text =
     (let f = (case fmt of None \<Rightarrow> [] | Some s \<Rightarrow> to_ascii_lowercase s) in
      if fmt \<noteq> None \<and> contains_str ''json'' f then ''json''
      else if fmt \<noteq> None \<and> (contains_str ''yaml'' f \<or> contains_str ''yml'' f) then ''yaml''
      else if looks_like_json spec_text then ''json'' else ''yaml'')"

subsection \<open>Summaries\<close>

record execution_progress =
  pg_completed_iterations :: u32
  pg_scoring_history_len :: u32
  pg_event_count :: nat
  pg_last_event :: "string option"
  pg_candidate_queue_count :: u32
  pg_candidate_dispatch_count :: u32
  pg_candidate_output_count :: u32
  pg_queued_candidate_count :: u32
  pg_running_candidate_count :: u32
  pg_completed_candidate_count :: u32
  pg_failed_candidate_count :: u32
  pg_canceled_candidate_count :: u32
  pg_event_type_counts :: "(string, u32) btree"

definition count_u32 :: "('a \<Rightarrow> bool) \<Rightarrow> 'a list \<Rightarrow> u32" where
  "count_u32 p xs = of_nat (length (filter p xs))"

definition bump_count :: "control_event_envelope \<Rightarrow> (string, u32) btree \<Rightarrow> (string, u32) btree" where
  "bump_count e m =
     (let name = event_as_str (ce_event_type e)
      in bt_insert name (unwrap_or 0 (bt_get m name) + 1) m)"

definition summarize_progress :: "execution_snapshot \<Rightarrow> execution_progress" where
  "summarize_progress sn =
     (let events = sn_events sn; cs = sn_candidates sn;
          of_status = (\<lambda>st. count_u32 (\<lambda>c. ca_status c = st) cs);
          of_event = (\<lambda>t. count_u32 (\<lambda>e. ce_event_type e = t) events)
      in \<lparr>pg_completed_iterations = ac_completed_iterations (sn_accumulator sn),
          pg_scoring_history_len = ac_scoring_history_len (sn_accumulator sn),
          pg_event_count = length events,
          pg_last_event = (if events = [] then None else Some (event_as_str (ce_event_type (last events)))),
          pg_candidate_queue_count = of_event CandidateQueued,
          pg_candidate_dispatch_count = of_event CandidateDispatched,
          pg_candidate_output_count = of_event CandidateOutputCollected,
          pg_queued_candidate_count = of_status CaQueued,
          pg_running_candidate_count = of_status CaRunning,
          pg_completed_candidate_count = of_status CaCompleted,
          pg_failed_candidate_count = of_status CaFailed,
          pg_canceled_candidate_count = of_status CaCanceled,
          pg_event_type_counts = fold bump_count events []\<rparr>)"

record execution_summary =
  sm_goal :: string
  sm_workflow_template :: string
  sm_mode :: string
  sm_variation_source :: string
  sm_candidates_per_iteration :: u32
  sm_candidate_overrides :: "(string, string) btree list"
  sm_overrides :: "(string, string) btree"

definition compiled_execution_summary :: "execution_spec \<Rightarrow> execution_summary" where
  "compiled_execution_summary x =
     \<lparr>sm_goal = es_goal x, sm_workflow_template = wt_template (es_workflow x), sm_mode = es_mode x,
      sm_variation_source = vc_source (es_variation x),
      sm_candidates_per_iteration = vc_candidates_per_iteration (es_variation x),
      sm_candidate_overrides = map vp_overrides (vc_explicit (es_variation x)),
      sm_overrides = (case vc_explicit (es_variation x) of [] \<Rightarrow> [] | p # _ \<Rightarrow> vp_overrides p)\<rparr>"

end
