(* ===== verification/Bridge.thy ===== *)
theory Bridge
  imports Bridge_Requests Worker
begin

text \<open>
  The handlers of the bridge and their dispatch by method and path (\<open>src/bridge.rs\<close>). A handler takes
  the world, whose environment holds the specification files, the temporary directory, the template
  directory and the process id, and always gives a response. What the code hands to the JSON printer is
  the body of the response.
\<close>

record bridge_env =
  be_files :: "(string, string) btree"
  be_pid :: u32
  be_temp_dir :: string
  be_template_dir :: string
  be_templates :: "(string, string) btree"

record bridge_config =
  bc_listen :: string
  bc_base_url :: string
  bc_spec_dir :: string
  bc_execution_dir :: string

record api_error =
  ae_code :: string
  ae_message :: string
  ae_retryable :: bool

record execution_result_response =
  er_best_candidate_id :: "string option"
  er_completed_iterations :: u32
  er_total_candidate_failures :: u32

record execution_detail =
  ed_execution :: execution
  ed_progress :: execution_progress
  ed_result :: execution_result_response
  ed_candidates :: "execution_candidate list"

record launch_response =
  lr_run_id :: string
  lr_attempt_id :: u32
  lr_state :: string
  lr_file :: string

text \<open>The bodies: each constructor is one shape of JSON document the handlers build.\<close>

datatype (plugins only: code size) body =
    BHealth
  | BError api_error
  | BDryRun dry_run_result
  | BExecution execution
  | BExecutions "execution list"
  | BDetail execution_detail
  | BTagged string string execution_detail
  | BEvents string "(u64 \<times> string) list"
  | BPolicy string "u32 option" u32
  | BCompiled string string execution_summary
  | BSubmitted string string string execution
  | BTemplates "template_metadata list"
  | BTemplate control_template
  | BTemplateDryRun string string "(string, json) btree" execution_summary
  | BTemplateExecuted string string execution
  | BLaunched launch_response

record response =
  rs_status :: u16
  rs_body :: body

definition json_response :: "u16 \<Rightarrow> body \<Rightarrow> response" where
  "json_response status b = \<lparr>rs_status = status, rs_body = b\<rparr>"

definition error_response :: "u16 \<Rightarrow> string \<Rightarrow> string \<Rightarrow> bool \<Rightarrow> response" where
  "error_response status code message retryable =
     json_response status (BError \<lparr>ae_code = code, ae_message = message, ae_retryable = retryable\<rparr>)"

definition no_route :: "string \<Rightarrow> string \<Rightarrow> response" where
  "no_route verb path =
     error_response 404 ''NOT_FOUND'' (''no route for '' @ verb @ '' '' @ path) False"

definition internal_error :: "io_error \<Rightarrow> response" where
  "internal_error e = error_response 500 ''INTERNAL_ERROR'' (io_message e) True"

definition execution_not_found :: "string \<Rightarrow> response" where
  "execution_not_found xid =
     error_response 404 ''NOT_FOUND'' (''execution '' @ squoted xid @ '' not found'') False"

type_synonym 'a bridge = "(bridge_env world, 'a) io"

definition now_text_ms :: "bridge_env world \<Rightarrow> string" where
  "now_text_ms w = word_to_string (wd_now w)"

definition next_run_id :: "bridge_env world \<Rightarrow> string" where
  "next_run_id w = ''ui-'' @ now_text_ms w"

definition new_execution_id :: "bridge_env world \<Rightarrow> string" where
  "new_execution_id w = ''exec-'' @ now_text_ms w"

subsection \<open>Specification files\<close>

definition spec_file_path :: "string \<Rightarrow> string \<Rightarrow> string option \<Rightarrow> bridge_env world \<Rightarrow> string" where
  "spec_file_path dir spec_text fmt w =
     dir @ ''/spec-'' @ now_text_ms w @ ''-'' @ word_to_string (be_pid (wd_env w)) @ ''.'' @ infer_ext fmt spec_text"

definition write_spec_file :: "string \<Rightarrow> string \<Rightarrow> string option \<Rightarrow> (string + string) bridge" where
  "write_spec_file dir spec_text fmt = (\<lambda>w.
     let path = spec_file_path dir spec_text fmt w; env = wd_env w in
     if bt_get (be_files env) path \<noteq> None
     then (Inr (Inl (''failed to create spec file '' @ path @ '': File exists (os error 17)'')), w)
     else (Inr (Inr path), w\<lparr>wd_env := env\<lparr>be_files := bt_insert path spec_text (be_files env)\<rparr>\<rparr>))"

definition parse_submitted_execution_spec ::
    "readers \<Rightarrow> string \<Rightarrow> string \<Rightarrow> (string + execution_spec) bridge" where
  "parse_submitted_execution_spec rd body dir =
     (case parse_execution_spec_request rd body of
        Inr r \<Rightarrow> io_return (try_into_spec r)
      | Inl parse_err \<Rightarrow>
          (case parse_runtime_spec_document rd body of
             Inl e \<Rightarrow> io_return (Inl e)
           | Inr doc \<Rightarrow>
               if \<not> looks_like_runtime_spec doc then io_return (Inl parse_err)
               else io_bind (write_spec_file dir body None) (\<lambda>r. case r of
                      Inl e \<Rightarrow> io_return (Inl e)
                    | Inr path \<Rightarrow> io_return (Inr (wrap_runtime_spec_as_execution path (runtime_goal doc))))))"

subsection \<open>Executions\<close>

definition respond_with_execution_dry_run :: "execution_spec \<Rightarrow> response" where
  "respond_with_execution_dry_run spec =
     (let r = dry_run front_end_global spec in json_response (if dr_valid r then 200 else 400) (BDryRun r))"

definition invalid_dry_run :: "string \<Rightarrow> dry_run_result" where
  "invalid_dry_run e =
     \<lparr>dr_valid = False,
      dr_plan = \<lparr>dr_candidates_per_iteration = 0, dr_max_iterations = None, dr_max_child_runs = None,
        dr_estimated_concurrent_peak = 0, dr_variation_source = ''invalid'', dr_parameter_space_size = None\<rparr>,
      dr_warnings = [], dr_errors = [e]\<rparr>"

definition handle_execution_dry_run :: "readers \<Rightarrow> string \<Rightarrow> response bridge" where
  "handle_execution_dry_run rd body =
     io_bind (io_get (\<lambda>w. be_temp_dir (wd_env w) @ ''/void-control-dry-run-'' @ now_text_ms w)) (\<lambda>temp_root.
     io_bind (parse_submitted_execution_spec rd body (temp_root @ ''/specs'')) (\<lambda>r. case r of
       Inl e \<Rightarrow> io_return (json_response 400 (BDryRun (invalid_dry_run e)))
     | Inr spec \<Rightarrow> io_return (respond_with_execution_dry_run spec)))"

definition submit_execution_spec :: "codec \<Rightarrow> string \<Rightarrow> execution_spec \<Rightarrow> response bridge" where
  "submit_execution_spec cx xid spec =
     io_bind (io_attempt (submit_execution cx xid spec)) (\<lambda>r. case r of
       Inl e \<Rightarrow> io_return (internal_error e)
     | Inr x \<Rightarrow> io_return (json_response 200 (BExecution x)))"

definition handle_execution_create :: "codec \<Rightarrow> readers \<Rightarrow> bridge_config \<Rightarrow> string \<Rightarrow> response bridge" where
  "handle_execution_create cx rd cf body =
     io_bind (parse_submitted_execution_spec rd body (bc_spec_dir cf)) (\<lambda>r. case r of
       Inl e \<Rightarrow> io_return (error_response 400 ''INVALID_SPEC'' e False)
     | Inr spec \<Rightarrow> io_bind (io_get new_execution_id) (\<lambda>xid. submit_execution_spec cx xid spec))"

definition handle_execution_list :: "codec \<Rightarrow> response bridge" where
  "handle_execution_list cx =
     io_bind (io_attempt (store_read list_execution_ids)) (\<lambda>r. case r of
       Inl e \<Rightarrow> io_return (internal_error e)
     | Inr ids \<Rightarrow> io_bind (io_get wd_fs) (\<lambda>fs.
         io_return (json_response 200 (BExecutions (List.map_filter
           (\<lambda>xid. case load_execution cx xid fs of Inl _ \<Rightarrow> None | Inr sn \<Rightarrow> Some (sn_execution sn)) ids)))))"

definition execution_detail_of :: "execution_snapshot \<Rightarrow> execution_detail" where
  "execution_detail_of sn =
     \<lparr>ed_execution = sn_execution sn, ed_progress = summarize_progress sn,
      ed_result = \<lparr>er_best_candidate_id = ex_result_best_candidate_id (sn_execution sn),
        er_completed_iterations = ex_completed_iterations (sn_execution sn),
        er_total_candidate_failures = total_candidate_failures (ex_failure_counts (sn_execution sn))\<rparr>,
      ed_candidates = sn_candidates sn\<rparr>"

text \<open>The answer when a snapshot is loaded: what to show, or the error.\<close>

definition respond_with_snapshot :: "codec \<Rightarrow> string \<Rightarrow> (execution_snapshot \<Rightarrow> body) \<Rightarrow> response bridge" where
  "respond_with_snapshot cx xid f =
     io_bind (io_attempt (store_read (load_execution cx xid))) (\<lambda>r. io_return (case r of
       Inr sn \<Rightarrow> json_response 200 (f sn)
     | Inl e \<Rightarrow> if io_kind e = NotFound then execution_not_found xid else internal_error e))"

definition handle_execution_get :: "codec \<Rightarrow> string \<Rightarrow> response bridge" where
  "handle_execution_get cx path =
     (case strip_prefix ''/v1/executions/'' path of
        None \<Rightarrow> io_return (no_route ''GET'' path)
      | Some xid \<Rightarrow> respond_with_snapshot cx xid (\<lambda>sn. BDetail (execution_detail_of sn)))"

text \<open>The id between a prefix and a suffix of the path.\<close>

definition path_id :: "string \<Rightarrow> string \<Rightarrow> string \<Rightarrow> string option" where
  "path_id before after path = Option.bind (strip_prefix before path) (strip_suffix after)"

definition handle_execution_events :: "codec \<Rightarrow> string \<Rightarrow> response bridge" where
  "handle_execution_events cx path =
     (case path_id ''/v1/executions/'' ''/events'' path of
        None \<Rightarrow> io_return (no_route ''GET'' path)
      | Some xid \<Rightarrow> respond_with_snapshot cx xid
          (\<lambda>sn. BEvents xid (map (\<lambda>e. (ce_seq e, event_as_str (ce_event_type e))) (sn_events sn))))"

fun action_suffix :: "execution_action \<Rightarrow> string" where
  "action_suffix ActPause = ''/pause''"
| "action_suffix ActResume = ''/resume''"
| "action_suffix ActCancel = ''/cancel''"

text \<open>The answer to an update: a missing execution, a refused one with the code given, or another error.\<close>

definition update_response :: "string \<Rightarrow> string \<Rightarrow> ('a \<Rightarrow> body) \<Rightarrow> io_error + 'a \<Rightarrow> response" where
  "update_response xid invalid_code f r =
     (case r of
        Inr x \<Rightarrow> json_response 200 (f x)
      | Inl e \<Rightarrow> if io_kind e = NotFound then execution_not_found xid
                 else if io_kind e = InvalidInput then error_response 400 invalid_code (io_message e) False
                 else internal_error e)"

definition handle_execution_action :: "codec \<Rightarrow> string \<Rightarrow> execution_action \<Rightarrow> response bridge" where
  "handle_execution_action cx path action =
     (case path_id ''/v1/executions/'' (action_suffix action) path of
        None \<Rightarrow> io_return (no_route ''POST'' path)
      | Some xid \<Rightarrow> io_bind (io_attempt (update_execution_status cx xid action)) (\<lambda>r.
          io_return (update_response xid ''INVALID_STATE'' BExecution r)))"

definition patch_of_request :: "policy_patch_request \<Rightarrow> policy_patch" where
  "patch_of_request r =
     \<lparr>pp_max_iterations = Option.bind (tq_budget r) (\<lambda>x. x),
      pp_max_concurrent_candidates = Option.bind (tq_concurrency r) (\<lambda>x. x)\<rparr>"

definition handle_execution_policy_patch :: "codec \<Rightarrow> readers \<Rightarrow> string \<Rightarrow> string \<Rightarrow> response bridge" where
  "handle_execution_policy_patch cx rd path body =
     (case path_id ''/v1/executions/'' ''/policy'' path of
        None \<Rightarrow> io_return (no_route ''PATCH'' path)
      | Some xid \<Rightarrow>
          (case rd_patch_json rd body of
             Inl e \<Rightarrow> io_return (error_response 400 ''INVALID_POLICY'' (''invalid JSON body: '' @ e) False)
           | Inr r \<Rightarrow>
               if tq_convergence r \<noteq> None \<or> tq_evaluation r \<noteq> None \<or> tq_variation r \<noteq> None
               then io_return (error_response 400 ''INVALID_POLICY''
                      ''convergence, evaluation, and variation fields are immutable'' False)
               else io_bind (io_attempt (patch_execution_policy cx xid (patch_of_request r) front_end_global)) (\<lambda>r.
                      io_return (update_response xid ''INVALID_POLICY'' (\<lambda>spec.
                        BPolicy xid (bp_max_iterations (op_budget (es_policy spec)))
                          (max_concurrent_candidates (op_concurrency (es_policy spec)))) r))))"

subsection \<open>Batches and teams\<close>

definition parse_submitted_batch_spec :: "readers \<Rightarrow> string \<Rightarrow> response + batch_spec" where
  "parse_submitted_batch_spec rd body =
     map_err (\<lambda>e. error_response 400 ''INVALID_BATCH'' e False)
       (if looks_like_json body then parse_batch_json (rd_batch_json rd) body
        else parse_batch_yaml (rd_batch_yaml rd) body)"

definition parse_submitted_team_spec :: "readers \<Rightarrow> string \<Rightarrow> response + team_spec" where
  "parse_submitted_team_spec rd body =
     map_err (\<lambda>e. error_response 400 ''INVALID_TEAM'' e False)
       (if looks_like_json body then parse_team_json (rd_team_json rd) body
        else parse_team_yaml (rd_team_yaml rd) body)"

definition compiled_batch :: "readers \<Rightarrow> string \<Rightarrow> response + execution_spec" where
  "compiled_batch rd body =
     res_bind (parse_submitted_batch_spec rd body) (\<lambda>s.
       map_err (\<lambda>e. error_response 400 ''INVALID_BATCH'' e False) (compile_batch_spec s))"

definition compiled_team :: "readers \<Rightarrow> string \<Rightarrow> response + execution_spec" where
  "compiled_team rd body =
     res_bind (parse_submitted_team_spec rd body) (\<lambda>s.
       map_err (\<lambda>e. error_response 400 ''INVALID_TEAM'' e False) (compile_team_spec s))"

definition handle_batch_dry_run :: "readers \<Rightarrow> string \<Rightarrow> response" where
  "handle_batch_dry_run rd body =
     (case compiled_batch rd body of
        Inl r \<Rightarrow> r
      | Inr x \<Rightarrow> json_response 200 (BCompiled ''batch'' ''swarm'' (compiled_execution_summary x)))"

definition handle_team_dry_run :: "readers \<Rightarrow> string \<Rightarrow> response" where
  "handle_team_dry_run rd body =
     (case compiled_team rd body of
        Inl r \<Rightarrow> r
      | Inr x \<Rightarrow> json_response 200 (BCompiled ''team'' (es_mode x) (compiled_execution_summary x)))"

text \<open>Submitting a compiled specification and reporting it.\<close>

definition submit_compiled :: "codec \<Rightarrow> (execution \<Rightarrow> body) \<Rightarrow> execution_spec \<Rightarrow> response bridge" where
  "submit_compiled cx f spec =
     io_bind (io_get new_execution_id) (\<lambda>xid.
     io_bind (io_attempt (submit_execution cx xid spec)) (\<lambda>r. case r of
       Inl e \<Rightarrow> io_return (internal_error e)
     | Inr x \<Rightarrow> io_return (json_response 200 (f x))))"

definition handle_batch_run :: "codec \<Rightarrow> readers \<Rightarrow> string \<Rightarrow> response bridge" where
  "handle_batch_run cx rd body =
     (case compiled_batch rd body of
        Inl r \<Rightarrow> io_return r
      | Inr spec \<Rightarrow> submit_compiled cx (\<lambda>x. BSubmitted ''batch'' (ex_execution_id x) ''swarm'' x) spec)"

definition handle_team_run :: "codec \<Rightarrow> readers \<Rightarrow> string \<Rightarrow> response bridge" where
  "handle_team_run cx rd body =
     (case compiled_team rd body of
        Inl r \<Rightarrow> io_return r
      | Inr spec \<Rightarrow> submit_compiled cx (\<lambda>x. BSubmitted ''team'' (ex_execution_id x) (es_mode spec) x) spec)"

text \<open>A successful detail is tagged with the kind and the run id; other answers stay as they are.\<close>

definition tag_detail :: "string \<Rightarrow> (execution_detail \<Rightarrow> string) \<Rightarrow> response \<Rightarrow> response" where
  "tag_detail kind run_id r =
     (if rs_status r \<noteq> 200 then r
      else case rs_body r of BDetail d \<Rightarrow> json_response 200 (BTagged kind (run_id d) d) | _ \<Rightarrow> r)"

definition handle_team_get :: "codec \<Rightarrow> string \<Rightarrow> response bridge" where
  "handle_team_get cx path =
     (case strip_prefix ''/v1/team-runs/'' path of
        None \<Rightarrow> io_return (no_route ''GET'' path)
      | Some xid \<Rightarrow> io_bind (handle_execution_get cx (''/v1/executions/'' @ xid)) (\<lambda>r.
          io_return (tag_detail ''team'' (\<lambda>_. xid) r)))"

definition batch_run_id :: "string \<Rightarrow> string option" where
  "batch_run_id path =
     (case strip_prefix ''/v1/batch-runs/'' path of Some xid \<Rightarrow> Some xid
      | None \<Rightarrow> strip_prefix ''/v1/yolo-runs/'' path)"

definition handle_batch_get :: "codec \<Rightarrow> string \<Rightarrow> response bridge" where
  "handle_batch_get cx path =
     (case batch_run_id path of
        None \<Rightarrow> io_return (no_route ''GET'' path)
      | Some xid \<Rightarrow> io_bind (handle_execution_get cx (''/v1/executions/'' @ xid)) (\<lambda>r.
          io_return (tag_detail ''batch'' (\<lambda>d. ex_execution_id (ed_execution d)) r)))"

subsection \<open>Templates\<close>

definition load_bridge_template :: "readers \<Rightarrow> bridge_env \<Rightarrow> string \<Rightarrow> string + control_template" where
  "load_bridge_template rd env xid = load_template (rd_serde rd) (be_template_dir env) (be_templates env) xid"

text \<open>A template that cannot be loaded: missing by the text of the message, or invalid.\<close>

definition template_error :: "string \<Rightarrow> string \<Rightarrow> response" where
  "template_error xid e =
     (if contains_str ''No such file or directory'' e
      then error_response 404 ''NOT_FOUND'' (''template '' @ squoted xid @ '' not found'') False
      else error_response 400 ''INVALID_TEMPLATE'' e False)"

definition handle_template_list :: "readers \<Rightarrow> bridge_env \<Rightarrow> response" where
  "handle_template_list rd env =
     (case list_templates (rd_serde rd) (be_template_dir env) (be_templates env) of
        Inr ts \<Rightarrow> json_response 200 (BTemplates ts)
      | Inl e \<Rightarrow> error_response 500 ''INTERNAL_ERROR'' e True)"

definition handle_template_get :: "readers \<Rightarrow> bridge_env \<Rightarrow> string \<Rightarrow> response" where
  "handle_template_get rd env path =
     (case strip_prefix ''/v1/templates/'' path of
        None \<Rightarrow> no_route ''GET'' path
      | Some xid \<Rightarrow> (case load_bridge_template rd env xid of
            Inr t \<Rightarrow> json_response 200 (BTemplate t)
          | Inl e \<Rightarrow> template_error xid e))"

definition compile_template_request ::
    "readers \<Rightarrow> bridge_env \<Rightarrow> string \<Rightarrow> string \<Rightarrow> response + compiled_template" where
  "compile_template_request rd env xid body =
     res_bind (map_err (template_error xid) (load_bridge_template rd env xid)) (\<lambda>t.
     res_bind (map_err (\<lambda>e. error_response 400 ''INVALID_TEMPLATE_REQUEST''
         (''invalid template request body: '' @ e) False) (rd_template_request rd body)) (\<lambda>inputs.
     map_err (\<lambda>e. error_response 400 ''INVALID_TEMPLATE_INPUTS'' e False)
       (compile_template (rd_serde rd) t inputs)))"

definition handle_template_dry_run :: "readers \<Rightarrow> bridge_env \<Rightarrow> string \<Rightarrow> string \<Rightarrow> response" where
  "handle_template_dry_run rd env path body =
     (case path_id ''/v1/templates/'' ''/dry-run'' path of
        None \<Rightarrow> no_route ''POST'' path
      | Some xid \<Rightarrow> (case compile_template_request rd env xid body of
            Inl r \<Rightarrow> r
          | Inr c \<Rightarrow> json_response 200 (BTemplateDryRun (tp_id (cl_template c)) (tp_execution_kind (cl_template c))
              (cl_normalized_inputs c) (compiled_execution_summary (cl_execution_spec c)))))"

definition handle_template_execute :: "codec \<Rightarrow> readers \<Rightarrow> string \<Rightarrow> string \<Rightarrow> response bridge" where
  "handle_template_execute cx rd path body =
     (case path_id ''/v1/templates/'' ''/execute'' path of
        None \<Rightarrow> io_return (no_route ''POST'' path)
      | Some xid \<Rightarrow> io_bind (io_get wd_env) (\<lambda>env.
          case compile_template_request rd env xid body of
            Inl r \<Rightarrow> io_return r
          | Inr c \<Rightarrow> submit_compiled cx (BTemplateExecuted (tp_id (cl_template c)) (tp_execution_kind (cl_template c)))
              (cl_execution_spec c)))"

subsection \<open>Launching one run\<close>

type_synonym run_client = "start_request \<Rightarrow> (bridge_env, contract_error, start_result) call"

definition trimmed :: "string option \<Rightarrow> string option" where
  "trimmed s = (case s of None \<Rightarrow> None | Some x \<Rightarrow> if trim x = [] then None else Some (trim x))"

text \<open>The file of the launch: written from the text, or the one named.\<close>

definition launch_file :: "bridge_config \<Rightarrow> launch_request \<Rightarrow> (response + string) bridge" where
  "launch_file cf l =
     (case trimmed (lq_spec_text l) of
        Some spec_text \<Rightarrow> io_bind (write_spec_file (bc_spec_dir cf) spec_text (lq_spec_format l)) (\<lambda>r.
          io_return (map_err (\<lambda>e. error_response 500 ''INTERNAL_ERROR'' e True) r))
      | None \<Rightarrow> io_return (ok_or (error_response 400 ''INVALID_SPEC'' ''provide either `spec_text` or `file`'' False)
          (trimmed (lq_file l))))"

definition launch_run_id :: "launch_request \<Rightarrow> bridge_env world \<Rightarrow> string" where
  "launch_run_id l w =
     (case lq_run_id l of None \<Rightarrow> next_run_id w | Some r \<Rightarrow> if trim r = [] then next_run_id w else r)"

definition start_launched :: "run_client \<Rightarrow> string \<Rightarrow> string \<Rightarrow> execution_policy \<Rightarrow> response bridge" where
  "start_launched client run_id spec_file policy = (\<lambda>w.
     case client \<lparr>sr_run_id = run_id, sr_workflow_spec = spec_file, sr_launch_context = None, sr_policy = policy\<rparr> w of
       (Inr st, w') \<Rightarrow> (Inr (json_response 200 (BLaunched
          \<lparr>lr_run_id = run_id_from_handle (st_handle st), lr_attempt_id = st_attempt_id st,
           lr_state = state_to_str (st_state st), lr_file = spec_file\<rparr>)), w')
     | (Inl e, w') \<Rightarrow> (Inr (error_response 500 ''INTERNAL_ERROR'' (ce_message e) (ce_retryable e)), w'))"

definition handle_launch :: "readers \<Rightarrow> bridge_config \<Rightarrow> run_client option \<Rightarrow> string \<Rightarrow> response bridge" where
  "handle_launch rd cf client body =
     (case rd_launch_json rd body of
        Inl e \<Rightarrow> io_return (error_response 400 ''INVALID_SPEC'' (''invalid JSON body: '' @ e) False)
      | Inr l \<Rightarrow> io_bind (launch_file cf l) (\<lambda>r. case r of
          Inl resp \<Rightarrow> io_return resp
        | Inr spec_file \<Rightarrow> io_bind (io_get (launch_run_id l)) (\<lambda>run_id.
            let policy = policy_from_json (lq_policy l) in
            case execution_policy_validate policy of
              Inl e \<Rightarrow> io_return (error_response 400 ''INVALID_POLICY'' e False)
            | Inr _ \<Rightarrow> (case client of
                None \<Rightarrow> io_return (error_response 500 ''INTERNAL_ERROR'' ''launch route requires runtime client'' False)
              | Some c \<Rightarrow> start_launched c run_id spec_file policy))))"

subsection \<open>Dispatch by method and path\<close>

definition is_dry_run_or_execute :: "string \<Rightarrow> bool" where
  "is_dry_run_or_execute path = (ends_with ''/dry-run'' path \<or> ends_with ''/execute'' path)"

definition pure_response :: "(bridge_env \<Rightarrow> response) \<Rightarrow> response bridge" where
  "pure_response f = io_bind (io_get wd_env) (\<lambda>env. io_return (f env))"

definition handle_get :: "codec \<Rightarrow> readers \<Rightarrow> string \<Rightarrow> response bridge" where
  "handle_get cx rd path =
     (if path = ''/v1/health'' then io_return (json_response 200 BHealth)
      else if starts_with ''/v1/team-runs/'' path then handle_team_get cx path
      else if starts_with ''/v1/batch-runs/'' path then handle_batch_get cx path
      else if starts_with ''/v1/yolo-runs/'' path then handle_batch_get cx path
      else if path = ''/v1/templates'' then pure_response (handle_template_list rd)
      else if starts_with ''/v1/templates/'' path \<and> \<not> is_dry_run_or_execute path
      then pure_response (\<lambda>env. handle_template_get rd env path)
      else if path = ''/v1/executions'' then handle_execution_list cx
      else if starts_with ''/v1/executions/'' path \<and> ends_with ''/events'' path
      then handle_execution_events cx path
      else if starts_with ''/v1/executions/'' path then handle_execution_get cx path
      else io_return (no_route ''GET'' path))"

definition handle_post ::
    "codec \<Rightarrow> readers \<Rightarrow> bridge_config \<Rightarrow> run_client option \<Rightarrow> string \<Rightarrow> string \<Rightarrow> response bridge" where
  "handle_post cx rd cf client path body =
     (if path = ''/v1/executions/dry-run'' then handle_execution_dry_run rd body
      else if path = ''/v1/batch/dry-run'' \<or> path = ''/v1/yolo/dry-run'' then io_return (handle_batch_dry_run rd body)
      else if path = ''/v1/teams/dry-run'' then io_return (handle_team_dry_run rd body)
      else if path = ''/v1/teams/run'' then handle_team_run cx rd body
      else if path = ''/v1/batch/run'' \<or> path = ''/v1/yolo/run'' then handle_batch_run cx rd body
      else if starts_with ''/v1/templates/'' path \<and> ends_with ''/dry-run'' path
      then pure_response (\<lambda>env. handle_template_dry_run rd env path body)
      else if starts_with ''/v1/templates/'' path \<and> ends_with ''/execute'' path
      then handle_template_execute cx rd path body
      else if path = ''/v1/executions'' then handle_execution_create cx rd cf body
      else if starts_with ''/v1/executions/'' path \<and> ends_with ''/pause'' path
      then handle_execution_action cx path ActPause
      else if starts_with ''/v1/executions/'' path \<and> ends_with ''/resume'' path
      then handle_execution_action cx path ActResume
      else if starts_with ''/v1/executions/'' path \<and> ends_with ''/cancel'' path
      then handle_execution_action cx path ActCancel
      else if path = ''/v1/launch'' then handle_launch rd cf client body
      else io_return (no_route ''POST'' path))"

definition handle_patch :: "codec \<Rightarrow> readers \<Rightarrow> string \<Rightarrow> string \<Rightarrow> response bridge" where
  "handle_patch cx rd path body =
     (if starts_with ''/v1/executions/'' path \<and> ends_with ''/policy'' path
      then handle_execution_policy_patch cx rd path body
      else io_return (no_route ''PATCH'' path))"

text \<open>
  The routes of one method keep the order of the code's list; routes of different methods do not
  compete.
\<close>

definition handle_bridge_request ::
    "codec \<Rightarrow> readers \<Rightarrow> bridge_config \<Rightarrow> run_client option \<Rightarrow> string \<Rightarrow> string \<Rightarrow> string \<Rightarrow> response bridge" where
  "handle_bridge_request cx rd cf client verb path body =
     (if verb = ''GET'' then handle_get cx rd path
      else if verb = ''POST'' then handle_post cx rd cf client path body
      else if verb = ''PATCH'' then handle_patch cx rd path body
      else io_return (no_route verb path))"

end
