(* ===== verification/Bridge_Props.thy ===== *)
theory Bridge_Props
  imports Bridge
begin

text \<open>
  Properties of the bridge: every request is answered, reading changes nothing, the answers to actions,
  what is submitted, what is launched, and the summaries of progress.
\<close>

subsection \<open>Handlers always answer\<close>

named_theorems answer_rules \<open>structural rules for handlers that answer\<close>

text \<open>The operation may fail but does not panic.\<close>

definition no_panic :: "('w, 'a) io \<Rightarrow> bool" where
  "no_panic m = (\<forall>w. case fst (m w) of Inl (Panic _) \<Rightarrow> False | _ \<Rightarrow> True)"

lemma no_panic_bind:
  assumes "no_panic m" "\<And>x. no_panic (f x)"
  shows "no_panic (io_bind m f)"
  unfolding no_panic_def
proof
  fix w
  obtain r w' where m: "m w = (r, w')" by fastforce
  show "case fst (io_bind m f w) of Inl (Panic _) \<Rightarrow> False | _ \<Rightarrow> True"
  proof (cases r)
    case (Inl e)
    with m assms(1) [unfolded no_panic_def, rule_format, of w] show ?thesis by (simp add: io_bind_def)
  next
    case (Inr x)
    with m assms(2) [of x, unfolded no_panic_def, rule_format, of w'] show ?thesis by (simp add: io_bind_def)
  qed
qed

lemma no_panic_then: "no_panic m \<Longrightarrow> no_panic k \<Longrightarrow> no_panic (io_then m k)"
  by (simp add: io_then_def no_panic_bind)

lemma no_panic_basic:
  "no_panic (io_return x)" "no_panic (io_fail e)" "no_panic (io_result r)" "no_panic (store_read f)"
  "no_panic (store_do g)" "no_panic (io_get h)"
  by (auto simp: no_panic_def io_return_def io_fail_def io_result_def store_read_def store_do_def io_get_def
      split: sum.split prod.split)

lemmas no_panic_rules = no_panic_bind no_panic_then no_panic_basic

definition answers :: "'a set \<Rightarrow> ('w, 'a) io \<Rightarrow> bool" where
  "answers S m = (\<forall>w. \<exists>r w'. m w = (Inr r, w') \<and> r \<in> S)"

lemma answers_return [answer_rules]: "r \<in> S \<Longrightarrow> answers S (io_return r)"
  by (simp add: answers_def io_return_def)

lemma answers_bind: "answers T m \<Longrightarrow> (\<And>x. x \<in> T \<Longrightarrow> answers S (f x)) \<Longrightarrow> answers S (io_bind m f)"
  unfolding answers_def io_bind_def
proof
  fix w
  assume m: "\<forall>w. \<exists>r w'. m w = (Inr r, w') \<and> r \<in> T"
    and f: "\<And>x. x \<in> T \<Longrightarrow> \<forall>w. \<exists>r w'. f x w = (Inr r, w') \<and> r \<in> S"
  from m obtain x w1 where x: "m w = (Inr x, w1)" "x \<in> T" by blast
  with f [OF x(2)] show "\<exists>r w'. (case m w of (Inl e, w') \<Rightarrow> (Inl e, w') | (Inr x, w') \<Rightarrow> f x w') = (Inr r, w') \<and> r \<in> S"
    by simp
qed

lemma answers_attempt [answer_rules]:
  assumes "no_panic m" "\<And>r. answers S (f r)"
  shows "answers S (io_bind (io_attempt m) f)"
proof (rule answers_bind)
  show "answers UNIV (io_attempt m)"
    unfolding answers_def
  proof
    fix w
    obtain r w' where m: "m w = (r, w')" by fastforce
    with assms(1) [unfolded no_panic_def, rule_format, of w]
    show "\<exists>x w'. io_attempt m w = (Inr x, w') \<and> x \<in> UNIV"
      by (cases r) (auto simp: io_attempt_def split: fault.splits)
  qed
qed (rule assms(2))

lemma answers_get [answer_rules]: "(\<And>x. answers S (f x)) \<Longrightarrow> answers S (io_bind (io_get h) f)"
  by (simp add: answers_def io_bind_def io_get_def)

lemma answers_if [answer_rules]: "(b \<Longrightarrow> answers S m) \<Longrightarrow> (\<not> b \<Longrightarrow> answers S k) \<Longrightarrow> answers S (if b then m else k)"
  by simp

lemma answers_option [answer_rules]:
  "answers S m \<Longrightarrow> (\<And>x. answers S (f x)) \<Longrightarrow> answers S (case v of None \<Rightarrow> m | Some x \<Rightarrow> f x)"
  by (simp split: option.split)

lemma answers_sum [answer_rules]:
  "(\<And>e. v = Inl e \<Longrightarrow> answers S (f e)) \<Longrightarrow> (\<And>x. v = Inr x \<Longrightarrow> answers S (g x)) \<Longrightarrow>
     answers S (case v of Inl e \<Rightarrow> f e | Inr x \<Rightarrow> g x)"
  by (simp split: sum.split)

text \<open>The statuses the bridge uses.\<close>

definition bridge_responses :: "response set" where
  "bridge_responses = {r. rs_status r \<in> {200, 400, 404, 500}}"

lemma response_statuses [simp]:
  "json_response s b \<in> bridge_responses \<longleftrightarrow> s \<in> {200, 400, 404, 500}"
  "error_response s c m v \<in> bridge_responses \<longleftrightarrow> s \<in> {200, 400, 404, 500}"
  "no_route verb path \<in> bridge_responses" "internal_error e \<in> bridge_responses"
  "execution_not_found xid \<in> bridge_responses" "template_error xid m \<in> bridge_responses"
  "update_response xid c f r \<in> bridge_responses"
  by (auto simp: bridge_responses_def json_response_def error_response_def no_route_def internal_error_def
      execution_not_found_def template_error_def update_response_def split: sum.split)

lemma answers_write: "answers UNIV (write_spec_file dir text fmt)"
  by (simp add: answers_def write_spec_file_def Let_def)

lemma answers_parse: "answers UNIV (parse_submitted_execution_spec rd body dir)"
  unfolding parse_submitted_execution_spec_def
  by (intro answer_rules answers_bind [OF answers_write]) simp_all

lemma no_panic_submit: "no_panic (submit_execution cx xid spec)"
  unfolding submit_execution_def Let_def by (intro no_panic_rules)

lemma no_panic_update: "no_panic (update_execution_status cx xid a)"
  unfolding update_execution_status_def Let_def save_now_def by (intro no_panic_rules)

lemma no_panic_patch: "no_panic (patch_execution_policy cx xid p g)"
  unfolding patch_execution_policy_def Let_def by (auto intro!: no_panic_rules)

lemma answers_snapshot: "answers bridge_responses (respond_with_snapshot cx xid f)"
  unfolding respond_with_snapshot_def
  by (intro answer_rules no_panic_rules) (auto split: sum.split)

lemma answers_submit: "answers bridge_responses (submit_compiled cx f spec)"
  unfolding submit_compiled_def by (intro answer_rules no_panic_submit) simp_all

lemma compiled_response:
  "compiled_batch rd body = Inl r \<Longrightarrow> r \<in> bridge_responses"
  "compiled_team rd body = Inl r \<Longrightarrow> r \<in> bridge_responses"
  "compile_template_request rd env xid body = Inl r \<Longrightarrow> r \<in> bridge_responses"
  by (auto simp: compiled_batch_def parse_submitted_batch_spec_def compiled_team_def parse_submitted_team_spec_def
      compile_template_request_def result_simps)

lemma tag_detail_response: "r \<in> bridge_responses \<Longrightarrow> tag_detail kind f r \<in> bridge_responses"
  by (simp add: tag_detail_def split: body.split)

lemma answers_execution_get: "answers bridge_responses (handle_execution_get cx path)"
  unfolding handle_execution_get_def by (intro answer_rules answers_snapshot) simp

lemma answers_handle_get: "answers bridge_responses (handle_get cx rd path)"
  unfolding handle_get_def handle_team_get_def handle_batch_get_def handle_execution_list_def
    handle_execution_events_def pure_response_def handle_template_list_def handle_template_get_def
  by (intro answer_rules answers_snapshot answers_execution_get no_panic_rules
      answers_bind [OF answers_execution_get]) (auto split: sum.split option.split intro: tag_detail_response)

lemma answers_launch_file:
  "answers {x. \<forall>r. x = Inl r \<longrightarrow> r \<in> bridge_responses} (launch_file cf l)"
  unfolding launch_file_def
  by (intro answer_rules answers_bind [OF answers_write]) (auto simp: result_simps split: sum.split)

lemma answers_start: "answers bridge_responses (start_launched c run_id f p)"
  unfolding start_launched_def answers_def by (auto split: prod.split sum.split)

lemma answers_launch: "answers bridge_responses (handle_launch rd cf client body)"
  unfolding handle_launch_def Let_def
  by (intro answer_rules answers_bind [OF answers_launch_file])
    (auto intro!: answers_start)

lemma answers_create: "answers bridge_responses (handle_execution_create cx rd cf body)"
  unfolding handle_execution_create_def submit_execution_spec_def
  by (intro answer_rules answers_bind [OF answers_parse] no_panic_submit) simp_all

lemma answers_dry_run: "answers bridge_responses (handle_execution_dry_run rd body)"
  unfolding handle_execution_dry_run_def respond_with_execution_dry_run_def Let_def
  by (intro answer_rules answers_bind [OF answers_parse]) simp_all

lemma answers_action: "answers bridge_responses (handle_execution_action cx path a)"
  unfolding handle_execution_action_def by (intro answer_rules no_panic_update) simp_all

lemma answers_policy: "answers bridge_responses (handle_execution_policy_patch cx rd path body)"
  unfolding handle_execution_policy_patch_def by (intro answer_rules no_panic_patch) simp_all

lemma answers_run:
  "answers bridge_responses (handle_batch_run cx rd body)" "answers bridge_responses (handle_team_run cx rd body)"
  "answers bridge_responses (handle_template_execute cx rd path body)"
  unfolding handle_batch_run_def handle_team_run_def handle_template_execute_def
  by (intro answer_rules answers_submit; auto dest: compiled_response)+

lemma dry_run_responses [simp]:
  "handle_batch_dry_run rd body \<in> bridge_responses" "handle_team_dry_run rd body \<in> bridge_responses"
  "handle_template_dry_run rd env path body \<in> bridge_responses"
  by (auto simp: handle_batch_dry_run_def handle_team_dry_run_def handle_template_dry_run_def
      split: sum.split option.split dest: compiled_response)

lemma answers_request: "answers bridge_responses (handle_bridge_request cx rd cf client verb path body)"
  unfolding handle_bridge_request_def handle_post_def handle_patch_def pure_response_def
  by (intro answers_if answers_get answers_return answers_handle_get answers_launch answers_create answers_dry_run
      answers_action answers_policy answers_run) simp_all

lemma keeps_handle_get: "keeps P (handle_get cx rd path)"
  unfolding handle_get_def handle_team_get_def handle_batch_get_def handle_execution_list_def
    handle_execution_events_def handle_execution_get_def respond_with_snapshot_def pure_response_def
  by (intro keeps_rules)

subsection \<open>Routing\<close>

lemma ends_with_append: "length p \<le> length q \<Longrightarrow> ends_with p (a @ q) = ends_with p q"
  by (simp add: ends_with_def)

lemma strip_suffix_append [simp]: "strip_suffix p (a @ p) = Some a"
  by (simp add: strip_suffix_def ends_with_def)

lemma path_id_between: "path_id before after (before @ xid @ after) = Some xid"
  by (simp add: path_id_def)

lemma starts_with_eval:
  "starts_with ''/v1/executions/'' (''/v1/executions/'' @ s)"
  "\<not> starts_with ''/v1/templates/'' (''/v1/executions/'' @ s)"
  by (simp_all add: starts_with_def)

lemma action_route:
  "handle_bridge_request cx rd cf client ''POST'' (''/v1/executions/'' @ xid @ action_suffix a) body
     = handle_execution_action cx (''/v1/executions/'' @ xid @ action_suffix a) a"
proof -
  let ?path = "''/v1/executions/'' @ xid @ action_suffix a"
  have suffix: "ends_with (action_suffix b) ?path \<longleftrightarrow> b = a" for b
  proof -
    have "ends_with (action_suffix b) (''/v1/executions/'' @ xid @ action_suffix a)
        \<longleftrightarrow> ends_with (action_suffix b) (CHR ''x'' # action_suffix a)"
      if "last (''/v1/executions/'' @ xid) = c" for c
    proof -
      have "\<exists>s. ''/v1/executions/'' @ xid = s @ [c]" using that
        by (metis append_butlast_last_id append_is_Nil_conv list.distinct(1))
      then obtain s where s: "?path = s @ (c # action_suffix a)" by (metis append.assoc append_Cons append_Nil)
      have "length (action_suffix b) \<le> length (c # action_suffix a)" by (cases a; cases b) simp_all
      from ends_with_append [OF this, of s] have "ends_with (action_suffix b) ?path = ends_with (action_suffix b) (c # action_suffix a)"
        unfolding s .
      then show ?thesis by (cases a; cases b) (simp_all add: ends_with_def)
    qed
    then show ?thesis by (cases a; cases b) (simp_all add: ends_with_def)
  qed
  have neq: "?path \<noteq> ''/v1/executions/dry-run''" "?path \<noteq> ''/v1/batch/dry-run''" "?path \<noteq> ''/v1/yolo/dry-run''"
    "?path \<noteq> ''/v1/teams/dry-run''" "?path \<noteq> ''/v1/teams/run''" "?path \<noteq> ''/v1/batch/run''" "?path \<noteq> ''/v1/yolo/run''"
    "?path \<noteq> ''/v1/executions'' "
    using suffix [of a] by (cases a; auto simp: ends_with_def)+
  note s = suffix [of ActPause] suffix [of ActResume] suffix [of ActCancel]
  show ?thesis
    using neq starts_with_eval [of "xid @ action_suffix a"] s
    unfolding handle_bridge_request_def handle_post_def by (cases a) simp_all
qed

subsection \<open>Counts\<close>

lemma event_as_str_eq [simp]: "event_as_str t = event_as_str u \<longleftrightarrow> t = u"
  by (metis event_parse_as_str option.inject)

lemma fold_bump_count:
  "bt_get (fold bump_count es m) s =
     (let k = length (filter (\<lambda>e. event_as_str (ce_event_type e) = s) es)
      in if k = 0 then bt_get m s else Some (unwrap_or 0 (bt_get m s) + of_nat k))"
  by (induction es arbitrary: m) (auto simp: bump_count_def Let_def unwrap_or_def ac_simps split: option.split)

lemma unat_count: "length xs < 2 ^ 32 \<Longrightarrow> unat (count_u32 q xs) = length (filter q xs)"
  using order.strict_trans1 [OF length_filter_le [of q xs]] by (simp add: count_u32_def unat_of_nat)

lemma statuses_partition:
  "length (filter (\<lambda>c. ca_status c = CaQueued) cs) + length (filter (\<lambda>c. ca_status c = CaRunning) cs)
     + length (filter (\<lambda>c. ca_status c = CaCompleted) cs) + length (filter (\<lambda>c. ca_status c = CaFailed) cs)
     + length (filter (\<lambda>c. ca_status c = CaCanceled) cs) = length cs"
proof (induction cs)
  case (Cons c cs)
  then show ?case by (cases "ca_status c") simp_all
qed simp

lemma execute_route:
  assumes "starts_with ''/v1/templates/'' path" "ends_with ''/execute'' path"
  shows "handle_bridge_request cx rd cf client ''POST'' path body = handle_template_execute cx rd path body"
proof -
  have other: "\<not> ends_with ''/dry-run'' path" using assms(2) by (auto simp: ends_with_def)
  have "path \<noteq> p" if "\<not> starts_with ''/v1/templates/'' p" for p using that assms(1) by blast
  then have "path \<noteq> ''/v1/executions/dry-run''" "path \<noteq> ''/v1/batch/dry-run''" "path \<noteq> ''/v1/yolo/dry-run''"
    "path \<noteq> ''/v1/teams/dry-run''" "path \<noteq> ''/v1/teams/run''" "path \<noteq> ''/v1/batch/run''" "path \<noteq> ''/v1/yolo/run''"
    by (simp_all add: starts_with_def)
  with other assms show ?thesis by (simp add: handle_bridge_request_def handle_post_def)
qed

lemma run_routes:
  "path \<in> {''/v1/batch/run'', ''/v1/yolo/run''} \<Longrightarrow>
     handle_bridge_request cx rd cf client ''POST'' path body = handle_batch_run cx rd body"
  "handle_bridge_request cx rd cf client ''POST'' ''/v1/teams/run'' body = handle_team_run cx rd body"
  by (auto simp: handle_bridge_request_def handle_post_def)

subsection \<open>Launching\<close>

lemma launch_file_error: "launch_file cf l w = (Inr (Inl r), w') \<Longrightarrow> rs_status r \<noteq> 200"
  by (auto simp: launch_file_def io_bind_def io_return_def error_response_def json_response_def result_simps
      split: option.splits prod.splits sum.splits)

lemma trim_blank: "trim s = [] \<longleftrightarrow> (\<forall>c \<in> set s. is_ws c)"
  by (auto simp: trim_def dropWhile_eq_Nil_conv dest: set_dropWhileD) (metis dropWhile_eq_Nil_conv set_dropWhileD takeWhile_dropWhile_id in_set_conv_decomp set_append Un_iff set_takeWhileD)

lemma launch_file_effect:
  assumes "launch_file cf l w = (Inr (Inr path), w')"
  shows "trim path \<noteq> [] \<and> wd_fs w' = wd_fs w"
proof (cases "trimmed (lq_spec_text l)")
  case None
  with assms have "path = trim (the (lq_file l))" "trim (the (lq_file l)) \<noteq> []" "w' = w"
    by (auto simp: launch_file_def io_return_def trimmed_def split: option.splits if_splits)
  then show ?thesis by simp
next
  case (Some spec_text)
  with assms have "path = spec_file_path (bc_spec_dir cf) spec_text (lq_spec_format l) w" "wd_fs w' = wd_fs w"
    by (auto simp: launch_file_def io_bind_def io_return_def write_spec_file_def Let_def split: if_splits)
  then show ?thesis by (auto simp: trim_blank spec_file_path_def is_ws_def)
qed

lemma launch_run_id_nonblank: "trim (launch_run_id l w) \<noteq> []"
  by (auto simp: launch_run_id_def next_run_id_def trim_blank is_ws_def split: option.split)

subsection \<open>Submitting\<close>

lemma submit_ok:
  assumes "cx_spec_enc cx spec = Inr s"
  shows "\<exists>w'. submit_execution cx xid spec w = (Inr (execution_new xid (es_mode spec) (es_goal spec)), w')"
proof -
  let ?x = "execution_new xid (es_mode spec) (es_goal spec)"
  have id: "ex_execution_id ?x = xid" by (simp add: execution_new_def)
  obtain fs1 where create: "create_execution ?x (wd_fs w) = (Inr (), fs1)" and "bt_get fs1 xid \<noteq> None"
    using save_execution_ok [of ?x "create_dir_all xid (wd_fs w)"] by (auto simp: create_execution_def id)
  moreover have "\<exists>fs'. store_append_event xid e fs = (Inr (), fs') \<and> bt_get fs' xid \<noteq> None"
    if "bt_get fs xid \<noteq> None" for e fs
    using that by (auto simp: store_append_event_def write_dir_def Let_def split: option.split)
  ultimately obtain fs2 fs3 where
    "store_append_event xid (control_event_new xid 1 ExecutionCreated) fs1 = (Inr (), fs2)"
    "store_append_event xid (control_event_new xid 2 ExecutionSubmitted) fs2 = (Inr (), fs3)"
    by metis
  moreover obtain fs4 where "save_spec cx xid spec fs3 = (Inr (), fs4)"
    using assms by (cases "bt_get fs3 xid") (auto simp: save_spec_def write_dir_def create_dir_all_def)
  ultimately show ?thesis
    by (simp add: submit_execution_def io_then_def io_bind_def store_do_def create io_return_def Let_def)
qed

lemma wrapped_spec_ok: "trim path \<noteq> [] \<Longrightarrow> trim goal \<noteq> [] \<Longrightarrow>
    spec_ok front_end_global (wrap_runtime_spec_as_execution path goal)"
  by (simp add: spec_ok_def wrap_runtime_spec_as_execution_def front_end_global_def supervision_ok_def policy_ok_def
      convergence_ok_def variation_explicit_def known_variation_source_def)

text \<open>A request that answers 200 by submitting submitted a valid specification under the id of its time.\<close>

definition submitted_valid :: "codec \<Rightarrow> response bridge \<Rightarrow> bool" where
  "submitted_valid cx m = (\<forall>w r w'. m w = (Inr r, w') \<longrightarrow> rs_status r = 200 \<longrightarrow>
     (\<exists>spec x. spec_ok front_end_global spec \<and> submit_execution cx (new_execution_id w) spec w = (Inr x, w')))"

lemma submitted_valid_reject: "rs_status r \<noteq> 200 \<Longrightarrow> submitted_valid cx (io_return r)"
  by (simp add: submitted_valid_def io_return_def)

lemma submitted_valid_submit: "spec_ok front_end_global spec \<Longrightarrow> submitted_valid cx (submit_compiled cx f spec)"
  by (auto simp: submitted_valid_def submit_compiled_def io_bind_def io_get_def io_attempt_def io_return_def
      internal_error_def error_response_def json_response_def split: prod.splits sum.splits fault.splits)

lemma compiled_rejects:
  "compiled_batch rd body = Inl r \<Longrightarrow> rs_status r \<noteq> 200" "compiled_team rd body = Inl r \<Longrightarrow> rs_status r \<noteq> 200"
  "compile_template_request rd env xid body = Inl r \<Longrightarrow> rs_status r \<noteq> 200"
  by (auto simp: compiled_batch_def parse_submitted_batch_spec_def compiled_team_def parse_submitted_team_spec_def
      compile_template_request_def template_error_def error_response_def json_response_def result_simps split: if_splits)

lemma dry_run_valid: "dr_valid (dry_run global spec) = spec_ok global spec"
  by (cases "spec_validate spec global") (simp_all add: dry_run_def Let_def flip: spec_validate_iff)

lemma compiled_valid:
  "compiled_batch rd body = Inr spec \<Longrightarrow> spec_ok front_end_global spec"
  "compiled_team rd body = Inr spec \<Longrightarrow> spec_ok front_end_global spec"
  "compile_template_request rd env xid body = Inr c \<Longrightarrow> spec_ok front_end_global (cl_execution_spec c)"
  by (auto simp: compiled_batch_def compiled_team_def compile_template_request_def result_simps compile_batch_Inr
      compile_team_spec_def compile_template_def Let_def spec_validate_Inr split: json.splits)

lemma submitted_valid_run:
  "submitted_valid cx (handle_batch_run cx rd body)" "submitted_valid cx (handle_team_run cx rd body)"
  by (auto simp: handle_batch_run_def handle_team_run_def split: sum.split intro: submitted_valid_reject
      submitted_valid_submit dest: compiled_rejects compiled_valid)

lemma submitted_valid_execute: "submitted_valid cx (handle_template_execute cx rd path body)"
proof -
  have "submitted_valid cx (case compile_template_request rd env xid body of
            Inl r \<Rightarrow> io_return r
          | Inr c \<Rightarrow> submit_compiled cx (BTemplateExecuted (tp_id (cl_template c)) (tp_execution_kind (cl_template c)))
              (cl_execution_spec c))" for env xid
    by (auto split: sum.split intro: submitted_valid_reject submitted_valid_submit dest: compiled_rejects compiled_valid)
  then show ?thesis
    unfolding handle_template_execute_def
    by (auto simp: submitted_valid_def io_bind_def io_get_def io_return_def no_route_def error_response_def
        json_response_def split: option.splits)
qed

subsection \<open>Properties\<close>

text \<open>
  Every request is answered, with status 200, 400, 404 or 500, whatever its method, path and body and
  whatever is on disk; no handler panics, and a GET request changes nothing.
\<close>

theorem bridge_always_answers:
  "\<exists>r w'. handle_bridge_request cx rd cf client verb path body w = (Inr r, w')
     \<and> rs_status r \<in> {200, 400, 404, 500} \<and> (verb = ''GET'' \<longrightarrow> w' = w)"
proof -
  obtain r w' where run: "handle_bridge_request cx rd cf client verb path body w = (Inr r, w')" "r \<in> bridge_responses"
    using answers_request [unfolded answers_def] by blast
  have "w' = w" if "verb = ''GET''"
  proof -
    have "keeps (\<lambda>v. v = w) (handle_get cx rd path)" by (rule keeps_handle_get)
    from keepsD [OF this] have "snd (handle_get cx rd path w) = w" by simp
    with run(1) that show ?thesis by (simp add: handle_bridge_request_def)
  qed
  with run show ?thesis by (auto simp: bridge_responses_def)
qed

lemma bridge_always_answers_witness:
  "\<forall>cx rd cf client w. handle_bridge_request cx rd cf client ''GET'' ''/v1/health'' [] w
     = (Inr (json_response 200 BHealth), w)"
proof (intro allI)
  fix cx rd cf client w
  show "handle_bridge_request cx rd cf client ''GET'' ''/v1/health'' [] w = (Inr (json_response 200 BHealth), w)"
    using bridge_always_answers [of cx rd cf client "''GET''" "''/v1/health''" "[]" w]
    by (auto simp: handle_bridge_request_def handle_get_def io_return_def)
qed

text \<open>
  C25: The endpoints that pause, resume and cancel answer by the state of the execution: 404 when it is not
  on disk, 400 with the code \<open>INVALID_STATE\<close> when its status does not allow the action - in both cases
  nothing changes - and otherwise 200 with the execution in its new status, which is then on disk.
\<close>

theorem action_endpoint:
  defines "answer \<equiv> \<lambda>cx rd cf client xid a body.
    handle_bridge_request cx rd cf client ''POST'' (''/v1/executions/'' @ xid @ action_suffix a) body"
  shows "case load_execution cx xid (wd_fs w) of
      Inl e \<Rightarrow> answer cx rd cf client xid a body w
        = (Inr (if io_kind e = NotFound then execution_not_found xid
                else if io_kind e = InvalidInput then error_response 400 ''INVALID_STATE'' (io_message e) False
                else internal_error e), w)
    | Inr sn \<Rightarrow> (case next_status a (ex_status (sn_execution sn)) of
        Inl e \<Rightarrow> answer cx rd cf client xid a body w
          = (Inr (error_response 400 ''INVALID_STATE'' (io_message e) False), w)
      | Inr st \<Rightarrow> ex_execution_id (sn_execution sn) = xid \<longrightarrow>
          (\<exists>w'. answer cx rd cf client xid a body w
             = (Inr (json_response 200 (BExecution ((sn_execution sn)\<lparr>ex_status := st\<rparr>))), w')
           \<and> stored_execution (wd_fs w') xid = Some (execution_text ((sn_execution sn)\<lparr>ex_status := st\<rparr>))))"
proof -
  have answer: "answer cx rd cf client xid a body w =
     io_bind (io_attempt (update_execution_status cx xid a)) (\<lambda>r.
          io_return (update_response xid ''INVALID_STATE'' BExecution r)) w"
    by (simp only: answer_def action_route handle_execution_action_def path_id_between option.case)
  show ?thesis
  proof (cases "load_execution cx xid (wd_fs w)")
    case (Inl e)
    then show ?thesis
      unfolding answer
      by (simp add: update_execution_status_def io_bind_def io_attempt_def store_read_def io_result_def io_fail_def
          io_return_def update_response_def)
  next
    case (Inr sn)
    show ?thesis
    proof (cases "next_status a (ex_status (sn_execution sn))")
      case (Inl e)
      with Inr next_status_error [OF Inl] show ?thesis
        unfolding answer
        by (simp add: update_execution_status_def io_bind_def io_attempt_def store_read_def io_result_def io_fail_def
          io_return_def update_response_def)
    next
      case (Inr st)
      show ?thesis
      proof -
        let ?x = "(sn_execution sn)\<lparr>ex_status := st\<rparr>"
        have "\<exists>w'. answer cx rd cf client xid a body w = (Inr (json_response 200 (BExecution ?x)), w')
            \<and> stored_execution (wd_fs w') xid = Some (execution_text ?x)"
          if xid: "ex_execution_id (sn_execution sn) = xid"
        proof -
          obtain fs1 where save: "save_execution ?x (wd_fs w) = (Inr (), fs1)" and dir: "bt_get fs1 xid \<noteq> None"
            using save_execution_ok [of ?x "wd_fs w"] xid by auto
          have "stored_execution fs1 xid = Some (execution_text ?x)"
            using save xid by (auto simp: save_execution_def write_dir_def stored_execution_def split: option.splits)
          moreover obtain fs2 where append: "store_append_event xid
              (control_event_new xid (of_nat (length (sn_events sn)) + 1) (action_event a)) fs1 = (Inr (), fs2)"
            using dir by (auto simp: store_append_event_def write_dir_def Let_def split: option.split)
          moreover have "stored_execution fs2 xid = stored_execution fs1 xid"
            using stored_frame(1) [of xid _ fs1 xid] append by (metis snd_conv)
          ultimately show ?thesis
            using \<open>load_execution cx xid (wd_fs w) = Inr sn\<close> Inr save
            unfolding answer
            by (simp add: update_execution_status_def io_bind_def io_attempt_def store_read_def io_result_def
                io_return_def io_then_def save_now_def store_do_def update_response_def Let_def)
        qed
        with \<open>load_execution cx xid (wd_fs w) = Inr sn\<close> Inr show ?thesis by simp
      qed
    qed
  qed
qed

lemma action_endpoint_witness:
  "\<forall>cx rd cf client body w. handle_bridge_request cx rd cf client ''POST'' (''/v1/executions/'' @ ''e9'' @ ''/pause'') body
      (w\<lparr>wd_fs := []\<rparr>) = (Inr (execution_not_found ''e9''), w\<lparr>wd_fs := []\<rparr>)"
proof (intro allI)
  fix cx rd cf client body and w :: "bridge_env world"
  show "handle_bridge_request cx rd cf client ''POST'' (''/v1/executions/'' @ ''e9'' @ ''/pause'') body
      (w\<lparr>wd_fs := []\<rparr>) = (Inr (execution_not_found ''e9''), w\<lparr>wd_fs := []\<rparr>)"
    using action_endpoint [where cx = cx and rd = rd and cf = cf and client = client and body = body
        and xid = "''e9''" and w = "w\<lparr>wd_fs := []\<rparr>" and a = ActPause]
    by (simp add: load_execution_def read_file_def not_found_def)
qed

text \<open>
  Progress counts what is on disk: the five counts of candidates by status add up to the number of
  candidates, the counts by type name exactly the types of the events that occurred with their numbers,
  and the three dedicated counts agree with them.
\<close>

theorem progress_counts_agree:
  fixes sn :: execution_snapshot
  defines "p \<equiv> summarize_progress sn"
    and "n \<equiv> \<lambda>t. length (filter (\<lambda>e. ce_event_type e = t) (sn_events sn))"
  assumes "length (sn_events sn) < 2 ^ 32" and "length (sn_candidates sn) < 2 ^ 32"
  shows "unat (pg_queued_candidate_count p) + unat (pg_running_candidate_count p) + unat (pg_completed_candidate_count p)
      + unat (pg_failed_candidate_count p) + unat (pg_canceled_candidate_count p) = length (sn_candidates sn)
    \<and> (\<forall>t. map_option unat (bt_get (pg_event_type_counts p) (event_as_str t)) = (if n t = 0 then None else Some (n t)))
    \<and> unat (pg_candidate_queue_count p) = n CandidateQueued \<and> unat (pg_candidate_dispatch_count p) = n CandidateDispatched
    \<and> unat (pg_candidate_output_count p) = n CandidateOutputCollected"
proof -
  have n: "n t < 2 ^ 32" for t
    using assms(3) length_filter_le [of "\<lambda>e. ce_event_type e = t" "sn_events sn"] unfolding n_def by (rule order.strict_trans1 [rotated])
  have counts: "unat (count_u32 (\<lambda>e. ce_event_type e = t) (sn_events sn)) = n t" for t
    using unat_count [OF assms(3)] by (simp add: n_def)
  have "bt_get (pg_event_type_counts p) (event_as_str t) = (if n t = 0 then None else Some (of_nat (n t)))" for t
    unfolding p_def summarize_progress_def Let_def execution_progress.simps fold_bump_count n_def
      event_as_str_eq by (simp add: unwrap_or_def)
  then have "map_option unat (bt_get (pg_event_type_counts p) (event_as_str t)) = (if n t = 0 then None else Some (n t))" for t
    using n [of t] by (simp add: take_bit_nat_eq_self unat_of_nat)
  with counts statuses_partition [of "sn_candidates sn"] show ?thesis
    unfolding p_def summarize_progress_def Let_def execution_progress.simps by (simp add: unat_count [OF assms(4)])
qed

lemma progress_counts_agree_witness:
  "\<forall>x. map_option unat (bt_get (pg_event_type_counts (summarize_progress
      \<lparr>sn_execution = x, sn_events = [control_event_new ''e1'' 1 CandidateQueued],
       sn_accumulator = accumulator_default, sn_candidates = []\<rparr>)) ''CandidateQueued'') = Some 1"
proof
  fix x
  show "map_option unat (bt_get (pg_event_type_counts (summarize_progress
      \<lparr>sn_execution = x, sn_events = [control_event_new ''e1'' 1 CandidateQueued],
       sn_accumulator = accumulator_default, sn_candidates = []\<rparr>)) ''CandidateQueued'') = Some 1"
    using conjunct1 [OF conjunct2 [OF progress_counts_agree [of "\<lparr>sn_execution = x,
        sn_events = [control_event_new ''e1'' 1 CandidateQueued],
        sn_accumulator = accumulator_default, sn_candidates = []\<rparr>"]], THEN spec, of CandidateQueued]
    by (simp add: control_event_new_def)
qed

text \<open>A submission writes the execution and its specification, and nothing to the directories of others.\<close>

lemma submit_stores:
  assumes "cx_spec_enc cx spec = Inr s"
  shows "\<exists>w' d. submit_execution cx xid spec w = (Inr (execution_new xid (es_mode spec) (es_goal spec)), w')
    \<and> bt_get (wd_fs w') xid = Some d \<and> xd_spec d = Some s
    \<and> xd_execution d = Some (execution_text (execution_new xid (es_mode spec) (es_goal spec)))
    \<and> (\<forall>y. bt_get (wd_fs w') y = bt_get (wd_fs w) y \<or> y = xid)"
proof -
  let ?x = "execution_new xid (es_mode spec) (es_goal spec)"
  have id: "ex_execution_id ?x = xid" by (simp add: execution_new_def)
  obtain w' where run: "submit_execution cx xid spec w = (Inr ?x, w')" using submit_ok [OF assms] by blast
  then have "\<exists>d. bt_get (wd_fs w') xid = Some d \<and> xd_spec d = Some s \<and> xd_execution d = Some (execution_text ?x)"
    and "\<forall>y. bt_get (wd_fs w') y = bt_get (wd_fs w) y \<or> y = xid"
    by (auto simp: submit_execution_def io_then_def io_bind_def store_do_def io_return_def Let_def create_execution_def
        save_execution_def store_append_event_def save_spec_def write_dir_def create_dir_all_def read_file_def id assms
        split: option.splits sum.splits prod.splits)
  with run show ?thesis by blast
qed


definition supervised_request :: spec_request where
  "supervised_request =
     \<lparr>sq_mode = ''supervision'', sq_goal = ''g'', sq_template = ''w.yaml'',
      sq_policy = \<lparr>pq_max_iterations = Some 1, pq_max_child_runs = None, pq_max_wall_clock_secs = None,
        pq_max_cost_usd_millis = None, pq_max_concurrent_candidates = 1,
        pq_convergence = \<lparr>cq_strategy = ''exhaustive'', cq_min_score = None, cq_max_iterations_without_improvement = None\<rparr>,
        pq_max_candidate_failures_per_iteration = 1, pq_missing_output_policy = ''mark_failed'',
        pq_iteration_failure_policy = ''fail_execution''\<rparr>,
      sq_evaluation = \<lparr>eq_scoring_type = ''weighted_metrics'', eq_weights = [], eq_pass_threshold = None,
        eq_ranking = ''highest_score'', eq_tie_breaking = ''lexicographic''\<rparr>,
      sq_variation = \<lparr>vq_source = ''explicit'', vq_candidates_per_iteration = 1, vq_selection = None,
        vq_parameter_space = None, vq_explicit = Some [[]]\<rparr>,
      sq_swarm = False, sq_supervision = None\<rparr>"


text \<open>
  C24: A batch, a team or a template that is answered with 200 was submitted under the id of its
  millisecond, and the specification compiled from it satisfies every rule of validation.
\<close>

theorem compiled_submissions_valid:
  assumes "path \<in> {''/v1/batch/run'', ''/v1/yolo/run'', ''/v1/teams/run''}
      \<or> starts_with ''/v1/templates/'' path \<and> ends_with ''/execute'' path"
    and "handle_bridge_request cx rd cf client ''POST'' path body w = (Inr r, w')" and "rs_status r = 200"
  shows "\<exists>spec x. spec_ok front_end_global spec
    \<and> submit_execution cx (new_execution_id w) spec w = (Inr x, w')"
proof -
  have "submitted_valid cx (handle_bridge_request cx rd cf client ''POST'' path body)"
    using assms(1)
  proof
    assume p: "path \<in> {''/v1/batch/run'', ''/v1/yolo/run'', ''/v1/teams/run''}"
    then consider "path \<in> {''/v1/batch/run'', ''/v1/yolo/run''}" | "path = ''/v1/teams/run''" by blast
    then show ?thesis by cases (simp_all only: run_routes submitted_valid_run)
  next
    assume "starts_with ''/v1/templates/'' path \<and> ends_with ''/execute'' path"
    then show ?thesis by (simp add: execute_route submitted_valid_execute)
  qed
  with assms(2,3) show ?thesis by (auto simp: submitted_valid_def)
qed

lemma compiled_submissions_valid_witness:
  "\<forall>(rd :: readers) cf client (w :: bridge_env world). \<exists>spec x w'. spec_ok front_end_global spec
    \<and> submit_execution plain_codec (new_execution_id w) spec w = (Inr x, w')"
proof (intro allI)
  fix rd :: readers and cf client and w :: "bridge_env world"
  let ?rd = "rd\<lparr>rd_batch_yaml := \<lambda>_. Inr (demo_batch None)\<rparr>"
  let ?s = "(demo_batch None)\<lparr>bs_kind := ''batch''\<rparr>"
  let ?spec = "batch_execution ?s"
  have "unat (effective_parallelism ?s) = 3" "bs_jobs ?s \<noteq> []" "trim (bw_template (bs_worker ?s)) \<noteq> []"
    by (simp_all add: effective_parallelism_def batch_parallelism_def demo_batch_def len_u32_def trim_def is_ws_def)
  then have "compiled_batch ?rd [] = Inr ?spec"
    by (simp add: compiled_batch_def parse_submitted_batch_spec_def looks_like_json_def parse_batch_yaml_def
        demo_batch_valid compile_batch_Inr batch_spec_ok starts_with_def trim_start_def)
  moreover have "cx_spec_enc plain_codec ?spec = Inr ''spec''" by (simp add: plain_codec_def)
  from submit_ok [OF this, of "new_execution_id w" w] obtain x w' where
    "submit_execution plain_codec (new_execution_id w) ?spec w = (Inr x, w')" by blast
  ultimately obtain r where "handle_bridge_request plain_codec ?rd cf client ''POST'' ''/v1/batch/run'' [] w = (Inr r, w')"
    "rs_status r = 200"
    by (simp add: run_routes handle_batch_run_def submit_compiled_def io_bind_def io_get_def io_attempt_def io_return_def
        json_response_def)
  from compiled_submissions_valid [OF _ this]
  show "\<exists>spec x w'. spec_ok front_end_global spec
    \<and> submit_execution plain_codec (new_execution_id w) spec w = (Inr x, w')" by blast
qed

text \<open>
  A launch answered with 200 called the runtime with a valid policy, a run id and a file
  that are not blank, and reports the state and the file of that call; without a runtime client no launch
  is answered with 200.
\<close>

theorem launch_starts_valid_request:
  assumes "handle_bridge_request cx rd cf client ''POST'' ''/v1/launch'' body w = (Inr r, w')" and "rs_status r = 200"
  shows "\<exists>c q st w1. client = Some c \<and> c q w1 = (Inr st, w') \<and> wd_fs w1 = wd_fs w
    \<and> execution_policy_validate (sr_policy q) = Inr () \<and> trim (sr_run_id q) \<noteq> [] \<and> trim (sr_workflow_spec q) \<noteq> []
    \<and> r = json_response 200 (BLaunched \<lparr>lr_run_id = run_id_from_handle (st_handle st), lr_attempt_id = st_attempt_id st,
        lr_state = state_to_str (st_state st), lr_file = sr_workflow_spec q\<rparr>)"
proof -
  have run: "handle_launch rd cf client body w = (Inr r, w')"
    using assms(1) by (simp add: handle_bridge_request_def handle_post_def starts_with_def ends_with_def)
  obtain l where l: "rd_launch_json rd body = Inr l"
    using run assms(2) by (auto simp: handle_launch_def io_return_def error_response_def json_response_def split: sum.splits)
  obtain f w1 where f: "launch_file cf l w = (Inr f, w1)"
    using answers_launch_file [unfolded answers_def, of cf l] by blast
  obtain path where path: "f = Inr path"
    using run assms(2) launch_file_error [of cf l w] l
    by (cases f) (auto simp: handle_launch_def io_bind_def f io_return_def)
  have valid: "execution_policy_validate (policy_from_json (lq_policy l)) = Inr ()"
    using run assms(2) unfolding handle_launch_def l sum.case io_bind_def f prod.case path io_get_def Let_def
    by (auto simp: io_return_def error_response_def json_response_def split: sum.splits)
  obtain c where c: "client = Some c"
    using run assms(2) unfolding handle_launch_def l sum.case io_bind_def f prod.case path io_get_def Let_def valid
    by (cases client) (auto simp: io_return_def error_response_def json_response_def)
  let ?q = "\<lparr>sr_run_id = launch_run_id l w1, sr_workflow_spec = path, sr_launch_context = None,
    sr_policy = policy_from_json (lq_policy l)\<rparr>"
  have "start_launched c (launch_run_id l w1) path (policy_from_json (lq_policy l)) w1 = (Inr r, w')"
    using run unfolding handle_launch_def l sum.case io_bind_def f prod.case path io_get_def Let_def valid c option.case .
  then obtain st where "c ?q w1 = (Inr st, w')" "r = json_response 200 (BLaunched \<lparr>lr_run_id = run_id_from_handle (st_handle st),
      lr_attempt_id = st_attempt_id st, lr_state = state_to_str (st_state st), lr_file = path\<rparr>)"
    using assms(2)
    by (auto simp: start_launched_def error_response_def json_response_def split: prod.splits sum.splits)
  with c valid launch_run_id_nonblank [of l w1] launch_file_effect [OF f [unfolded path]] show ?thesis
    by (intro exI [of _ c] exI [of _ ?q] exI [of _ st] exI [of _ w1]) simp
qed

text \<open>A runtime that starts every run under its id.\<close>

definition eager_client :: run_client where
  "eager_client q w = (Inr \<lparr>st_handle = ''vb:'' @ sr_run_id q, st_attempt_id = 1, st_state = RsPending\<rparr>, w)"

lemma launch_starts_valid_request_witness:
  "\<forall>cx (rd :: readers) cf (w :: bridge_env world). \<exists>q st.
     eager_client q w = (Inr st, w) \<and> execution_policy_validate (sr_policy q) = Inr ()
     \<and> handle_bridge_request cx (rd\<lparr>rd_launch_json := \<lambda>_. Inr \<lparr>lq_run_id = Some ''r1'', lq_file = Some ''w.yaml'',
         lq_spec_text = None, lq_spec_format = None, lq_policy = None\<rparr>\<rparr>) cf (Some eager_client) ''POST'' ''/v1/launch'' [] w
       = (Inr (json_response 200 (BLaunched \<lparr>lr_run_id = ''r1'', lr_attempt_id = 1, lr_state = ''pending'', lr_file = ''w.yaml''\<rparr>)), w)"
proof (intro allI)
  fix cx and rd :: readers and cf and w :: "bridge_env world"
  let ?rd = "rd\<lparr>rd_launch_json := \<lambda>_. Inr \<lparr>lq_run_id = Some ''r1'', lq_file = Some ''w.yaml'',
         lq_spec_text = None, lq_spec_format = None, lq_policy = None\<rparr>\<rparr>"
  have run: "handle_bridge_request cx ?rd cf (Some eager_client) ''POST'' ''/v1/launch'' [] w
     = (Inr (json_response 200 (BLaunched \<lparr>lr_run_id = ''r1'', lr_attempt_id = 1, lr_state = ''pending'', lr_file = ''w.yaml''\<rparr>)), w)"
    by (simp add: handle_bridge_request_def handle_post_def starts_with_def ends_with_def handle_launch_def
        launch_file_def trimmed_def trim_def is_ws_def io_bind_def io_get_def io_return_def launch_run_id_def Let_def
        policy_from_json_def default_policy_def execution_policy_validate_def start_launched_def eager_client_def
        run_id_from_handle_def strip_prefix_def)
  from launch_starts_valid_request [OF this] obtain c q st w1
    where "Some eager_client = Some c" "c q w1 = (Inr st, w)" "execution_policy_validate (sr_policy q) = Inr ()"
    by (auto simp: json_response_def)
  then have "eager_client q w = (Inr st, w)" by (auto simp: eager_client_def)
  with run \<open>execution_policy_validate (sr_policy q) = Inr ()\<close> show "\<exists>q st.
     eager_client q w = (Inr st, w) \<and> execution_policy_validate (sr_policy q) = Inr ()
     \<and> handle_bridge_request cx ?rd cf (Some eager_client) ''POST'' ''/v1/launch'' [] w
       = (Inr (json_response 200 (BLaunched \<lparr>lr_run_id = ''r1'', lr_attempt_id = 1, lr_state = ''pending'', lr_file = ''w.yaml''\<rparr>)), w)"
    by blast
qed

end
