(* ===== verification/Void_Box.thy ===== *)
theory Void_Box
  imports Service
begin

text \<open>
  The client of the void-box daemon (\<open>src/runtime/void_box.rs\<close>), the reading of its JSON
  (\<open>src/contract/compat_json.rs\<close>), the sidecar that delivers messages
  (\<open>src/runtime/http_sidecar.rs\<close>), and \<open>impl ExecutionRuntime for VoidBoxRuntimeClient\<close>
  (\<open>src/runtime/mod.rs\<close>). One HTTP request is the function \<open>http_request\<close> of the transport, which may
  change the world; the parsing and printing of JSON is the record \<open>daemon_readers\<close>.
\<close>

subsection \<open>compat_json.rs\<close>

record daemon_event_json =
  dj_ts_ms :: u64
  dj_event_type :: string
  dj_event_run_id :: "string option"
  dj_seq :: "u64 option"
  dj_payload :: "json option"

record daemon_run_json =
  dj_id :: string
  dj_status :: string
  dj_error :: "string option"
  dj_events :: "daemon_event_json list"

record daemon_readers =
  dl_json :: "string \<Rightarrow> string + json"
  dl_run :: "string \<Rightarrow> string + daemon_run_json"
  dl_events :: "string \<Rightarrow> string + daemon_event_json list"
  dl_intent :: "json \<Rightarrow> string + communication_intent"
  dl_intents :: "json \<Rightarrow> string + communication_intent list"
  dl_json_text :: "json \<Rightarrow> string"
  dl_inbox_text :: "inbox_snapshot \<Rightarrow> string + string"
  dl_f64_text :: "f64 \<Rightarrow> string"

fun json_to_payload_value :: "(json \<Rightarrow> string) \<Rightarrow> json \<Rightarrow> payload_value" where
  "json_to_payload_value txt (JStr s) = PvString s"
| "json_to_payload_value txt (JBool b) = PvBool b"
| "json_to_payload_value txt (JNum n) =
     (case num_as_i64 n of Some i \<Rightarrow> PvInteger i
      | None \<Rightarrow> (case num_as_u64 n of Some u \<Rightarrow> PvUnsigned u
        | None \<Rightarrow> (case num_as_f64 n of Some f \<Rightarrow> PvFloat f | None \<Rightarrow> PvUnsupported (txt (JNum n)))))"
| "json_to_payload_value txt JNull = PvNull"
| "json_to_payload_value txt (JArr xs) = PvUnsupported (txt (JArr xs))"
| "json_to_payload_value txt (JObj m) = PvUnsupported (txt (JObj m))"

definition payload_to_map :: "(json \<Rightarrow> string) \<Rightarrow> json \<Rightarrow> (string, payload_value) btree" where
  "payload_to_map txt v =
     (case v of
        JObj m \<Rightarrow> fold (\<lambda>(k, x). bt_insert k (json_to_payload_value txt x)) m []
      | _ \<Rightarrow> [(''value'', json_to_payload_value txt v)])"

definition to_raw_event :: "(json \<Rightarrow> string) \<Rightarrow> daemon_event_json \<Rightarrow> run_event_raw" where
  "to_raw_event txt e =
     \<lparr>re_ts_ms = dj_ts_ms e, re_event_type = dj_event_type e, re_run_id = dj_event_run_id e, re_seq = dj_seq e,
      re_payload = map_option (payload_to_map txt) (dj_payload e)\<rparr>"

definition to_raw_run_with_events ::
    "(json \<Rightarrow> string) \<Rightarrow> daemon_run_json \<Rightarrow> daemon_event_json list \<Rightarrow> run_raw" where
  "to_raw_run_with_events txt r es =
     \<lparr>rr_id = dj_id r, rr_status = dj_status r, rr_error = dj_error r, rr_events = map (to_raw_event txt) es\<rparr>"

definition to_raw_run :: "(json \<Rightarrow> string) \<Rightarrow> daemon_run_json \<Rightarrow> run_raw" where
  "to_raw_run txt r =
     \<lparr>rr_id = dj_id r, rr_status = dj_status r, rr_error = dj_error r, rr_events = map (to_raw_event txt) (dj_events r)\<rparr>"

definition invalid_json :: "string \<Rightarrow> string \<Rightarrow> contract_error" where
  "invalid_json what e = contract_error_new InvalidSpec (what @ '': '' @ e) False"

definition from_void_box_run_json :: "daemon_readers \<Rightarrow> string \<Rightarrow> contract_error + converted_run_view" where
  "from_void_box_run_json dl run_json =
     res_bind (map_err (invalid_json ''invalid run JSON'') (dl_run dl run_json)) (\<lambda>r.
       from_void_box_run (dl_f64_text dl) (to_raw_run (dl_json_text dl) r))"

definition from_void_box_run_and_events_json ::
    "daemon_readers \<Rightarrow> string \<Rightarrow> string \<Rightarrow> contract_error + converted_run_view" where
  "from_void_box_run_and_events_json dl run_json events_json =
     res_bind (map_err (invalid_json ''invalid run JSON'') (dl_run dl run_json)) (\<lambda>r.
     res_bind (map_err (invalid_json ''invalid events JSON'') (dl_events dl events_json)) (\<lambda>es.
       from_void_box_run (dl_f64_text dl) (to_raw_run_with_events (dl_json_text dl) r es)))"

subsection \<open>Requests and responses\<close>

record http_response =
  hp_status :: u16
  hp_body :: string

text \<open>Method, path and body.\<close>

type_synonym 'e http_request =
  "string \<Rightarrow> string \<Rightarrow> string \<Rightarrow> ('e, contract_error, http_response) call"

text \<open>\<open>?\<close> on calls that return a contract error.\<close>

definition call_return :: "'a \<Rightarrow> ('e, 'err, 'a) call" where
  "call_return x w = (Inr x, w)"

definition call_fail :: "'err \<Rightarrow> ('e, 'err, 'a) call" where
  "call_fail e w = (Inl e, w)"

definition call_bind :: "('e, 'err, 'a) call \<Rightarrow> ('a \<Rightarrow> ('e, 'err, 'b) call) \<Rightarrow> ('e, 'err, 'b) call" where
  "call_bind m f w = (case m w of (Inl e, w') \<Rightarrow> (Inl e, w') | (Inr x, w') \<Rightarrow> f x w')"

definition call_result :: "'err + 'a \<Rightarrow> ('e, 'err, 'a) call" where
  "call_result r = (case r of Inl e \<Rightarrow> call_fail e | Inr x \<Rightarrow> call_return x)"

record 'e void_box_client =
  vb_base_url :: string
  vb_poll_interval_ms :: u64
  vb_transport :: "'e http_request"
  vb_readers :: daemon_readers

definition http_get :: "'e void_box_client \<Rightarrow> string \<Rightarrow> ('e, contract_error, http_response) call" where
  "http_get c path = vb_transport c ''GET'' path []"

definition http_post :: "'e void_box_client \<Rightarrow> string \<Rightarrow> string \<Rightarrow> ('e, contract_error, http_response) call" where
  "http_post c path body = vb_transport c ''POST'' path body"

definition forward :: "'e void_box_client \<Rightarrow> string \<Rightarrow> string \<Rightarrow> string \<Rightarrow> ('e, contract_error, http_response) call" where
  "forward c verb path_and_query body = vb_transport c verb path_and_query body"

definition handle_from_run_id :: "string \<Rightarrow> string" where
  "handle_from_run_id run_id = ''vb:'' @ run_id"

definition handle_run_id :: "string \<Rightarrow> contract_error + string" where
  "handle_run_id handle =
     ok_or (contract_error_new CodeNotFound (''invalid run handle '' @ squoted handle) False) (strip_prefix ''vb:'' handle)"

definition http_status_error :: "string \<Rightarrow> u16 \<Rightarrow> contract_error" where
  "http_status_error what status =
     contract_error_new InternalError (what @ '': HTTP '' @ word_to_string status) (500 \<le> status)"

definition run_not_found :: "string \<Rightarrow> contract_error" where
  "run_not_found run_id = contract_error_new CodeNotFound (''run '' @ squoted run_id @ '' not found'') False"

definition run_path :: "string \<Rightarrow> string" where
  "run_path run_id = ''/v1/runs/'' @ run_id"

subsection \<open>Errors of the daemon\<close>

definition map_error_code :: "string \<Rightarrow> contract_error_code" where
  "map_error_code code =
     (if code = ''INVALID_SPEC'' then InvalidSpec
      else if code = ''INVALID_POLICY'' then InvalidPolicy
      else if code = ''NOT_FOUND'' then CodeNotFound
      else if code = ''ALREADY_TERMINAL'' then AlreadyTerminal
      else if code = ''RESOURCE_LIMIT_EXCEEDED'' then ResourceLimitExceeded
      else if code = ''STRUCTURED_OUTPUT_MISSING'' then StructuredOutputMissing
      else if code = ''STRUCTURED_OUTPUT_MALFORMED'' then StructuredOutputMalformed
      else if code = ''ARTIFACT_NOT_FOUND'' then ArtifactNotFound
      else if code = ''ARTIFACT_PUBLICATION_INCOMPLETE'' then ArtifactPublicationIncomplete
      else if code = ''ARTIFACT_STORE_UNAVAILABLE'' then ArtifactStoreUnavailable
      else if code = ''RETRIEVAL_TIMEOUT'' then RetrievalTimeout
      else InternalError)"

definition str_field :: "json \<Rightarrow> string \<Rightarrow> string option" where
  "str_field v k = Option.bind (json_get v k) json_as_str"

definition parse_api_error :: "daemon_readers \<Rightarrow> string \<Rightarrow> contract_error option" where
  "parse_api_error dl body =
     (case dl_json dl body of
        Inl _ \<Rightarrow> None
      | Inr v \<Rightarrow> map_option (\<lambda>code. contract_error_new (map_error_code code)
           (case str_field v ''message'' of None \<Rightarrow> code | Some m \<Rightarrow> m)
           (case Option.bind (json_get v ''retryable'') json_as_bool of None \<Rightarrow> False | Some b \<Rightarrow> b))
         (str_field v ''code''))"

definition map_http_error :: "daemon_readers \<Rightarrow> u16 \<Rightarrow> string \<Rightarrow> string \<Rightarrow> contract_error" where
  "map_http_error dl status body fallback =
     (case parse_api_error dl body of Some e \<Rightarrow> e | None \<Rightarrow> http_status_error fallback status)"

subsection \<open>Starting, stopping, inspecting\<close>

definition start_payload :: "daemon_readers \<Rightarrow> start_request \<Rightarrow> string" where
  "start_payload dl q =
     dl_json_text dl (JObj [(''file'', JStr (sr_workflow_spec q)),
       (''input'', case sr_launch_context q of None \<Rightarrow> JNull | Some s \<Rightarrow> JStr s)])"

definition parse_started :: "daemon_readers \<Rightarrow> string \<Rightarrow> contract_error + start_result" where
  "parse_started dl body =
     res_bind (map_err (invalid_json ''invalid create-run response'') (dl_json dl body)) (\<lambda>v.
     res_bind (ok_or (contract_error_new InvalidSpec ''missing run_id in create-run response'' False)
         (str_field v ''run_id'')) (\<lambda>run_id.
       Inr \<lparr>st_handle = handle_from_run_id run_id, st_attempt_id = 1, st_state = RsRunning\<rparr>))"

definition vb_start :: "'e void_box_client \<Rightarrow> start_request \<Rightarrow> ('e, contract_error, start_result) call" where
  "vb_start c q =
     call_bind (call_result (map_err (\<lambda>m. contract_error_new InvalidPolicy m False)
       (execution_policy_validate (sr_policy q)))) (\<lambda>_.
     call_bind (http_post c ''/v1/runs'' (start_payload (vb_readers c) q)) (\<lambda>r.
       if hp_status r = 404 then call_fail (contract_error_new CodeNotFound ''void-box endpoint not found'' False)
       else if 400 \<le> hp_status r then call_fail (http_status_error ''void-box start failed'' (hp_status r))
       else call_result (parse_started (vb_readers c) (hp_body r))))"

definition fetch_converted_run ::
    "'e void_box_client \<Rightarrow> string \<Rightarrow> ('e, contract_error, converted_run_view) call" where
  "fetch_converted_run c run_id =
     call_bind (http_get c (run_path run_id)) (\<lambda>run.
     call_bind (http_get c (run_path run_id @ ''/events'')) (\<lambda>events.
       if hp_status run = 404 \<or> hp_status events = 404 then call_fail (run_not_found run_id)
       else if 400 \<le> hp_status run \<or> 400 \<le> hp_status events
       then call_fail (http_status_error ''event poll failed''
              (if 400 \<le> hp_status run then hp_status run else hp_status events))
       else call_result (from_void_box_run_and_events_json (vb_readers c) (hp_body run) (hp_body events))))"

definition stop_result_of :: "converted_run_view \<Rightarrow> contract_error + stop_result" where
  "stop_result_of v =
     (case find event_is_terminal (rev (cv_events v)) of
        None \<Rightarrow> Inl (contract_error_new InternalError ''terminal event not found after cancel'' True)
      | Some e \<Rightarrow> Inr \<lparr>so_state = ri_state (cv_inspection v), so_terminal_event_id = ev_event_id e\<rparr>)"

definition vb_stop :: "'e void_box_client \<Rightarrow> stop_request \<Rightarrow> ('e, contract_error, stop_result) call" where
  "vb_stop c q =
     call_bind (call_result (handle_run_id (sp_handle q))) (\<lambda>run_id.
     call_bind (http_post c (run_path run_id @ ''/cancel'') ''{}'') (\<lambda>r.
       if hp_status r = 404 then call_fail (run_not_found run_id)
       else if 400 \<le> hp_status r then call_fail (http_status_error ''void-box cancel failed'' (hp_status r))
       else call_bind (fetch_converted_run c run_id) (\<lambda>v. call_result (stop_result_of v))))"

definition vb_inspect :: "'e void_box_client \<Rightarrow> string \<Rightarrow> ('e, contract_error, runtime_inspection) call" where
  "vb_inspect c handle =
     call_bind (call_result (handle_run_id handle)) (\<lambda>run_id.
     call_bind (http_get c (run_path run_id)) (\<lambda>r.
       if hp_status r = 404 then call_fail (run_not_found run_id)
       else if 400 \<le> hp_status r then call_fail (http_status_error ''inspect failed'' (hp_status r))
       else call_result (map_ok cv_inspection (from_void_box_run_json (vb_readers c) (hp_body r)))))"

definition filter_events_from_id :: "event_envelope list \<Rightarrow> string option \<Rightarrow> event_envelope list" where
  "filter_events_from_id events from =
     (case from of
        None \<Rightarrow> events
      | Some marker \<Rightarrow> if marker \<in> ev_event_id ` set events
          then tl (dropWhile (\<lambda>e. ev_event_id e \<noteq> marker) events) else events)"

definition vb_subscribe_events ::
    "'e void_box_client \<Rightarrow> subscribe_events_request \<Rightarrow> ('e, contract_error, event_envelope list) call" where
  "vb_subscribe_events c q =
     call_bind (call_result (handle_run_id (se_handle q))) (\<lambda>run_id.
     call_bind (fetch_converted_run c run_id) (\<lambda>v.
       call_return (filter_events_from_id (cv_events v) (se_from_event_id q))))"

definition vb_delivery_run_ref :: "'e void_box_client \<Rightarrow> string \<Rightarrow> contract_error + void_box_run_ref" where
  "vb_delivery_run_ref c handle =
     map_ok (\<lambda>run_id. \<lparr>vr_daemon_base_url = vb_base_url c, vr_run_id = run_id\<rparr>) (handle_run_id handle)"

subsection \<open>Listing runs\<close>

definition u32_field :: "json \<Rightarrow> string \<Rightarrow> u32 \<Rightarrow> u32" where
  "u32_field v k d = (case Option.bind (json_get v k) json_as_u64 of None \<Rightarrow> d | Some n \<Rightarrow> ucast n)"

text \<open>The first of two fields that is there, of whatever type.\<close>

definition either_field :: "json \<Rightarrow> string \<Rightarrow> string \<Rightarrow> json option" where
  "either_field v k k' = (case json_get v k of Some x \<Rightarrow> Some x | None \<Rightarrow> json_get v k')"

definition listed_inspection :: "json \<Rightarrow> runtime_inspection option" where
  "listed_inspection run =
     Option.bind (Option.bind (either_field run ''id'' ''run_id'') json_as_str) (\<lambda>run_id.
     Option.bind (Option.bind (either_field run ''status'' ''state'') json_as_str) (\<lambda>status.
     map_option (\<lambda>state.
       \<lparr>ri_run_id = run_id, ri_attempt_id = u32_field run ''attempt_id'' 1, ri_state = state,
        ri_active_stage_count = u32_field run ''active_stage_count'' 0,
        ri_active_microvm_count = u32_field run ''active_microvm_count'' 0,
        ri_started_at = (case str_field run ''started_at'' of None \<Rightarrow> [] | Some s \<Rightarrow> s),
        ri_updated_at = (case str_field run ''updated_at'' of None \<Rightarrow> [] | Some s \<Rightarrow> s),
        ri_terminal_reason = str_field run ''terminal_reason'',
        ri_exit_code = map_option ucast (Option.bind (json_get run ''exit_code'') json_as_i64)\<rparr>)
       (map_void_box_status status)))"

definition parse_listed :: "daemon_readers \<Rightarrow> string \<Rightarrow> contract_error + runtime_inspection list" where
  "parse_listed dl body =
     res_bind (map_err (invalid_json ''invalid runs response JSON'') (dl_json dl body)) (\<lambda>v.
     res_bind (ok_or (contract_error_new InvalidSpec ''missing runs array in list response'' False)
         (Option.bind (json_get v ''runs'') json_as_array)) (\<lambda>runs.
       Inr (List.map_filter listed_inspection runs)))"

definition list_path :: "string option \<Rightarrow> string" where
  "list_path state =
     (case state of
        None \<Rightarrow> ''/v1/runs''
      | Some s \<Rightarrow> if trim s = [] then ''/v1/runs'' else ''/v1/runs?state='' @ trim s)"

definition vb_list_runs :: "'e void_box_client \<Rightarrow> string option \<Rightarrow> ('e, contract_error, runtime_inspection list) call" where
  "vb_list_runs c state =
     call_bind (http_get c (list_path state)) (\<lambda>r.
       if 400 \<le> hp_status r then call_fail (http_status_error ''list runs failed'' (hp_status r))
       else call_result (parse_listed (vb_readers c) (hp_body r)))"

subsection \<open>Outputs and artifacts\<close>

definition malformed :: "string \<Rightarrow> contract_error" where
  "malformed m = contract_error_new StructuredOutputMalformed m False"

definition parse_structured_output :: "daemon_readers \<Rightarrow> string \<Rightarrow> string \<Rightarrow> contract_error + candidate_output" where
  "parse_structured_output dl run_id body =
     res_bind (map_err (\<lambda>e. malformed (''invalid structured output JSON: '' @ e)) (dl_json dl body)) (\<lambda>v.
     res_bind (ok_or (malformed ''structured output missing metrics object'')
         (Option.bind (json_get v ''metrics'') json_as_object)) (\<lambda>metrics.
     let out = candidate_output_new run_id
           (case str_field v ''status'' of None \<Rightarrow> True | Some s \<Rightarrow> to_ascii_lowercase s = ''success'')
           (bt_of_list (List.map_filter (\<lambda>(k, x). map_option (Pair k) (json_as_f64 x)) metrics))
     in case Option.bind (json_get v ''intents'') json_as_array of
          None \<Rightarrow> Inr out
        | Some xs \<Rightarrow> map_ok (\<lambda>is. out\<lparr>co_intents := is\<rparr>)
            (map_err (\<lambda>e. malformed (''invalid structured output intents: '' @ e)) (res_map (dl_intent dl) xs))))"

definition normalize_retrieval_path :: "string \<Rightarrow> string" where
  "normalize_retrieval_path path = (if starts_with ''/'' path then path else ''/'' @ path)"

definition manifest_match :: "string option \<Rightarrow> string \<Rightarrow> json \<Rightarrow> bool" where
  "manifest_match stage name entry =
     (str_field entry ''name'' = Some name \<and> str_field entry ''retrieval_path'' \<noteq> None
      \<and> (case stage of None \<Rightarrow> True | Some wanted \<Rightarrow> str_field entry ''stage'' = Some wanted))"

definition manifest_retrieval_path ::
    "daemon_readers \<Rightarrow> string \<Rightarrow> string option \<Rightarrow> string \<Rightarrow> contract_error + string option" where
  "manifest_retrieval_path dl run_body stage name =
     map_ok (\<lambda>v.
       case Option.bind (Option.bind (json_get v ''artifact_publication'') (\<lambda>p. json_get p ''manifest'')) json_as_array of
         None \<Rightarrow> None
       | Some manifest \<Rightarrow> (case find (manifest_match stage name) manifest of
             None \<Rightarrow> None
           | Some entry \<Rightarrow> map_option normalize_retrieval_path (str_field entry ''retrieval_path'')))
       (map_err (invalid_json ''invalid run JSON'') (dl_json dl run_body))"

definition structured_output_from_run_report ::
    "daemon_readers \<Rightarrow> string \<Rightarrow> json \<Rightarrow> contract_error + candidate_output option" where
  "structured_output_from_run_report dl run_id v =
     (if Option.bind (json_get v ''output_ready'') json_as_bool \<noteq> Some True then Inr None
      else case Option.bind (json_get v ''report'') (\<lambda>r. str_field r ''output'') of
        None \<Rightarrow> Inr None
      | Some output \<Rightarrow>
          if \<not> starts_with ''{'' (trim_start output) \<and> \<not> starts_with ''['' (trim_start output) then Inr None
          else map_ok Some (parse_structured_output dl run_id output))"

definition parse_artifact_response ::
    "daemon_readers \<Rightarrow> http_response \<Rightarrow> contract_error_code \<Rightarrow> contract_error + string option" where
  "parse_artifact_response dl r default_not_found =
     (if hp_status r = 404 then
        (case parse_api_error dl (hp_body r) of
           None \<Rightarrow> Inr None
         | Some e \<Rightarrow> if ce_code e \<in> {ArtifactNotFound, CodeNotFound} \<and> default_not_found = ArtifactNotFound
                     then Inr None else Inl e)
      else if 400 \<le> hp_status r
      then Inl (map_http_error dl (hp_status r) (hp_body r) ''artifact retrieval failed'')
      else if trim (hp_body r) = [] then Inl (contract_error_new default_not_found ''artifact body was empty'' False)
      else Inr (Some (hp_body r)))"

text \<open>The stages are tried in order; a stage that has no output is passed over.\<close>

definition missing_codes :: "contract_error_code set" where
  "missing_codes = {StructuredOutputMissing, ArtifactNotFound, CodeNotFound}"

definition stage_output_path :: "string \<Rightarrow> string \<Rightarrow> string" where
  "stage_output_path run_id stage = run_path run_id @ ''/stages/'' @ stage @ ''/output-file''"

fun try_stages ::
    "'e void_box_client \<Rightarrow> string \<Rightarrow> string list \<Rightarrow> contract_error option
     \<Rightarrow> ('e, contract_error, candidate_output option) call" where
  "try_stages c run_id [] missing =
     (case missing of None \<Rightarrow> call_return None | Some e \<Rightarrow> call_fail e)"
| "try_stages c run_id (stage # stages) missing =
     call_bind (http_get c (stage_output_path run_id stage)) (\<lambda>r.
       if hp_status r = 404 then
         (case parse_api_error (vb_readers c) (hp_body r) of
            None \<Rightarrow> try_stages c run_id stages missing
          | Some e \<Rightarrow> if ce_code e \<in> missing_codes then try_stages c run_id stages (Some e) else call_fail e)
       else if 400 \<le> hp_status r
       then call_fail (map_http_error (vb_readers c) (hp_status r) (hp_body r) ''structured output fetch failed'')
       else call_result (map_ok Some (parse_structured_output (vb_readers c) run_id (hp_body r))))"

definition output_stages :: "json \<Rightarrow> string list" where
  "output_stages v =
     (case Option.bind (json_get v ''report'') (\<lambda>r. str_field r ''name'') of
        None \<Rightarrow> [''main'', ''output'']
      | Some stage \<Rightarrow> if stage \<in> {''main'', ''output''} then [''main'', ''output''] else [''main'', ''output'', stage])"

definition fetch_manifested ::
    "'e void_box_client \<Rightarrow> string \<Rightarrow> string \<Rightarrow> ('e, contract_error, candidate_output option) call" where
  "fetch_manifested c run_id path =
     call_bind (http_get c path) (\<lambda>r.
     call_bind (call_result (parse_artifact_response (vb_readers c) r StructuredOutputMissing)) (\<lambda>body. case body of
       None \<Rightarrow> call_return None
     | Some b \<Rightarrow> call_result (map_ok Some (parse_structured_output (vb_readers c) run_id b))))"

definition fetch_unmanifested ::
    "'e void_box_client \<Rightarrow> string \<Rightarrow> string \<Rightarrow> ('e, contract_error, candidate_output option) call" where
  "fetch_unmanifested c run_id run_body =
     call_bind (call_result (map_err (invalid_json ''invalid run JSON'') (dl_json (vb_readers c) run_body))) (\<lambda>v.
     call_bind (call_result (structured_output_from_run_report (vb_readers c) run_id v)) (\<lambda>report. case report of
       Some out \<Rightarrow> call_return (Some out)
     | None \<Rightarrow> try_stages c run_id (output_stages v) None))"

definition vb_fetch_structured_output ::
    "'e void_box_client \<Rightarrow> string \<Rightarrow> ('e, contract_error, candidate_output option) call" where
  "vb_fetch_structured_output c run_id =
     call_bind (http_get c (run_path run_id)) (\<lambda>r.
       if hp_status r = 404 then call_return None
       else if 400 \<le> hp_status r
       then call_fail (map_http_error (vb_readers c) (hp_status r) (hp_body r)
              ''inspect failed while resolving structured output'')
       else call_bind (call_result (manifest_retrieval_path (vb_readers c) (hp_body r) None ''result.json'')) (\<lambda>path.
         case path of Some p \<Rightarrow> fetch_manifested c run_id p | None \<Rightarrow> fetch_unmanifested c run_id (hp_body r)))"

definition find_manifest_artifact_path ::
    "'e void_box_client \<Rightarrow> string \<Rightarrow> string option \<Rightarrow> string \<Rightarrow> ('e, contract_error, string option) call" where
  "find_manifest_artifact_path c run_id stage name =
     call_bind (http_get c (run_path run_id)) (\<lambda>r.
       if hp_status r = 404 then call_return None
       else if 400 \<le> hp_status r
       then call_fail (map_http_error (vb_readers c) (hp_status r) (hp_body r)
              ''inspect failed while resolving artifact manifest'')
       else call_result (manifest_retrieval_path (vb_readers c) (hp_body r) stage name))"

definition vb_fetch_named_artifact ::
    "'e void_box_client \<Rightarrow> string \<Rightarrow> string \<Rightarrow> string \<Rightarrow> ('e, contract_error, string option) call" where
  "vb_fetch_named_artifact c run_id stage name =
     call_bind (find_manifest_artifact_path c run_id (Some stage) name) (\<lambda>path.
     call_bind (http_get c (case path of Some p \<Rightarrow> p
         | None \<Rightarrow> run_path run_id @ ''/stages/'' @ stage @ ''/artifacts/'' @ name)) (\<lambda>r.
       call_result (parse_artifact_response (vb_readers c) r ArtifactNotFound)))"

subsection \<open>The sidecar\<close>

fun io_kind_of_code :: "contract_error_code \<Rightarrow> io_kind" where
  "io_kind_of_code CodeNotFound = NotFound"
| "io_kind_of_code InvalidSpec = InvalidData"
| "io_kind_of_code InvalidPolicy = InvalidInput"
| "io_kind_of_code AlreadyTerminal = OtherKind"
| "io_kind_of_code ResourceLimitExceeded = OtherKind"
| "io_kind_of_code StructuredOutputMissing = NotFound"
| "io_kind_of_code StructuredOutputMalformed = InvalidData"
| "io_kind_of_code ArtifactNotFound = NotFound"
| "io_kind_of_code ArtifactPublicationIncomplete = OtherKind"
| "io_kind_of_code ArtifactStoreUnavailable = OtherKind"
| "io_kind_of_code RetrievalTimeout = TimedOut"
| "io_kind_of_code InternalError = OtherKind"

definition contract_error_to_io :: "contract_error \<Rightarrow> io_error" where
  "contract_error_to_io e = io_err (io_kind_of_code (ce_code e)) (ce_message e)"

definition sidecar_request ::
    "'e http_request \<Rightarrow> string \<Rightarrow> string \<Rightarrow> string \<Rightarrow> ('e, io_error, http_response) call" where
  "sidecar_request t verb path body w = (case t verb path body w of (r, w') \<Rightarrow> (map_err contract_error_to_io r, w'))"

definition sidecar_inject_at_launch ::
    "daemon_readers \<Rightarrow> 'e http_request \<Rightarrow> void_box_run_ref \<Rightarrow> candidate_spec \<Rightarrow> inbox_snapshot
     \<Rightarrow> ('e, io_error, unit) call" where
  "sidecar_inject_at_launch dl t run candidate inbox =
     call_bind (call_result (map_err (io_err OtherKind) (dl_inbox_text dl inbox))) (\<lambda>body.
     call_bind (sidecar_request t ''PUT'' (run_path (vr_run_id run) @ ''/inbox'') body) (\<lambda>r.
       if 400 \<le> hp_status r
       then call_fail (io_err OtherKind (''void-box inbox injection failed: HTTP '' @ word_to_string (hp_status r)))
       else call_return ()))"

definition intents_value :: "json \<Rightarrow> io_error + json" where
  "intents_value v =
     (case v of
        JArr xs \<Rightarrow> Inr v
      | JObj m \<Rightarrow> ok_or (io_err InvalidData ''intents response missing array'') (bt_get m ''intents'')
      | _ \<Rightarrow> Inl (io_err InvalidData ''intents response must be an array''))"

definition sidecar_drain_intents ::
    "daemon_readers \<Rightarrow> 'e http_request \<Rightarrow> void_box_run_ref \<Rightarrow> ('e, io_error, communication_intent list) call" where
  "sidecar_drain_intents dl t run =
     call_bind (sidecar_request t ''GET'' (run_path (vr_run_id run) @ ''/intents'') []) (\<lambda>r.
       if hp_status r = 404 then call_fail (io_err NotFound (''run '' @ squoted (vr_run_id run) @ '' not found''))
       else if 400 \<le> hp_status r
       then call_fail (io_err OtherKind (''void-box intent drain failed: HTTP '' @ word_to_string (hp_status r)))
       else if trim (hp_body r) = [] then call_return []
       else call_result (res_bind (map_err (io_err OtherKind) (dl_json dl (hp_body r))) (\<lambda>v.
            res_bind (intents_value v) (\<lambda>iv. map_err (io_err OtherKind) (dl_intents dl iv)))))"

definition http_sidecar :: "daemon_readers \<Rightarrow> 'e http_request \<Rightarrow> 'e delivery_adapter" where
  "http_sidecar dl t =
     \<lparr>da_inject_at_launch = sidecar_inject_at_launch dl t, da_drain_intents = sidecar_drain_intents dl t\<rparr>"

subsection \<open>The runtime of the service\<close>

definition vb_take_structured_output ::
    "'e void_box_client \<Rightarrow> string \<Rightarrow> 'e world \<Rightarrow> structured_output_result \<times> 'e world" where
  "vb_take_structured_output c run_id w =
     (case vb_fetch_structured_output c run_id w of
        (Inr (Some out), w') \<Rightarrow> (OutputFound out, w')
      | (Inr None, w') \<Rightarrow> (OutputMissing, w')
      | (Inl e, w') \<Rightarrow> (OutputError e, w'))"

definition vb_persisted_run_handle :: "string \<Rightarrow> string" where
  "vb_persisted_run_handle persisted = (if starts_with ''vb:'' persisted then persisted else ''vb:'' @ persisted)"

text \<open>A service whose runtime is the client; its poll budget is 1, the other defaults are the trait's.\<close>

definition void_box_service :: "'e void_box_client \<Rightarrow> 'e service \<Rightarrow> 'e service" where
  "void_box_service c sv =
     sv\<lparr>svc_start_run := vb_start c, svc_inspect_run := vb_inspect c,
        svc_take_structured_output := vb_take_structured_output c,
        svc_inline_poll_budget := 1, svc_inline_poll_sleep_ms := 100,
        svc_persisted_run_handle := vb_persisted_run_handle,
        svc_delivery_run_ref := (\<lambda>handle. case vb_delivery_run_ref c handle of Inl _ \<Rightarrow> None | Inr r \<Rightarrow> Some r)\<rparr>"

end
