(* ===== verification/Daemon_Address.thy ===== *)
theory Daemon_Address
  imports Void_Box
begin

text \<open>
  Where the daemon is and how it is reached (\<open>src/runtime/daemon_address.rs\<close>, the transports and
  constructors of \<open>src/runtime/void_box.rs\<close> and \<open>src/runtime/http_sidecar.rs\<close>). The record \<open>host\<close> is what the
  code asks of the process and of the file system; the record \<open>hyper\<close> is the HTTP library. Lemmas: which
  sources a token can come from, when a configuration is refused, and which requests carry the token.
\<close>

subsection \<open>The host\<close>

text \<open>
  Environment variables, effective user, \<open>fs::metadata\<close> (directory flag and mode) with the message of its
  error, \<open>access(2)\<close> for writing, and \<open>fs::read_to_string\<close> with the message of its error.
\<close>

record file_meta =
  fm_is_dir :: bool
  fm_mode :: u32

record host =
  ht_env :: "string \<Rightarrow> string option"
  ht_uid :: u32
  ht_metadata :: "string \<Rightarrow> string + file_meta"
  ht_access_write :: "string \<Rightarrow> bool"
  ht_read :: "string \<Rightarrow> string + string"

text \<open>\<open>PathBuf::join\<close>: an absolute path replaces the base.\<close>

definition path_join :: "string \<Rightarrow> string \<Rightarrow> string" where
  "path_join base p =
     (if starts_with ''/'' p \<or> base = [] then p
      else if last base = CHR ''/'' then base @ p else base @ ''/'' @ p)"

text \<open>The format piece \<^verbatim>\<open>{:?}\<close> for a string.\<close>

definition hex_digit :: "nat \<Rightarrow> char" where
  "hex_digit d = ''0123456789abcdef'' ! d"

definition debug_char :: "char \<Rightarrow> string" where
  "debug_char c =
     (if c = CHR 0x22 then [CHR 0x5C, CHR 0x22]
      else if c = CHR 0x5C then [CHR 0x5C, CHR 0x5C]
      else if c = nl then [CHR 0x5C, CHR ''n'']
      else if c = cr then [CHR 0x5C, CHR ''r'']
      else if c = CHR 0x09 then [CHR 0x5C, CHR ''t'']
      else if c = CHR 0x00 then [CHR 0x5C, CHR ''0'']
      else if c < CHR 0x20 \<or> c = CHR 0x7F then
        [CHR 0x5C, CHR ''u'', CHR 0x7B] @ (if of_char c < (16 :: nat) then [] else [hex_digit (of_char c div 16)])
          @ [hex_digit (of_char c mod 16), CHR 0x7D]
      else [c])"

definition debug_string :: "string \<Rightarrow> string" where
  "debug_string s = [CHR 0x22] @ concat (map debug_char s) @ [CHR 0x22]"

subsection \<open>daemon_address.rs\<close>

definition daemon_token_env :: string where
  "daemon_token_env = ''VOIDBOX_DAEMON_TOKEN''"

definition daemon_token_file_env :: string where
  "daemon_token_file_env = ''VOIDBOX_DAEMON_TOKEN_FILE''"

datatype daemon_address_error = MissingTcpToken string "string list" | TokenFileError string string

fun join_with :: "string \<Rightarrow> string list \<Rightarrow> string" where
  "join_with sep [] = []"
| "join_with sep [x] = x"
| "join_with sep (x # y # xs) = x @ sep @ join_with sep (y # xs)"

fun address_error_text :: "daemon_address_error \<Rightarrow> string" where
  "address_error_text (MissingTcpToken url searched) =
     ''TCP daemon URL '' @ debug_string url @ '' requires a bearer token; none found in any of: ''
       @ join_with '', '' searched"
| "address_error_text (TokenFileError path detail) = ''token file '' @ path @ '': '' @ detail"

definition is_writable_dir :: "host \<Rightarrow> string \<Rightarrow> bool" where
  "is_writable_dir h path =
     (case ht_metadata h path of
        Inl _ \<Rightarrow> False
      | Inr m \<Rightarrow> fm_is_dir m \<and> CHR 0x00 \<notin> set path \<and> ht_access_write h path)"

definition dir_socket :: "host \<Rightarrow> string \<Rightarrow> string \<Rightarrow> string option" where
  "dir_socket h env_var file_name =
     (case ht_env h env_var of
        None \<Rightarrow> None
      | Some dir \<Rightarrow> if dir = [] then None else if \<not> is_writable_dir h dir then None else Some (path_join dir file_name))"

definition per_uid_socket :: "host \<Rightarrow> string" where
  "per_uid_socket h = ''voidbox-'' @ word_to_string (ht_uid h) @ ''.sock''"

definition default_unix_socket_path :: "host \<Rightarrow> string" where
  "default_unix_socket_path h =
     (case dir_socket h ''XDG_RUNTIME_DIR'' ''voidbox.sock'' of
        Some path \<Rightarrow> path
      | None \<Rightarrow> (case dir_socket h ''TMPDIR'' (per_uid_socket h) of
            Some path \<Rightarrow> path
          | None \<Rightarrow> path_join ''/tmp'' (per_uid_socket h)))"

definition default_unix_url :: "host \<Rightarrow> string" where
  "default_unix_url h = ''unix://'' @ default_unix_socket_path h"

datatype daemon_scheme = UnixScheme string | TcpScheme string

definition classify_daemon_url :: "string \<Rightarrow> string + daemon_scheme" where
  "classify_daemon_url url =
     (case strip_prefix ''unix://'' url of
        Some rest \<Rightarrow>
          if \<not> starts_with ''/'' rest
          then Inl (''invalid daemon URL '' @ debug_string url
                 @ '': unix:// scheme requires an absolute socket path (e.g. unix:///run/user/1000/voidbox.sock); got ''
                 @ debug_string rest)
          else Inr (UnixScheme (trim_end_matches (CHR ''/'') rest))
      | None \<Rightarrow> if starts_with ''http://'' url then Inr (TcpScheme url) else Inr (TcpScheme (''http://'' @ url)))"

definition env_dir :: "host \<Rightarrow> string \<Rightarrow> string option" where
  "env_dir h var = (case ht_env h var of None \<Rightarrow> None | Some dir \<Rightarrow> if dir = [] then None else Some dir)"

definition default_token_path :: "host \<Rightarrow> string" where
  "default_token_path h =
     (case env_dir h ''XDG_CONFIG_HOME'' of
        Some dir \<Rightarrow> path_join (path_join dir ''voidbox'') ''daemon-token''
      | None \<Rightarrow> (case env_dir h ''HOME'' of
            Some home \<Rightarrow> path_join (path_join (path_join home ''.config'') ''voidbox'') ''daemon-token''
          | None \<Rightarrow> path_join (path_join ''/tmp'' (''voidbox-'' @ word_to_string (ht_uid h))) ''daemon-token''))"

text \<open>The format piece \<^verbatim>\<open>{:03o}\<close>.\<close>

fun octal :: "nat \<Rightarrow> string" where
  "octal n = (if n < 8 then [digit_char n] else octal (n div 8) @ [digit_char (n mod 8)])"

declare octal.simps [simp del]

definition octal3 :: "nat \<Rightarrow> string" where
  "octal3 n = replicate (3 - length (octal n)) (CHR ''0'') @ octal n"

unbundle bit_operations_syntax

text \<open>The masks are \<^verbatim>\<open>0o777\<close> and \<^verbatim>\<open>0o077\<close>.\<close>

definition require_token_file_perms :: "string \<Rightarrow> file_meta \<Rightarrow> daemon_address_error + unit" where
  "require_token_file_perms path m =
     (let mode = fm_mode m AND 511 in
      if mode AND 63 \<noteq> 0
      then Inl (TokenFileError path (''token file mode is 0o'' @ octal3 (unat mode)
             @ '', must not be group/other accessible (typical fix: chmod 0600 '' @ path @ '')''))
      else Inr ())"

definition read_token_file :: "host \<Rightarrow> string \<Rightarrow> daemon_address_error + string" where
  "read_token_file h path =
     res_bind (map_err (TokenFileError path) (ht_metadata h path)) (\<lambda>m.
     res_bind (require_token_file_perms path m) (\<lambda>_.
     res_bind (map_err (TokenFileError path) (ht_read h path)) (\<lambda>raw.
       if trim raw = [] then Inl (TokenFileError path ''token file is empty'') else Inr (trim raw))))"

definition is_missing_or_unreadable :: "string \<Rightarrow> bool" where
  "is_missing_or_unreadable detail =
     (let lower = to_ascii_lowercase detail in
      contains_str ''no such file'' lower \<or> contains_str ''not found'' lower \<or> contains_str ''permission'' lower)"

text \<open>A token is \<open>Some\<close>; the warning on the error stream is not modelled.\<close>

definition resolve_implicit :: "host \<Rightarrow> daemon_address_error + string option" where
  "resolve_implicit h =
     (case read_token_file h (default_token_path h) of
        Inr token \<Rightarrow> Inr (Some token)
      | Inl (TokenFileError path detail) \<Rightarrow>
          if is_missing_or_unreadable detail then Inr None else Inl (TokenFileError path detail)
      | Inl e \<Rightarrow> Inl e)"

definition resolve_from_env :: "host \<Rightarrow> daemon_address_error + string option" where
  "resolve_from_env h =
     (case ht_env h daemon_token_env of
        Some value \<Rightarrow> if trim value \<noteq> [] then Inr (Some (trim value)) else resolve_implicit h
      | None \<Rightarrow> resolve_implicit h)"

definition resolve_tcp_token :: "host \<Rightarrow> daemon_address_error + string option" where
  "resolve_tcp_token h =
     (case ht_env h daemon_token_file_env of
        None \<Rightarrow> resolve_from_env h
      | Some path \<Rightarrow> (case read_token_file h path of
            Inr token \<Rightarrow> Inr (Some token)
          | Inl (TokenFileError p detail) \<Rightarrow>
              if is_missing_or_unreadable detail then resolve_from_env h else Inl (TokenFileError p detail)
          | Inl e \<Rightarrow> Inl e))"

definition token_search_labels :: "host \<Rightarrow> string list" where
  "token_search_labels h = [daemon_token_file_env, daemon_token_env, default_token_path h]"

subsection \<open>Transports\<close>

datatype transport = TcpTransport string "string option" | UnixTransport string

definition tcp_transport_new :: "string \<Rightarrow> string option \<Rightarrow> transport" where
  "tcp_transport_new base_url token = TcpTransport (trim_end_matches (CHR ''/'') base_url) token"

definition build_transport :: "host \<Rightarrow> string \<Rightarrow> string + transport" where
  "build_transport h base_url =
     res_bind (classify_daemon_url base_url) (\<lambda>scheme. case scheme of
       UnixScheme path \<Rightarrow> Inr (UnixTransport path)
     | TcpScheme url \<Rightarrow>
         res_bind (map_err address_error_text (resolve_tcp_token h)) (\<lambda>resolved.
         res_bind (ok_or (address_error_text (MissingTcpToken url (token_search_labels h))) resolved) (\<lambda>token.
           Inr (tcp_transport_new url (Some token)))))"

text \<open>A request as it is handed to the HTTP library.\<close>

record wire_request =
  wq_verb :: string
  wq_uri :: string
  wq_headers :: "(string \<times> string) list"
  wq_body :: string

datatype send_outcome = SendFailed string | BodyFailed string | Answered u16 string | NoAnswerInTime

text \<open>
  The library: parsing of URIs and methods with the text of the error, the URI of a socket, the error in a
  built request if there is one, sending over the two connectors within the time limit, and the lossy reading of bytes.
\<close>

record 'e hyper =
  hy_uri :: "string \<Rightarrow> string + string"
  hy_unix_uri :: "string \<Rightarrow> string \<Rightarrow> string"
  hy_verb :: "string \<Rightarrow> string + string"
  hy_build :: "wire_request \<Rightarrow> string option"
  hy_send_tcp :: "wire_request \<Rightarrow> 'e world \<Rightarrow> send_outcome \<times> 'e world"
  hy_send_unix :: "wire_request \<Rightarrow> 'e world \<Rightarrow> send_outcome \<times> 'e world"
  hy_utf8_lossy :: "string \<Rightarrow> string"

definition build_request ::
    "'e hyper \<Rightarrow> string \<Rightarrow> string \<Rightarrow> string \<Rightarrow> string option \<Rightarrow> contract_error + wire_request" where
  "build_request hy verb uri body token =
     res_bind (map_err (\<lambda>e. contract_error_new InvalidSpec
         (''unsupported HTTP method '' @ debug_string verb @ '': '' @ e) False) (hy_verb hy verb)) (\<lambda>v.
       let q = \<lparr>wq_verb = v, wq_uri = uri,
            wq_headers = (''content-type'', ''application/json'')
              # (case token of None \<Rightarrow> [] | Some t \<Rightarrow> [(''authorization'', ''Bearer '' @ t)]),
            wq_body = body\<rparr>
       in case hy_build hy q of
            Some e \<Rightarrow> Inl (contract_error_new InternalError (''build request: '' @ e) True)
          | None \<Rightarrow> Inr q)"

definition send_result :: "'e hyper \<Rightarrow> string \<Rightarrow> send_outcome \<Rightarrow> contract_error + http_response" where
  "send_result hy display_url out =
     (case out of
        SendFailed e \<Rightarrow> Inl (contract_error_new InternalError (''connect to '' @ display_url @ '' failed: '' @ e) True)
      | BodyFailed e \<Rightarrow> Inl (contract_error_new InternalError (''response read failed: '' @ e) True)
      | Answered status bytes \<Rightarrow> Inr \<lparr>hp_status = status, hp_body = hy_utf8_lossy hy bytes\<rparr>
      | NoAnswerInTime \<Rightarrow> Inl (contract_error_new RetrievalTimeout
            (''daemon request to '' @ display_url @ '' timed out'') True))"

definition send_with_timeout ::
    "'e hyper \<Rightarrow> ('e world \<Rightarrow> send_outcome \<times> 'e world) \<Rightarrow> string \<Rightarrow> ('e, contract_error, http_response) call" where
  "send_with_timeout hy fut display_url = (\<lambda>w. case fut w of (out, w') \<Rightarrow> (send_result hy display_url out, w'))"

definition wire_of :: "'e hyper \<Rightarrow> transport \<Rightarrow> string \<Rightarrow> string \<Rightarrow> string \<Rightarrow> contract_error + wire_request" where
  "wire_of hy t verb path body =
     (case t of
        TcpTransport base token \<Rightarrow>
          res_bind (map_err (\<lambda>e. contract_error_new InvalidSpec
              (''invalid daemon URL '' @ debug_string (base @ path) @ '': '' @ e) False) (hy_uri hy (base @ path))) (\<lambda>uri.
            build_request hy verb uri body token)
      | UnixTransport socket \<Rightarrow> build_request hy verb (hy_unix_uri hy socket path) body None)"

definition transport_request :: "'e hyper \<Rightarrow> transport \<Rightarrow> 'e http_request" where
  "transport_request hy t verb path body =
     call_bind (call_result (wire_of hy t verb path body)) (\<lambda>q.
       case t of
         TcpTransport base token \<Rightarrow> send_with_timeout hy (hy_send_tcp hy q) (base @ path)
       | UnixTransport socket \<Rightarrow> send_with_timeout hy (hy_send_unix hy q) (''unix://'' @ socket))"

subsection \<open>Constructors\<close>

definition daemon_url :: "host \<Rightarrow> string \<Rightarrow> string" where
  "daemon_url h base_url = (if trim base_url = [] then default_unix_url h else base_url)"

definition client_try_new ::
    "host \<Rightarrow> 'e hyper \<Rightarrow> daemon_readers \<Rightarrow> string \<Rightarrow> u64 \<Rightarrow> string + 'e void_box_client" where
  "client_try_new h hy dl base_url interval =
     res_bind (build_transport h (daemon_url h base_url)) (\<lambda>t.
       Inr \<lparr>vb_base_url = daemon_url h base_url, vb_poll_interval_ms = interval,
            vb_transport = transport_request hy t, vb_readers = dl\<rparr>)"

definition sidecar_try_with_daemon_url ::
    "host \<Rightarrow> 'e hyper \<Rightarrow> daemon_readers \<Rightarrow> string \<Rightarrow> string + 'e delivery_adapter" where
  "sidecar_try_with_daemon_url h hy dl url =
     res_bind (build_transport h (daemon_url h url)) (\<lambda>t. Inr (http_sidecar dl (transport_request hy t)))"

definition sidecar_try_new :: "host \<Rightarrow> 'e hyper \<Rightarrow> daemon_readers \<Rightarrow> string + 'e delivery_adapter" where
  "sidecar_try_new h hy dl = sidecar_try_with_daemon_url h hy dl (default_unix_url h)"

text \<open>\<open>new\<close>: the process panics with the message.\<close>

definition client_new ::
    "host \<Rightarrow> 'e hyper \<Rightarrow> daemon_readers \<Rightarrow> string \<Rightarrow> u64 \<Rightarrow> ('e world, 'e void_box_client) io" where
  "client_new h hy dl base_url interval =
     (case client_try_new h hy dl base_url interval of
        Inr c \<Rightarrow> io_return c
      | Inl e \<Rightarrow> io_panic (''void-box runtime client construction failed: '' @ e))"

subsection \<open>Tokens\<close>

text \<open>A file that only its owner can use and that holds the token.\<close>

definition owner_only_token :: "host \<Rightarrow> string \<Rightarrow> string \<Rightarrow> bool" where
  "owner_only_token h path t =
     (\<exists>m raw. ht_metadata h path = Inr m \<and> fm_mode m AND 63 = 0 \<and> ht_read h path = Inr raw \<and> t = trim raw \<and> t \<noteq> [])"

lemma low_mode_bits: "(m AND 511) AND 63 = (m AND 63 :: u32)"
  by (simp add: and.assoc)

lemma read_token_file_Inr: "read_token_file h path = Inr t \<longleftrightarrow> owner_only_token h path t"
  by (auto simp: read_token_file_def require_token_file_perms_def owner_only_token_def result_simps Let_def low_mode_bits
      split: if_splits)

lemma read_token_file_Inl: "read_token_file h path = Inl e \<Longrightarrow> \<exists>detail. e = TokenFileError path detail"
  by (auto simp: read_token_file_def require_token_file_perms_def result_simps Let_def split: if_splits)

lemma resolve_implicit_Some: "resolve_implicit h = Inr (Some t) \<longleftrightarrow> owner_only_token h (default_token_path h) t"
  by (auto simp: resolve_implicit_def read_token_file_Inr [symmetric] split: sum.splits daemon_address_error.splits if_splits)

text \<open>The text of a refused mode is taken for a missing file exactly when the path itself reads like one.\<close>

lemma lower_map: "ascii_lower (digit_char d) = digit_char d" if "d < 10" for d
  using that by (auto dest!: digit_cases simp: digit_char_def)

lemma octal_chars: "c \<in> set (octal n) \<Longrightarrow> \<exists>d < 8. c = digit_char d"
proof (induction n rule: octal.induct)
  case (1 n)
  then show ?case
    by (cases "n < 8") (auto simp: octal.simps [of n] intro: exI [of _ "n mod 8"])
qed

definition missing_words :: "string set" where
  "missing_words = {''no such file'', ''not found'', ''permission''}"

lemma is_missing_words: "is_missing_or_unreadable d \<longleftrightarrow> (\<exists>x \<in> missing_words. contains_str x (to_ascii_lowercase d))"
  by (auto simp: is_missing_or_unreadable_def missing_words_def Let_def)

lemma missing_word_chars:
  assumes "x \<in> missing_words"
  shows "CHR ''0'' \<notin> set x" "CHR '','' \<notin> set x" "CHR '')'' \<notin> set x" "x \<noteq> []" "CHR ''i'' \<in> set x \<or> CHR ''n'' \<in> set x"
    "\<not> starts_with x (CHR '' '' # s)"
  using assms by (auto simp: missing_words_def starts_with_def)

lemma exposed_words:
  assumes x: "x \<in> missing_words"
  shows "contains_str x (''token file mode is '' @ CHR ''0'' # (CHR ''o'' # octal3 n) @ CHR '','' #
      '' must not be group/other accessible (typical fix: chmod 06'' @ CHR ''0'' # [] @ CHR ''0'' # (CHR '' '' # s) @ CHR '')'' # [])
    = contains_str x s"
proof -
  note words = missing_word_chars [OF x]
  have "list_all (\<lambda>x. \<not> contains_str x ''token file mode is '' \<and>
      \<not> contains_str x '' must not be group/other accessible (typical fix: chmod 06'') [''no such file'', ''not found'', ''permission'']"
    by code_simp
  then have "\<not> contains_str x ''token file mode is '' \<and> \<not> contains_str x '' must not be group/other accessible (typical fix: chmod 06''"
    using x by (auto simp only: missing_words_def list_all_iff list.set)
  moreover have "\<not> contains_str x (CHR ''o'' # octal3 n)"
  proof
    assume "contains_str x (CHR ''o'' # octal3 n)"
    then have "set x \<subseteq> set (CHR ''o'' # octal3 n)" by (rule contains_str_set)
    with words(5) obtain c where c: "c \<in> set (CHR ''o'' # octal3 n)" "c = CHR ''i'' \<or> c = CHR ''n''" by blast
    show False
    proof (cases "c \<in> set (octal n)")
      case True
      then obtain d where "d < 8" "c = digit_char d" using octal_chars by blast
      with c(2) digit_cases [of d] show False by (auto simp: digit_char_def)
    next
      case False
      with c show False by (auto simp: octal3_def)
    qed
  qed
  moreover have "contains_str x (CHR '' '' # s) = contains_str x s" "\<not> contains_str x []" using words by simp_all
  ultimately show ?thesis
    by (simp only: contains_str_sep [OF words(1) words(4)] contains_str_sep [OF words(2) words(4)]
        contains_str_sep [OF words(3) words(4)]) simp
qed

lemma lower_octal3: "to_ascii_lowercase (octal3 n) = octal3 n"
  unfolding to_ascii_lowercase_def
proof (rule map_idI)
  fix c
  assume "c \<in> set (octal3 n)"
  then consider "c = CHR ''0''" | "c \<in> set (octal n)" by (auto simp: octal3_def)
  then show "ascii_lower c = c"
  proof cases
    case 2
    then obtain d where "d < 8" "c = digit_char d" using octal_chars by blast
    then show ?thesis using lower_map [of d] by simp
  qed simp
qed

lemma exposed_detail:
  "is_missing_or_unreadable (''token file mode is 0o'' @ octal3 n
      @ '', must not be group/other accessible (typical fix: chmod 0600 '' @ path @ '')'')
    = is_missing_or_unreadable path"
proof -
  have "to_ascii_lowercase (''token file mode is 0o'' @ octal3 n
      @ '', must not be group/other accessible (typical fix: chmod 0600 '' @ path @ '')'')
    = ''token file mode is '' @ CHR ''0'' # (CHR ''o'' # octal3 n) @ CHR '','' #
      '' must not be group/other accessible (typical fix: chmod 06'' @ CHR ''0'' # [] @ CHR ''0''
      # (CHR '' '' # to_ascii_lowercase path) @ CHR '')'' # []"
    using lower_octal3 [of n] by (simp add: to_ascii_lowercase_def)
  then show ?thesis by (simp only: is_missing_words exposed_words cong: bex_cong)
qed

lemma read_exposed_token_file:
  assumes "ht_metadata h path = Inr m" and "fm_mode m AND 63 \<noteq> 0"
  shows "\<exists>d. read_token_file h path = Inl (TokenFileError path d) \<and> is_missing_or_unreadable d = is_missing_or_unreadable path"
proof -
  have "read_token_file h path = Inl (TokenFileError path (''token file mode is 0o'' @ octal3 (unat (fm_mode m AND 511))
      @ '', must not be group/other accessible (typical fix: chmod 0600 '' @ path @ '')''))"
    using assms(2) by (simp only: read_token_file_def assms(1) map_err.simps res_bind.simps require_token_file_perms_def
        Let_def low_mode_bits not_False_eq_True if_True)
  then show ?thesis using exposed_detail by blast
qed

lemma resolved_token_plain: "resolve_tcp_token h = Inr (Some t) \<Longrightarrow> t \<noteq> [] \<and> trim t = t"
  using read_token_file_Inr resolve_implicit_Some
  by (auto simp: resolve_tcp_token_def resolve_from_env_def owner_only_token_def
      split: option.splits sum.splits daemon_address_error.splits if_splits)

subsection \<open>Properties\<close>

text \<open>
  A token that is found is not blank, has no white space at its ends, and comes from the first source that
  has one: the named file, only if nobody but its owner can use it; else the variable; else the file of the
  daemon, again only if nobody but its owner can use it.
\<close>

theorem resolved_token_sources:
  assumes "resolve_tcp_token h = Inr (Some t)"
  shows "t \<noteq> [] \<and> trim t = t \<and>
    ((\<exists>path. ht_env h ''VOIDBOX_DAEMON_TOKEN_FILE'' = Some path \<and> owner_only_token h path t)
     \<or> (\<forall>path u. ht_env h ''VOIDBOX_DAEMON_TOKEN_FILE'' = Some path \<longrightarrow> \<not> owner_only_token h path u)
       \<and> ((\<exists>v. ht_env h ''VOIDBOX_DAEMON_TOKEN'' = Some v \<and> t = trim v)
          \<or> (\<forall>v. ht_env h ''VOIDBOX_DAEMON_TOKEN'' = Some v \<longrightarrow> trim v = []) \<and> owner_only_token h (default_token_path h) t))"
proof -
  have env: "(\<exists>v. ht_env h ''VOIDBOX_DAEMON_TOKEN'' = Some v \<and> t = trim v \<and> t \<noteq> [])
      \<or> (\<forall>v. ht_env h ''VOIDBOX_DAEMON_TOKEN'' = Some v \<longrightarrow> trim v = []) \<and> owner_only_token h (default_token_path h) t"
    if "resolve_from_env h = Inr (Some t)"
    using that by (auto simp: resolve_from_env_def daemon_token_env_def resolve_implicit_Some split: option.splits if_splits)
  note plain = resolved_token_plain [OF assms]
  show ?thesis
  proof (cases "ht_env h ''VOIDBOX_DAEMON_TOKEN_FILE''")
    case None
    with assms have "resolve_from_env h = Inr (Some t)" by (simp add: resolve_tcp_token_def daemon_token_file_env_def)
    from env [OF this] plain None show ?thesis by auto
  next
    case (Some path)
    show ?thesis
    proof (cases "read_token_file h path")
      case (Inr u)
      with assms Some have "u = t" by (simp add: resolve_tcp_token_def daemon_token_file_env_def)
      with Inr have "owner_only_token h path t" by (simp add: read_token_file_Inr)
      with plain Some show ?thesis by blast
    next
      case (Inl e)
      then have none: "\<not> owner_only_token h path u" for u by (simp add: read_token_file_Inr [symmetric])
      obtain d where "e = TokenFileError path d" using read_token_file_Inl [OF Inl] by blast
      with assms Some Inl have "resolve_from_env h = Inr (Some t)"
        by (auto simp: resolve_tcp_token_def daemon_token_file_env_def split: if_splits)
      from env [OF this] plain Some none show ?thesis by auto
    qed
  qed
qed

text \<open>A host where the named token file is readable by everybody, and a variable holds a token.\<close>

definition shared_host :: "string \<Rightarrow> host" where
  "shared_host path =
     \<lparr>ht_env = [''VOIDBOX_DAEMON_TOKEN_FILE'' \<mapsto> path, ''VOIDBOX_DAEMON_TOKEN'' \<mapsto> ''secret ''], ht_uid = 1000,
      ht_metadata = (\<lambda>p. if p = path then Inr \<lparr>fm_is_dir = False, fm_mode = 420\<rparr> else Inl ''No such file or directory (os error 2)''),
      ht_access_write = (\<lambda>_. False), ht_read = (\<lambda>_. Inr ''secret'')\<rparr>"

lemma resolved_token_sources_witness: "trim ''secret'' = ''secret'' \<and>
    (\<forall>path u. ht_env (shared_host ''/etc/not found'') ''VOIDBOX_DAEMON_TOKEN_FILE'' = Some path
       \<longrightarrow> \<not> owner_only_token (shared_host ''/etc/not found'') path u)"
proof -
  let ?h = "shared_host ''/etc/not found''"
  have exposed: "\<not> owner_only_token ?h ''/etc/not found'' u" for u by (simp add: owner_only_token_def shared_host_def)
  have "is_missing_or_unreadable ''/etc/not found''"
    by (simp add: is_missing_or_unreadable_def to_ascii_lowercase_def starts_with_def)
  then obtain d where "read_token_file ?h ''/etc/not found'' = Inl (TokenFileError ''/etc/not found'' d)" "is_missing_or_unreadable d"
    using read_exposed_token_file [of ?h "''/etc/not found''"] by (auto simp: shared_host_def)
  then have "resolve_tcp_token ?h = Inr (Some ''secret'')"
    by (auto simp: resolve_tcp_token_def resolve_from_env_def daemon_token_file_env_def daemon_token_env_def shared_host_def
        trim_def is_ws_def)
  from resolved_token_sources [OF this] exposed show ?thesis by (simp add: shared_host_def)
qed

text \<open>
  A named token file that others can use is refused with an error, whatever it holds, unless its path
  contains one of the phrases that mark a missing file: then the error is taken for a missing file, and the
  next source decides as if no file had been named.
\<close>

theorem exposed_token_file_refused:
  assumes "ht_env h ''VOIDBOX_DAEMON_TOKEN_FILE'' = Some path" and "ht_metadata h path = Inr m" and "fm_mode m AND 63 \<noteq> 0"
  shows "if is_missing_or_unreadable path then resolve_tcp_token h = resolve_from_env h
    else \<exists>detail. resolve_tcp_token h = Inl (TokenFileError path detail)"
proof -
  obtain d where "read_token_file h path = Inl (TokenFileError path d)"
      "is_missing_or_unreadable d = is_missing_or_unreadable path"
    using read_exposed_token_file [OF assms(2,3)] by blast
  with assms(1) show ?thesis by (simp add: resolve_tcp_token_def daemon_token_file_env_def)
qed

lemma exposed_token_file_refused_witness:
  "resolve_tcp_token (shared_host ''/etc/permissions/t'') = Inr (Some ''secret'')
   \<and> (\<exists>detail. resolve_tcp_token (shared_host ''/etc/t'') = Inl (TokenFileError ''/etc/t'' detail))"
proof
  have "is_missing_or_unreadable ''/etc/permissions/t''"
    by (simp add: is_missing_or_unreadable_def to_ascii_lowercase_def starts_with_def)
  with exposed_token_file_refused [of "shared_host ''/etc/permissions/t''" "''/etc/permissions/t''"]
  have "resolve_tcp_token (shared_host ''/etc/permissions/t'') = resolve_from_env (shared_host ''/etc/permissions/t'')"
    by (simp add: shared_host_def)
  then show "resolve_tcp_token (shared_host ''/etc/permissions/t'') = Inr (Some ''secret'')"
    by (simp add: resolve_from_env_def daemon_token_env_def shared_host_def trim_def is_ws_def)
  have "\<not> is_missing_or_unreadable ''/etc/t''"
    by (simp add: is_missing_or_unreadable_def to_ascii_lowercase_def starts_with_def)
  with exposed_token_file_refused [of "shared_host ''/etc/t''" "''/etc/t''"]
  show "\<exists>detail. resolve_tcp_token (shared_host ''/etc/t'') = Inl (TokenFileError ''/etc/t'' detail)"
    by (simp add: shared_host_def)
qed

text \<open>
  C35: The token goes over TCP and nowhere else: a client that was constructed talks over a socket exactly when
  its URL has the scheme \<open>unix\<close>, and then no request has an authorization header; otherwise every request has
  exactly the header with the token that was found, which is not blank.
\<close>

theorem bearer_only_over_tcp:
  assumes "client_try_new h hy dl url interval = Inr c"
  shows "\<exists>t. build_transport h (daemon_url h url) = Inr t \<and> vb_transport c = transport_request hy t
    \<and> (starts_with ''unix://'' (daemon_url h url) \<longleftrightarrow> (\<exists>socket. t = UnixTransport socket))
    \<and> (\<forall>verb path body q. wire_of hy t verb path body = Inr q \<longrightarrow>
        (case t of UnixTransport _ \<Rightarrow> wq_headers q = [(''content-type'', ''application/json'')]
         | TcpTransport _ _ \<Rightarrow> \<exists>token. resolve_tcp_token h = Inr (Some token) \<and> trim token \<noteq> []
             \<and> wq_headers q = [(''content-type'', ''application/json''), (''authorization'', ''Bearer '' @ token)]))"
proof -
  obtain t where t: "build_transport h (daemon_url h url) = Inr t" "vb_transport c = transport_request hy t"
    using assms by (auto simp: client_try_new_def result_simps)
  have headers: "wq_headers q = (''content-type'', ''application/json'')
      # (case token of None \<Rightarrow> [] | Some t \<Rightarrow> [(''authorization'', ''Bearer '' @ t)])"
    if "build_request hy verb uri body token = Inr q" for verb uri body token q
    using that by (auto simp: build_request_def result_simps Let_def split: option.splits)
  show ?thesis
  proof (cases "strip_prefix ''unix://'' (daemon_url h url)")
    case None
    then have "\<not> starts_with ''unix://'' (daemon_url h url)" by (simp add: strip_prefix_def split: if_splits)
    moreover obtain base token where "t = TcpTransport base (Some token)" "resolve_tcp_token h = Inr (Some token)"
      using t(1) None by (auto simp: build_transport_def classify_daemon_url_def result_simps tcp_transport_new_def split: if_splits)
    moreover have "trim token \<noteq> []" using resolved_token_plain calculation(3) by simp
    ultimately show ?thesis using t headers by (intro exI [of _ t]) (auto simp: wire_of_def result_simps)
  next
    case (Some rest)
    then have "starts_with ''unix://'' (daemon_url h url)" by (simp add: strip_prefix_def split: if_splits)
    moreover obtain socket where "t = UnixTransport socket"
      using t(1) Some by (auto simp: build_transport_def classify_daemon_url_def result_simps split: if_splits)
    ultimately show ?thesis using t headers by (intro exI [of _ t]) (auto simp: wire_of_def)
  qed
qed

text \<open>A library that accepts every request and answers with an empty body.\<close>

definition demo_hyper :: "'e hyper" where
  "demo_hyper = \<lparr>hy_uri = Inr, hy_unix_uri = (\<lambda>socket path. socket @ path), hy_verb = Inr, hy_build = (\<lambda>_. None),
     hy_send_tcp = (\<lambda>_ w. (Answered 200 [], w)), hy_send_unix = (\<lambda>_ w. (Answered 200 [], w)), hy_utf8_lossy = (\<lambda>s. s)\<rparr>"

lemma bearer_only_over_tcp_witness:
  "\<forall>dl. \<exists>t q. is_ok (client_try_new (shared_host ''/etc/permissions/t'') (demo_hyper :: 'e hyper) dl ''daemon:43100/'' 250)
     \<and> wire_of (demo_hyper :: 'e hyper) t ''GET'' ''/v1/runs'' [] = Inr q
     \<and> wq_headers q = [(''content-type'', ''application/json''), (''authorization'', ''Bearer secret'')]"
proof
  fix dl
  let ?h = "shared_host ''/etc/permissions/t''"
  have "is_missing_or_unreadable ''/etc/permissions/t''"
    by (simp add: is_missing_or_unreadable_def to_ascii_lowercase_def starts_with_def)
  then obtain d where "read_token_file ?h ''/etc/permissions/t'' = Inl (TokenFileError ''/etc/permissions/t'' d)"
      "is_missing_or_unreadable d"
    using read_exposed_token_file [of ?h "''/etc/permissions/t''"] by (auto simp: shared_host_def)
  then have token: "resolve_tcp_token ?h = Inr (Some ''secret'')"
    by (auto simp: resolve_tcp_token_def resolve_from_env_def daemon_token_file_env_def daemon_token_env_def shared_host_def
        trim_def is_ws_def)
  let ?t = "TcpTransport ''http://daemon:43100'' (Some ''secret'')"
  from token have t: "build_transport ?h (daemon_url ?h ''daemon:43100/'') = Inr ?t"
    by (simp add: build_transport_def daemon_url_def classify_daemon_url_def strip_prefix_def starts_with_def
        tcp_transport_new_def trim_end_matches_def trim_def is_ws_def)
  then obtain c where c: "client_try_new ?h (demo_hyper :: 'e hyper) dl ''daemon:43100/'' 250 = Inr c"
    by (simp add: client_try_new_def)
  obtain q where q: "wire_of (demo_hyper :: 'e hyper) ?t ''GET'' ''/v1/runs'' [] = Inr q"
    by (simp add: wire_of_def build_request_def demo_hyper_def Let_def)
  from bearer_only_over_tcp [OF c] t q token
  have "wq_headers q = [(''content-type'', ''application/json''), (''authorization'', ''Bearer secret'')]" by auto
  with c q show "\<exists>t q. is_ok (client_try_new ?h (demo_hyper :: 'e hyper) dl ''daemon:43100/'' 250)
     \<and> wire_of (demo_hyper :: 'e hyper) t ''GET'' ''/v1/runs'' [] = Inr q
     \<and> wq_headers q = [(''content-type'', ''application/json''), (''authorization'', ''Bearer secret'')]" by auto
qed

end
