(* ===== verification/Void_Box_Props.thy ===== *)
theory Void_Box_Props
  imports Void_Box Worker
begin

text \<open>
  Properties of the daemon client. The locale \<open>daemon_transport\<close> is what an invariant of the world needs of
  the HTTP transport; inside it every operation of the client keeps the invariant, so the service over the
  daemon meets the contract of a runtime. It is interpreted for the transport with fixed answers that the
  tests of \<open>void_box.rs\<close> use. Further lemmas: resuming a subscription, which stage's output is taken, how
  failures of the daemon are reported.
\<close>

subsection \<open>What a transport must keep\<close>

definition call_keeps :: "('e world \<Rightarrow> bool) \<Rightarrow> ('e, 'err, 'a) call \<Rightarrow> bool" where
  "call_keeps P m = (\<forall>w. P w \<longrightarrow> P (snd (m w)))"

named_theorems call_rules \<open>structural rules for calls that keep an invariant\<close>

lemma call_keeps_basic [call_rules]:
  "call_keeps P (call_return x)" "call_keeps P (call_fail e)" "call_keeps P (call_result r)"
  by (simp_all add: call_keeps_def call_return_def call_fail_def call_result_def split: sum.split)

lemma call_keeps_bind [call_rules]:
  assumes "call_keeps P m" "\<And>x. call_keeps P (f x)"
  shows "call_keeps P (call_bind m f)"
  unfolding call_keeps_def
proof (intro allI impI)
  fix w
  assume "P w"
  obtain r w' where m: "m w = (r, w')" by fastforce
  then have "P w'" using assms(1) \<open>P w\<close> unfolding call_keeps_def by (metis snd_conv)
  then show "P (snd (call_bind m f w))"
    using assms(2) m by (cases r) (auto simp: call_bind_def call_keeps_def)
qed

lemma call_keeps_if [call_rules]: "call_keeps P m \<Longrightarrow> call_keeps P k \<Longrightarrow> call_keeps P (if b then m else k)"
  by simp

lemma call_keeps_option [call_rules]:
  "call_keeps P m \<Longrightarrow> (\<And>x. call_keeps P (f x)) \<Longrightarrow> call_keeps P (case v of None \<Rightarrow> m | Some x \<Rightarrow> f x)"
  by (simp split: option.split)

locale daemon_transport =
  fixes c :: "'e void_box_client" and P :: "'e world \<Rightarrow> bool"
  assumes request: "P w \<Longrightarrow> P (snd (vb_transport c verb path body w))"
begin

lemma keeps_http: "call_keeps P (http_get c path)" "call_keeps P (http_post c path body)"
  by (simp_all add: call_keeps_def http_get_def http_post_def request)

lemma keeps_fetch: "call_keeps P (fetch_converted_run c run_id)"
  unfolding fetch_converted_run_def by (intro call_rules keeps_http)

lemma keeps_client:
  "call_keeps P (vb_start c q)" "call_keeps P (vb_stop c s)" "call_keeps P (vb_inspect c h)"
  "call_keeps P (vb_list_runs c state)" "call_keeps P (vb_subscribe_events c r)"
  unfolding vb_start_def vb_stop_def vb_inspect_def vb_list_runs_def vb_subscribe_events_def
  by (intro call_rules keeps_http keeps_fetch)+

lemma keeps_stages: "call_keeps P (try_stages c run_id stages missing)"
proof (induction stages arbitrary: missing)
  case Nil
  show ?case by (simp add: call_rules)
next
  case (Cons stage stages)
  show ?case unfolding try_stages.simps by (intro call_rules keeps_http Cons.IH)
qed

lemma keeps_output: "call_keeps P (vb_fetch_structured_output c run_id)"
  unfolding vb_fetch_structured_output_def fetch_manifested_def fetch_unmanifested_def
  by (intro call_rules keeps_http keeps_stages)

lemma keeps_sidecar:
  "call_keeps P (sidecar_inject_at_launch dl (vb_transport c) run cand box)"
  "call_keeps P (sidecar_drain_intents dl (vb_transport c) run)"
proof -
  have request: "call_keeps P (sidecar_request (vb_transport c) verb path body)" for verb path body
    unfolding call_keeps_def sidecar_request_def
  proof (intro allI impI)
    fix w
    assume "P w"
    from request [OF this, of verb path body] show "P (snd (case vb_transport c verb path body w of
        (r, w') \<Rightarrow> (map_err contract_error_to_io r, w')))"
      by (cases "vb_transport c verb path body w") simp
  qed
  show "call_keeps P (sidecar_inject_at_launch dl (vb_transport c) run cand box)"
    "call_keeps P (sidecar_drain_intents dl (vb_transport c) run)"
    unfolding sidecar_inject_at_launch_def sidecar_drain_intents_def by (intro call_rules request)+
qed

lemma keeps_take: "P w \<Longrightarrow> P (snd (vb_take_structured_output c run_id w))"
proof -
  assume "P w"
  then have "P (snd (vb_fetch_structured_output c run_id w))" using keeps_output by (simp add: call_keeps_def)
  then show ?thesis
    unfolding vb_take_structured_output_def
    by (auto split: prod.splits sum.splits option.splits)
qed

text \<open>With the sidecar as its adapter, the daemon is a runtime that keeps the invariant.\<close>

lemma daemon_runtime:
  assumes "\<And>n w. P w \<Longrightarrow> P (svc_sleep sv n w)"
    and "\<And>q cand box w. P w \<Longrightarrow> P (snd (svc_prepare_launch_request sv q cand box w))"
    and "svc_delivery_adapter sv \<in> {None, Some (http_sidecar dl (vb_transport c))}"
  shows "runtime_contract (void_box_service c sv) P"
proof
  fix q h rid n cand box a r w
  assume P: "P w"
  show "P (snd (svc_start_run (void_box_service c sv) q w))" "P (snd (svc_inspect_run (void_box_service c sv) h w))"
    using keeps_client P by (simp_all add: void_box_service_def call_keeps_def)
  show "P (snd (svc_take_structured_output (void_box_service c sv) rid w))"
    using keeps_take [OF P] by (simp add: void_box_service_def)
  show "P (svc_sleep (void_box_service c sv) n w)" using assms(1) [OF P] by (simp add: void_box_service_def)
  show "P (snd (svc_prepare_launch_request (void_box_service c sv) q cand box w))"
    using assms(2) [OF P] by (simp add: void_box_service_def)
  assume "svc_delivery_adapter (void_box_service c sv) = Some a"
  then have a: "a = http_sidecar dl (vb_transport c)" using assms(3) by (simp add: void_box_service_def)
  show "P (snd (da_inject_at_launch a r cand box w))" "P (snd (da_drain_intents a r w))"
    using keeps_sidecar P by (simp_all add: a http_sidecar_def call_keeps_def)
qed

end

text \<open>Fixed answers by method and path, as in the tests: what is not listed is a 404.\<close>

definition scripted_request :: "((string \<times> string) \<times> http_response) list \<Rightarrow> 'e http_request" where
  "scripted_request routes verb path body w =
     (Inr (case map_of routes (verb, path) of Some r \<Rightarrow> r
       | None \<Rightarrow> \<lparr>hp_status = 404, hp_body = ''{\"error\":\"not found\"}''\<rparr>), w)"

definition scripted_client :: "daemon_readers \<Rightarrow> ((string \<times> string) \<times> http_response) list \<Rightarrow> 'e void_box_client" where
  "scripted_client dl routes =
     \<lparr>vb_base_url = ''http://daemon'', vb_poll_interval_ms = 1, vb_transport = scripted_request routes, vb_readers = dl\<rparr>"

interpretation scripted: daemon_transport "scripted_client dl routes" P
  by unfold_locales (simp add: scripted_client_def scripted_request_def)

subsection \<open>Resuming\<close>

lemma resume_filter:
  assumes "sorted_wrt (<) (map ev_seq es)" and "\<forall>e \<in> set es. view_event_ok rid e"
  shows "filter_events_from_id es (Some marker) = (case find (\<lambda>e. ev_event_id e = marker) es of
      None \<Rightarrow> es | Some e \<Rightarrow> filter (\<lambda>x. ev_seq e < ev_seq x) es)"
  using assms
proof (induction es)
  case Nil
  then show ?case by (simp add: filter_events_from_id_def)
next
  case (Cons e es)
  show ?case
  proof (cases "ev_event_id e = marker")
    case True
    have "\<forall>x \<in> set es. ev_seq e < ev_seq x" using Cons.prems(1) by simp
    then have "filter (\<lambda>x. ev_seq e < ev_seq x) es = es" by (simp add: filter_id_conv)
    with True show ?thesis by (simp add: filter_events_from_id_def)
  next
    case False
    show ?thesis
    proof (cases "find (\<lambda>e. ev_event_id e = marker) es")
      case None
      then have "marker \<notin> ev_event_id ` set es" by (auto simp: find_None_iff)
      with None False show ?thesis by (simp add: filter_events_from_id_def)
    next
      case (Some x)
      then have x: "x \<in> set es" "ev_event_id x = marker" by (auto simp: find_Some_iff)
      then have "\<not> ev_seq x < ev_seq e" using Cons.prems(1) by (auto simp: not_less_iff_gr_or_eq)
      moreover have "marker \<in> ev_event_id ` set es" using x by blast
      ultimately show ?thesis
        using Cons.IH Cons.prems Some False by (simp add: filter_events_from_id_def)
    qed
  qed
qed

lemma handle_run_id_vb [simp]: "handle_run_id (CHR ''v'' # CHR ''b'' # CHR '':'' # run_id) = Inr run_id"
  by (simp add: handle_run_id_def strip_prefix_def starts_with_def)

subsection \<open>Stages\<close>

text \<open>A stage that has nothing, and the outcome of one that has not nothing.\<close>

definition nothing_there :: "daemon_readers \<Rightarrow> http_response \<Rightarrow> bool" where
  "nothing_there dl r = (hp_status r = 404
     \<and> (case parse_api_error dl (hp_body r) of None \<Rightarrow> True | Some e \<Rightarrow> ce_code e \<in> missing_codes))"

definition stage_outcome :: "daemon_readers \<Rightarrow> string \<Rightarrow> http_response \<Rightarrow> contract_error + candidate_output option" where
  "stage_outcome dl run_id r =
     (if 400 \<le> hp_status r then Inl (map_http_error dl (hp_status r) (hp_body r) ''structured output fetch failed'')
      else map_ok Some (parse_structured_output dl run_id (hp_body r)))"

lemma case_append_last:
  "(case xs @ [e] of e # _ \<Rightarrow> Inl e | [] \<Rightarrow> d) = (case xs of e # _ \<Rightarrow> Inl e | [] \<Rightarrow> Inl e)"
  by (cases xs) simp_all

lemma try_stages_stateless:
  assumes "\<And>path w. vb_transport c ''GET'' path [] w = (Inr (answer path), w)"
  shows "try_stages c run_id stages missing w =
    ((case dropWhile (\<lambda>s. nothing_there (vb_readers c) (answer (stage_output_path run_id s))) stages of
        s # _ \<Rightarrow> stage_outcome (vb_readers c) run_id (answer (stage_output_path run_id s))
      | [] \<Rightarrow> (case List.map_filter (\<lambda>s. parse_api_error (vb_readers c) (hp_body (answer (stage_output_path run_id s)))) (rev stages) of
          e # _ \<Rightarrow> Inl e | [] \<Rightarrow> (case missing of None \<Rightarrow> Inr None | Some e \<Rightarrow> Inl e))), w)"
proof (induction stages arbitrary: missing)
  case Nil
  then show ?case by (simp add: call_return_def call_fail_def split: option.split)
next
  case (Cons s stages)
  let ?r = "answer (stage_output_path run_id s)"
  have get: "http_get c (stage_output_path run_id s) w = (Inr ?r, w)" by (simp add: http_get_def assms)
  note step = try_stages.simps(2) [of c run_id s stages missing]
  let ?err = "parse_api_error (vb_readers c) (hp_body ?r)"
  consider "hp_status ?r = 404" "?err = None" | e where "hp_status ?r = 404" "?err = Some e" "ce_code e \<in> missing_codes"
    | e where "hp_status ?r = 404" "?err = Some e" "ce_code e \<notin> missing_codes" | "hp_status ?r \<noteq> 404"
    by blast
  then show ?case
  proof cases
    case 1
    then have "try_stages c run_id (s # stages) missing w = try_stages c run_id stages missing w"
      unfolding step call_bind_def get by simp
    moreover have skip: "dropWhile (\<lambda>s. nothing_there (vb_readers c) (answer (stage_output_path run_id s))) (s # stages)
        = dropWhile (\<lambda>s. nothing_there (vb_readers c) (answer (stage_output_path run_id s))) stages"
      using 1 by (simp add: nothing_there_def)
    moreover have "List.map_filter (\<lambda>s. parse_api_error (vb_readers c) (hp_body (answer (stage_output_path run_id s)))) (rev (s # stages))
        = List.map_filter (\<lambda>s. parse_api_error (vb_readers c) (hp_body (answer (stage_output_path run_id s)))) (rev stages)"
      using 1(2) by (simp add: map_filter_append List.map_filter_def)
    ultimately show ?thesis by (simp only: Cons.IH)
  next
    case (2 e)
    then have "try_stages c run_id (s # stages) missing w = try_stages c run_id stages (Some e) w"
      unfolding step call_bind_def get by simp
    moreover have "dropWhile (\<lambda>s. nothing_there (vb_readers c) (answer (stage_output_path run_id s))) (s # stages)
        = dropWhile (\<lambda>s. nothing_there (vb_readers c) (answer (stage_output_path run_id s))) stages"
      using 2 by (simp add: nothing_there_def)
    moreover have "List.map_filter (\<lambda>s. parse_api_error (vb_readers c) (hp_body (answer (stage_output_path run_id s)))) (rev (s # stages))
        = List.map_filter (\<lambda>s. parse_api_error (vb_readers c) (hp_body (answer (stage_output_path run_id s)))) (rev stages) @ [e]"
      using 2(2) by (simp add: map_filter_append List.map_filter_def)
    ultimately show ?thesis by (simp only: Cons.IH case_append_last option.case)
  next
    case (3 e)
    then have "try_stages c run_id (s # stages) missing w = (Inl e, w)"
      unfolding step call_bind_def get by (simp add: call_fail_def)
    with 3 show ?thesis by (simp add: nothing_there_def stage_outcome_def map_http_error_def)
  next
    case 4
    then show ?thesis
      unfolding step call_bind_def get
      by (simp add: nothing_there_def stage_outcome_def call_fail_def call_result_def call_return_def split: sum.split)
  qed
qed

subsection \<open>Properties\<close>

text \<open>
  A tick of the worker over the daemon keeps every event log contiguous, whatever the daemon answers:
  the transport, the clock and the launch preparation only have to leave the logs alone.
\<close>

lemma daemon_tick_keeps_logs:
  assumes "\<And>verb path body w. logs_ok w \<Longrightarrow> logs_ok (snd (vb_transport c verb path body w))"
    and "\<And>n w. logs_ok w \<Longrightarrow> logs_ok (svc_sleep sv n w)"
    and "\<And>q cand box w. logs_ok w \<Longrightarrow> logs_ok (snd (svc_prepare_launch_request sv q cand box w))"
    and "logs_ok w"
  shows "logs_ok (snd (process_pending_executions_once (void_box_service c sv) w))"
proof -
  have transport: "daemon_transport c logs_ok" by unfold_locales (rule assms(1))
  have adapter: "svc_delivery_adapter (new_service sv) \<in> {None, Some (http_sidecar dl (vb_transport c))}" for dl
    by (simp add: new_service_def)
  have same: "svc_sleep (new_service sv) = svc_sleep sv"
    "svc_prepare_launch_request (new_service sv) = svc_prepare_launch_request sv"
    by (simp_all add: new_service_def)
  have "runtime_contract (void_box_service c (new_service sv)) logs_ok"
    by (rule daemon_transport.daemon_runtime [OF transport _ _ adapter]) (simp_all add: same assms(2,3))
  then have "log_runtime (void_box_service c (new_service sv))" by (simp add: log_runtime_def)
  moreover have "void_box_service c (new_service sv) = new_service (void_box_service c sv)"
    by (simp add: void_box_service_def new_service_def)
  ultimately have runtime: "log_runtime (new_service (void_box_service c sv))" by simp
  have "keeps logs_ok (process_pending_executions_once (new_service (void_box_service c sv)))"
    by (rule service_contract.keeps_tick [OF log_runtime.log_service [OF runtime] new_service_idem])
  then show ?thesis using assms(4) by (simp add: tick_new_service keeps_def)
qed

text \<open>
  C33: Resuming a subscription from an event that was delivered gives exactly the events with a higher
  sequence number: nothing is lost and nothing repeated. A marker that is not among the events gives all.
\<close>

theorem subscribe_resumes_exactly:
  assumes "vb_subscribe_events c \<lparr>se_handle = h, se_from_event_id = None\<rparr> w = (Inr es, w')"
  shows "vb_subscribe_events c \<lparr>se_handle = h, se_from_event_id = Some marker\<rparr> w =
    (Inr (case find (\<lambda>e. ev_event_id e = marker) es of
        None \<Rightarrow> es | Some e \<Rightarrow> filter (\<lambda>x. ev_seq e < ev_seq x) es), w')"
proof -
  obtain run_id v where run: "handle_run_id h = Inr run_id" "fetch_converted_run c run_id w = (Inr v, w')" "es = cv_events v"
    using assms
    by (auto simp: vb_subscribe_events_def call_bind_def call_result_def call_return_def call_fail_def
        filter_events_from_id_def split: sum.splits prod.splits)
  obtain run where view: "from_void_box_run (dl_f64_text (vb_readers c)) run = Inr v"
    using run(2)
    by (auto simp: fetch_converted_run_def call_bind_def call_result_def call_return_def call_fail_def
        from_void_box_run_and_events_json_def result_simps split: sum.splits prod.splits if_splits)
  note ok = converted_events_ok [OF view, folded run(3)]
  have "filter_events_from_id es (Some marker) = (case find (\<lambda>e. ev_event_id e = marker) es of
        None \<Rightarrow> es | Some e \<Rightarrow> filter (\<lambda>x. ev_seq e < ev_seq x) es)"
    by (rule resume_filter [OF ok])
  then show ?thesis
    by (simp add: vb_subscribe_events_def call_bind_def call_result_def call_return_def run)
qed

text \<open>A daemon with one finished run of two events.\<close>

definition demo_daemon_readers :: daemon_readers where
  "demo_daemon_readers =
     \<lparr>dl_json = (\<lambda>s. if s = ''run'' then Inr (JObj []) else if s = ''out'' then Inr (JObj [(''metrics'', JObj [])]) else Inl ''no'' ),
      dl_run = (\<lambda>_. Inr \<lparr>dj_id = ''r1'', dj_status = ''succeeded'', dj_error = None, dj_events = []\<rparr>),
      dl_events = (\<lambda>_. Inr [\<lparr>dj_ts_ms = 5, dj_event_type = ''run.started'', dj_event_run_id = Some ''r1'', dj_seq = Some 1, dj_payload = None\<rparr>,
        \<lparr>dj_ts_ms = 9, dj_event_type = ''run.finished'', dj_event_run_id = Some ''r1'', dj_seq = Some 2, dj_payload = None\<rparr>]),
      dl_intent = (\<lambda>_. Inl []), dl_intents = (\<lambda>_. Inl []), dl_json_text = (\<lambda>_. []), dl_inbox_text = (\<lambda>_. Inr []),
      dl_f64_text = (\<lambda>_. [])\<rparr>"

definition demo_client :: "'e void_box_client" where
  "demo_client = scripted_client demo_daemon_readers
     [((''GET'', ''/v1/runs/r1''), \<lparr>hp_status = 200, hp_body = ''run''\<rparr>),
      ((''GET'', ''/v1/runs/r1/events''), \<lparr>hp_status = 200, hp_body = []\<rparr>),
      ((''GET'', ''/v1/runs/r1/stages/output/output-file''), \<lparr>hp_status = 200, hp_body = ''out''\<rparr>)]"

lemma subscribe_resumes_exactly_witness:
  "\<forall>w. \<exists>es. vb_subscribe_events demo_client \<lparr>se_handle = ''vb:r1'', se_from_event_id = Some ''evt_r1_1''\<rparr> w = (Inr es, w)
     \<and> map ev_event_type es = [RunCompleted]"
proof
  fix w :: "'e world"
  have word: "word_to_string (1 :: u64) = ''1''" "word_to_string (2 :: u64) = ''2''"
    by (simp_all add: word_to_string_def nat_to_string.simps digit_char_def)
  let ?run = "to_raw_run_with_events (\<lambda>_. []) \<lparr>dj_id = ''r1'', dj_status = ''succeeded'', dj_error = None, dj_events = []\<rparr>
      [\<lparr>dj_ts_ms = 5, dj_event_type = ''run.started'', dj_event_run_id = Some ''r1'', dj_seq = Some 1, dj_payload = None\<rparr>,
        \<lparr>dj_ts_ms = 9, dj_event_type = ''run.finished'', dj_event_run_id = Some ''r1'', dj_seq = Some 2, dj_payload = None\<rparr>]"
  have kinds: "map_void_box_event_type ''run.started'' = Some RunStarted" "map_void_box_event_type ''run.finished'' = Some RunCompleted"
    by (simp_all add: map_void_box_event_type_def)
  have status: "map_void_box_status ''succeeded'' = Some RsSucceeded"
    by (simp add: map_void_box_status_def to_ascii_lowercase_def)
  obtain v where v: "from_void_box_run (\<lambda>_. []) ?run = Inr v"
      "map ev_event_type (cv_events v) = [RunStarted, RunCompleted]" "map ev_seq (cv_events v) = [1, 2]"
      "map ev_event_id (cv_events v) = [''evt_r1_1'', ''evt_r1_2'']"
    by (simp add: from_void_box_run_Inr to_raw_run_with_events_def to_raw_event_def convert_events_def convert_event_def
        convert_state_init_def kinds status flatten_payload_def word)
  define es where "es = cv_events v"
  have fetch: "fetch_converted_run demo_client ''r1'' w = (Inr v, w)"
    by (simp add: fetch_converted_run_def call_bind_def call_result_def call_return_def http_get_def demo_client_def
        scripted_client_def scripted_request_def run_path_def from_void_box_run_and_events_json_def
        demo_daemon_readers_def v(1))
  have es: "vb_subscribe_events demo_client \<lparr>se_handle = ''vb:r1'', se_from_event_id = None\<rparr> w = (Inr es, w)"
      "map ev_event_type es = [RunStarted, RunCompleted]" "map ev_event_id es = [''evt_r1_1'', ''evt_r1_2'']"
      "map ev_seq es = [1, 2]"
    using v
    by (simp_all add: vb_subscribe_events_def call_bind_def call_result_def call_return_def fetch filter_events_from_id_def
        es_def)
  from es(2,3,4) obtain a b where "es = [a, b]" "ev_event_id a = ''evt_r1_1''" "ev_seq a = 1" "ev_seq b = 2"
      "ev_event_type b = RunCompleted"
    by (auto simp: map_eq_Cons_conv)
  with subscribe_resumes_exactly [OF es(1), of "''evt_r1_1''"] show "\<exists>es. vb_subscribe_events demo_client
      \<lparr>se_handle = ''vb:r1'', se_from_event_id = Some ''evt_r1_1''\<rparr> w = (Inr es, w) \<and> map ev_event_type es = [RunCompleted]"
    by simp
qed

text \<open>
  Starting a run sends the workflow specification and the launch context and nothing else: two requests
  with valid policies that agree on these are the same request to the daemon, whatever their policies and
  their run ids. So the policy has no effect on the run, and starting twice under one run id starts two runs.
\<close>

theorem start_ignores_policy_and_run_id:
  assumes "execution_policy_validate (sr_policy q) = Inr ()" and "execution_policy_validate (sr_policy q') = Inr ()"
    and "sr_workflow_spec q' = sr_workflow_spec q" and "sr_launch_context q' = sr_launch_context q"
  shows "vb_start c q' = vb_start c q"
  by (simp add: vb_start_def assms start_payload_def)

lemma start_ignores_policy_and_run_id_witness:
  "\<forall>w. vb_start demo_client \<lparr>sr_run_id = ''a'', sr_workflow_spec = ''w'', sr_launch_context = None,
      sr_policy = \<lparr>ep_max_parallel_microvms_per_run = 1, ep_max_stage_retries = 0, ep_stage_timeout_secs = 5, ep_cancel_grace_period_secs = 1\<rparr>\<rparr> w
    = vb_start demo_client \<lparr>sr_run_id = ''b'', sr_workflow_spec = ''w'', sr_launch_context = None,
      sr_policy = \<lparr>ep_max_parallel_microvms_per_run = 9, ep_max_stage_retries = 7, ep_stage_timeout_secs = 900, ep_cancel_grace_period_secs = 3\<rparr>\<rparr> w"
  by (intro allI fun_cong [where g = "vb_start demo_client _"] start_ignores_policy_and_run_id)
    (simp_all add: execution_policy_validate_def)

text \<open>
  C34: A daemon that refuses is reported by the status of its answer alone: 404 as not found, any other as an
  internal error, retryable exactly for a status of 500 and above, and nothing more is requested. (So the
  error code of the body, such as \<open>ALREADY_TERMINAL\<close>, never reaches the caller.)
\<close>

theorem daemon_refusals_reported:
  assumes "\<And>verb path body. vb_transport c verb path body w = (Inr r, w1)" and "400 \<le> hp_status r"
    and "execution_policy_validate (sr_policy q) = Inr ()"
  defines "reported \<equiv> \<lambda>e. ce_code e = (if hp_status r = 404 then CodeNotFound else InternalError)
    \<and> ce_retryable e = (500 \<le> hp_status r)"
  shows "(\<exists>e. vb_start c q w = (Inl e, w1) \<and> reported e)
    \<and> (\<exists>e. vb_stop c \<lparr>sp_handle = ''vb:'' @ run_id, sp_reason = reason\<rparr> w = (Inl e, w1) \<and> reported e)
    \<and> (\<exists>e. vb_inspect c (''vb:'' @ run_id) w = (Inl e, w1) \<and> reported e)"
  using assms(2)
  by (auto simp: vb_start_def vb_stop_def vb_inspect_def call_bind_def call_result_def call_return_def call_fail_def
      http_get_def http_post_def assms(1,3) reported_def http_status_error_def run_not_found_def
      contract_error_new_def)

lemma daemon_refusals_reported_witness:
  "\<forall>w. \<exists>e. vb_inspect (scripted_client demo_daemon_readers []) ''vb:r9'' w = (Inl e, w) \<and> ce_code e = CodeNotFound"
proof
  fix w :: "'e world"
  let ?q = "\<lparr>sr_run_id = ''a'', sr_workflow_spec = ''w'', sr_launch_context = None, sr_policy =
    \<lparr>ep_max_parallel_microvms_per_run = 1, ep_max_stage_retries = 0, ep_stage_timeout_secs = 5, ep_cancel_grace_period_secs = 1\<rparr>\<rparr>"
  have "vb_transport (scripted_client demo_daemon_readers []) verb path body w
      = (Inr \<lparr>hp_status = 404, hp_body = ''{\"error\":\"not found\"}''\<rparr>, w)" for verb path body
    by (simp add: scripted_client_def scripted_request_def)
  from daemon_refusals_reported [OF this, of ?q "''r9''" "[]"]
  show "\<exists>e. vb_inspect (scripted_client demo_daemon_readers []) ''vb:r9'' w = (Inl e, w) \<and> ce_code e = CodeNotFound"
    by (auto simp: execution_policy_validate_def)
qed

text \<open>
  Without a published manifest and without a ready report, the output of a run is looked for in its
  stages in the order \<open>main\<close>, \<open>output\<close> and the stage of the report. The first stage that has not simply
  nothing decides, by its output or its error; when every stage has nothing, the last reason that was
  given is the error, and if none was given there is no output.
\<close>

theorem output_of_first_stage:
  assumes "\<And>path w. vb_transport c ''GET'' path [] w = (Inr (answer path), w)"
    and "hp_status (answer (run_path run_id)) < 400"
    and "manifest_retrieval_path (vb_readers c) (hp_body (answer (run_path run_id))) None ''result.json'' = Inr None"
    and "dl_json (vb_readers c) (hp_body (answer (run_path run_id))) = Inr v"
    and "structured_output_from_run_report (vb_readers c) run_id v = Inr None"
  defines "of_stage \<equiv> \<lambda>s. answer (stage_output_path run_id s)"
  shows "vb_fetch_structured_output c run_id w =
    ((case dropWhile (\<lambda>s. nothing_there (vb_readers c) (of_stage s)) (output_stages v) of
        s # _ \<Rightarrow> stage_outcome (vb_readers c) run_id (of_stage s)
      | [] \<Rightarrow> (case List.map_filter (\<lambda>s. parse_api_error (vb_readers c) (hp_body (of_stage s))) (rev (output_stages v)) of
          e # _ \<Rightarrow> Inl e | [] \<Rightarrow> Inr None)), w)"
proof -
  have "vb_fetch_structured_output c run_id w = try_stages c run_id (output_stages v) None w"
    using assms(2)
    by (auto simp: vb_fetch_structured_output_def fetch_unmanifested_def call_bind_def call_result_def call_return_def
        http_get_def assms(1,3,4,5))
  moreover note try_stages_stateless [OF assms(1), of run_id "output_stages v" None w, unfolded option.case]
  ultimately show ?thesis unfolding of_stage_def by (rule trans)
qed

lemma output_of_first_stage_witness:
  "\<forall>w. \<exists>out. vb_fetch_structured_output demo_client ''r1'' w = (Inr (Some out), w) \<and> co_candidate_id out = ''r1''"
proof
  fix w :: "'e world"
  let ?gone = "\<lparr>hp_status = 404, hp_body = ''{\"error\":\"not found\"}''\<rparr>"
  define answer where "answer path = (if path = ''/v1/runs/r1'' then \<lparr>hp_status = 200, hp_body = ''run''\<rparr>
    else if path = ''/v1/runs/r1/events'' then \<lparr>hp_status = 200, hp_body = []\<rparr>
    else if path = ''/v1/runs/r1/stages/output/output-file'' then \<lparr>hp_status = 200, hp_body = ''out''\<rparr>
    else ?gone)" for path
  have get: "vb_transport demo_client ''GET'' path [] u = (Inr (answer path), u)" for path and u :: "'e world"
    by (simp add: demo_client_def scripted_client_def scripted_request_def answer_def)
  have dl: "vb_readers demo_client = demo_daemon_readers" by (simp add: demo_client_def scripted_client_def)
  have run: "hp_status (answer (run_path ''r1'')) = 200" "hp_body (answer (run_path ''r1'')) = ''run''"
    by (simp_all add: answer_def run_path_def)
  have json: "dl_json demo_daemon_readers ''run'' = Inr (JObj [])" by (simp add: demo_daemon_readers_def)
  have none: "manifest_retrieval_path demo_daemon_readers ''run'' None ''result.json'' = Inr None"
    "structured_output_from_run_report demo_daemon_readers ''r1'' (JObj []) = Inr None"
    "output_stages (JObj []) = [''main'', ''output'']"
    by (simp_all add: manifest_retrieval_path_def json structured_output_from_run_report_def output_stages_def)
  have stages: "answer (stage_output_path ''r1'' ''main'') = ?gone"
    "answer (stage_output_path ''r1'' ''output'') = \<lparr>hp_status = 200, hp_body = ''out''\<rparr>"
    by (simp_all add: answer_def stage_output_path_def run_path_def)
  have "nothing_there demo_daemon_readers ?gone"
    by (simp add: nothing_there_def parse_api_error_def demo_daemon_readers_def)
  moreover have "\<not> nothing_there demo_daemon_readers \<lparr>hp_status = 200, hp_body = ''out''\<rparr>"
    by (simp add: nothing_there_def)
  moreover have "stage_outcome demo_daemon_readers ''r1'' \<lparr>hp_status = 200, hp_body = ''out''\<rparr>
      = Inr (Some (candidate_output_new ''r1'' True []))"
    by (simp add: stage_outcome_def parse_structured_output_def demo_daemon_readers_def str_field_def bt_of_list_def
        List.map_filter_def)
  ultimately have "vb_fetch_structured_output demo_client ''r1'' w = (Inr (Some (candidate_output_new ''r1'' True [])), w)"
    using output_of_first_stage [OF get, of "''r1''" "JObj []" w, unfolded dl run] json none stages by simp
  then show "\<exists>out. vb_fetch_structured_output demo_client ''r1'' w = (Inr (Some out), w) \<and> co_candidate_id out = ''r1''"
    by (simp add: candidate_output_new_def)
qed

end
