(* ===== verification/Launch.thy ===== *)
theory Launch
  imports Daemon_Address Void_Box_Props
begin

text \<open>
  What is done to a start request before it goes to the runtime (\<open>src/runtime/mod.rs\<close>): the inbox becomes
  the launch context, and the overrides of the candidate, over the provider of the environment, are written
  into a copy of the workflow file. The record \<open>launch_host\<close> is the file system and the readers and printers
  of documents. Lemmas: which overrides a patched document has, what it keeps of the original, and what
  the prepared request says.
\<close>

record 'e launch_host =
  lh_env :: "string \<Rightarrow> string option"
  lh_read :: "string \<Rightarrow> 'e world \<Rightarrow> string + string"
  lh_write :: "string \<Rightarrow> string \<Rightarrow> 'e world \<Rightarrow> (string + unit) \<times> 'e world"
  lh_nanos :: "'e world \<Rightarrow> nat"
  lh_temp_dir :: string
  lh_json :: "string \<Rightarrow> string + json"
  lh_yaml :: "string \<Rightarrow> string + json"
  lh_json_pretty :: "json \<Rightarrow> string + string"
  lh_yaml_text :: "json \<Rightarrow> string + string"
  lh_inbox_text :: "inbox_snapshot \<Rightarrow> string"

text \<open>\<open>Path::file_name\<close>, \<open>Path::extension\<close> and \<open>Path::file_stem\<close>.\<close>

definition file_name :: "string \<Rightarrow> string option" where
  "file_name path =
     (case rev (filter (\<lambda>c. c \<noteq> [] \<and> c \<noteq> ''.'') (split_on (CHR ''/'') path)) of
        [] \<Rightarrow> None
      | c # _ \<Rightarrow> if c = ''..'' then None else Some c)"

definition split_file_name :: "string \<Rightarrow> string \<times> string option" where
  "split_file_name name =
     (case split_once (CHR ''.'') (rev name) of
        None \<Rightarrow> (name, None)
      | Some (after, before) \<Rightarrow> if before = [] then (name, None) else (rev before, Some (rev after)))"

definition file_extension :: "string \<Rightarrow> string option" where
  "file_extension path = Option.bind (file_name path) (\<lambda>n. snd (split_file_name n))"

definition file_stem :: "string \<Rightarrow> string option" where
  "file_stem path = map_option (\<lambda>n. fst (split_file_name n)) (file_name path)"

subsection \<open>Overrides\<close>

text \<open>The map of \<open>ensure_object\<close>: anything but an object is replaced by an empty one.\<close>

fun ensure_object :: "json \<Rightarrow> (string, json) btree" where
  "ensure_object (JObj m) = m"
| "ensure_object v = []"

fun override_at :: "string list \<Rightarrow> string \<Rightarrow> json \<Rightarrow> json" where
  "override_at [] v doc = doc"
| "override_at [part] v doc = JObj (bt_insert part (JStr v) (ensure_object doc))"
| "override_at (part # next_part # parts) v doc =
     (let m = ensure_object doc;
          entry = (case bt_get m part of Some (JObj sub) \<Rightarrow> JObj sub | _ \<Rightarrow> JObj [])
      in JObj (bt_insert part (override_at (next_part # parts) v entry) m))"

definition apply_override_path :: "string \<Rightarrow> string \<Rightarrow> json \<Rightarrow> json" where
  "apply_override_path path v doc = override_at (split_on (CHR ''.'') path) v doc"

definition apply_overrides :: "(string, string) btree \<Rightarrow> json \<Rightarrow> json" where
  "apply_overrides overrides doc = fold (\<lambda>(path, v). apply_override_path path v) overrides doc"

definition env_provider_overrides :: "'e launch_host \<Rightarrow> (string, string) btree" where
  "env_provider_overrides lh =
     (case lh_env lh ''VOID_CONTROL_LLM_PROVIDER'' of
        None \<Rightarrow> []
      | Some provider \<Rightarrow> if trim provider = [] then [] else bt_insert ''llm.provider'' (trim provider) [])"

definition merged_overrides :: "'e launch_host \<Rightarrow> candidate_spec \<Rightarrow> (string, string) btree" where
  "merged_overrides lh candidate = fold (\<lambda>(k, v) m. bt_insert k v m) (cd_overrides candidate) (env_provider_overrides lh)"

subsection \<open>The patched file\<close>

definition patched_workflow_path :: "'e launch_host \<Rightarrow> string \<Rightarrow> string \<Rightarrow> 'e world \<Rightarrow> string" where
  "patched_workflow_path lh original_path ext w =
     path_join (lh_temp_dir lh)
       (''void-control-'' @ (case file_stem original_path of None \<Rightarrow> ''workflow'' | Some s \<Rightarrow> s) @ ''-''
         @ nat_to_string (lh_nanos lh w) @ ''.'' @ ext)"

definition workflow_ext :: "string \<Rightarrow> string" where
  "workflow_ext path = (case file_extension path of None \<Rightarrow> ''yaml'' | Some e \<Rightarrow> e)"

definition is_json_ext :: "string \<Rightarrow> bool" where
  "is_json_ext ext = (to_ascii_lowercase ext = ''json'')"

definition parse_workflow :: "'e launch_host \<Rightarrow> string \<Rightarrow> string \<Rightarrow> contract_error + json" where
  "parse_workflow lh path original =
     (if is_json_ext (workflow_ext path)
      then map_err (\<lambda>e. contract_error_new InvalidSpec
             (''failed to parse workflow template '' @ squoted path @ '' as JSON: '' @ e) False) (lh_json lh original)
      else map_err (\<lambda>e. contract_error_new InvalidSpec
             (''failed to parse workflow template '' @ squoted path @ '' as YAML: '' @ e) False) (lh_yaml lh original))"

definition render_workflow :: "'e launch_host \<Rightarrow> string \<Rightarrow> json \<Rightarrow> contract_error + string" where
  "render_workflow lh path doc =
     map_err (\<lambda>e. contract_error_new InternalError
         (''failed to serialize patched workflow template '' @ squoted path @ '': '' @ e) True)
       (if is_json_ext (workflow_ext path) then lh_json_pretty lh doc else lh_yaml_text lh doc)"

definition read_workflow :: "'e launch_host \<Rightarrow> string \<Rightarrow> ('e, contract_error, string) call" where
  "read_workflow lh path = (\<lambda>w. (map_err (\<lambda>e. contract_error_new InvalidSpec
     (''failed to read workflow template '' @ squoted path @ '': '' @ e) False) (lh_read lh path w), w))"

definition write_workflow :: "'e launch_host \<Rightarrow> string \<Rightarrow> string \<Rightarrow> ('e, contract_error, unit) call" where
  "write_workflow lh path text_of = (\<lambda>w. case lh_write lh path text_of w of
     (r, w') \<Rightarrow> (map_err (\<lambda>e. contract_error_new InternalError
       (''failed to write patched workflow template '' @ squoted path @ '': '' @ e) True) r, w'))"

definition write_patched_workflow_spec ::
    "'e launch_host \<Rightarrow> string \<Rightarrow> (string, string) btree \<Rightarrow> ('e, contract_error, string) call" where
  "write_patched_workflow_spec lh original_path overrides =
     call_bind (read_workflow lh original_path) (\<lambda>original.
     call_bind (call_result (parse_workflow lh original_path original)) (\<lambda>doc.
     call_bind (call_result (render_workflow lh original_path (apply_overrides overrides doc))) (\<lambda>rendered.
     call_bind (\<lambda>w. (Inr (patched_workflow_path lh original_path (workflow_ext original_path) w), w)) (\<lambda>patched_path.
     call_bind (write_workflow lh patched_path rendered) (\<lambda>_. call_return patched_path)))))"

definition prepare_launch_request ::
    "'e launch_host \<Rightarrow> start_request \<Rightarrow> candidate_spec \<Rightarrow> inbox_snapshot \<Rightarrow> ('e, contract_error, start_request) call" where
  "prepare_launch_request lh q candidate inbox =
     call_bind
       (if cd_overrides candidate = [] \<and> env_provider_overrides lh = [] then call_return (sr_workflow_spec q)
        else write_patched_workflow_spec lh (sr_workflow_spec q) (merged_overrides lh candidate)) (\<lambda>workflow_spec.
       call_return (q\<lparr>sr_workflow_spec := workflow_spec, sr_launch_context := Some (lh_inbox_text lh inbox)\<rparr>))"

text \<open>The service as it is deployed: daemon client, launch injection and sidecar.\<close>

definition with_launch_injection :: "'e launch_host \<Rightarrow> 'e service \<Rightarrow> 'e service" where
  "with_launch_injection lh sv = sv\<lparr>svc_prepare_launch_request := prepare_launch_request lh\<rparr>"

subsection \<open>Paths into a document\<close>

abbreviation parts :: "string \<Rightarrow> string list" where
  "parts path \<equiv> split_on (CHR ''.'') path"

fun json_at :: "string list \<Rightarrow> json \<Rightarrow> json option" where
  "json_at [] v = Some v"
| "json_at (p # ps) v = Option.bind (json_get v p) (json_at ps)"

fun diverging :: "string list \<Rightarrow> string list \<Rightarrow> bool" where
  "diverging (p # ps) (q # qs) = (p \<noteq> q \<or> diverging ps qs)"
| "diverging ps qs = False"

definition below :: "string list \<Rightarrow> string list \<Rightarrow> bool" where
  "below ps qs = (\<exists>r. r \<noteq> [] \<and> qs = ps @ r)"

lemma below_simps [simp]: "\<not> below ps []" "below [] (q # qs)" "below (p # ps) (q # qs) = (p = q \<and> below ps qs)"
  by (auto simp: below_def)

lemma path_cases: "ps = qs \<or> diverging ps qs \<or> below ps qs \<or> below qs ps"
proof (induction ps arbitrary: qs)
  case Nil
  then show ?case by (cases qs) simp_all
next
  case (Cons p ps)
  then show ?case by (cases qs) auto
qed

lemma json_get_object [simp]: "json_get (JObj m) k = bt_get m k"
  by simp

lemma ensure_object_get: "bt_get (ensure_object v) k = json_get v k"
  by (cases v) simp_all

lemma override_at_same: "ps \<noteq> [] \<Longrightarrow> json_at ps (override_at ps v doc) = Some (JStr v)"
  by (induction ps v doc rule: override_at.induct) (simp_all add: Let_def)

lemma json_at_entry:
  "qs \<noteq> [] \<Longrightarrow> json_at qs (case bt_get (ensure_object doc) p of Some (JObj sub) \<Rightarrow> JObj sub | _ \<Rightarrow> JObj []) = json_at (p # qs) doc"
  by (cases qs) (auto simp: ensure_object_get split: option.split json.split)

lemma override_at_other: "diverging ps qs \<Longrightarrow> json_at qs (override_at ps v doc) = json_at qs doc"
proof (induction ps v doc arbitrary: qs rule: override_at.induct)
  case (2 part v doc)
  then show ?case by (cases qs) (auto simp: ensure_object_get)
next
  case (3 part next_part parts v doc)
  obtain q qs' where qs: "qs = q # qs'" using 3(2) by (cases qs) auto
  show ?case
  proof (cases "q = part")
    case False
    then show ?thesis by (simp add: qs Let_def ensure_object_get)
  next
    case True
    with 3(2) qs have "diverging (next_part # parts) qs'" by simp
    moreover from this have "qs' \<noteq> []" by (cases qs') auto
    ultimately show ?thesis
      using 3(1) [OF refl refl, of qs'] json_at_entry [of qs' doc part] True by (simp add: qs Let_def)
  qed
qed simp

text \<open>A path is its parts, joined; so a path that another one extends sorts before it.\<close>

lemma join_split: "join_with [c] (split_on c s) = s"
proof (induction s)
  case (Cons x s)
  show ?case
  proof (cases "x = c")
    case True
    then show ?thesis using Cons split_on_ne [of c s] by (cases "split_on c s") auto
  next
    case False
    then show ?thesis using Cons split_on_ne [of c s] by (cases "split_on c s"; cases "tl (split_on c s)") auto
  qed
qed simp

lemma join_append: "xs \<noteq> [] \<Longrightarrow> ys \<noteq> [] \<Longrightarrow> join_with sep (xs @ ys) = join_with sep xs @ sep @ join_with sep ys"
proof (induction sep xs rule: join_with.induct)
  case (2 sep x)
  then show ?case by (cases ys) auto
qed auto

lemma parts_inj: "parts a = parts b \<Longrightarrow> a = b"
  by (metis join_split)

lemma below_less: "below (parts a) (parts b) \<Longrightarrow> a < b"
proof -
  assume "below (parts a) (parts b)"
  then obtain r where "r \<noteq> []" "parts b = parts a @ r" by (auto simp: below_def)
  then have "b = a @ ''.'' @ join_with ''.'' r"
    by (metis join_append join_split split_on_ne)
  then show ?thesis by (simp add: list_less_def lexord_append_rightI)
qed

lemma apply_overrides_other:
  "(\<forall>k \<in> fst ` set ov. diverging (parts k) qs) \<Longrightarrow> json_at qs (apply_overrides ov doc) = json_at qs doc"
  unfolding apply_overrides_def
  by (induction ov arbitrary: doc) (auto simp: apply_override_path_def override_at_other)

lemma apply_overrides_last:
  assumes wf: "bt_wf ov" and k: "(k, v) \<in> set ov" and last: "\<forall>j \<in> fst ` set ov. \<not> below (parts k) (parts j)"
  shows "json_at (parts k) (apply_overrides ov doc) = Some (JStr v)"
proof -
  obtain a b where ov: "ov = a @ (k, v) # b" using k by (meson split_list)
  let ?doc = "apply_override_path k v (apply_overrides a doc)"
  have "apply_overrides ov doc = apply_overrides b ?doc" by (simp add: apply_overrides_def ov)
  moreover have "diverging (parts j) (parts k)" if "j \<in> fst ` set b" for j
  proof -
    have "k < j" using wf that by (auto simp: bt_wf_def ov sorted_wrt_append)
    then have "\<not> below (parts j) (parts k)" "parts j \<noteq> parts k" using below_less parts_inj by (metis order.asym, metis order.irrefl)
    with last that path_cases [of "parts j" "parts k"] show ?thesis by (auto simp: ov)
  qed
  moreover have "json_at (parts k) ?doc = Some (JStr v)" by (simp add: apply_override_path_def override_at_same)
  ultimately show ?thesis using apply_overrides_other [of b "parts k" ?doc] by simp
qed

subsection \<open>The prepared request\<close>

definition effective_override :: "'e launch_host \<Rightarrow> candidate_spec \<Rightarrow> string \<Rightarrow> string option" where
  "effective_override lh candidate k =
     (case bt_get (cd_overrides candidate) k of
        Some v \<Rightarrow> Some v
      | None \<Rightarrow> if k = ''llm.provider'' then
            Option.bind (lh_env lh ''VOID_CONTROL_LLM_PROVIDER'') (\<lambda>p. if trim p = [] then None else Some (trim p))
          else None)"

lemma bt_get_fold_insert:
  "bt_wf es \<Longrightarrow> bt_get (fold (\<lambda>(k, v) m. bt_insert k v m) es m) k = (case bt_get es k of Some v \<Rightarrow> Some v | None \<Rightarrow> bt_get m k)"
proof (induction es arbitrary: m)
  case (Cons e es)
  then have wf: "bt_wf es" and new: "bt_get es (fst e) = None" by (auto simp: bt_wf_def bt_get_None_iff)
  from Cons.IH [OF wf, of "bt_insert (fst e) (snd e) m"] new show ?case
    by (cases e) (auto split: option.split)
qed simp

lemma bt_get_env_overrides:
  "bt_get (env_provider_overrides lh) k = (if k = ''llm.provider'' then
     Option.bind (lh_env lh ''VOID_CONTROL_LLM_PROVIDER'') (\<lambda>p. if trim p = [] then None else Some (trim p)) else None)"
  by (simp add: env_provider_overrides_def split: option.split)

lemma merged_get: "bt_wf (cd_overrides cand) \<Longrightarrow> bt_get (merged_overrides lh cand) k = effective_override lh cand k"
  by (simp add: merged_overrides_def bt_get_fold_insert effective_override_def bt_get_env_overrides split: option.split)

lemma merged_wf: "bt_wf (merged_overrides lh cand)"
proof -
  have "bt_wf (env_provider_overrides lh)" by (simp add: env_provider_overrides_def bt_wf_def split: option.split)
  then show ?thesis unfolding merged_overrides_def by (rule bt_wf_fold_insert)
qed

lemma merged_keys: "bt_wf (cd_overrides cand) \<Longrightarrow>
    fst ` set (merged_overrides lh cand) = {k. effective_override lh cand k \<noteq> None}"
  using bt_get_None_iff [of "merged_overrides lh cand"] by (auto simp: merged_get [symmetric])

lemma bt_no_entries: "(\<And>k. bt_get m k = None) \<Longrightarrow> m = []"
proof (cases m)
  case (Cons e es)
  assume "\<And>k. bt_get m k = None"
  then have "bt_get m (fst e) = None" .
  with Cons show ?thesis by simp
qed

lemma no_overrides_iff:
  assumes "bt_wf (cd_overrides cand)"
  shows "(cd_overrides cand = [] \<and> env_provider_overrides lh = []) \<longleftrightarrow> (\<forall>k. effective_override lh cand k = None)"
proof
  assume "cd_overrides cand = [] \<and> env_provider_overrides lh = []"
  then show "\<forall>k. effective_override lh cand k = None" using merged_get [OF assms, of lh] by (simp add: merged_overrides_def)
next
  assume none: "\<forall>k. effective_override lh cand k = None"
  have cand: "bt_get (cd_overrides cand) k = None" for k
    using none by (simp add: effective_override_def split: option.splits)
  have env: "bt_get (env_provider_overrides lh) k = None" for k
    using none cand by (auto simp: effective_override_def bt_get_env_overrides split: option.splits if_splits)
  show "cd_overrides cand = [] \<and> env_provider_overrides lh = []"
    by (intro conjI bt_no_entries cand env)
qed

lemma write_patched_Inr:
  "write_patched_workflow_spec lh path ov w = (Inr patched_path, w') \<longleftrightarrow>
    (\<exists>original doc rendered. lh_read lh path w = Inr original \<and> parse_workflow lh path original = Inr doc
       \<and> render_workflow lh path (apply_overrides ov doc) = Inr rendered
       \<and> patched_path = patched_workflow_path lh path (workflow_ext path) w
       \<and> lh_write lh patched_path rendered w = (Inr (), w'))"
  by (auto simp: write_patched_workflow_spec_def call_bind_def call_result_def call_return_def call_fail_def read_workflow_def
      write_workflow_def split: sum.splits prod.splits)

text \<open>
  C36: A prepared request keeps the run id and the policy and carries the inbox as launch context. Without
  overrides the workflow file is the original and nothing is written. With overrides, those of the
  candidate before the provider of the environment, the request names a new file with a copy of the
  original document, which has each override at its path, unless a longer override goes through that
  path, and agrees with the original at every path that diverges from all of them.
\<close>

theorem prepared_launch_effect:
  assumes "bt_wf (cd_overrides cand)" and "prepare_launch_request lh q cand box w = (Inr q', w')"
  shows "sr_run_id q' = sr_run_id q \<and> sr_policy q' = sr_policy q \<and> sr_launch_context q' = Some (lh_inbox_text lh box)
    \<and> (if \<forall>k. effective_override lh cand k = None then sr_workflow_spec q' = sr_workflow_spec q \<and> w' = w
       else \<exists>original doc patched rendered.
         lh_read lh (sr_workflow_spec q) w = Inr original \<and> parse_workflow lh (sr_workflow_spec q) original = Inr doc
         \<and> render_workflow lh (sr_workflow_spec q) patched = Inr rendered
         \<and> lh_write lh (sr_workflow_spec q') rendered w = (Inr (), w')
         \<and> (\<forall>k v. effective_override lh cand k = Some v
              \<longrightarrow> (\<forall>j. effective_override lh cand j \<noteq> None \<longrightarrow> \<not> below (parts k) (parts j))
              \<longrightarrow> json_at (parts k) patched = Some (JStr v))
         \<and> (\<forall>path. (\<forall>k. effective_override lh cand k \<noteq> None \<longrightarrow> diverging (parts k) path)
              \<longrightarrow> json_at path patched = json_at path doc))"
proof (cases "\<forall>k. effective_override lh cand k = None")
  case True
  with assms show ?thesis
    by (auto simp: prepare_launch_request_def no_overrides_iff call_bind_def call_return_def)
next
  case False
  then have some: "\<not> (cd_overrides cand = [] \<and> env_provider_overrides lh = [])" using no_overrides_iff [OF assms(1)] by blast
  from assms(2) obtain path where q': "q' = q\<lparr>sr_workflow_spec := path, sr_launch_context := Some (lh_inbox_text lh box)\<rparr>"
    and "write_patched_workflow_spec lh (sr_workflow_spec q) (merged_overrides lh cand) w = (Inr path, w')"
    unfolding prepare_launch_request_def if_not_P [OF some]
    by (auto simp: call_bind_def call_return_def split: sum.splits prod.splits)
  then obtain original doc rendered where written: "lh_read lh (sr_workflow_spec q) w = Inr original"
      "parse_workflow lh (sr_workflow_spec q) original = Inr doc"
      "render_workflow lh (sr_workflow_spec q) (apply_overrides (merged_overrides lh cand) doc) = Inr rendered"
      "lh_write lh path rendered w = (Inr (), w')"
    unfolding write_patched_Inr by blast
  have "json_at (parts k) (apply_overrides (merged_overrides lh cand) doc) = Some (JStr v)"
    if "effective_override lh cand k = Some v" "\<forall>j. effective_override lh cand j \<noteq> None \<longrightarrow> \<not> below (parts k) (parts j)" for k v
    using that by (intro apply_overrides_last [OF merged_wf bt_get_Some_mem])
      (simp_all add: merged_get [OF assms(1)] merged_keys [OF assms(1)])
  moreover have "json_at path (apply_overrides (merged_overrides lh cand) doc) = json_at path doc"
    if "\<forall>k. effective_override lh cand k \<noteq> None \<longrightarrow> diverging (parts k) path" for path
    using that by (intro apply_overrides_other) (simp add: merged_keys [OF assms(1)])
  ultimately show ?thesis using False written q' by auto
qed

text \<open>One YAML document, readable at every path; nothing that is written changes the world.\<close>

definition demo_launch_host :: "'e launch_host" where
  "demo_launch_host =
     \<lparr>lh_env = [''VOID_CONTROL_LLM_PROVIDER'' \<mapsto> '' local ''], lh_read = (\<lambda>_ _. Inr ''text''), lh_write = (\<lambda>_ _ w. (Inr (), w)),
      lh_nanos = (\<lambda>_. 7), lh_temp_dir = ''/tmp'', lh_json = (\<lambda>_. Inl ''no''),
      lh_yaml = (\<lambda>_. Inr (JObj [(''agent'', JObj [(''prompt'', JStr ''old''), (''timeout_secs'', JNum (PosInt 300))]),
        (''llm'', JStr ''none'')])),
      lh_json_pretty = (\<lambda>_. Inl ''no''), lh_yaml_text = (\<lambda>_. Inr ''patched''), lh_inbox_text = (\<lambda>_. ''{}'')\<rparr>"

lemma prepared_launch_effect_witness:
  "\<forall>w box. \<exists>q' patched. prepare_launch_request (demo_launch_host :: 'e launch_host)
      \<lparr>sr_run_id = ''r'', sr_workflow_spec = ''flow.yaml'', sr_launch_context = None, sr_policy = default_runtime_policy\<rparr>
      \<lparr>cd_candidate_id = ''c'', cd_overrides = [(''agent.prompt'', ''new'')]\<rparr> box w = (Inr q', w)
    \<and> json_at [''agent'', ''prompt''] patched = Some (JStr ''new'') \<and> json_at [''llm'', ''provider''] patched = Some (JStr ''local'')
    \<and> json_at [''agent'', ''timeout_secs''] patched = Some (JNum (PosInt 300))"
proof (intro allI)
  fix w :: "'e world" and box
  let ?lh = "demo_launch_host :: 'e launch_host"
  let ?q = "\<lparr>sr_run_id = ''r'', sr_workflow_spec = ''flow.yaml'', sr_launch_context = None, sr_policy = default_runtime_policy\<rparr>"
  let ?cand = "\<lparr>cd_candidate_id = ''c'', cd_overrides = [(''agent.prompt'', ''new'')]\<rparr>"
  have ext: "is_json_ext (workflow_ext ''flow.yaml'') = False"
    by (simp add: is_json_ext_def workflow_ext_def file_extension_def file_name_def split_file_name_def to_ascii_lowercase_def)
  obtain q' where q': "prepare_launch_request ?lh ?q ?cand box w = (Inr q', w)"
    by (simp add: prepare_launch_request_def write_patched_workflow_spec_def call_bind_def call_result_def call_return_def
        read_workflow_def parse_workflow_def render_workflow_def write_workflow_def ext demo_launch_host_def)
  have eff: "effective_override ?lh ?cand k = (if k = ''agent.prompt'' then Some ''new'' else if k = ''llm.provider'' then Some ''local'' else None)" for k
    by (simp add: effective_override_def demo_launch_host_def trim_def is_ws_def)
  have doc: "parse_workflow ?lh ''flow.yaml'' ''text'' = Inr (JObj [(''agent'', JObj [(''prompt'', JStr ''old''), (''timeout_secs'', JNum (PosInt 300))]), (''llm'', JStr ''none'')])"
    by (simp add: parse_workflow_def ext demo_launch_host_def)
  have "bt_wf (cd_overrides ?cand)" by (simp add: bt_wf_def)
  moreover have some: "(\<forall>k. effective_override ?lh ?cand k = None) = False" using eff [of "''agent.prompt''"] by auto
  ultimately obtain original source patched where read: "lh_read ?lh (sr_workflow_spec ?q) w = Inr original"
      "parse_workflow ?lh (sr_workflow_spec ?q) original = Inr source"
      and over: "\<forall>k v. effective_override ?lh ?cand k = Some v
              \<longrightarrow> (\<forall>j. effective_override ?lh ?cand j \<noteq> None \<longrightarrow> \<not> below (parts k) (parts j))
              \<longrightarrow> json_at (parts k) patched = Some (JStr v)"
      and kept: "\<forall>path. (\<forall>k. effective_override ?lh ?cand k \<noteq> None \<longrightarrow> diverging (parts k) path)
              \<longrightarrow> json_at path patched = json_at path source"
    using prepared_launch_effect [OF _ q', unfolded some if_False] by blast
  have "original = ''text''" using read(1) by (simp add: demo_launch_host_def)
  then have "source = JObj [(''agent'', JObj [(''prompt'', JStr ''old''), (''timeout_secs'', JNum (PosInt 300))]), (''llm'', JStr ''none'')]"
    using read(2) doc by simp
  note rest = kept [unfolded this]
  have alone: "\<not> below (parts ''agent.prompt'') (parts j)" "\<not> below (parts ''llm.provider'') (parts j)"
    if "effective_override ?lh ?cand j \<noteq> None" for j
    using that by (auto simp: eff split: if_splits)
  have apart: "diverging (parts j) [''agent'', ''timeout_secs'']" if "effective_override ?lh ?cand j \<noteq> None" for j
    using that by (auto simp: eff split: if_splits)
  have "json_at [''agent'', ''prompt''] patched = Some (JStr ''new'')"
    using over [rule_format, OF _ alone(1), of "''new''"] by (simp add: eff)
  moreover have "json_at [''llm'', ''provider''] patched = Some (JStr ''local'')"
    using over [rule_format, OF _ alone(2), of "''local''"] by (simp add: eff)
  moreover have "json_at [''agent'', ''timeout_secs''] patched = Some (JNum (PosInt 300))"
    using rest [rule_format, OF apart] by simp
  ultimately show "\<exists>q' patched. prepare_launch_request ?lh ?q ?cand box w = (Inr q', w)
    \<and> json_at [''agent'', ''prompt''] patched = Some (JStr ''new'') \<and> json_at [''llm'', ''provider''] patched = Some (JStr ''local'')
    \<and> json_at [''agent'', ''timeout_secs''] patched = Some (JNum (PosInt 300))" using q' by blast
qed

subsection \<open>The deployed service\<close>

lemma keeps_prepared_launch:
  assumes "\<And>path text_of w. P w \<Longrightarrow> P (snd (lh_write lh path text_of w))"
  shows "call_keeps P (prepare_launch_request lh q cand box)"
proof -
  have read: "call_keeps P (read_workflow lh path)" "call_keeps P (\<lambda>w. (Inr (f w), w))" for path and f :: "_ \<Rightarrow> string"
    by (simp_all add: call_keeps_def read_workflow_def)
  have written: "call_keeps P (write_workflow lh path text_of)" for path text_of
    using assms by (simp add: call_keeps_def write_workflow_def case_prod_beta)
  show ?thesis
    unfolding prepare_launch_request_def write_patched_workflow_spec_def by (intro call_rules read written)
qed

text \<open>
  A tick of the worker as it is deployed, over the daemon and with launch injection, keeps every event log
  contiguous, whatever the daemon answers and whatever the workflow files hold: the transport, the clock and
  the writing of workflow files only have to leave the logs alone.
\<close>

theorem deployed_tick_keeps_logs:
  assumes "\<And>verb path body w. logs_ok w \<Longrightarrow> logs_ok (snd (vb_transport c verb path body w))"
    and "\<And>n w. logs_ok w \<Longrightarrow> logs_ok (svc_sleep sv n w)"
    and "\<And>path text_of w. logs_ok w \<Longrightarrow> logs_ok (snd (lh_write lh path text_of w))"
    and "logs_ok w"
  shows "logs_ok (snd (process_pending_executions_once (with_launch_injection lh (void_box_service c sv)) w))"
proof -
  have "with_launch_injection lh (void_box_service c sv) = void_box_service c (with_launch_injection lh sv)"
    by (simp add: with_launch_injection_def void_box_service_def)
  moreover have "logs_ok (snd (svc_prepare_launch_request (with_launch_injection lh sv) q cand box u))" if "logs_ok u" for q cand box u
    using keeps_prepared_launch [of logs_ok lh] assms(3) that by (simp add: with_launch_injection_def call_keeps_def)
  moreover have "logs_ok (svc_sleep (with_launch_injection lh sv) n u)" if "logs_ok u" for n u
    using assms(2) that by (simp add: with_launch_injection_def)
  ultimately show ?thesis using daemon_tick_keeps_logs [of c "with_launch_injection lh sv" w] assms(1,4) by simp
qed

lemma deployed_tick_keeps_logs_witness:
  "\<forall>dl routes. logs_ok (snd (process_pending_executions_once
     (with_launch_injection demo_launch_host (void_box_service (scripted_client dl routes) local_service)) empty_world))"
proof (intro allI)
  fix dl routes
  show "logs_ok (snd (process_pending_executions_once
     (with_launch_injection demo_launch_host (void_box_service (scripted_client dl routes) local_service)) empty_world))"
  proof (rule deployed_tick_keeps_logs)
    show "logs_ok empty_world" by (rule empty_world_logs)
  qed (use mock.sleep in \<open>simp_all add: scripted_client_def scripted_request_def local_service_def demo_launch_host_def\<close>)
qed

end
