(* ===== verification/Router.thy ===== *)
theory Router
  imports Bridge_Props Launch
begin

text \<open>
  The HTTP server of the bridge (\<open>src/bridge.rs\<close>): its configuration, the table of routes, the handler of
  each route, the passthrough to the daemon and the fallback. Which pattern of the table a path selects is
  decided by the web framework; the locale \<open>path_router\<close> is what its documentation says of that choice, and
  \<open>best_pattern\<close> is a choice that meets it. Lemmas: the router and the dispatch of \<open>handle_bridge_request\<close>
  answer alike.
\<close>

subsection \<open>Configuration\<close>

definition env_or :: "host \<Rightarrow> string \<Rightarrow> string \<Rightarrow> string" where
  "env_or h var d = (case ht_env h var of None \<Rightarrow> d | Some v \<Rightarrow> v)"

definition config_from_env :: "host \<Rightarrow> bridge_config" where
  "config_from_env h =
     \<lparr>bc_listen = env_or h ''VOID_CONTROL_BRIDGE_LISTEN'' ''127.0.0.1:43210'',
      bc_base_url = env_or h ''VOID_BOX_BASE_URL'' (default_unix_url h),
      bc_spec_dir = env_or h ''VOID_CONTROL_SPEC_DIR'' ''/tmp/void-control/specs'',
      bc_execution_dir = env_or h ''VOID_CONTROL_EXECUTION_DIR'' ''/tmp/void-control/executions''\<rparr>"

subsection \<open>Patterns\<close>

text \<open>A literal segment, \<^verbatim>\<open>{name}\<close> for one segment, and \<^verbatim>\<open>{*rest}\<close> for the rest of the path.\<close>

datatype segment = Lit string | Param | Rest

type_synonym pattern = "segment list"

fun pattern_matches :: "pattern \<Rightarrow> string list \<Rightarrow> bool" where
  "pattern_matches [] xs = (xs = [])"
| "pattern_matches (Rest # ps) xs = (ps = [] \<and> xs \<noteq> [] \<and> xs \<noteq> [[]])"
| "pattern_matches (p # ps) [] = False"
| "pattern_matches (Lit s # ps) (x # xs) = (x = s \<and> pattern_matches ps xs)"
| "pattern_matches (Param # ps) (x # xs) = (x \<noteq> [] \<and> pattern_matches ps xs)"

fun segment_rank :: "segment \<Rightarrow> nat" where
  "segment_rank (Lit s) = 0"
| "segment_rank Param = 1"
| "segment_rank Rest = 2"

text \<open>The first segments in which two patterns differ decide: literals come before parameters.\<close>

fun at_least_as_specific :: "pattern \<Rightarrow> pattern \<Rightarrow> bool" where
  "at_least_as_specific (p # ps) (q # qs) =
     (segment_rank p < segment_rank q \<or> segment_rank p = segment_rank q \<and> at_least_as_specific ps qs)"
| "at_least_as_specific ps qs = True"

definition path_segments :: "string \<Rightarrow> string list option" where
  "path_segments path = map_option (split_on (CHR ''/'')) (strip_prefix ''/'' path)"

locale path_router =
  fixes pick :: "pattern list \<Rightarrow> string list \<Rightarrow> pattern option"
  assumes pick_None: "pick ps xs = None \<Longrightarrow> p \<in> set ps \<Longrightarrow> \<not> pattern_matches p xs"
    and pick_Some: "pick ps xs = Some p \<Longrightarrow> p \<in> set ps \<and> pattern_matches p xs"
    and pick_best: "pick ps xs = Some p \<Longrightarrow> q \<in> set ps \<Longrightarrow> pattern_matches q xs \<Longrightarrow> at_least_as_specific p q"

context path_router
begin

text \<open>What matches nothing else is chosen.\<close>

lemma pick_only:
  assumes "p \<in> set ps" and "pattern_matches p xs" and "\<And>q. q \<in> set ps \<Longrightarrow> pattern_matches q xs \<Longrightarrow> q = p"
  shows "pick ps xs = Some p"
proof (cases "pick ps xs")
  case None
  then show ?thesis using pick_None assms(1,2) by blast
next
  case (Some q)
  then show ?thesis using pick_Some assms(3) by blast
qed

lemma pick_filter: "filter (\<lambda>q. pattern_matches q xs) ps = [p] \<Longrightarrow> pick ps xs = Some p"
proof -
  assume "filter (\<lambda>q. pattern_matches q xs) ps = [p]"
  then have "set (filter (\<lambda>q. pattern_matches q xs) ps) = {p}" by (simp only: list.set)
  then show ?thesis by (intro pick_only) auto
qed

end

text \<open>The most specific of the patterns that match.\<close>

fun best_pattern :: "pattern list \<Rightarrow> string list \<Rightarrow> pattern option" where
  "best_pattern [] xs = None"
| "best_pattern (p # ps) xs =
     (if pattern_matches p xs then
        (case best_pattern ps xs of None \<Rightarrow> Some p | Some q \<Rightarrow> if at_least_as_specific p q then Some p else Some q)
      else best_pattern ps xs)"

lemma pattern_matches_Cons:
  "pattern_matches (p # ps) xs \<longleftrightarrow> (case p of Rest \<Rightarrow> ps = [] \<and> xs \<noteq> [] \<and> xs \<noteq> [[]]
     | Lit s \<Rightarrow> (\<exists>ys. xs = s # ys \<and> pattern_matches ps ys)
     | Param \<Rightarrow> (\<exists>y ys. xs = y # ys \<and> y \<noteq> [] \<and> pattern_matches ps ys))"
  by (cases p; cases xs) auto

lemma specific_total: "at_least_as_specific p q \<or> at_least_as_specific q p"
  by (induction p q rule: at_least_as_specific.induct) auto

lemma pattern_matches_tail: "pattern_matches (p # ps) xs \<Longrightarrow> if p = Rest then ps = [] else xs \<noteq> [] \<and> pattern_matches ps (tl xs)"
  by (cases p; cases xs) auto

lemma specific_trans:
  "pattern_matches p xs \<Longrightarrow> pattern_matches q xs \<Longrightarrow> pattern_matches r xs \<Longrightarrow>
    at_least_as_specific p q \<Longrightarrow> at_least_as_specific q r \<Longrightarrow> at_least_as_specific p r"
proof (induction p arbitrary: xs q r)
  case (Cons a ps)
  show ?case
  proof (cases r)
    case r: (Cons c rs)
    obtain b qs where q: "q = b # qs"
    proof (cases q)
      case Nil
      then have "xs = []" using Cons.prems(2) by simp
      then show ?thesis using Cons.prems(1) by (cases a) auto
    qed
    note tails = Cons.prems(1) [THEN pattern_matches_tail] Cons.prems(2) [unfolded q, THEN pattern_matches_tail]
      Cons.prems(3) [unfolded r, THEN pattern_matches_tail]
    show ?thesis
    proof (cases "a = Rest")
      case True
      then show ?thesis using Cons.prems(4,5) by (cases b; cases c) (auto simp: q r tails)
    next
      case False
      have "at_least_as_specific ps rs"
        if "segment_rank a = segment_rank b" "segment_rank b = segment_rank c"
          "at_least_as_specific ps qs" "at_least_as_specific qs rs"
      proof (rule Cons.IH [OF _ _ _ that(3,4)])
        have "b \<noteq> Rest" "c \<noteq> Rest" using that(1,2) False by (cases a; cases b; cases c; simp)+
        then show "pattern_matches ps (tl xs)" "pattern_matches qs (tl xs)" "pattern_matches rs (tl xs)"
          using tails False by auto
      qed
      then show ?thesis using Cons.prems(4,5) by (auto simp: q r)
    qed
  qed simp
qed simp

lemma best_pattern_None: "best_pattern ps xs = None \<longleftrightarrow> (\<forall>p \<in> set ps. \<not> pattern_matches p xs)"
  by (induction ps) (auto split: option.splits)

lemma best_pattern_Some:
  "best_pattern ps xs = Some p \<Longrightarrow> p \<in> set ps \<and> pattern_matches p xs
     \<and> (\<forall>q \<in> set ps. pattern_matches q xs \<longrightarrow> at_least_as_specific p q)"
proof (induction ps arbitrary: p)
  case (Cons a ps)
  have refl: "at_least_as_specific a a" using specific_total by blast
  show ?case
  proof (cases "pattern_matches a xs")
    case False
    then show ?thesis using Cons by simp
  next
    case True
    show ?thesis
    proof (cases "best_pattern ps xs")
      case None
      then have "\<forall>q \<in> set ps. \<not> pattern_matches q xs" by (simp add: best_pattern_None)
      moreover have "p = a" using Cons.prems True None by simp
      ultimately show ?thesis using True refl by auto
    next
      case (Some q)
      note q = Cons.IH [OF Some]
      show ?thesis
      proof (cases "at_least_as_specific a q")
        case better: True
        then have "p = a" using Cons.prems True Some by simp
        moreover have "at_least_as_specific a r" if "r \<in> set ps" "pattern_matches r xs" for r
          using specific_trans [OF True _ that(2) better] q that by blast
        ultimately show ?thesis using True refl by auto
      next
        case False
        then have "p = q" using Cons.prems True Some by simp
        then show ?thesis using q False specific_total by auto
      qed
    qed
  qed
qed simp

interpretation best: path_router best_pattern
  by unfold_locales (use best_pattern_None best_pattern_Some in blast)+

subsection \<open>The table of routes\<close>

datatype (plugins only: code size) route_handler =
    RouteHealth | RouteExecutionsDryRun | RouteBatchDryRun | RouteTeamDryRun | RouteTeamRun | RouteTeamGet
  | RouteBatchRun | RouteBatchGet | RouteTemplateList | RouteTemplateGet | RouteTemplateDryRun
  | RouteTemplateExecute | RouteExecutionCreate | RouteExecutionList | RouteExecutionGet | RouteExecutionEvents
  | RouteExecutionPolicyPatch | RouteExecutionPause | RouteExecutionResume | RouteExecutionCancel | RouteLaunch
  | RouteRunsPassthrough

datatype method_router = OnVerbs "(string \<times> route_handler) list" | OnAny route_handler

definition get_route :: "route_handler \<Rightarrow> method_router" where
  "get_route h = OnVerbs [(''GET'', h)]"

definition post_route :: "route_handler \<Rightarrow> method_router" where
  "post_route h = OnVerbs [(''POST'', h)]"

definition bridge_routes :: "(pattern \<times> method_router) list" where
  "bridge_routes =
     [([Lit ''v1'', Lit ''health''], get_route RouteHealth),
      ([Lit ''v1'', Lit ''executions'', Lit ''dry-run''], post_route RouteExecutionsDryRun),
      ([Lit ''v1'', Lit ''batch'', Lit ''dry-run''], post_route RouteBatchDryRun),
      ([Lit ''v1'', Lit ''yolo'', Lit ''dry-run''], post_route RouteBatchDryRun),
      ([Lit ''v1'', Lit ''teams'', Lit ''dry-run''], post_route RouteTeamDryRun),
      ([Lit ''v1'', Lit ''teams'', Lit ''run''], post_route RouteTeamRun),
      ([Lit ''v1'', Lit ''team-runs'', Rest], get_route RouteTeamGet),
      ([Lit ''v1'', Lit ''batch'', Lit ''run''], post_route RouteBatchRun),
      ([Lit ''v1'', Lit ''yolo'', Lit ''run''], post_route RouteBatchRun),
      ([Lit ''v1'', Lit ''batch-runs'', Rest], get_route RouteBatchGet),
      ([Lit ''v1'', Lit ''yolo-runs'', Rest], get_route RouteBatchGet),
      ([Lit ''v1'', Lit ''templates''], get_route RouteTemplateList),
      ([Lit ''v1'', Lit ''templates'', Param], get_route RouteTemplateGet),
      ([Lit ''v1'', Lit ''templates'', Param, Lit ''dry-run''], post_route RouteTemplateDryRun),
      ([Lit ''v1'', Lit ''templates'', Param, Lit ''execute''], post_route RouteTemplateExecute),
      ([Lit ''v1'', Lit ''executions''], OnVerbs [(''POST'', RouteExecutionCreate), (''GET'', RouteExecutionList)]),
      ([Lit ''v1'', Lit ''executions'', Param], get_route RouteExecutionGet),
      ([Lit ''v1'', Lit ''executions'', Param, Lit ''events''], get_route RouteExecutionEvents),
      ([Lit ''v1'', Lit ''executions'', Param, Lit ''policy''], OnVerbs [(''PATCH'', RouteExecutionPolicyPatch)]),
      ([Lit ''v1'', Lit ''executions'', Param, Lit ''pause''], post_route RouteExecutionPause),
      ([Lit ''v1'', Lit ''executions'', Param, Lit ''resume''], post_route RouteExecutionResume),
      ([Lit ''v1'', Lit ''executions'', Param, Lit ''cancel''], post_route RouteExecutionCancel),
      ([Lit ''v1'', Lit ''launch''], post_route RouteLaunch),
      ([Lit ''v1'', Lit ''runs''], OnAny RouteRunsPassthrough),
      ([Lit ''v1'', Lit ''runs'', Rest], OnAny RouteRunsPassthrough)]"

subsection \<open>Handlers\<close>

text \<open>
  An answer of the server: JSON from a handler of the bridge, the unchanged answer of the daemon, or the
  empty answer of the framework.
\<close>

datatype (plugins only: code size) server_response = FromBridge response | FromDaemon u16 string | FromFramework u16

definition into_axum :: "response bridge \<Rightarrow> server_response bridge" where
  "into_axum m = io_bind m (\<lambda>r. io_return (FromBridge r))"

definition route_runs_passthrough ::
    "bridge_env void_box_client \<Rightarrow> string \<Rightarrow> string \<Rightarrow> string \<Rightarrow> server_response bridge" where
  "route_runs_passthrough c verb path_and_query body = (\<lambda>w.
     case forward c verb path_and_query body w of
       (Inr r, w') \<Rightarrow> (Inr (FromDaemon (if 100 \<le> hp_status r \<and> hp_status r \<le> 999 then hp_status r else 500) (hp_body r)), w')
     | (Inl e, w') \<Rightarrow> (Inr (FromBridge (error_response 502 ''DAEMON_UNREACHABLE'' (ce_message e) (ce_retryable e))), w'))"

definition route_not_found :: "string \<Rightarrow> string \<Rightarrow> server_response bridge" where
  "route_not_found verb path = into_axum (io_return (no_route verb path))"

record bridge_state =
  bs_codec :: codec
  bs_readers :: readers
  bs_config :: bridge_config
  bs_client :: "bridge_env void_box_client"

fun run_handler :: "bridge_state \<Rightarrow> route_handler \<Rightarrow> string \<Rightarrow> string \<Rightarrow> string \<Rightarrow> string \<Rightarrow> server_response bridge" where
  "run_handler s RouteHealth verb path query body = into_axum (io_return (json_response 200 BHealth))"
| "run_handler s RouteExecutionsDryRun verb path query body = into_axum (handle_execution_dry_run (bs_readers s) body)"
| "run_handler s RouteBatchDryRun verb path query body = into_axum (io_return (handle_batch_dry_run (bs_readers s) body))"
| "run_handler s RouteTeamDryRun verb path query body = into_axum (io_return (handle_team_dry_run (bs_readers s) body))"
| "run_handler s RouteTeamRun verb path query body = into_axum (handle_team_run (bs_codec s) (bs_readers s) body)"
| "run_handler s RouteTeamGet verb path query body = into_axum (handle_team_get (bs_codec s) path)"
| "run_handler s RouteBatchRun verb path query body = into_axum (handle_batch_run (bs_codec s) (bs_readers s) body)"
| "run_handler s RouteBatchGet verb path query body = into_axum (handle_batch_get (bs_codec s) path)"
| "run_handler s RouteTemplateList verb path query body = into_axum (pure_response (handle_template_list (bs_readers s)))"
| "run_handler s RouteTemplateGet verb path query body =
     into_axum (pure_response (\<lambda>env. handle_template_get (bs_readers s) env path))"
| "run_handler s RouteTemplateDryRun verb path query body =
     into_axum (pure_response (\<lambda>env. handle_template_dry_run (bs_readers s) env path body))"
| "run_handler s RouteTemplateExecute verb path query body =
     into_axum (handle_template_execute (bs_codec s) (bs_readers s) path body)"
| "run_handler s RouteExecutionCreate verb path query body =
     into_axum (handle_execution_create (bs_codec s) (bs_readers s) (bs_config s) body)"
| "run_handler s RouteExecutionList verb path query body = into_axum (handle_execution_list (bs_codec s))"
| "run_handler s RouteExecutionGet verb path query body = into_axum (handle_execution_get (bs_codec s) path)"
| "run_handler s RouteExecutionEvents verb path query body = into_axum (handle_execution_events (bs_codec s) path)"
| "run_handler s RouteExecutionPolicyPatch verb path query body =
     into_axum (handle_execution_policy_patch (bs_codec s) (bs_readers s) path body)"
| "run_handler s RouteExecutionPause verb path query body = into_axum (handle_execution_action (bs_codec s) path ActPause)"
| "run_handler s RouteExecutionResume verb path query body = into_axum (handle_execution_action (bs_codec s) path ActResume)"
| "run_handler s RouteExecutionCancel verb path query body = into_axum (handle_execution_action (bs_codec s) path ActCancel)"
| "run_handler s RouteLaunch verb path query body =
     into_axum (handle_launch (bs_readers s) (bs_config s) (Some (vb_start (bs_client s))) body)"
| "run_handler s RouteRunsPassthrough verb path query body = route_runs_passthrough (bs_client s) verb (path @ query) body"

definition handler_of :: "method_router \<Rightarrow> string \<Rightarrow> route_handler option" where
  "handler_of m verb = (case m of OnVerbs hs \<Rightarrow> map_of hs verb | OnAny h \<Rightarrow> Some h)"

text \<open>
  The answer to a request with a body that is text within the size limit, for a verb other than \<open>OPTIONS\<close>
  (answered by the CORS layer) and \<open>HEAD\<close> (\<open>GET\<close> without the body); \<open>query\<close> is the query with its question
  mark. A path that is known with other verbs only is refused by the framework.
\<close>

definition serve_request ::
    "(pattern list \<Rightarrow> string list \<Rightarrow> pattern option) \<Rightarrow> bridge_state \<Rightarrow> string \<Rightarrow> string \<Rightarrow> string \<Rightarrow> string \<Rightarrow> server_response bridge" where
  "serve_request pick s verb path query body =
     (case Option.bind (path_segments path) (pick (map fst bridge_routes)) of
        None \<Rightarrow> route_not_found verb path
      | Some p \<Rightarrow> (case Option.bind (map_of bridge_routes p) (\<lambda>m. handler_of m verb) of
            None \<Rightarrow> io_return (FromFramework 405)
          | Some h \<Rightarrow> run_handler s h verb path query body))"

subsection \<open>Paths of routes\<close>

lemma split_on_plain: "x \<in> set (split_on c s) \<Longrightarrow> c \<notin> set x"
proof (induction s arbitrary: x)
  case (Cons a s)
  show ?case
  proof (cases "split_on c s")
    case split: (Cons p ps)
    then have "c \<notin> set y" if "y = p \<or> y \<in> set ps" for y using that Cons.IH by auto
    with Cons.prems split show ?thesis by (auto split: if_split_asm)
  qed (use Cons.prems in \<open>auto split: if_split_asm\<close>)
qed simp

lemma path_of_segments:
  assumes "path_segments path = Some segs"
  shows "path = CHR ''/'' # join_with ''/'' segs" and "\<forall>x \<in> set segs. CHR ''/'' \<notin> set x"
  using assms split_on_plain join_split by (auto simp: path_segments_def strip_prefix_Some_iff)

lemma starts_with_Cons: "starts_with [] s" "\<not> starts_with (a # p) []" "starts_with (a # p) (b # s) = (a = b \<and> starts_with p s)"
  by (auto simp: starts_with_def)

lemma ends_with_iff: "ends_with p s \<longleftrightarrow> (\<exists>a. s = a @ p)"
  by (auto simp: ends_with_def) (metis append_take_drop_id)

lemma ends_with_segment:
  assumes "CHR ''/'' \<notin> set x" and "CHR ''/'' \<notin> set y"
  shows "ends_with (CHR ''/'' # y) (a @ CHR ''/'' # x) \<longleftrightarrow> x = y"
proof
  assume "ends_with (CHR ''/'' # y) (a @ CHR ''/'' # x)"
  then obtain b where "a @ CHR ''/'' # x = b @ CHR ''/'' # y" by (auto simp: ends_with_iff)
  then have "rev x @ CHR ''/'' # rev a = rev y @ CHR ''/'' # rev b" by (metis append.assoc append_Cons append_Nil rev.simps(2) rev_append)
  then have "takeWhile (\<lambda>c. c \<noteq> CHR ''/'') (rev x @ CHR ''/'' # rev a) = takeWhile (\<lambda>c. c \<noteq> CHR ''/'') (rev y @ CHR ''/'' # rev b)"
    by simp
  moreover have "takeWhile (\<lambda>c. c \<noteq> CHR ''/'') (rev z @ CHR ''/'' # u) = rev z" if "CHR ''/'' \<notin> set z" for z u
    using that by (subst takeWhile_append2) auto
  ultimately show "x = y" using assms by simp
qed (auto simp: ends_with_iff)

text \<open>The last segment of a path, for the two families of paths with an id.\<close>

lemmas ends_execution_id = ends_with_segment [where a = "''/v1/executions''", simplified]
  and ends_template_id = ends_with_segment [where a = "''/v1/templates''", simplified]

lemmas ends_execution_action = ends_with_segment [where a = "''/v1/executions/'' @ i" for i, simplified]
  and ends_template_action = ends_with_segment [where a = "''/v1/templates/'' @ i" for i, simplified]

definition reserved_words :: "string set" where
  "reserved_words = {''dry-run'', ''execute'', ''events'', ''policy'', ''pause'', ''resume'', ''cancel''}"

text \<open>The routes, one by one: handler, verb and pattern.\<close>

fun table_entries :: "pattern \<times> method_router \<Rightarrow> (route_handler \<times> string \<times> pattern) list" where
  "table_entries (p, OnVerbs hs) = map (\<lambda>(verb, h). (h, verb, p)) hs"
| "table_entries (p, OnAny h) = []"

lemma table_entry:
  assumes "(p, m) \<in> set bridge_routes" "handler_of m verb = Some h" "h \<noteq> RouteRunsPassthrough"
  shows "(h, verb, p) \<in> set (concat (map table_entries bridge_routes))"
proof (cases m)
  case (OnVerbs hs)
  then have "(h, verb, p) \<in> set (table_entries (p, m))"
    using assms(2) by (force simp: handler_of_def dest: map_of_SomeD)
  with assms(1) show ?thesis by (simp only: set_concat set_map) blast
next
  case (OnAny g)
  then have "(p, OnAny h) \<in> set bridge_routes" using assms(1,2) by (simp add: handler_of_def)
  then show ?thesis using assms(3) by (simp add: bridge_routes_def get_route_def post_route_def)
qed

lemma table_entries_routes: "concat (map table_entries bridge_routes) = [(RouteHealth, ''GET'', [Lit ''v1'', Lit ''health'']),
      (RouteExecutionsDryRun, ''POST'', [Lit ''v1'', Lit ''executions'', Lit ''dry-run'']),
      (RouteBatchDryRun, ''POST'', [Lit ''v1'', Lit ''batch'', Lit ''dry-run'']),
      (RouteBatchDryRun, ''POST'', [Lit ''v1'', Lit ''yolo'', Lit ''dry-run'']),
      (RouteTeamDryRun, ''POST'', [Lit ''v1'', Lit ''teams'', Lit ''dry-run'']),
      (RouteTeamRun, ''POST'', [Lit ''v1'', Lit ''teams'', Lit ''run'']),
      (RouteTeamGet, ''GET'', [Lit ''v1'', Lit ''team-runs'', Rest]),
      (RouteBatchRun, ''POST'', [Lit ''v1'', Lit ''batch'', Lit ''run'']),
      (RouteBatchRun, ''POST'', [Lit ''v1'', Lit ''yolo'', Lit ''run'']),
      (RouteBatchGet, ''GET'', [Lit ''v1'', Lit ''batch-runs'', Rest]),
      (RouteBatchGet, ''GET'', [Lit ''v1'', Lit ''yolo-runs'', Rest]),
      (RouteTemplateList, ''GET'', [Lit ''v1'', Lit ''templates'']),
      (RouteTemplateGet, ''GET'', [Lit ''v1'', Lit ''templates'', Param]),
      (RouteTemplateDryRun, ''POST'', [Lit ''v1'', Lit ''templates'', Param, Lit ''dry-run'']),
      (RouteTemplateExecute, ''POST'', [Lit ''v1'', Lit ''templates'', Param, Lit ''execute'']),
      (RouteExecutionCreate, ''POST'', [Lit ''v1'', Lit ''executions'']),
      (RouteExecutionList, ''GET'', [Lit ''v1'', Lit ''executions'']),
      (RouteExecutionGet, ''GET'', [Lit ''v1'', Lit ''executions'', Param]),
      (RouteExecutionEvents, ''GET'', [Lit ''v1'', Lit ''executions'', Param, Lit ''events'']),
      (RouteExecutionPolicyPatch, ''PATCH'', [Lit ''v1'', Lit ''executions'', Param, Lit ''policy'']),
      (RouteExecutionPause, ''POST'', [Lit ''v1'', Lit ''executions'', Param, Lit ''pause'']),
      (RouteExecutionResume, ''POST'', [Lit ''v1'', Lit ''executions'', Param, Lit ''resume'']),
      (RouteExecutionCancel, ''POST'', [Lit ''v1'', Lit ''executions'', Param, Lit ''cancel'']),
      (RouteLaunch, ''POST'', [Lit ''v1'', Lit ''launch''])]"
  by (simp add: bridge_routes_def get_route_def post_route_def)

lemma join_Cons: "ys \<noteq> [] \<Longrightarrow> join_with sep (x # ys) = x @ sep @ join_with sep ys"
  using join_append [of "[x]" ys] by simp

text \<open>What \<open>handle_bridge_request\<close> does on the paths of the routes.\<close>

lemmas dispatch_defs = handle_bridge_request_def handle_get_def handle_post_def handle_patch_def starts_with_Cons
  is_dry_run_or_execute_def reserved_words_def

lemma dispatch_fixed:
  "handle_bridge_request cx rd cf cl ''GET'' ''/v1/health'' body = io_return (json_response 200 BHealth)"
  "handle_bridge_request cx rd cf cl ''POST'' ''/v1/executions/dry-run'' body = handle_execution_dry_run rd body"
  "handle_bridge_request cx rd cf cl ''POST'' ''/v1/batch/dry-run'' body = io_return (handle_batch_dry_run rd body)"
  "handle_bridge_request cx rd cf cl ''POST'' ''/v1/yolo/dry-run'' body = io_return (handle_batch_dry_run rd body)"
  "handle_bridge_request cx rd cf cl ''POST'' ''/v1/teams/dry-run'' body = io_return (handle_team_dry_run rd body)"
  "handle_bridge_request cx rd cf cl ''POST'' ''/v1/teams/run'' body = handle_team_run cx rd body"
  "handle_bridge_request cx rd cf cl ''POST'' ''/v1/batch/run'' body = handle_batch_run cx rd body"
  "handle_bridge_request cx rd cf cl ''POST'' ''/v1/yolo/run'' body = handle_batch_run cx rd body"
  "handle_bridge_request cx rd cf cl ''GET'' ''/v1/templates'' body = pure_response (handle_template_list rd)"
  "handle_bridge_request cx rd cf cl ''POST'' ''/v1/executions'' body = handle_execution_create cx rd cf body"
  "handle_bridge_request cx rd cf cl ''GET'' ''/v1/executions'' body = handle_execution_list cx"
  "handle_bridge_request cx rd cf cl ''POST'' ''/v1/launch'' body = handle_launch rd cf cl body"
  by (simp_all add: dispatch_defs)

lemma dispatch_runs:
  "handle_bridge_request cx rd cf cl ''GET'' (''/v1/team-runs/'' @ x) body = handle_team_get cx (''/v1/team-runs/'' @ x)"
  "handle_bridge_request cx rd cf cl ''GET'' (''/v1/batch-runs/'' @ x) body = handle_batch_get cx (''/v1/batch-runs/'' @ x)"
  "handle_bridge_request cx rd cf cl ''GET'' (''/v1/yolo-runs/'' @ x) body = handle_batch_get cx (''/v1/yolo-runs/'' @ x)"
  by (simp_all add: dispatch_defs)

lemma dispatch_templates:
  assumes "CHR ''/'' \<notin> set x" "x \<notin> reserved_words"
  shows "handle_bridge_request cx rd cf cl ''GET'' (''/v1/templates/'' @ x) body
      = pure_response (\<lambda>env. handle_template_get rd env (''/v1/templates/'' @ x))"
    "handle_bridge_request cx rd cf cl ''POST'' (''/v1/templates/'' @ x @ ''/dry-run'') body
      = pure_response (\<lambda>env. handle_template_dry_run rd env (''/v1/templates/'' @ x @ ''/dry-run'') body)"
    "handle_bridge_request cx rd cf cl ''POST'' (''/v1/templates/'' @ x @ ''/execute'') body
      = handle_template_execute cx rd (''/v1/templates/'' @ x @ ''/execute'') body"
  using assms by (simp_all add: dispatch_defs ends_template_id ends_template_action)

lemma dispatch_executions:
  assumes "CHR ''/'' \<notin> set x" "x \<notin> reserved_words"
  shows "handle_bridge_request cx rd cf cl ''GET'' (''/v1/executions/'' @ x) body = handle_execution_get cx (''/v1/executions/'' @ x)"
    "handle_bridge_request cx rd cf cl ''GET'' (''/v1/executions/'' @ x @ ''/events'') body
      = handle_execution_events cx (''/v1/executions/'' @ x @ ''/events'')"
    "handle_bridge_request cx rd cf cl ''PATCH'' (''/v1/executions/'' @ x @ ''/policy'') body
      = handle_execution_policy_patch cx rd (''/v1/executions/'' @ x @ ''/policy'') body"
    "handle_bridge_request cx rd cf cl ''POST'' (''/v1/executions/'' @ x @ ''/pause'') body
      = handle_execution_action cx (''/v1/executions/'' @ x @ ''/pause'') ActPause"
    "handle_bridge_request cx rd cf cl ''POST'' (''/v1/executions/'' @ x @ ''/resume'') body
      = handle_execution_action cx (''/v1/executions/'' @ x @ ''/resume'') ActResume"
    "handle_bridge_request cx rd cf cl ''POST'' (''/v1/executions/'' @ x @ ''/cancel'') body
      = handle_execution_action cx (''/v1/executions/'' @ x @ ''/cancel'') ActCancel"
  using assms by (simp_all add: dispatch_defs ends_execution_id ends_execution_action)

lemma run_as_dispatched:
  assumes entry: "map_of bridge_routes p = Some m" "handler_of m verb = Some h" "h \<noteq> RouteRunsPassthrough"
    and segs: "pattern_matches p segs" "path = CHR ''/'' # join_with ''/'' segs" "\<forall>x \<in> set segs. CHR ''/'' \<notin> set x"
    and words: "Param \<in> set p \<Longrightarrow> segs ! 2 \<notin> reserved_words"
  shows "run_handler s h verb path query body = into_axum (handle_bridge_request (bs_codec s) (bs_readers s) (bs_config s)
    (Some (vb_start (bs_client s))) verb path body)"
  using table_entry [OF map_of_SomeD [OF entry(1)] entry(2,3), unfolded table_entries_routes] segs words
  by (simp only: list.set insert_iff prod.inject empty_iff)
    (elim disjE conjE; clarsimp simp: pattern_matches_Cons join_Cons dispatch_fixed dispatch_runs [simplified]
      dispatch_templates [simplified] dispatch_executions [simplified])

subsection \<open>Properties\<close>

text \<open>
  C16: The router stays in lockstep with \<open>handle_bridge_request\<close>: whatever path the framework can choose, when
  it selects a route that has the verb, and the route is not the passthrough, the answer and the effect are
  those of \<open>handle_bridge_request\<close>, provided that an id in the path is not one of the words that end the
  longer routes.
\<close>

theorem router_lockstep:
  assumes "path_router pick" and "path_segments path = Some segs" and "pick (map fst bridge_routes) segs = Some p"
    and "map_of bridge_routes p = Some m" and "handler_of m verb = Some h" and "h \<noteq> RouteRunsPassthrough"
    and "Param \<in> set p \<Longrightarrow> segs ! 2 \<notin> reserved_words"
  shows "serve_request pick s verb path query body =
    into_axum (handle_bridge_request (bs_codec s) (bs_readers s) (bs_config s) (Some (vb_start (bs_client s))) verb path body)"
proof -
  have "pattern_matches p segs" using path_router.pick_Some [OF assms(1,3)] by simp
  from run_as_dispatched [OF assms(4-6) this path_of_segments [OF assms(2)] assms(7)]
  show ?thesis using assms(2-5) by (simp add: serve_request_def)
qed

lemma router_lockstep_witness:
  "\<forall>s query body. serve_request best_pattern s ''GET'' ''/v1/executions/exec-1/events'' query body =
     into_axum (handle_bridge_request (bs_codec s) (bs_readers s) (bs_config s) (Some (vb_start (bs_client s)))
       ''GET'' ''/v1/executions/exec-1/events'' body)"
proof (intro allI)
  fix s query body
  show "serve_request best_pattern s ''GET'' ''/v1/executions/exec-1/events'' query body =
     into_axum (handle_bridge_request (bs_codec s) (bs_readers s) (bs_config s) (Some (vb_start (bs_client s)))
       ''GET'' ''/v1/executions/exec-1/events'' body)"
    by (rule router_lockstep [OF best.path_router_axioms, where segs = "[''v1'', ''executions'', ''exec-1'', ''events'']"
          and p = "[Lit ''v1'', Lit ''executions'', Param, Lit ''events'']" and m = "get_route RouteExecutionEvents"
          and h = RouteExecutionEvents])
      (simp_all add: path_segments_def strip_prefix_def starts_with_def bridge_routes_def get_route_def post_route_def
        handler_of_def reserved_words_def)
qed

text \<open>Where they differ: an execution named like a route, and a verb the route does not have.\<close>

lemma router_divergence:
  "serve_request best_pattern s ''GET'' ''/v1/executions/dry-run'' query body = io_return (FromFramework 405)"
  "handle_bridge_request cx rd cf cl ''GET'' ''/v1/executions/dry-run'' body = handle_execution_get cx ''/v1/executions/dry-run''"
  "serve_request best_pattern s ''POST'' ''/v1/health'' query body = io_return (FromFramework 405)"
  "handle_bridge_request cx rd cf cl ''POST'' ''/v1/health'' body = io_return (no_route ''POST'' ''/v1/health'')"
  by (simp_all add: serve_request_def path_segments_def strip_prefix_def starts_with_def bridge_routes_def get_route_def
      post_route_def handler_of_def dispatch_defs ends_with_def)

end
