(* ===== verification/Responses.thy ===== *)
theory Responses
  imports Bridge
begin

text \<open>
  The JSON documents of the bridge's answers: what the serializers derived for the response types and the
  \<^verbatim>\<open>json!\<close> expressions of the handlers (\<open>src/bridge.rs\<close>) build, as a reader of the answer gets them: an
  object is an ordered map, an absent option is null, a number that is not finite is null. Lemmas: what a
  client finds under the names it asks for.
\<close>

definition json_object :: "(string \<times> json) list \<Rightarrow> json" where
  "json_object members = JObj (bt_of_list members)"

definition json_u64 :: "u64 \<Rightarrow> json" where
  "json_u64 n = JNum (PosInt n)"

definition json_u32 :: "u32 \<Rightarrow> json" where
  "json_u32 n = json_u64 (ucast n)"

definition json_opt :: "('a \<Rightarrow> json) \<Rightarrow> 'a option \<Rightarrow> json" where
  "json_opt f v = (case v of None \<Rightarrow> JNull | Some x \<Rightarrow> f x)"

definition json_f64 :: "f64 \<Rightarrow> json" where
  "json_f64 x = (case x of Fin q \<Rightarrow> JNum (FloatNum x) | _ \<Rightarrow> JNull)"

definition json_map :: "('v \<Rightarrow> json) \<Rightarrow> (string, 'v) btree \<Rightarrow> json" where
  "json_map f m = JObj (map (\<lambda>(k, v). (k, f v)) m)"

subsection \<open>Derived serializers\<close>

fun execution_status_json :: "execution_status \<Rightarrow> json" where
  "execution_status_json ExPending = JStr ''Pending''"
| "execution_status_json ExRunning = JStr ''Running''"
| "execution_status_json ExPaused = JStr ''Paused''"
| "execution_status_json ExCompleted = JStr ''Completed''"
| "execution_status_json ExFailed = JStr ''Failed''"
| "execution_status_json ExCanceled = JStr ''Canceled''"

fun candidate_status_json :: "candidate_status \<Rightarrow> json" where
  "candidate_status_json CaQueued = JStr ''Queued''"
| "candidate_status_json CaRunning = JStr ''Running''"
| "candidate_status_json CaCompleted = JStr ''Completed''"
| "candidate_status_json CaFailed = JStr ''Failed''"
| "candidate_status_json CaCanceled = JStr ''Canceled''"

fun review_status_json :: "worker_review_status \<Rightarrow> json" where
  "review_status_json PendingReview = JStr ''PendingReview''"
| "review_status_json Approved = JStr ''Approved''"
| "review_status_json RevisionRequested = JStr ''RevisionRequested''"
| "review_status_json RetryRequested = JStr ''RetryRequested''"
| "review_status_json Rejected = JStr ''Rejected''"

definition execution_json :: "execution \<Rightarrow> json" where
  "execution_json x = json_object
     [(''execution_id'', JStr (ex_execution_id x)),
      (''mode'', JStr (ex_mode x)),
      (''goal'', JStr (ex_goal x)),
      (''status'', execution_status_json (ex_status x)),
      (''result_best_candidate_id'', json_opt JStr (ex_result_best_candidate_id x)),
      (''completed_iterations'', json_u32 (ex_completed_iterations x)),
      (''failure_counts'', json_object
        [(''total_candidate_failures'', json_u32 (total_candidate_failures (ex_failure_counts x)))])]"

definition candidate_json :: "execution_candidate \<Rightarrow> json" where
  "candidate_json c = json_object
     [(''execution_id'', JStr (ca_execution_id c)),
      (''candidate_id'', JStr (ca_candidate_id c)),
      (''created_seq'', json_u64 (ca_created_seq c)),
      (''iteration'', json_u32 (ca_iteration c)),
      (''status'', candidate_status_json (ca_status c)),
      (''runtime_run_id'', json_opt JStr (ca_runtime_run_id c)),
      (''overrides'', json_map JStr (ca_overrides c)),
      (''succeeded'', json_opt JBool (ca_succeeded c)),
      (''metrics'', json_map json_f64 (ca_metrics c)),
      (''review_status'', json_opt review_status_json (ca_review_status c)),
      (''revision_round'', json_u32 (ca_revision_round c))]"

definition progress_json :: "execution_progress \<Rightarrow> json" where
  "progress_json p = json_object
     [(''completed_iterations'', json_u32 (pg_completed_iterations p)),
      (''scoring_history_len'', json_u32 (pg_scoring_history_len p)),
      (''event_count'', json_u64 (of_nat (pg_event_count p))),
      (''last_event'', json_opt JStr (pg_last_event p)),
      (''candidate_queue_count'', json_u32 (pg_candidate_queue_count p)),
      (''candidate_dispatch_count'', json_u32 (pg_candidate_dispatch_count p)),
      (''candidate_output_count'', json_u32 (pg_candidate_output_count p)),
      (''queued_candidate_count'', json_u32 (pg_queued_candidate_count p)),
      (''running_candidate_count'', json_u32 (pg_running_candidate_count p)),
      (''completed_candidate_count'', json_u32 (pg_completed_candidate_count p)),
      (''failed_candidate_count'', json_u32 (pg_failed_candidate_count p)),
      (''canceled_candidate_count'', json_u32 (pg_canceled_candidate_count p)),
      (''event_type_counts'', json_map json_u32 (pg_event_type_counts p))]"

definition detail_fields :: "execution_detail \<Rightarrow> (string \<times> json) list" where
  "detail_fields d =
     [(''execution'', execution_json (ed_execution d)),
      (''progress'', progress_json (ed_progress d)),
      (''result'', json_object
        [(''best_candidate_id'', json_opt JStr (er_best_candidate_id (ed_result d))),
         (''completed_iterations'', json_u32 (er_completed_iterations (ed_result d))),
         (''total_candidate_failures'', json_u32 (er_total_candidate_failures (ed_result d)))]),
      (''candidates'', JArr (map candidate_json (ed_candidates d)))]"

definition dry_run_json :: "dry_run_result \<Rightarrow> json" where
  "dry_run_json r = json_object
     [(''valid'', JBool (dr_valid r)),
      (''plan'', json_object
        [(''candidates_per_iteration'', json_u32 (dr_candidates_per_iteration (dr_plan r))),
         (''max_iterations'', json_opt json_u32 (dr_max_iterations (dr_plan r))),
         (''max_child_runs'', json_opt json_u32 (dr_max_child_runs (dr_plan r))),
         (''estimated_concurrent_peak'', json_u32 (dr_estimated_concurrent_peak (dr_plan r))),
         (''variation_source'', JStr (dr_variation_source (dr_plan r))),
         (''parameter_space_size'', json_opt json_u64 (dr_parameter_space_size (dr_plan r)))]),
      (''warnings'', JArr (map JStr (dr_warnings r))),
      (''errors'', JArr (map JStr (dr_errors r)))]"

definition summary_json :: "execution_summary \<Rightarrow> json" where
  "summary_json s = json_object
     [(''goal'', JStr (sm_goal s)),
      (''workflow_template'', JStr (sm_workflow_template s)),
      (''mode'', JStr (sm_mode s)),
      (''variation_source'', JStr (sm_variation_source s)),
      (''candidates_per_iteration'', json_u32 (sm_candidates_per_iteration s)),
      (''candidate_overrides'', JArr (map (json_map JStr) (sm_candidate_overrides s))),
      (''overrides'', json_map JStr (sm_overrides s))]"

definition template_metadata_json :: "template_metadata \<Rightarrow> json" where
  "template_metadata_json t = json_object
     [(''id'', JStr (tp_id t)),
      (''name'', JStr (tp_name t)),
      (''execution_kind'', JStr (tp_execution_kind t)),
      (''description'', JStr (tp_description t))]"

definition input_field_json :: "input_field \<Rightarrow> json" where
  "input_field_json f = json_object
     [(''type'', JStr (if_type f)),
      (''required'', JBool (if_required f)),
      (''description'', JStr (if_description f)),
      (''default'', json_opt id (if_default f)),
      (''values'', json_opt (\<lambda>vs. JArr (map JStr vs)) (if_values f)),
      (''min'', json_opt json_f64 (if_min f)),
      (''max'', json_opt json_f64 (if_max f))]"

definition api_error_json :: "api_error \<Rightarrow> json" where
  "api_error_json e = json_object
     [(''code'', JStr (ae_code e)), (''message'', JStr (ae_message e)), (''retryable'', JBool (ae_retryable e))]"

definition template_ref_json :: "string \<Rightarrow> string \<Rightarrow> json" where
  "template_ref_json tid kind = json_object [(''id'', JStr tid), (''execution_kind'', JStr kind)]"

subsection \<open>The bodies\<close>

fun body_json :: "body \<Rightarrow> json" where
  "body_json BHealth = json_object [(''status'', JStr ''ok''), (''service'', JStr ''voidctl-bridge'')]"
| "body_json (BError e) = api_error_json e"
| "body_json (BDryRun r) = dry_run_json r"
| "body_json (BExecution x) = execution_json x"
| "body_json (BExecutions xs) = json_object [(''executions'', JArr (map execution_json xs))]"
| "body_json (BDetail d) = json_object (detail_fields d)"
| "body_json (BTagged kind run_id d) =
     json_object (detail_fields d @ [(''kind'', JStr kind), (''run_id'', JStr run_id)])"
| "body_json (BEvents xid es) = json_object
     [(''execution_id'', JStr xid),
      (''events'', JArr (map (\<lambda>(seq, t). json_object [(''seq'', json_u64 seq), (''event_type'', JStr t)]) es))]"
| "body_json (BPolicy xid iterations concurrent) = json_object
     [(''execution_id'', JStr xid),
      (''max_iterations'', json_opt json_u32 iterations),
      (''max_concurrent_candidates'', json_u32 concurrent)]"
| "body_json (BCompiled kind mode s) = json_object
     [(''kind'', JStr kind), (''compiled_primitive'', JStr mode), (''compiled'', summary_json s)]"
| "body_json (BSubmitted kind run_id mode x) = json_object
     ((''kind'', JStr kind) # (if kind = ''batch'' then [(''run_id'', JStr run_id)] else [])
      @ [(''execution_id'', JStr (ex_execution_id x)),
         (''compiled_primitive'', JStr mode),
         (''status'', execution_status_json (ex_status x)),
         (''goal'', JStr (ex_goal x))])"
| "body_json (BTemplates ts) = json_object [(''templates'', JArr (map template_metadata_json ts))]"
| "body_json (BTemplate t) = json_object
     [(''template'', template_metadata_json (ct_template t)),
      (''inputs'', json_map input_field_json (ct_inputs t)),
      (''defaults'', json_object [(''workflow_template'', JStr (td_workflow_template (ct_defaults t)))]),
      (''compile'', json_object [(''bindings'', JArr (map (\<lambda>b. json_object
         [(''input'', JStr (cb_input b)), (''target'', JStr (cb_target b))]) (ct_bindings t)))])]"
| "body_json (BTemplateDryRun tid kind inputs s) = json_object
     [(''template'', template_ref_json tid kind), (''inputs'', JObj inputs), (''compiled'', summary_json s)]"
| "body_json (BTemplateExecuted tid kind x) = json_object
     [(''execution_id'', JStr (ex_execution_id x)),
      (''template'', template_ref_json tid kind),
      (''status'', execution_status_json (ex_status x)),
      (''goal'', JStr (ex_goal x))]"
| "body_json (BLaunched l) = json_object
     [(''run_id'', JStr (lr_run_id l)),
      (''attempt_id'', json_u32 (lr_attempt_id l)),
      (''state'', JStr (lr_state l)),
      (''file'', JStr (lr_file l))]"

subsection \<open>Reading them\<close>

lemma bt_get_of_list: "bt_get (bt_of_list members) k = map_of (rev members) k"
proof -
  have "bt_get (fold (\<lambda>(k, v) m. bt_insert k v m) members m) k = (case map_of (rev members) k of None \<Rightarrow> bt_get m k | Some v \<Rightarrow> Some v)"
    for m
    by (induction members arbitrary: m) (auto simp: map_add_def split: option.splits)
  then show ?thesis by (simp add: bt_of_list_def split: option.split)
qed

lemma json_object_member [simp]: "json_get (json_object members) k = map_of (rev members) k"
  by (simp add: json_object_def bt_get_of_list)

lemma json_scalars [simp]: "json_as_u64 (json_u64 n) = Some n" "json_as_u64 (json_u32 m) = Some (ucast m)"
  by (simp_all add: json_u32_def json_u64_def)

end
