(* ===== verification/Voidctl_Args.thy ===== *)
theory Voidctl_Args
  imports Daemon_Address
begin

text \<open>
  The arguments of \<open>voidctl\<close> (\<open>src/bin/voidctl.rs\<close>): the one-shot commands and the parser of the command line,
  in the order of its branches. \<open>cli_usage\<close> is the grammar that the usage messages describe; the parser
  accepts exactly it.
\<close>

subsection \<open>Commands\<close>

datatype (plugins only: code size) execution_command =
    ExecSubmit "string option" bool
  | ExecDryRun "string option" bool
  | ExecWatch string
  | ExecInspect string
  | ExecEvents string
  | ExecResult string
  | ExecRuntime string "string option"

datatype template_command =
    TemplateList
  | TemplateGet string
  | TemplateDryRun string "string option" bool
  | TemplateExecute string "string option" bool

text \<open>Specification, standard input, and the name the command was called by.\<close>

datatype batch_command = BatchDryRun "string option" bool string | BatchRun "string option" bool string

datatype team_command = TeamDryRun "string option" bool | TeamRun "string option" bool

datatype cli_command =
    Serve
  | ShowHelp
  | Interactive
  | OnExecution execution_command
  | OnTemplate template_command
  | OnBatch batch_command
  | OnTeam team_command

definition execution_subcommand_candidates :: "string list" where
  "execution_subcommand_candidates =
     [''submit'', ''dry-run'', ''watch'', ''inspect'', ''events'', ''result'', ''runtime'']"

definition template_subcommand_candidates :: "string list" where
  "template_subcommand_candidates = [''list'', ''get'', ''dry-run'', ''execute'']"

definition batch_subcommand_candidates :: "string list" where
  "batch_subcommand_candidates = [''dry-run'', ''run'']"

definition team_subcommand_candidates :: "string list" where
  "team_subcommand_candidates = [''dry-run'', ''run'']"

subsection \<open>The parser\<close>

text \<open>A path or \<^verbatim>\<open>--stdin\<close>: the loop over the tokens, with the error for a misplaced \<^verbatim>\<open>--stdin\<close>.\<close>

fun file_or_stdin_tokens ::
    "string \<Rightarrow> string option \<Rightarrow> bool \<Rightarrow> string list \<Rightarrow> string + string option \<times> bool" where
  "file_or_stdin_tokens usage path stdin [] = Inr (path, stdin)"
| "file_or_stdin_tokens usage path stdin (token # rest) =
     (if token = ''--stdin'' then
        (if stdin \<or> path \<noteq> None then Inl usage else file_or_stdin_tokens usage path True rest)
      else if stdin then Inl (''unexpected extra argument '' @ squoted token)
      else if path = None then file_or_stdin_tokens usage (Some token) stdin rest
      else Inl (''unexpected extra argument '' @ squoted token))"

definition execution_input_usage :: "string \<Rightarrow> string" where
  "execution_input_usage action = ''usage: voidctl execution '' @ action @ '' [<spec-path> | --stdin]''"

definition parse_execution_file_or_stdin :: "string list \<Rightarrow> string \<Rightarrow> string + string option \<times> bool" where
  "parse_execution_file_or_stdin iter action =
     res_bind (file_or_stdin_tokens (execution_input_usage action) None False iter) (\<lambda>(spec, stdin).
       if \<not> stdin \<and> spec = None then Inl (execution_input_usage action) else Inr (spec, stdin))"

definition template_input_usage :: "string \<Rightarrow> string" where
  "template_input_usage action =
     ''usage: voidctl template '' @ action @ '' <template_id> [<inputs-json-path> | --stdin]''"

definition parse_template_input_file_or_stdin :: "string list \<Rightarrow> string \<Rightarrow> string + string option \<times> bool" where
  "parse_template_input_file_or_stdin iter action =
     res_bind (file_or_stdin_tokens (template_input_usage action) None False iter) (\<lambda>(inputs, stdin).
       if \<not> stdin \<and> inputs = None then Inl (template_input_usage action) else Inr (inputs, stdin))"

definition expect_no_more_args :: "string list \<Rightarrow> string \<Rightarrow> string + unit" where
  "expect_no_more_args iter usage = (if iter \<noteq> [] then Inl usage else Inr ())"

fun next_arg :: "string \<Rightarrow> string list \<Rightarrow> string + string \<times> string list" where
  "next_arg usage [] = Inl usage"
| "next_arg usage (x # iter) = Inr (x, iter)"

text \<open>The actions with exactly one operand.\<close>

definition single_operand :: "string \<Rightarrow> string list \<Rightarrow> (string \<Rightarrow> cli_command) \<Rightarrow> string + cli_command" where
  "single_operand usage iter mk =
     res_bind (next_arg usage iter) (\<lambda>(x, iter).
     res_bind (expect_no_more_args iter usage) (\<lambda>_. Inr (mk x)))"

definition unknown_subcommand :: "string \<Rightarrow> string \<Rightarrow> string list \<Rightarrow> string" where
  "unknown_subcommand kind other candidates =
     ''unknown '' @ kind @ '' subcommand '' @ squoted other @ ''. supported: '' @ join_with '', '' candidates"

definition parse_execution_args :: "string list \<Rightarrow> string + cli_command" where
  "parse_execution_args iter =
     res_bind (next_arg ''usage: voidctl execution <submit|dry-run|watch|inspect|events|result|runtime> [args]'' iter)
      (\<lambda>(action, iter).
       if action = ''submit'' then
         map_ok (\<lambda>(spec, stdin). OnExecution (ExecSubmit spec stdin)) (parse_execution_file_or_stdin iter ''submit'')
       else if action = ''dry-run'' then
         map_ok (\<lambda>(spec, stdin). OnExecution (ExecDryRun spec stdin)) (parse_execution_file_or_stdin iter ''dry-run'')
       else if action = ''watch'' then
         single_operand ''usage: voidctl execution watch <execution_id>'' iter (\<lambda>i. OnExecution (ExecWatch i))
       else if action = ''inspect'' then
         single_operand ''usage: voidctl execution inspect <execution_id>'' iter (\<lambda>i. OnExecution (ExecInspect i))
       else if action = ''events'' then
         single_operand ''usage: voidctl execution events <execution_id>'' iter (\<lambda>i. OnExecution (ExecEvents i))
       else if action = ''result'' then
         single_operand ''usage: voidctl execution result <execution_id>'' iter (\<lambda>i. OnExecution (ExecResult i))
       else if action = ''runtime'' then
         res_bind (next_arg ''usage: voidctl execution runtime <execution_id> [candidate_id]'' iter) (\<lambda>(i, iter).
           if tl iter \<noteq> [] then Inl ''usage: voidctl execution runtime <execution_id> [candidate_id]''
           else Inr (OnExecution (ExecRuntime i (case iter of [] \<Rightarrow> None | c # _ \<Rightarrow> Some c))))
       else Inl (unknown_subcommand ''execution'' action execution_subcommand_candidates))"

definition parse_template_args :: "string list \<Rightarrow> string + cli_command" where
  "parse_template_args iter =
     res_bind (next_arg ''usage: voidctl template <list|get|dry-run|execute> [args]'' iter) (\<lambda>(action, iter).
       if action = ''list'' then
         map_ok (\<lambda>_. OnTemplate TemplateList) (expect_no_more_args iter ''usage: voidctl template list'')
       else if action = ''get'' then
         single_operand ''usage: voidctl template get <template_id>'' iter (\<lambda>i. OnTemplate (TemplateGet i))
       else if action = ''dry-run'' then
         res_bind (next_arg ''usage: voidctl template dry-run <template_id> [<inputs-json-path> | --stdin]'' iter)
           (\<lambda>(i, iter). map_ok (\<lambda>(inputs, stdin). OnTemplate (TemplateDryRun i inputs stdin))
              (parse_template_input_file_or_stdin iter ''dry-run''))
       else if action = ''execute'' then
         res_bind (next_arg ''usage: voidctl template execute <template_id> [<inputs-json-path> | --stdin]'' iter)
           (\<lambda>(i, iter). map_ok (\<lambda>(inputs, stdin). OnTemplate (TemplateExecute i inputs stdin))
              (parse_template_input_file_or_stdin iter ''execute''))
       else Inl (unknown_subcommand ''template'' action template_subcommand_candidates))"

definition parse_batch_args :: "string \<Rightarrow> string list \<Rightarrow> string + cli_command" where
  "parse_batch_args alias iter =
     res_bind (next_arg (''usage: voidctl '' @ alias @ '' <dry-run|run> [<spec-path> | --stdin]'') iter) (\<lambda>(action, iter).
       if action = ''dry-run'' then
         map_ok (\<lambda>(spec, stdin). OnBatch (BatchDryRun spec stdin alias)) (parse_execution_file_or_stdin iter ''dry-run'')
       else if action = ''run'' then
         map_ok (\<lambda>(spec, stdin). OnBatch (BatchRun spec stdin alias)) (parse_execution_file_or_stdin iter ''run'')
       else Inl (unknown_subcommand alias action batch_subcommand_candidates))"

definition parse_team_args :: "string list \<Rightarrow> string + cli_command" where
  "parse_team_args iter =
     res_bind (next_arg ''usage: voidctl team <dry-run|run> [<spec-path> | --stdin]'' iter) (\<lambda>(action, iter).
       if action = ''dry-run'' then
         map_ok (\<lambda>(spec, stdin). OnTeam (TeamDryRun spec stdin)) (parse_execution_file_or_stdin iter ''dry-run'')
       else if action = ''run'' then
         map_ok (\<lambda>(spec, stdin). OnTeam (TeamRun spec stdin)) (parse_execution_file_or_stdin iter ''run'')
       else Inl (unknown_subcommand ''team'' action team_subcommand_candidates))"

fun parse_cli_args :: "string list \<Rightarrow> string + cli_command" where
  "parse_cli_args [] = Inr Interactive"
| "parse_cli_args (head # iter) =
     (if head = ''serve'' then Inr Serve
      else if head \<in> {''help'', ''--help'', ''-h''} then Inr ShowHelp
      else if head = ''execution'' then parse_execution_args iter
      else if head = ''template'' then parse_template_args iter
      else if head \<in> {''batch'', ''yolo''} then parse_batch_args head iter
      else if head = ''team'' then parse_team_args iter
      else Inl (''unknown command '' @ squoted head
             @ ''. supported: serve, help, execution, template, batch, yolo, team''))"

definition top_level_help_text :: string where
  "top_level_help_text = join_with [nl]
     [''voidctl commands:'',
      ''  voidctl                         # interactive terminal console'',
      ''  voidctl serve                   # start launch bridge (:43210 by default)'',
      ''  voidctl help                    # show this help'',
      ''  voidctl execution submit <spec-path>'',
      ''  voidctl execution submit --stdin'',
      ''  voidctl execution dry-run <spec-path>'',
      ''  voidctl execution dry-run --stdin'',
      ''  voidctl execution watch <execution-id>'',
      ''  voidctl execution inspect <execution-id>'',
      ''  voidctl execution events <execution-id>'',
      ''  voidctl execution result <execution-id>'',
      ''  voidctl execution runtime <execution-id> [candidate-id]'',
      ''  voidctl template list'',
      ''  voidctl template get <template-id>'',
      ''  voidctl template dry-run <template-id> [<inputs-json-path> | --stdin]'',
      ''  voidctl template execute <template-id> [<inputs-json-path> | --stdin]'',
      ''  voidctl batch dry-run <spec-path>'',
      ''  voidctl batch dry-run --stdin'',
      ''  voidctl batch run <spec-path>'',
      ''  voidctl batch run --stdin'',
      ''  voidctl yolo dry-run <spec-path>'',
      ''  voidctl yolo dry-run --stdin'',
      ''  voidctl yolo run <spec-path>'',
      ''  voidctl yolo run --stdin'',
      ''  voidctl team dry-run <spec-path>'',
      ''  voidctl team dry-run --stdin'',
      ''  voidctl team run <spec-path>'',
      ''  voidctl team run --stdin'']"

subsection \<open>The grammar\<close>

text \<open>What stands for the input of a command: its path, which is not the option, or the option.\<close>

inductive input_args :: "string list \<Rightarrow> string option \<Rightarrow> bool \<Rightarrow> bool" where
  input_path: "path \<noteq> ''--stdin'' \<Longrightarrow> input_args [path] (Some path) False"
| input_stdin: "input_args [''--stdin''] None True"

inductive cli_usage :: "string list \<Rightarrow> cli_command \<Rightarrow> bool" where
  use_console: "cli_usage [] Interactive"
| use_serve: "cli_usage (''serve'' # ignored) Serve"
| use_help: "word \<in> {''help'', ''--help'', ''-h''} \<Longrightarrow> cli_usage (word # ignored) ShowHelp"
| use_submit: "input_args input spec stdin \<Longrightarrow>
    cli_usage (''execution'' # ''submit'' # input) (OnExecution (ExecSubmit spec stdin))"
| use_dry_run: "input_args input spec stdin \<Longrightarrow>
    cli_usage (''execution'' # ''dry-run'' # input) (OnExecution (ExecDryRun spec stdin))"
| use_watch: "cli_usage [''execution'', ''watch'', i] (OnExecution (ExecWatch i))"
| use_inspect: "cli_usage [''execution'', ''inspect'', i] (OnExecution (ExecInspect i))"
| use_events: "cli_usage [''execution'', ''events'', i] (OnExecution (ExecEvents i))"
| use_result: "cli_usage [''execution'', ''result'', i] (OnExecution (ExecResult i))"
| use_runtime: "cli_usage [''execution'', ''runtime'', i] (OnExecution (ExecRuntime i None))"
| use_runtime_of: "cli_usage [''execution'', ''runtime'', i, c] (OnExecution (ExecRuntime i (Some c)))"
| use_template_list: "cli_usage [''template'', ''list''] (OnTemplate TemplateList)"
| use_template_get: "cli_usage [''template'', ''get'', i] (OnTemplate (TemplateGet i))"
| use_template_dry_run: "input_args input inputs stdin \<Longrightarrow>
    cli_usage (''template'' # ''dry-run'' # i # input) (OnTemplate (TemplateDryRun i inputs stdin))"
| use_template_execute: "input_args input inputs stdin \<Longrightarrow>
    cli_usage (''template'' # ''execute'' # i # input) (OnTemplate (TemplateExecute i inputs stdin))"
| use_batch_dry_run: "alias \<in> {''batch'', ''yolo''} \<Longrightarrow> input_args input spec stdin \<Longrightarrow>
    cli_usage (alias # ''dry-run'' # input) (OnBatch (BatchDryRun spec stdin alias))"
| use_batch_run: "alias \<in> {''batch'', ''yolo''} \<Longrightarrow> input_args input spec stdin \<Longrightarrow>
    cli_usage (alias # ''run'' # input) (OnBatch (BatchRun spec stdin alias))"
| use_team_dry_run: "input_args input spec stdin \<Longrightarrow>
    cli_usage (''team'' # ''dry-run'' # input) (OnTeam (TeamDryRun spec stdin))"
| use_team_run: "input_args input spec stdin \<Longrightarrow>
    cli_usage (''team'' # ''run'' # input) (OnTeam (TeamRun spec stdin))"

inductive_simps input_args_iff: "input_args input spec stdin"

lemma file_or_stdin_from:
  "file_or_stdin_tokens usage path True rest = Inr r \<longleftrightarrow> rest = [] \<and> r = (path, True)"
  "file_or_stdin_tokens usage (Some p) False rest = Inr r \<longleftrightarrow> rest = [] \<and> r = (Some p, False)"
  by (cases rest; auto)+

lemma file_or_stdin_Inr:
  "file_or_stdin_tokens usage None False input = Inr (spec, stdin) \<and> (stdin \<or> spec \<noteq> None) \<longleftrightarrow> input_args input spec stdin"
proof (cases input)
  case (Cons token rest)
  then show ?thesis by (auto simp: input_args_iff file_or_stdin_from)
qed (auto simp: input_args_iff)

lemma required_input:
  "res_bind r (\<lambda>(p, s). if \<not> s \<and> p = None then Inl u else Inr (p, s)) = Inr (path, stdin)
     \<longleftrightarrow> r = Inr (path, stdin) \<and> (stdin \<or> path \<noteq> None)"
  by (cases r) (auto split: if_splits)

lemma parse_input_Inr [simp]:
  "parse_execution_file_or_stdin input action = Inr (spec, stdin) \<longleftrightarrow> input_args input spec stdin"
  "parse_template_input_file_or_stdin input action = Inr (spec, stdin) \<longleftrightarrow> input_args input spec stdin"
  by (simp_all only: parse_execution_file_or_stdin_def parse_template_input_file_or_stdin_def required_input
      file_or_stdin_Inr)

lemma next_arg_Inr [simp]: "next_arg usage iter = Inr (x, rest) \<longleftrightarrow> iter = x # rest"
  by (cases iter) auto

lemma single_operand_Inr [simp]: "single_operand usage iter mk = Inr c \<longleftrightarrow> (\<exists>x. iter = [x] \<and> c = mk x)"
  by (auto simp: single_operand_def expect_no_more_args_def res_bind_Inr_iff)

lemma map_ok_pair_Inr [simp]: "map_ok (\<lambda>(a, b). f a b) r = Inr c \<longleftrightarrow> (\<exists>a b. r = Inr (a, b) \<and> c = f a b)"
  by (cases r) auto

lemma parse_execution_args_Inr:
  "parse_execution_args iter = Inr c \<Longrightarrow> cli_usage (''execution'' # iter) c"
  unfolding parse_execution_args_def res_bind_Inr_iff
  by (auto simp: res_bind_Inr_iff split: if_splits list.splits intro: cli_usage.intros)

lemma parse_template_args_Inr:
  "parse_template_args iter = Inr c \<Longrightarrow> cli_usage (''template'' # iter) c"
  unfolding parse_template_args_def res_bind_Inr_iff
  by (auto simp: res_bind_Inr_iff map_ok_Inr_iff expect_no_more_args_def split: if_splits intro: cli_usage.intros)

lemma parse_batch_args_Inr:
  "parse_batch_args alias iter = Inr c \<Longrightarrow> alias \<in> {''batch'', ''yolo''} \<Longrightarrow> cli_usage (alias # iter) c"
  unfolding parse_batch_args_def res_bind_Inr_iff
  by (auto split: if_splits intro: use_batch_dry_run use_batch_run)

lemma parse_team_args_Inr: "parse_team_args iter = Inr c \<Longrightarrow> cli_usage (''team'' # iter) c"
  unfolding parse_team_args_def res_bind_Inr_iff
  by (auto split: if_splits intro: cli_usage.intros)

subsection \<open>Properties\<close>

text \<open>
  C37: The parser of the command line accepts exactly the argument lists of the grammar of the usage messages, and
  returns the command the grammar gives them; every other list is an error. In particular a path and the option
  for standard input exclude each other, and no trailing arguments are accepted except after \<open>serve\<close> and \<open>help\<close>.
\<close>

theorem cli_parser_exact: "parse_cli_args args = Inr c \<longleftrightarrow> cli_usage args c"
proof
  assume parsed: "parse_cli_args args = Inr c"
  show "cli_usage args c"
  proof (cases args)
    case Nil
    then show ?thesis using parsed use_console by simp
  next
    case (Cons head iter)
    with parsed consider "head = ''serve''" "c = Serve" | "head \<in> {''help'', ''--help'', ''-h''}" "c = ShowHelp"
      | "head = ''execution''" "parse_execution_args iter = Inr c" | "head = ''template''" "parse_template_args iter = Inr c"
      | "head \<in> {''batch'', ''yolo''}" "parse_batch_args head iter = Inr c" | "head = ''team''" "parse_team_args iter = Inr c"
      by (atomize_elim, simp only: parse_cli_args.simps split: if_split_asm) simp_all
    then show ?thesis
      by cases (simp_all only: Cons use_serve use_help parse_execution_args_Inr parse_template_args_Inr
          parse_batch_args_Inr parse_team_args_Inr)
  qed
next
  assume "cli_usage args c"
  then show "parse_cli_args args = Inr c"
  proof cases
    case (use_help word ignored)
    then show ?thesis by auto
  next
    case (use_batch_dry_run called input spec stdin)
    then show ?thesis by (auto simp: parse_batch_args_def)
  next
    case (use_batch_run called input spec stdin)
    then show ?thesis by (auto simp: parse_batch_args_def)
  qed (simp_all add: parse_execution_args_def parse_template_args_def parse_team_args_def expect_no_more_args_def)
qed

text \<open>The messages for a batch or team without input name a command that does not exist.\<close>

lemma batch_usage_names_execution:
  "parse_cli_args [''team'', ''run''] = Inl ''usage: voidctl execution run [<spec-path> | --stdin]''"
  "parse_cli_args [''execution'', ''run'', ''spec.yaml''] =
     Inl ''unknown execution subcommand 'run'. supported: submit, dry-run, watch, inspect, events, result, runtime''"
  by (simp_all add: parse_team_args_def parse_execution_args_def parse_execution_file_or_stdin_def
      execution_input_usage_def unknown_subcommand_def execution_subcommand_candidates_def squoted_def)

end
