(* ===== verification/Voidctl_Run.thy ===== *)
theory Voidctl_Run
  imports Voidctl_Args Voidctl_Output
begin

text \<open>
  The one-shot commands of \<open>voidctl\<close> (\<open>run\<close> in \<open>src/bin/voidctl.rs\<close>): reading the input, the request to the
  bridge, what is printed and what is an error, and the loop of \<open>watch\<close>. A computation takes the console:
  the world the command shares with the bridge, and what was written to the standard output, piece by piece. The
  HTTP client, the JSON reader and printer and the clock are parameters; a request and a pause may change the
  world in any way. The loop of \<open>watch\<close> may run forever, so its value is an option.
\<close>

record 'e console =
  co_world :: "'e world"
  co_out :: "string list"

text \<open>What the library reports when a request fails, by the step that failed.\<close>

datatype link_error =
    BadUrl string
  | BadMethod string
  | BadRequest string
  | ConnectFailed string
  | ReadFailed string

record 'e console_host =
  ch_host :: host
  ch_stdin :: "string + string"
  ch_exchange :: "string \<Rightarrow> string \<Rightarrow> string \<Rightarrow> ('e, link_error, u16 \<times> string) call"
  ch_sleep :: "u64 \<Rightarrow> 'e world \<Rightarrow> 'e world"
  ch_json :: "string \<Rightarrow> string + json"
  ch_json_text :: "json \<Rightarrow> string"

type_synonym ('e, 'a) cli = "'e console \<Rightarrow> (string + 'a) \<times> 'e console"

definition cli_return :: "'a \<Rightarrow> ('e, 'a) cli" where
  "cli_return x s = (Inr x, s)"

definition cli_fail :: "string \<Rightarrow> ('e, 'a) cli" where
  "cli_fail e s = (Inl e, s)"

definition cli_bind :: "('e, 'a) cli \<Rightarrow> ('a \<Rightarrow> ('e, 'b) cli) \<Rightarrow> ('e, 'b) cli" where
  "cli_bind m f s = (case m s of (Inl e, s') \<Rightarrow> (Inl e, s') | (Inr x, s') \<Rightarrow> f x s')"

definition cli_result :: "string + 'a \<Rightarrow> ('e, 'a) cli" where
  "cli_result r = (case r of Inl e \<Rightarrow> cli_fail e | Inr x \<Rightarrow> cli_return x)"

definition print_text :: "string \<Rightarrow> ('e, unit) cli" where
  "print_text t s = (Inr (), s\<lparr>co_out := co_out s @ [t]\<rparr>)"

definition print_lines :: "string list \<Rightarrow> ('e, unit) cli" where
  "print_lines ls s = (Inr (), s\<lparr>co_out := co_out s @ map (\<lambda>l. l @ [nl]) ls\<rparr>)"

subsection \<open>Requests to the bridge\<close>

fun link_error_text :: "string \<Rightarrow> string \<Rightarrow> link_error \<Rightarrow> string" where
  "link_error_text url verb (BadUrl e) = ''invalid bridge URL '' @ debug_string url @ '': '' @ e"
| "link_error_text url verb (BadMethod e) = ''unsupported HTTP method '' @ debug_string verb @ '': '' @ e"
| "link_error_text url verb (BadRequest e) = ''build request: '' @ e"
| "link_error_text url verb (ConnectFailed e) = ''connect failed: '' @ e"
| "link_error_text url verb (ReadFailed e) = ''response read failed: '' @ e"

definition answer_json :: "'e console_host \<Rightarrow> u16 \<times> string \<Rightarrow> string + bridge_json_response" where
  "answer_json h = (\<lambda>(status, body).
     map_ok (\<lambda>j. \<lparr>bj_status = status, bj_json = j\<rparr>)
       (if trim body = [] then Inr JNull
        else map_err (\<lambda>e. ''invalid JSON response: '' @ e) (ch_json h body)))"

definition bridge_request ::
    "'e console_host \<Rightarrow> string \<Rightarrow> string \<Rightarrow> string \<Rightarrow> string option \<Rightarrow> ('e, bridge_json_response) cli" where
  "bridge_request h base_url verb path body = (\<lambda>s.
     let url = trim_end_matches (CHR ''/'') base_url @ path in
     case ch_exchange h url verb (case body of None \<Rightarrow> [] | Some b \<Rightarrow> b) (co_world s) of
       (Inl e, w) \<Rightarrow> (Inl (link_error_text url verb e), s\<lparr>co_world := w\<rparr>)
     | (Inr r, w) \<Rightarrow> (answer_json h r, s\<lparr>co_world := w\<rparr>))"

text \<open>The answer of a request that was accepted; a refused one is the error.\<close>

definition accepted ::
    "'e console_host \<Rightarrow> string \<Rightarrow> string \<Rightarrow> string \<Rightarrow> string option \<Rightarrow> ('e, json) cli" where
  "accepted h base_url verb path body =
     cli_bind (bridge_request h base_url verb path body) (\<lambda>r.
       if 400 \<le> bj_status r then cli_fail (bridge_error_message r) else cli_return (bj_json r))"

subsection \<open>Input\<close>

definition load_execution_spec_file :: "'e console_host \<Rightarrow> string \<Rightarrow> string + string" where
  "load_execution_spec_file h path = map_err (\<lambda>e. ''read execution spec failed: '' @ e) (ht_read (ch_host h) path)"

definition load_execution_spec_input :: "'e console_host \<Rightarrow> string option \<Rightarrow> bool \<Rightarrow> string + string" where
  "load_execution_spec_input h spec stdin =
     (if stdin then
        res_bind (map_err (\<lambda>e. ''read stdin failed: '' @ e) (ch_stdin h)) (\<lambda>spec.
          if trim spec = [] then Inl ''stdin spec is empty'' else Inr spec)
      else case spec of
          None \<Rightarrow> Inl ''spec path is required unless --stdin is used''
        | Some path \<Rightarrow> load_execution_spec_file h path)"

definition load_json_input_file :: "'e console_host \<Rightarrow> string \<Rightarrow> string + string" where
  "load_json_input_file h path = map_err (\<lambda>e. ''read template inputs failed: '' @ e) (ht_read (ch_host h) path)"

definition load_json_input :: "'e console_host \<Rightarrow> string option \<Rightarrow> bool \<Rightarrow> string + string" where
  "load_json_input h inputs stdin =
     (if stdin then
        res_bind (map_err (\<lambda>e. ''read stdin failed: '' @ e) (ch_stdin h)) (\<lambda>body.
          if trim body = [] then Inl ''stdin template input is empty'' else Inr body)
      else case inputs of
          None \<Rightarrow> Inl ''template input path is required unless --stdin is used''
        | Some path \<Rightarrow> load_json_input_file h path)"

subsection \<open>Executions\<close>

definition execution_path :: "string \<Rightarrow> string" where
  "execution_path xid = ''/v1/executions/'' @ xid"

definition submit_command :: "'e console_host \<Rightarrow> string \<Rightarrow> string option \<Rightarrow> bool \<Rightarrow> ('e, unit) cli" where
  "submit_command h base spec stdin =
     cli_bind (cli_result (load_execution_spec_input h spec stdin)) (\<lambda>text.
     cli_bind (accepted h base ''POST'' ''/v1/executions'' (Some text)) (\<lambda>j.
       print_lines (print_execution_summary j)))"

definition dry_run_line :: "json \<Rightarrow> string" where
  "dry_run_line j =
     (let plan = field_or JNull j ''plan'' in
      pairs_line
        [(''valid'', bool_to_string (case bool_field j ''valid'' of None \<Rightarrow> False | Some b \<Rightarrow> b)),
         (''candidates_per_iteration'', u64_or_0 (json_get plan ''candidates_per_iteration'')),
         (''max_iterations'', u64_or_0 (json_get plan ''max_iterations'')),
         (''max_child_runs'', u64_or_0 (json_get plan ''max_child_runs''))])"

text \<open>A dry run that is refused prints its errors, unless the answer has none or calls itself valid.\<close>

definition refused_dry_run :: "bridge_json_response \<Rightarrow> ('e, unit) cli" where
  "refused_dry_run r =
     (if bool_field (bj_json r) ''valid'' = Some True then cli_fail (bridge_error_message r)
      else cli_bind (print_lines [''valid=false'']) (\<lambda>_.
        case Option.bind (json_get (bj_json r) ''errors'') json_as_array of
          None \<Rightarrow> cli_fail (bridge_error_message r)
        | Some es \<Rightarrow> cli_bind (print_lines (map (\<lambda>e. ''error='' @ e) (List.map_filter json_as_str es))) (\<lambda>_.
            cli_fail ''dry-run validation failed'')))"

definition dry_run_command :: "'e console_host \<Rightarrow> string \<Rightarrow> string option \<Rightarrow> bool \<Rightarrow> ('e, unit) cli" where
  "dry_run_command h base spec stdin =
     cli_bind (cli_result (load_execution_spec_input h spec stdin)) (\<lambda>text.
     cli_bind (bridge_request h base ''POST'' ''/v1/executions/dry-run'' (Some text)) (\<lambda>r.
       if 400 \<le> bj_status r then refused_dry_run r else print_lines [dry_run_line (bj_json r)]))"

definition inspect_command :: "'e console_host \<Rightarrow> string \<Rightarrow> string \<Rightarrow> ('e, unit) cli" where
  "inspect_command h base xid =
     cli_bind (accepted h base ''GET'' (execution_path xid) None) (\<lambda>detail.
       print_lines (print_execution_summary detail @ map (\<lambda>c. pairs_line
         [str_pair c ''candidate_id'',
          (''status'', str_or ''unknown'' c ''status''),
          str_pair c ''runtime_run_id'',
          (''metrics'', ch_json_text h (field_or (JObj []) c ''metrics''))]) (array_field detail ''candidates'')))"

definition events_command :: "'e console_host \<Rightarrow> string \<Rightarrow> string \<Rightarrow> ('e, unit) cli" where
  "events_command h base xid =
     cli_bind (accepted h base ''GET'' (execution_path xid @ ''/events'') None) (\<lambda>j.
       print_lines (map (\<lambda>e. pairs_line
         [(''seq'', u64_or_0 (json_get e ''seq'')), str_pair e ''event_type'']) (array_field j ''events'')))"

definition result_command :: "'e console_host \<Rightarrow> string \<Rightarrow> string \<Rightarrow> ('e, unit) cli" where
  "result_command h base xid =
     cli_bind (accepted h base ''GET'' (execution_path xid) None) (\<lambda>detail.
       print_lines (print_execution_summary detail
         @ (case select_runtime_run detail None of
              None \<Rightarrow> []
            | Some (c, run) \<Rightarrow> [pairs_line [(''winner_candidate_id'', c), (''runtime_run_id'', run)]])
         @ map (\<lambda>c. pairs_line
         [str_pair c ''candidate_id'',
          (''status'', str_or ''unknown'' c ''status''),
          (''succeeded'', case bool_field c ''succeeded'' of None \<Rightarrow> ''-'' | Some b \<Rightarrow> bool_to_string b),
          (''metrics'', ch_json_text h (field_or (JObj []) c ''metrics''))]) (array_field detail ''candidates'')))"

definition runtime_command :: "'e console_host \<Rightarrow> string \<Rightarrow> string \<Rightarrow> string option \<Rightarrow> ('e, unit) cli" where
  "runtime_command h base xid candidate =
     cli_bind (accepted h base ''GET'' (execution_path xid) None) (\<lambda>detail.
       case select_runtime_run detail candidate of
         None \<Rightarrow> cli_fail ''no runtime run found for execution''
       | Some (c, run) \<Rightarrow> print_lines [pairs_line
           [(''execution_id'', xid), (''candidate_id'', c), (''runtime_run_id'', run)]])"

subsection \<open>Watching\<close>

text \<open>The events with a number above the last one seen, each printed once.\<close>

definition event_seq :: "json \<Rightarrow> u64" where
  "event_seq e = (case Option.bind (json_get e ''seq'') json_as_u64 of None \<Rightarrow> 0 | Some n \<Rightarrow> n)"

definition watched_line :: "json \<Rightarrow> string" where
  "watched_line e = ''event seq='' @ word_to_string (event_seq e) @ '' type='' @ str_or ''-'' e ''event_type''"

fun print_new_events :: "json list \<Rightarrow> u64 \<Rightarrow> string list \<times> u64" where
  "print_new_events [] seen = ([], seen)"
| "print_new_events (e # es) seen =
     (if event_seq e \<le> seen then print_new_events es seen
      else case print_new_events es (event_seq e) of (ls, seen') \<Rightarrow> (watched_line e # ls, seen'))"

text \<open>One round: the last line printed and the last number seen, and whether the execution has ended.\<close>

definition watch_round ::
    "'e console_host \<Rightarrow> string \<Rightarrow> string \<Rightarrow> string \<Rightarrow> u64 \<Rightarrow> ('e, string \<times> u64 \<times> bool) cli" where
  "watch_round h base xid last_line last_event_seq =
     cli_bind (accepted h base ''GET'' (execution_path xid) None) (\<lambda>detail.
     let line = execution_progress_line detail in
     cli_bind (print_lines (if line \<noteq> last_line then [line] else [])) (\<lambda>_.
     cli_bind (accepted h base ''GET'' (execution_path xid @ ''/events'') None) (\<lambda>j.
       case Option.bind (json_get j ''events'') json_as_array of
         None \<Rightarrow> cli_fail ''execution events response missing events''
       | Some es \<Rightarrow>
           let (ls, seen) = print_new_events es last_event_seq in
           cli_bind (print_lines ls) (\<lambda>_.
             cli_return (line, seen, execution_status_is_terminal (str_or [] (execution_of detail) ''status''))))))"

partial_function (option) watch_loop ::
    "'e console_host \<Rightarrow> string \<Rightarrow> string \<Rightarrow> string \<Rightarrow> u64 \<Rightarrow> 'e console \<Rightarrow> ((string + unit) \<times> 'e console) option" where
  "watch_loop h base xid last_line last_event_seq s =
     (case watch_round h base xid last_line last_event_seq s of
        (Inl e, s') \<Rightarrow> Some (Inl e, s')
      | (Inr (line, seen, ended), s') \<Rightarrow>
          if ended then Some (Inr (), s')
          else watch_loop h base xid line seen (s'\<lparr>co_world := ch_sleep h 1000 (co_world s')\<rparr>))"

definition watch_command :: "'e console_host \<Rightarrow> string \<Rightarrow> string \<Rightarrow> 'e console \<Rightarrow> ((string + unit) \<times> 'e console) option" where
  "watch_command h base xid s = watch_loop h base xid [] 0 s"

subsection \<open>Templates\<close>

definition template_path :: "string \<Rightarrow> string" where
  "template_path tid = ''/v1/templates/'' @ tid"

definition template_line :: "json \<Rightarrow> string" where
  "template_line t = pairs_line
     [(''template_id'', str_or ''-'' t ''id''), str_pair t ''execution_kind'', str_pair t ''name'', str_pair t ''description'']"

definition template_list_lines :: "json \<Rightarrow> string list" where
  "template_list_lines j =
     (let ts = array_field j ''templates'' in if ts = [] then [''no templates''] else map template_line ts)"

definition template_get_line :: "json \<Rightarrow> string" where
  "template_get_line j =
     (let t = field_or JNull j ''template'' in
      pairs_line
        [(''template_id'', str_or ''-'' t ''id''), str_pair t ''execution_kind'', str_pair t ''name'',
         str_pair (field_or JNull j ''defaults'') ''workflow_template''])"

definition template_input_lines :: "json \<Rightarrow> string list" where
  "template_input_lines j =
     map (\<lambda>(name, f). pairs_line
       [(''input'', name), str_pair f ''type'',
        (''required'', case bool_field f ''required'' of None \<Rightarrow> ''-'' | Some b \<Rightarrow> bool_to_string b),
        str_pair f ''description''])
       (case Option.bind (json_get j ''inputs'') json_as_object of None \<Rightarrow> [] | Some m \<Rightarrow> m)"

definition template_execute_line :: "json \<Rightarrow> string" where
  "template_execute_line j =
     (let t = field_or JNull j ''template'' in
      pairs_line
        [str_pair j ''execution_id'', (''template_id'', str_or ''-'' t ''id''), str_pair t ''execution_kind'',
         (''status'', str_or ''unknown'' j ''status''), str_pair j ''goal''])"

fun run_template_command :: "'e console_host \<Rightarrow> string \<Rightarrow> template_command \<Rightarrow> ('e, unit) cli" where
  "run_template_command h base TemplateList =
     cli_bind (accepted h base ''GET'' ''/v1/templates'' None) (\<lambda>j. print_lines (template_list_lines j))"
| "run_template_command h base (TemplateGet tid) =
     cli_bind (accepted h base ''GET'' (template_path tid) None) (\<lambda>j.
       print_lines (template_get_line j # template_input_lines j))"
| "run_template_command h base (TemplateDryRun tid inputs stdin) =
     cli_bind (cli_result (load_json_input h inputs stdin)) (\<lambda>body.
     cli_bind (accepted h base ''POST'' (template_path tid @ ''/dry-run'') (Some body)) (\<lambda>j.
       print_lines (print_template_compilation_summary (ch_json_text h) j)))"
| "run_template_command h base (TemplateExecute tid inputs stdin) =
     cli_bind (cli_result (load_json_input h inputs stdin)) (\<lambda>body.
     cli_bind (accepted h base ''POST'' (template_path tid @ ''/execute'') (Some body)) (\<lambda>j.
       print_lines [template_execute_line j]))"

subsection \<open>Batches and teams\<close>

definition batch_path :: "string \<Rightarrow> string \<Rightarrow> string" where
  "batch_path alias action = (if alias = ''yolo'' then ''/v1/yolo/'' @ action else ''/v1/batch/'' @ action)"

definition submitted_lines :: "string \<Rightarrow> json \<Rightarrow> string list" where
  "submitted_lines run_field j =
     [pairs_line [str_pair j ''kind'', str_pair j run_field, str_pair j ''compiled_primitive'',
        (''status'', str_or ''unknown'' j ''status''), str_pair j ''goal'']]"

definition compiled_command ::
    "'e console_host \<Rightarrow> string \<Rightarrow> string \<Rightarrow> (json \<Rightarrow> string list) \<Rightarrow> string option \<Rightarrow> bool \<Rightarrow> ('e, unit) cli" where
  "compiled_command h base path show_lines spec stdin =
     cli_bind (cli_result (load_execution_spec_input h spec stdin)) (\<lambda>text.
     cli_bind (accepted h base ''POST'' path (Some text)) (\<lambda>j. print_lines (show_lines j)))"

fun run_batch_command :: "'e console_host \<Rightarrow> string \<Rightarrow> batch_command \<Rightarrow> ('e, unit) cli" where
  "run_batch_command h base (BatchDryRun spec stdin alias) =
     compiled_command h base (batch_path alias ''dry-run'') print_batch_compilation_summary spec stdin"
| "run_batch_command h base (BatchRun spec stdin alias) =
     compiled_command h base (batch_path alias ''run'') (submitted_lines ''run_id'') spec stdin"

fun run_team_command :: "'e console_host \<Rightarrow> string \<Rightarrow> team_command \<Rightarrow> ('e, unit) cli" where
  "run_team_command h base (TeamDryRun spec stdin) =
     compiled_command h base ''/v1/teams/dry-run'' print_batch_compilation_summary spec stdin"
| "run_team_command h base (TeamRun spec stdin) =
     compiled_command h base ''/v1/teams/run'' (submitted_lines ''execution_id'') spec stdin"

subsection \<open>The command given by the arguments\<close>

fun run_execution_command :: "'e console_host \<Rightarrow> string \<Rightarrow> execution_command \<Rightarrow> 'e console \<Rightarrow> ((string + unit) \<times> 'e console) option" where
  "run_execution_command h base (ExecSubmit spec stdin) s = Some (submit_command h base spec stdin s)"
| "run_execution_command h base (ExecDryRun spec stdin) s = Some (dry_run_command h base spec stdin s)"
| "run_execution_command h base (ExecWatch xid) s = watch_command h base xid s"
| "run_execution_command h base (ExecInspect xid) s = Some (inspect_command h base xid s)"
| "run_execution_command h base (ExecEvents xid) s = Some (events_command h base xid s)"
| "run_execution_command h base (ExecResult xid) s = Some (result_command h base xid s)"
| "run_execution_command h base (ExecRuntime xid c) s = Some (runtime_command h base xid c s)"

definition bridge_base_url :: "'e console_host \<Rightarrow> string" where
  "bridge_base_url h =
     (case ht_env (ch_host h) ''VOID_CONTROL_BRIDGE_BASE_URL'' of None \<Rightarrow> ''http://127.0.0.1:43210'' | Some u \<Rightarrow> u)"

text \<open>The server and the interactive console are given.\<close>

fun dispatch_command ::
    "'e console_host \<Rightarrow> ('e console \<Rightarrow> ((string + unit) \<times> 'e console) option) \<Rightarrow>
     ('e console \<Rightarrow> ((string + unit) \<times> 'e console) option) \<Rightarrow> cli_command \<Rightarrow> 'e console \<Rightarrow> ((string + unit) \<times> 'e console) option" where
  "dispatch_command h serve interactive Serve s = serve s"
| "dispatch_command h serve interactive ShowHelp s = Some (print_lines [top_level_help_text] s)"
| "dispatch_command h serve interactive (OnExecution c) s = run_execution_command h (bridge_base_url h) c s"
| "dispatch_command h serve interactive (OnTemplate c) s = Some (run_template_command h (bridge_base_url h) c s)"
| "dispatch_command h serve interactive (OnBatch c) s = Some (run_batch_command h (bridge_base_url h) c s)"
| "dispatch_command h serve interactive (OnTeam c) s = Some (run_team_command h (bridge_base_url h) c s)"
| "dispatch_command h serve interactive Interactive s = interactive s"

definition run_voidctl ::
    "'e console_host \<Rightarrow> ('e console \<Rightarrow> ((string + unit) \<times> 'e console) option) \<Rightarrow>
     ('e console \<Rightarrow> ((string + unit) \<times> 'e console) option) \<Rightarrow> string list \<Rightarrow> 'e console \<Rightarrow> ((string + unit) \<times> 'e console) option" where
  "run_voidctl h serve interactive args s =
     (case parse_cli_args args of Inl e \<Rightarrow> Some (Inl e, s) | Inr c \<Rightarrow> dispatch_command h serve interactive c s)"

text \<open>What \<open>main\<close> writes to the error stream, and the exit code.\<close>

definition main_exit :: "string + unit \<Rightarrow> string list \<times> nat" where
  "main_exit r = (case r of Inl e \<Rightarrow> ([''fatal: '' @ e], 1) | Inr _ \<Rightarrow> ([], 0))"

end
