(* ===== verification/Voidctl_Watch.thy ===== *)
theory Voidctl_Watch
  imports Router Responses Voidctl_Run
begin

text \<open>
  \<open>voidctl execution watch\<close> against the bridge: the requests of the command line served by the routes of the
  bridge on the store they share, while the worker and other clients act during requests and pauses.
\<close>

text \<open>
  The connection: the handlers of the bridge, the printed documents, and \<open>others\<close>, what else happens to the
  world before the request is served.
\<close>

definition bridge_exchange ::
    "(pattern list \<Rightarrow> string list \<Rightarrow> pattern option) \<Rightarrow> bridge_state \<Rightarrow> (json \<Rightarrow> string) \<Rightarrow>
     (bridge_env world \<Rightarrow> bridge_env world) \<Rightarrow> string \<Rightarrow>
     string \<Rightarrow> string \<Rightarrow> string \<Rightarrow> (bridge_env, link_error, u16 \<times> string) call" where
  "bridge_exchange pick st json_text others base url verb body w =
     (case strip_prefix base url of
        None \<Rightarrow> (Inl (ConnectFailed ''connection refused''), w)
      | Some path \<Rightarrow>
          (case serve_request pick st verb path [] body (others w) of
             (Inr (FromBridge r), w') \<Rightarrow> (Inr (rs_status r, json_text (body_json (rs_body r))), w')
           | (Inr (FromDaemon c b), w') \<Rightarrow> (Inr (c, b), w')
           | (Inr (FromFramework c), w') \<Rightarrow> (Inr (c, []), w')
           | (Inl f, w') \<Rightarrow> (Inl (ReadFailed ''connection closed before message completed''), w')))"

subsection \<open>The two requests of a round\<close>

definition plain_id :: "string \<Rightarrow> bool" where
  "plain_id xid = (xid \<noteq> [] \<and> CHR ''/'' \<notin> set xid \<and> xid \<noteq> ''dry-run'')"

lemma execution_segments:
  assumes "plain_id xid"
  shows "path_segments (execution_path xid) = Some [''v1'', ''executions'', xid]"
    and "path_segments (execution_path xid @ ''/events'') = Some [''v1'', ''executions'', xid, ''events'']"
  using assms split_on_sep [of "CHR ''/''" xid "''events''"]
  by (simp_all add: plain_id_def path_segments_def execution_path_def strip_prefix_def starts_with_def split_on_none)

lemma get_routes:
  assumes "path_router pick" and "plain_id xid"
  shows "pick (map fst bridge_routes) [''v1'', ''executions'', xid] = Some [Lit ''v1'', Lit ''executions'', Param]"
    and "pick (map fst bridge_routes) [''v1'', ''executions'', xid, ''events''] =
      Some [Lit ''v1'', Lit ''executions'', Param, Lit ''events'']"
  using assms(2)
  by (simp_all add: bridge_routes_def plain_id_def path_router.pick_filter [OF assms(1)])

lemma execution_handlers:
  "handle_execution_get cx (execution_path xid) =
     respond_with_snapshot cx xid (\<lambda>sn. BDetail (execution_detail_of sn))"
  "handle_execution_events cx (execution_path xid @ ''/events'') =
     respond_with_snapshot cx xid (\<lambda>sn. BEvents xid (map (\<lambda>e. (ce_seq e, event_as_str (ce_event_type e))) (sn_events sn)))"
  by (simp_all only: handle_execution_get_def handle_execution_events_def execution_path_def strip_prefix_append
      path_id_between append_assoc option.case)

lemma respond_with_stored:
  "load_execution cx xid (wd_fs w) = Inr sn \<Longrightarrow>
    into_axum (respond_with_snapshot cx xid f) w = (Inr (FromBridge (json_response 200 (f sn))), w)"
  by (simp add: into_axum_def respond_with_snapshot_def io_bind_def io_return_def io_attempt_def store_read_def
      io_result_def)

lemma routes_of_execution:
  "map_of bridge_routes [Lit ''v1'', Lit ''executions'', Param] = Some (get_route RouteExecutionGet)"
  "map_of bridge_routes [Lit ''v1'', Lit ''executions'', Param, Lit ''events''] = Some (get_route RouteExecutionEvents)"
  by (simp_all add: bridge_routes_def)

lemma get_execution_served:
  assumes "path_router pick" and "plain_id xid" and "load_execution (bs_codec st) xid (wd_fs w) = Inr sn"
  shows "serve_request pick st ''GET'' (execution_path xid) [] [] w =
      (Inr (FromBridge (json_response 200 (BDetail (execution_detail_of sn)))), w)"
    and "serve_request pick st ''GET'' (execution_path xid @ ''/events'') [] [] w =
      (Inr (FromBridge (json_response 200 (BEvents xid
        (map (\<lambda>e. (ce_seq e, event_as_str (ce_event_type e))) (sn_events sn))))), w)"
  by (simp_all add: serve_request_def execution_segments [OF assms(2)] get_routes [OF assms(1,2)]
      routes_of_execution handler_of_def get_route_def execution_handlers respond_with_stored [OF assms(3)])

subsection \<open>New events\<close>

lemma print_new_events_ascending:
  "sorted_wrt (<) (map event_seq es) \<Longrightarrow>
    print_new_events es seen = (map watched_line (filter (\<lambda>e. seen < event_seq e) es),
      if es = [] then seen else max seen (event_seq (last es)))"
proof (induction es arbitrary: seen)
  case (Cons e es)
  have above: "event_seq e < event_seq x" if "x \<in> set es" for x using Cons.prems that by simp
  show ?case
  proof (cases "event_seq e \<le> seen")
    case True
    then show ?thesis using Cons by (auto simp: max_def not_less)
  next
    case False
    have "filter (\<lambda>x. event_seq e < event_seq x) es = es" "filter (\<lambda>x. seen < event_seq x) es = es"
      using above False by (force intro: filter_True)+
    moreover have "max (event_seq e) (event_seq (last es)) = max seen (event_seq (last es))" if "es \<noteq> []"
    proof -
      have "event_seq e < event_seq (last es)" using above [OF last_in_set [OF that]] .
      moreover from this have "seen < event_seq (last es)" using False by simp
      ultimately show ?thesis by (simp add: max_absorb2)
    qed
    ultimately show ?thesis using Cons False by (auto simp: max_def)
  qed
qed simp

definition event_json :: "control_event_envelope \<Rightarrow> json" where
  "event_json e = json_object [(''seq'', json_u64 (ce_seq e)), (''event_type'', JStr (event_as_str (ce_event_type e)))]"

lemma event_json_seq [simp]: "event_seq (event_json e) = ce_seq e"
  by (simp add: event_seq_def event_json_def)

text \<open>What is printed for an event of the log.\<close>

definition event_text :: "control_event_envelope \<Rightarrow> string" where
  "event_text e = ''event seq='' @ word_to_string (ce_seq e) @ '' type='' @ event_as_str (ce_event_type e)"

lemma watched_line_event [simp]: "watched_line (event_json e) = event_text e"
  by (simp add: watched_line_def event_text_def) (simp add: str_or_def str_field_def event_json_def)

lemma drop_seq_upto:
  assumes "map ce_seq es = seq_upto (length es)" and "length es < 2 ^ 64" and "k \<le> length es"
  shows "filter (\<lambda>e. of_nat k < ce_seq e) es = drop k es"
proof -
  have seq: "ce_seq (es ! i) = of_nat (Suc i)" if "i < length es" for i
    using that arg_cong [OF assms(1), of "\<lambda>xs. xs ! i"] by (simp add: seq_upto_def del: of_nat_Suc)
  have "filter (\<lambda>e. of_nat k < ce_seq e) (take k es) = []"
    using seq assms(2,3)
    by (auto simp: filter_empty_conv in_set_conv_nth word_less_nat_alt unat_of_nat simp del: of_nat_Suc)
  moreover have "filter (\<lambda>e. of_nat k < ce_seq e) (drop k es) = drop k es"
    using seq assms(2,3)
    by (auto simp: filter_id_conv in_set_conv_nth word_less_nat_alt unat_of_nat simp del: of_nat_Suc)
  ultimately show ?thesis by (metis append_Nil append_take_drop_id filter_append)
qed

lemma print_new_events_log:
  assumes "map ce_seq es = seq_upto (length es)" and "length es < 2 ^ 64" and "k \<le> length es"
  shows "print_new_events (map event_json es) (of_nat k) = (map event_text (drop k es), of_nat (length es))"
proof -
  have ascending: "sorted_wrt (<) (map event_seq (map event_json es))"
    using sorted_seq_upto [OF assms(2)] by (simp add: comp_def assms(1))
  have "max (of_nat k) (ce_seq (last es)) = of_nat (length es)" if "es \<noteq> []"
  proof -
    have "ce_seq (last es) = last (map ce_seq es)" using that by (simp add: last_map)
    also have "\<dots> = of_nat (length es)"
      using that by (simp add: assms(1) seq_upto_def last_map del: of_nat_Suc)
    finally show ?thesis using assms(2,3) by (simp add: max_def word_le_nat_alt unat_of_nat)
  qed
  then show ?thesis
    using assms(3) by (cases "es = []") (simp_all add: print_new_events_ascending [OF ascending] filter_map comp_def
        last_map drop_seq_upto [OF assms])
qed

subsection \<open>What watching needs\<close>

definition printed_events :: "string list \<Rightarrow> string list" where
  "printed_events out = filter (starts_with ''event seq='') out"

text \<open>
  The feed of one execution: while \<open>I\<close> holds of the world, the first request of a round answers with a detail
  whose status tells whether the execution \<open>has_ended\<close>, the second with the whole \<open>log\<close>; requests and pauses
  keep \<open>I\<close> and only extend the log, whose events are numbered from one.
\<close>

locale execution_feed =
  fixes h :: "'e console_host" and base xid :: string and I :: "'e world \<Rightarrow> bool"
    and others :: "'e world \<Rightarrow> 'e world" and log :: "'e world \<Rightarrow> control_event_envelope list"
    and has_ended :: "'e world \<Rightarrow> bool"
  assumes detail: "I (co_world s) \<Longrightarrow>
      \<exists>j. accepted h base ''GET'' (execution_path xid) None s = (Inr j, s\<lparr>co_world := others (co_world s)\<rparr>)
        \<and> execution_status_is_terminal (str_or [] (execution_of j) ''status'') = has_ended (others (co_world s))"
    and events: "I (co_world s) \<Longrightarrow>
      accepted h base ''GET'' (execution_path xid @ ''/events'') None s =
        (Inr (json_object [(''execution_id'', JStr xid), (''events'', JArr (map event_json (log (others (co_world s)))))]),
         s\<lparr>co_world := others (co_world s)\<rparr>)"
    and numbered: "I w \<Longrightarrow> map ce_seq (log w) = seq_upto (length (log w)) \<and> length (log w) < 2 ^ 64"
    and extended: "I w \<Longrightarrow> f = others \<or> f = ch_sleep h 1000 \<Longrightarrow> I (f w) \<and> prefix (log w) (log (f w))"
begin

definition turn :: "'e world \<Rightarrow> 'e world" where
  "turn w = ch_sleep h 1000 (others (others w))"

lemma round_effect:
  assumes "I (co_world s)" and "k \<le> length (log (co_world s))"
  defines "w1 \<equiv> others (co_world s)"
  defines "w2 \<equiv> others w1"
  shows "\<exists>line' new. watch_round h base xid line (of_nat k) s =
      (Inr (line', of_nat (length (log w2)), has_ended w1), s\<lparr>co_world := w2, co_out := co_out s @ new\<rparr>)
    \<and> printed_events new = map (\<lambda>e. event_text e @ [nl]) (drop k (log w2))"
proof -
  obtain j where j: "accepted h base ''GET'' (execution_path xid) None s = (Inr j, s\<lparr>co_world := w1\<rparr>)"
    "execution_status_is_terminal (str_or [] (execution_of j) ''status'') = has_ended w1"
    using detail [OF assms(1)] by (auto simp: w1_def)
  have I: "I w1" "I w2" and "length (log (co_world s)) \<le> length (log w2)"
    using extended [of "co_world s" others] extended [of w1 others] assms(1) prefix_length_le
    by (auto simp: w1_def w2_def dest!: prefix_length_le)
  then have "print_new_events (map event_json (log w2)) (of_nat k) =
      (map event_text (drop k (log w2)), of_nat (length (log w2)))"
    using numbered [of w2] assms(2) by (intro print_new_events_log) auto
  then have events: "watch_round h base xid line (of_nat k) s =
      (Inr (execution_progress_line j, of_nat (length (log w2)), has_ended w1), s\<lparr>co_world := w2, co_out := co_out s
        @ map (\<lambda>l. l @ [nl]) (if execution_progress_line j \<noteq> line then [execution_progress_line j] else [])
        @ map (\<lambda>e. event_text e @ [nl]) (drop k (log w2))\<rparr>)"
    using j I by (simp add: watch_round_def cli_bind_def print_lines_def cli_return_def Let_def events w2_def [symmetric]
        comp_def)
  have "\<not> starts_with ''event seq='' (execution_progress_line j @ [nl])"
    by (simp add: execution_progress_line_def pairs_line_def str_pair_def starts_with_def Let_def)
  moreover have "starts_with ''event seq='' (event_text e @ [nl])" for e
    by (simp add: event_text_def starts_with_def)
  ultimately show ?thesis using events by (fastforce simp: printed_events_def filter_id_conv)
qed

lemma turn_keeps: "I w \<Longrightarrow> I (turn w) \<and> prefix (log (others (others w))) (log (turn w)) \<and> prefix (log w) (log (turn w))"
  using extended [of w others] extended [of "others w" others] extended [of "others (others w)" "ch_sleep h 1000"]
  by (auto simp: turn_def intro: prefix_order.trans)

text \<open>One unfolding of the loop, with the effect of the round.\<close>

lemma loop_unfold:
  assumes "I (co_world s)" and "k \<le> length (log (co_world s))"
  obtains line' new s1 where
    "watch_loop h base xid line (of_nat k) s =
       (if has_ended (others (co_world s)) then Some (Inr (), s1)
        else watch_loop h base xid line' (of_nat (length (log (co_world s1))))
          (s1\<lparr>co_world := turn (co_world s)\<rparr>))"
    "s1 = s\<lparr>co_world := others (others (co_world s)), co_out := co_out s @ new\<rparr>"
    "printed_events new = map (\<lambda>e. event_text e @ [nl]) (drop k (log (co_world s1)))"
proof -
  obtain line' new where round: "watch_round h base xid line (of_nat k) s =
      (Inr (line', of_nat (length (log (others (others (co_world s))))), has_ended (others (co_world s))),
       s\<lparr>co_world := others (others (co_world s)), co_out := co_out s @ new\<rparr>)"
    "printed_events new = map (\<lambda>e. event_text e @ [nl]) (drop k (log (others (others (co_world s)))))"
    using round_effect [OF assms] by blast
  show ?thesis
    by (rule that [of _ line' new, OF _ refl]) (simp_all add: watch_loop.simps [of h base xid line] round turn_def)
qed

lemma printed_append: "printed_events (a @ b) = printed_events a @ printed_events b"
  by (simp add: printed_events_def)

lemma watch_stops:
  assumes "I (co_world s)" and "k \<le> length (log (co_world s))" and "has_ended (others (co_world s))"
  shows "\<exists>s' new. watch_loop h base xid line (of_nat k) s = Some (Inr (), s') \<and> co_out s' = co_out s @ new
      \<and> printed_events new = map (\<lambda>e. event_text e @ [nl]) (drop k (log (co_world s')))
      \<and> prefix (log (co_world s)) (log (co_world s'))"
proof -
  obtain line' new s1 where "watch_loop h base xid line (of_nat k) s = Some (Inr (), s1)"
    "s1 = s\<lparr>co_world := others (others (co_world s)), co_out := co_out s @ new\<rparr>"
    "printed_events new = map (\<lambda>e. event_text e @ [nl]) (drop k (log (co_world s1)))"
    using loop_unfold [OF assms(1,2), of line] assms(3) by metis
  moreover have "prefix (log (co_world s)) (log (others (others (co_world s))))"
    using extended assms(1) by (metis prefix_order.trans)
  ultimately show ?thesis by (intro exI [of _ s1] exI [of _ new]) simp
qed

lemma watch_ends:
  "I (co_world s) \<Longrightarrow> k \<le> length (log (co_world s)) \<Longrightarrow> has_ended (others ((turn ^^ n) (co_world s))) \<Longrightarrow>
    \<exists>s' new. watch_loop h base xid line (of_nat k) s = Some (Inr (), s') \<and> co_out s' = co_out s @ new
      \<and> printed_events new = map (\<lambda>e. event_text e @ [nl]) (drop k (log (co_world s')))
      \<and> prefix (log (co_world s)) (log (co_world s'))"
proof (induction n arbitrary: s k line)
  case (Suc n s k line)
  show ?case
  proof (cases "has_ended (others (co_world s))")
    case False
    obtain line' new s1 where loop: "watch_loop h base xid line (of_nat k) s =
        watch_loop h base xid line' (of_nat (length (log (co_world s1)))) (s1\<lparr>co_world := turn (co_world s)\<rparr>)"
      "s1 = s\<lparr>co_world := others (others (co_world s)), co_out := co_out s @ new\<rparr>"
      "printed_events new = map (\<lambda>e. event_text e @ [nl]) (drop k (log (co_world s1)))"
      using loop_unfold [OF Suc(2,3), of line] False by metis
    have grown: "prefix (log (co_world s)) (log (co_world s1))"
      using extended Suc(2) by (simp add: loop(2)) (metis prefix_order.trans)
    let ?t = "s1\<lparr>co_world := turn (co_world s)\<rparr>"
    have t: "I (co_world ?t)" "prefix (log (co_world s1)) (log (co_world ?t))"
      using turn_keeps [OF Suc(2)] by (simp_all add: loop(2))
    moreover have "has_ended (others ((turn ^^ n) (co_world ?t)))" using Suc(4) by (simp add: funpow_swap1)
    ultimately obtain s' new' where rest:
      "watch_loop h base xid line' (of_nat (length (log (co_world s1)))) ?t = Some (Inr (), s')"
      "co_out s' = co_out ?t @ new'" "prefix (log (co_world ?t)) (log (co_world s'))"
      "printed_events new' = map (\<lambda>e. event_text e @ [nl]) (drop (length (log (co_world s1))) (log (co_world s')))"
      using Suc.IH [of ?t "length (log (co_world s1))" line'] prefix_length_le by blast
    obtain more where more: "log (co_world s') = log (co_world s1) @ more"
      using t(2) rest(3) by (metis prefixE prefix_order.trans)
    have "k \<le> length (log (co_world s1))" using Suc(3) prefix_length_le [OF grown] by simp
    then have "printed_events (new @ new') = map (\<lambda>e. event_text e @ [nl]) (drop k (log (co_world s')))"
      using loop(3) rest(4) by (simp add: printed_append more)
    moreover have "prefix (log (co_world s)) (log (co_world s'))" using grown more by (metis prefix_order.trans prefixI)
    ultimately show ?thesis
      using loop(1,2) rest(1,2) by (intro exI [of _ s'] exI [of _ "new @ new'"]) simp
  qed (use watch_stops Suc in blast)
qed (use watch_stops in simp)

lemma watch_ends_only_then:
  assumes ret: "watch_loop h base xid line seen s = Some r"
    and "seen = of_nat k" and "I (co_world s)" and "k \<le> length (log (co_world s))"
  shows "\<exists>n. has_ended (others ((turn ^^ n) (co_world s)))"
proof -
  let ?P = "\<lambda>h' base' xid' line seen s r. h' = h \<and> base' = base \<and> xid' = xid \<longrightarrow>
    (\<forall>k. seen = of_nat k \<and> I (co_world s) \<and> k \<le> length (log (co_world s)) \<longrightarrow>
      (\<exists>n. has_ended (others ((turn ^^ n) (co_world s)))))"
  have "?P h base xid line seen s r"
  proof (rule watch_loop.raw_induct [where P = ?P, OF _ ret], intro impI allI, elim conjE)
    fix f h' base' xid' line seen s r k
    assume IH: "\<And>h' base' xid' line seen s r. f h' base' xid' line seen s = Some r \<Longrightarrow> ?P h' base' xid' line seen s r"
      and body: "(case watch_round h' base' xid' line seen s of
          (Inl e, s') \<Rightarrow> Some (Inl e, s')
        | (Inr (line, seen, ended), s') \<Rightarrow> if ended then Some (Inr (), s')
            else f h' base' xid' line seen (s'\<lparr>co_world := ch_sleep h' 1000 (co_world s')\<rparr>)) = Some r"
      and eqs: "h' = h" "base' = base" "xid' = xid" "seen = of_nat k"
      and I: "I (co_world s)" "k \<le> length (log (co_world s))"
    show "\<exists>n. has_ended (others ((turn ^^ n) (co_world s)))"
    proof (cases "has_ended (others (co_world s))")
      case False
      obtain line' new where "watch_round h base xid line (of_nat k) s =
          (Inr (line', of_nat (length (log (others (others (co_world s))))), has_ended (others (co_world s))),
           s\<lparr>co_world := others (others (co_world s)), co_out := co_out s @ new\<rparr>)"
        using round_effect [OF I] by blast
      with body eqs False have "f h base xid line' (of_nat (length (log (others (others (co_world s))))))
          (s\<lparr>co_out := co_out s @ new, co_world := turn (co_world s)\<rparr>) = Some r" by (simp add: turn_def)
      from IH [OF this] turn_keeps [OF I(1)] obtain n where "has_ended (others ((turn ^^ n) (turn (co_world s))))"
        by (auto dest: prefix_length_le)
      then have "has_ended (others ((turn ^^ Suc n) (co_world s)))" by (simp add: funpow_swap1)
      then show ?thesis by blast
    qed (auto intro: exI [of _ 0])
  qed
  with assms(2-4) show ?thesis by blast
qed

end

subsection \<open>The bridge as a feed\<close>

definition readable_document :: "'e console_host \<Rightarrow> (json \<Rightarrow> string) \<Rightarrow> body \<Rightarrow> bool" where
  "readable_document h json_text b =
     (trim (json_text (body_json b)) \<noteq> [] \<and> ch_json h (json_text (body_json b)) = Inr (body_json b))"

definition events_body :: "string \<Rightarrow> control_event_envelope list \<Rightarrow> body" where
  "events_body xid es = BEvents xid (map (\<lambda>e. (ce_seq e, event_as_str (ce_event_type e))) es)"

text \<open>An execution that can be loaded, with a numbered log, whose documents the command line can read.\<close>

definition watchable :: "'e console_host \<Rightarrow> (json \<Rightarrow> string) \<Rightarrow> codec \<Rightarrow> string \<Rightarrow> 'e world \<Rightarrow> bool" where
  "watchable h json_text cx xid w =
     (case load_execution cx xid (wd_fs w) of
        Inl _ \<Rightarrow> False
      | Inr sn \<Rightarrow> log_ok (wd_fs w) xid \<and> length (event_log (wd_fs w) xid) < 2 ^ 64
          \<and> readable_document h json_text (BDetail (execution_detail_of sn))
          \<and> readable_document h json_text (events_body xid (event_log (wd_fs w) xid)))"

definition execution_ended :: "codec \<Rightarrow> string \<Rightarrow> 'e world \<Rightarrow> bool" where
  "execution_ended cx xid w =
     (case load_execution cx xid (wd_fs w) of
        Inl _ \<Rightarrow> False
      | Inr sn \<Rightarrow> ex_status (sn_execution sn) \<in> {ExCompleted, ExFailed, ExCanceled})"

lemma accepted_from_bridge:
  assumes "ch_exchange h = bridge_exchange pick st json_text others (trim_end_matches (CHR ''/'') base)"
    and "serve_request pick st verb path [] [] (others (co_world s)) = (Inr (FromBridge (json_response 200 b)), w)"
    and "readable_document h json_text b"
  shows "accepted h base verb path None s = (Inr (body_json b), s\<lparr>co_world := w\<rparr>)"
  using assms by (simp add: accepted_def cli_bind_def bridge_request_def bridge_exchange_def json_response_def
      answer_json_def readable_document_def cli_return_def Let_def)

lemma detail_status:
  "execution_status_is_terminal (str_or [] (execution_of (body_json (BDetail (execution_detail_of sn)))) ''status'')
     = (ex_status (sn_execution sn) \<in> {ExCompleted, ExFailed, ExCanceled})"
  by (cases "ex_status (sn_execution sn)")
    (simp_all add: execution_of_def field_or_def detail_fields_def execution_json_def str_or_def str_field_def
      execution_detail_of_def execution_status_is_terminal_def)

lemma events_document:
  "body_json (events_body xid es) = json_object [(''execution_id'', JStr xid), (''events'', JArr (map event_json es))]"
  by (simp add: events_body_def event_json_def [abs_def] comp_def)

lemma bridge_feed:
  assumes "path_router pick" and "plain_id xid"
    and link: "ch_exchange h = bridge_exchange pick st json_text others (trim_end_matches (CHR ''/'') base)"
    and world: "\<And>w. I w \<Longrightarrow> watchable h json_text (bs_codec st) xid w"
    and grows: "\<And>w f. I w \<Longrightarrow> f = others \<or> f = ch_sleep h 1000 \<Longrightarrow>
      I (f w) \<and> prefix (event_log (wd_fs w) xid) (event_log (wd_fs (f w)) xid)"
  shows "execution_feed h base xid I others (\<lambda>w. event_log (wd_fs w) xid) (execution_ended (bs_codec st) xid)"
proof
  fix s :: "bridge_env console" assume "I (co_world s)"
  then have later: "watchable h json_text (bs_codec st) xid (others (co_world s))" using world grows by blast
  then obtain sn where sn: "load_execution (bs_codec st) xid (wd_fs (others (co_world s))) = Inr sn"
    by (auto simp: watchable_def split: sum.splits)
  note log = load_execution_events [OF sn]
  have readable: "readable_document h json_text (BDetail (execution_detail_of sn))"
    "readable_document h json_text (events_body xid (sn_events sn))"
    using later by (simp_all add: watchable_def sn log)
  show "\<exists>j. accepted h base ''GET'' (execution_path xid) None s = (Inr j, s\<lparr>co_world := others (co_world s)\<rparr>)
      \<and> execution_status_is_terminal (str_or [] (execution_of j) ''status'') = execution_ended (bs_codec st) xid (others (co_world s))"
    using accepted_from_bridge [OF link get_execution_served(1) [OF assms(1,2) sn] readable(1)] detail_status [of sn]
    by (intro exI [of _ "body_json (BDetail (execution_detail_of sn))"]) (simp add: execution_ended_def sn)
  show "accepted h base ''GET'' (execution_path xid @ ''/events'') None s =
      (Inr (json_object [(''execution_id'', JStr xid),
         (''events'', JArr (map event_json (event_log (wd_fs (others (co_world s))) xid)))]),
       s\<lparr>co_world := others (co_world s)\<rparr>)"
    using accepted_from_bridge [OF link get_execution_served(2) [OF assms(1,2) sn, folded events_body_def] readable(2)]
    by (simp only: events_document log)
next
  fix w assume "I w"
  then show "map ce_seq (event_log (wd_fs w) xid) = seq_upto (length (event_log (wd_fs w) xid)) \<and>
      length (event_log (wd_fs w) xid) < 2 ^ 64"
    using world [of w] by (auto simp: watchable_def log_ok_def split: sum.splits)
qed (use grows in blast)

subsection \<open>An execution that completes while it is watched\<close>

definition demo_events :: "nat \<Rightarrow> control_event_envelope list" where
  "demo_events n = take n [control_event_new ''e1'' 1 ExecutionStarted, control_event_new ''e1'' 2 ExecutionCompleted]"

definition demo_watched :: "nat \<Rightarrow> execution" where
  "demo_watched n = demo_execution\<lparr>ex_status := if n = 2 then ExCompleted else ExRunning\<rparr>"

definition demo_store :: "nat \<Rightarrow> store_fs" where
  "demo_store n = [(''e1'', empty_dir\<lparr>xd_execution := Some (execution_text (demo_watched n)),
     xd_events := Some (concat (map event_line (demo_events n)))\<rparr>)]"

definition demo_snapshot :: "nat \<Rightarrow> execution_snapshot" where
  "demo_snapshot n = \<lparr>sn_execution = demo_watched n, sn_events = demo_events n,
     sn_accumulator = accumulator_default, sn_candidates = []\<rparr>"

text \<open>A printer and a reader of the four documents.\<close>

definition demo_text :: "json \<Rightarrow> string" where
  "demo_text j = (case json_get j ''events'' of
     Some es \<Rightarrow> if json_as_array es = Some (map event_json (demo_events 2)) then ''e2'' else ''e1''
   | None \<Rightarrow> if execution_status_is_terminal (str_or [] (execution_of j) ''status'') then ''d2'' else ''d1'')"

definition demo_read :: "string \<Rightarrow> string + json" where
  "demo_read t = Inr (body_json (if t = ''e1'' then events_body ''e1'' (demo_events 1)
     else if t = ''e2'' then events_body ''e1'' (demo_events 2)
     else if t = ''d1'' then BDetail (execution_detail_of (demo_snapshot 1))
     else BDetail (execution_detail_of (demo_snapshot 2))))"

definition demo_console_host :: "bridge_state \<Rightarrow> bridge_env console_host \<Rightarrow> bridge_env console_host" where
  "demo_console_host st h = h\<lparr>ch_exchange := bridge_exchange best_pattern st demo_text (\<lambda>w. w) ''http://b'',
     ch_sleep := (\<lambda>_ w. w\<lparr>wd_fs := demo_store 2\<rparr>), ch_json := demo_read\<rparr>"

definition demo_worlds :: "bridge_env world \<Rightarrow> bool" where
  "demo_worlds w = (wd_fs w = demo_store 1 \<or> wd_fs w = demo_store 2)"

lemma demo_log: "n = 1 \<or> n = 2 \<Longrightarrow> event_log (demo_store n) ''e1'' = demo_events n"
proof -
  have id: "log_id_ok ''e1''" by (simp add: log_id_ok_def)
  have one: "parse_events (event_line e) = [e]" if "ce_execution_id e = ''e1''" for e
    using parse_events_append [of "[]" e] that id by (simp add: parse_events_def)
  then have "parse_events (event_line e @ event_line f) = [e, f]"
    if "ce_execution_id e = ''e1''" "ce_execution_id f = ''e1''" for e f
    using parse_events_append [of "event_line e" f] that id by (simp add: event_line_def)
  with one show "n = 1 \<or> n = 2 \<Longrightarrow> event_log (demo_store n) ''e1'' = demo_events n"
    by (auto simp: event_log_def events_file_def demo_store_def demo_events_def control_event_new_def)
qed

lemma demo_load:
  assumes "n = 1 \<or> n = 2"
  shows "load_execution cx ''e1'' (demo_store n) = Inr (demo_snapshot n)"
proof -
  have "execution_fields_ok (demo_watched n)"
    by (simp add: demo_watched_def demo_execution_def execution_fields_ok_def execution_new_def line_safe_def line_field_def)
  note parse = parse_execution_text [OF this]
  show ?thesis
    using demo_log [OF assms] by (simp add: demo_store_def demo_snapshot_def parse load_execution_def read_file_def
        load_candidates_def result_simps empty_dir_def event_log_def events_file_def)
qed

lemma demo_watchable: "demo_worlds w \<Longrightarrow> watchable (demo_console_host st h) demo_text cx ''e1'' w"
proof -
  have ok: "watchable (demo_console_host st h) demo_text cx ''e1'' w" if "wd_fs w = demo_store n" "n = 1 \<or> n = 2" for n
  proof -
    note log = demo_log [OF that(2)]
    have "log_ok (demo_store n) ''e1''"
      using that(2) by (auto simp: log_ok_def log) (auto simp: demo_events_def seq_upto_def control_event_new_def
          events_file_def demo_store_def event_line_def)
    moreover have "readable_document (demo_console_host st h) demo_text (events_body ''e1'' (demo_events n))"
      using that(2) by (auto simp: readable_document_def demo_console_host_def demo_text_def events_document demo_read_def
          demo_events_def trim_def is_ws_def)
    moreover have "readable_document (demo_console_host st h) demo_text (BDetail (execution_detail_of (demo_snapshot n)))"
      using that(2) detail_status [of "demo_snapshot n"]
      by (auto simp: readable_document_def demo_console_host_def demo_text_def demo_read_def detail_fields_def
          demo_snapshot_def demo_watched_def trim_def is_ws_def demo_execution_def execution_new_def)
    ultimately show ?thesis
      using that(2) by (simp add: watchable_def that(1) demo_load log) (auto simp: demo_events_def)
  qed
  assume "demo_worlds w"
  then show ?thesis using ok [of 1] ok [of 2] by (auto simp: demo_worlds_def)
qed

lemma demo_grows:
  "demo_worlds w \<Longrightarrow> f = (\<lambda>w. w) \<or> f = ch_sleep (demo_console_host st h) 1000 \<Longrightarrow>
    demo_worlds (f w) \<and> prefix (event_log (wd_fs w) ''e1'') (event_log (wd_fs (f w)) ''e1'')"
  by (auto simp: demo_worlds_def demo_console_host_def demo_log) (simp_all add: demo_events_def)

lemma demo_setting: "plain_id ''e1''"
  "ch_exchange (demo_console_host st h) = bridge_exchange best_pattern st demo_text (\<lambda>w. w) (trim_end_matches (CHR ''/'') ''http://b/'')"
  by (simp_all add: plain_id_def demo_console_host_def trim_end_matches_def)

interpretation demo_feed: execution_feed "demo_console_host st h" "''http://b/''" "''e1''" demo_worlds "\<lambda>w. w"
    "\<lambda>w. event_log (wd_fs w) ''e1''" "execution_ended (bs_codec st) ''e1''"
  by (rule bridge_feed [OF best.path_router_axioms demo_setting demo_watchable]) (use demo_grows in blast)+

subsection \<open>Properties\<close>

text \<open>
  C8: Watching an execution through the bridge, while others act on the store during requests and pauses but keep
  the execution loadable and only append to its log: the command returns exactly when some round finds the execution
  completed, failed or canceled; then it succeeds, and it has printed every event of the log as it is at the end,
  once and in order.
\<close>

theorem watch_reports_log:
  fixes h :: "bridge_env console_host" and xid base :: string
  assumes "path_router pick" and "plain_id xid"
    and "ch_exchange h = bridge_exchange pick st json_text others (trim_end_matches (CHR ''/'') base)"
    and "\<And>w. I w \<Longrightarrow> watchable h json_text (bs_codec st) xid w"
    and "\<And>w f. I w \<Longrightarrow> f = others \<or> f = ch_sleep h 1000 \<Longrightarrow>
      I (f w) \<and> prefix (event_log (wd_fs w) xid) (event_log (wd_fs (f w)) xid)"
    and "I (co_world s)"
  shows "(watch_command h base xid s \<noteq> None \<longleftrightarrow>
      (\<exists>n. execution_ended (bs_codec st) xid (others (((\<lambda>w. ch_sleep h 1000 (others (others w))) ^^ n) (co_world s)))))
    \<and> (\<forall>r s'. watch_command h base xid s = Some (r, s') \<longrightarrow> r = Inr () \<and> (\<exists>new. co_out s' = co_out s @ new
        \<and> printed_events new = map (\<lambda>e. event_text e @ [nl]) (event_log (wd_fs (co_world s')) xid)))"
proof -
  have feed: "execution_feed h base xid I others (\<lambda>w. event_log (wd_fs w) xid) (execution_ended (bs_codec st) xid)"
    by (rule bridge_feed [where pick = pick and json_text = json_text, OF assms(1-4)]) (use assms(5) in blast)+
  note turn = execution_feed.turn_def [OF feed, abs_def]
  have ends: "\<exists>s' new. watch_command h base xid s = Some (Inr (), s') \<and> co_out s' = co_out s @ new
      \<and> printed_events new = map (\<lambda>e. event_text e @ [nl]) (event_log (wd_fs (co_world s')) xid)"
    if "execution_ended (bs_codec st) xid (others (((\<lambda>w. ch_sleep h 1000 (others (others w))) ^^ n) (co_world s)))" for n
    using execution_feed.watch_ends [OF feed assms(6), of 0 n "[]"] that by (auto simp: watch_command_def turn)
  moreover have "\<exists>n. execution_ended (bs_codec st) xid (others (((\<lambda>w. ch_sleep h 1000 (others (others w))) ^^ n) (co_world s)))"
    if "watch_command h base xid s = Some r" for r
    using execution_feed.watch_ends_only_then [OF feed that [unfolded watch_command_def], of 0] assms(6) by (simp add: turn)
  ultimately show ?thesis by (metis (no_types, lifting) Pair_inject not_None_eq option.inject)
qed

lemma watch_reports_log_witness:
  "\<forall>st h (w :: bridge_env world) out. \<exists>s' new.
     watch_command (demo_console_host st h) ''http://b/'' ''e1'' \<lparr>co_world = w\<lparr>wd_fs := demo_store 1\<rparr>, co_out = out\<rparr> = Some (Inr (), s')
     \<and> co_out s' = out @ new
     \<and> printed_events new = map (\<lambda>e. event_text e @ [nl]) (event_log (wd_fs (co_world s')) ''e1'')"
proof (intro allI)
  fix st h and w :: "bridge_env world" and out
  let ?h = "demo_console_host st h" and ?s = "\<lparr>co_world = w\<lparr>wd_fs := demo_store 1\<rparr>, co_out = out\<rparr>"
  have "demo_worlds (co_world ?s)" by (simp add: demo_worlds_def)
  then have watch: "(watch_command ?h ''http://b/'' ''e1'' ?s \<noteq> None \<longleftrightarrow>
      (\<exists>n. execution_ended (bs_codec st) ''e1'' (((\<lambda>w. ch_sleep ?h 1000 w) ^^ n) (co_world ?s))))
    \<and> (\<forall>r s'. watch_command ?h ''http://b/'' ''e1'' ?s = Some (r, s') \<longrightarrow> r = Inr () \<and> (\<exists>new. co_out s' = out @ new
        \<and> printed_events new = map (\<lambda>e. event_text e @ [nl]) (event_log (wd_fs (co_world s')) ''e1'')))"
    using watch_reports_log [where I = demo_worlds and others = "\<lambda>w. w" and s = ?s,
        OF best.path_router_axioms demo_setting demo_watchable] demo_grows by simp
  have "execution_ended (bs_codec st) ''e1'' (((\<lambda>w. ch_sleep ?h 1000 w) ^^ 1) (co_world ?s))"
    by (simp add: demo_console_host_def execution_ended_def demo_load demo_snapshot_def demo_watched_def)
  then have "\<exists>n. execution_ended (bs_codec st) ''e1'' (((\<lambda>w. ch_sleep ?h 1000 w) ^^ n) (co_world ?s))" by (rule exI)
  then have "watch_command ?h ''http://b/'' ''e1'' ?s \<noteq> None" using watch by (simp only: simp_thms)
  then obtain r s' where "watch_command ?h ''http://b/'' ''e1'' ?s = Some (r, s')" by fastforce
  with watch show "\<exists>s' new. watch_command ?h ''http://b/'' ''e1'' ?s = Some (Inr (), s') \<and> co_out s' = out @ new
     \<and> printed_events new = map (\<lambda>e. event_text e @ [nl]) (event_log (wd_fs (co_world s')) ''e1'')"
    by fastforce
qed

end
