(* ===== verification/Voidctl_Commands.thy ===== *)
theory Voidctl_Commands
  imports Voidctl_Args Void_Box
begin

text \<open>
  The language of the interactive console of \<open>voidctl\<close> (\<open>src/bin/voidctl.rs\<close>): the commands, their parser, the
  policies that can be named, and the completion of a line.
\<close>

subsection \<open>Words of a line\<close>

text \<open>\<open>str::split_whitespace\<close>\<close>

fun split_whitespace :: "string \<Rightarrow> string list" where
  "split_whitespace [] = []"
| "split_whitespace (c # s) =
     (if is_ws c then split_whitespace s
      else case s of
          [] \<Rightarrow> [[c]]
        | d # _ \<Rightarrow> if is_ws d then [c] # split_whitespace s
            else (case split_whitespace s of [] \<Rightarrow> [[c]] | w # ws \<Rightarrow> (c # w) # ws))"

text \<open>\<open>str::find\<close>: what follows the first occurrence of the pattern.\<close>

fun after_first :: "string \<Rightarrow> string \<Rightarrow> string option" where
  "after_first p [] = (if p = [] then Some [] else None)"
| "after_first p (c # s) = (if starts_with p (c # s) then Some (drop (length p) (c # s)) else after_first p s)"

subsection \<open>Commands\<close>

datatype (plugins only: code size) command =
    CmdRun string "string option" "string option"
  | CmdStatus string
  | CmdEvents string "string option"
  | CmdLogs string bool
  | CmdCancel string string
  | CmdList "string option"
  | CmdWatch string
  | CmdResume string
  | CmdExecutionCreate string
  | CmdExecutionDryRun string
  | CmdExecutionList
  | CmdExecutionStatus string
  | CmdExecutionPause string
  | CmdExecutionResume string
  | CmdExecutionCancel string
  | CmdExecutionPatch string "u32 option" "u32 option"
  | CmdTemplateList
  | CmdTemplateGet string
  | CmdTemplateDryRun string string
  | CmdTemplateExecute string string
  | CmdBatchDryRun string string
  | CmdBatchRun string string
  | CmdTeamDryRun string
  | CmdTeamRun string
  | CmdHelp
  | CmdExit
  | CmdEmpty

subsection \<open>Policies\<close>

definition console_default_policy :: execution_policy where
  "console_default_policy =
     \<lparr>ep_max_parallel_microvms_per_run = 2, ep_max_stage_retries = 1, ep_stage_timeout_secs = 300, ep_cancel_grace_period_secs = 10\<rparr>"

definition policy_from_preset :: "string \<Rightarrow> execution_policy option" where
  "policy_from_preset name =
     (if name = ''fast'' then Some
        \<lparr>ep_max_parallel_microvms_per_run = 4, ep_max_stage_retries = 0, ep_stage_timeout_secs = 120, ep_cancel_grace_period_secs = 5\<rparr>
      else if name = ''balanced'' then Some console_default_policy
      else if name = ''safe'' then Some
        \<lparr>ep_max_parallel_microvms_per_run = 1, ep_max_stage_retries = 2, ep_stage_timeout_secs = 900, ep_cancel_grace_period_secs = 20\<rparr>
      else None)"

text \<open>The limits are read as 64 bits and cut to 32.\<close>

definition parse_policy :: "(string \<Rightarrow> string + json) \<Rightarrow> string option \<Rightarrow> string + execution_policy" where
  "parse_policy read_json raw =
     (case raw of
        None \<Rightarrow> Inr console_default_policy
      | Some t \<Rightarrow>
          (case policy_from_preset (to_ascii_lowercase t) of
             Some p \<Rightarrow> Inr p
           | None \<Rightarrow> map_ok (\<lambda>v.
               \<lparr>ep_max_parallel_microvms_per_run = u32_field v ''max_parallel_microvms_per_run'' 2,
                ep_max_stage_retries = u32_field v ''max_stage_retries'' 1,
                ep_stage_timeout_secs = u32_field v ''stage_timeout_secs'' 300,
                ep_cancel_grace_period_secs = u32_field v ''cancel_grace_period_secs'' 10\<rparr>)
               (map_err (\<lambda>e. ''invalid policy JSON: '' @ e) (read_json t))))"

subsection \<open>The parser\<close>

text \<open>The loops over the options of a command.\<close>

fun run_options :: "string option \<Rightarrow> string option \<Rightarrow> string list \<Rightarrow> string + string option \<times> string option" where
  "run_options run_id policy [] = Inr (run_id, policy)"
| "run_options run_id policy (opt # rest) =
     (if opt = ''--run-id'' then
        (case rest of [] \<Rightarrow> Inl ''missing value for --run-id'' | v # rest \<Rightarrow> run_options (Some v) policy rest)
      else if opt = ''--policy'' then
        (case rest of [] \<Rightarrow> Inl ''missing value for --policy'' | v # rest \<Rightarrow> run_options run_id (Some v) rest)
      else Inl (''unknown /run option '' @ squoted opt))"

fun value_option :: "string \<Rightarrow> string \<Rightarrow> string option \<Rightarrow> string list \<Rightarrow> string + string option" where
  "value_option cmd flag v [] = Inr v"
| "value_option cmd flag v (opt # rest) =
     (if opt = flag then
        (case rest of [] \<Rightarrow> Inl (''missing value for '' @ flag) | x # rest \<Rightarrow> value_option cmd flag (Some x) rest)
      else Inl (''unknown '' @ cmd @ '' option '' @ squoted opt))"

fun follow_option :: "bool \<Rightarrow> string list \<Rightarrow> string + bool" where
  "follow_option follow [] = Inr follow"
| "follow_option follow (opt # rest) =
     (if opt = ''--follow'' then follow_option True rest else Inl (''unknown /logs option '' @ squoted opt))"

fun patch_options :: "u32 option \<Rightarrow> u32 option \<Rightarrow> string list \<Rightarrow> string + u32 option \<times> u32 option" where
  "patch_options iterations concurrent [] = Inr (iterations, concurrent)"
| "patch_options iterations concurrent (opt # rest) =
     (if opt = ''--max-iterations'' then
        (case rest of
           [] \<Rightarrow> Inl ''missing value for --max-iterations''
         | v # rest \<Rightarrow> (case parse_word v of
               Inl _ \<Rightarrow> Inl ''invalid integer for --max-iterations''
             | Inr n \<Rightarrow> patch_options (Some n) concurrent rest))
      else if opt = ''--max-concurrent-candidates'' then
        (case rest of
           [] \<Rightarrow> Inl ''missing value for --max-concurrent-candidates''
         | v # rest \<Rightarrow> (case parse_word v of
               Inl _ \<Rightarrow> Inl ''invalid integer for --max-concurrent-candidates''
             | Inr n \<Rightarrow> patch_options iterations (Some n) rest))
      else Inl (''unknown /execution patch option '' @ squoted opt))"

definition one_word :: "string \<Rightarrow> string list \<Rightarrow> (string \<Rightarrow> command) \<Rightarrow> string + command" where
  "one_word usage words mk = map_ok (\<lambda>(x, _). mk x) (next_arg usage words)"

definition two_words :: "string \<Rightarrow> string list \<Rightarrow> (string \<Rightarrow> string \<Rightarrow> command) \<Rightarrow> string + command" where
  "two_words usage words mk =
     res_bind (next_arg usage words) (\<lambda>(x, words). map_ok (\<lambda>(y, _). mk x y) (next_arg usage words))"

definition patch_usage :: string where
  "patch_usage =
     ''usage: /execution patch <execution_id> [--max-iterations N] [--max-concurrent-candidates N]''"

definition parse_execution_action :: "string list \<Rightarrow> string + command" where
  "parse_execution_action words =
     res_bind (next_arg ''usage: /execution <create|dry-run|list|status> [args]'' words) (\<lambda>(action, words).
       if action = ''create'' then one_word ''usage: /execution create <spec_file>'' words CmdExecutionCreate
       else if action = ''dry-run'' then one_word ''usage: /execution dry-run <spec_file>'' words CmdExecutionDryRun
       else if action = ''list'' then Inr CmdExecutionList
       else if action = ''status'' then one_word ''usage: /execution status <execution_id>'' words CmdExecutionStatus
       else if action = ''pause'' then one_word ''usage: /execution pause <execution_id>'' words CmdExecutionPause
       else if action = ''resume'' then one_word ''usage: /execution resume <execution_id>'' words CmdExecutionResume
       else if action = ''cancel'' then one_word ''usage: /execution cancel <execution_id>'' words CmdExecutionCancel
       else if action = ''patch'' then
         res_bind (next_arg patch_usage words) (\<lambda>(xid, rest).
         res_bind (patch_options None None rest) (\<lambda>(iterations, concurrent).
           if iterations = None \<and> concurrent = None then Inl patch_usage
           else Inr (CmdExecutionPatch xid iterations concurrent)))
       else Inl (''unknown /execution action '' @ squoted action))"

definition parse_template_action :: "string list \<Rightarrow> string + command" where
  "parse_template_action words =
     res_bind (next_arg ''usage: /template <list|get|dry-run|execute> [args]'' words) (\<lambda>(action, words).
       if action = ''list'' then Inr CmdTemplateList
       else if action = ''get'' then one_word ''usage: /template get <template_id>'' words CmdTemplateGet
       else if action = ''dry-run'' then
         two_words ''usage: /template dry-run <template_id> <inputs_file>'' words CmdTemplateDryRun
       else if action = ''execute'' then
         two_words ''usage: /template execute <template_id> <inputs_file>'' words CmdTemplateExecute
       else Inl (''unknown /template action '' @ squoted action))"

definition parse_batch_action :: "string \<Rightarrow> string list \<Rightarrow> string + command" where
  "parse_batch_action alias words =
     res_bind (next_arg (''usage: /'' @ alias @ '' <dry-run|run> <spec_file>'') words) (\<lambda>(action, words).
       if action = ''dry-run'' then
         one_word (''usage: /'' @ alias @ '' dry-run <spec_file>'') words (\<lambda>spec. CmdBatchDryRun spec alias)
       else if action = ''run'' then
         one_word (''usage: /'' @ alias @ '' run <spec_file>'') words (\<lambda>spec. CmdBatchRun spec alias)
       else Inl (''unknown /'' @ alias @ '' action '' @ squoted action))"

definition parse_team_action :: "string list \<Rightarrow> string + command" where
  "parse_team_action words =
     res_bind (next_arg ''usage: /team <dry-run|run> <spec_file>'' words) (\<lambda>(action, words).
       if action = ''dry-run'' then one_word ''usage: /team dry-run <spec_file>'' words CmdTeamDryRun
       else if action = ''run'' then one_word ''usage: /team run <spec_file>'' words CmdTeamRun
       else Inl (''unknown /team action '' @ squoted action))"

text \<open>The reason of a cancellation is whatever follows the first \<^verbatim>\<open>--reason\<close> of the line.\<close>

definition cancel_reason :: "string \<Rightarrow> string" where
  "cancel_reason line = (case after_first ''--reason'' line of None \<Rightarrow> ''user requested'' | Some r \<Rightarrow> trim r)"

definition parse_head :: "string \<Rightarrow> string \<Rightarrow> string list \<Rightarrow> string + command" where
  "parse_head line head words =
     (if head = ''/run'' then
        res_bind (next_arg ''usage: /run <spec_file> [--run-id <id>] [--policy <preset|json>]'' words) (\<lambda>(spec, rest).
          map_ok (\<lambda>(run_id, policy). CmdRun spec run_id policy) (run_options None None rest))
      else if head = ''/status'' then one_word ''usage: /status <run_id>'' words CmdStatus
      else if head = ''/events'' then
        res_bind (next_arg ''usage: /events <run_id> [--from <event_id>]'' words) (\<lambda>(run_id, rest).
          map_ok (CmdEvents run_id) (value_option ''/events'' ''--from'' None rest))
      else if head = ''/logs'' then
        res_bind (next_arg ''usage: /logs <run_id> [--follow]'' words) (\<lambda>(run_id, rest).
          map_ok (CmdLogs run_id) (follow_option False rest))
      else if head = ''/cancel'' then
        one_word ''usage: /cancel <run_id> [--reason <text>]'' words (\<lambda>run_id. CmdCancel run_id (cancel_reason line))
      else if head = ''/list'' then map_ok CmdList (value_option ''/list'' ''--state'' None words)
      else if head = ''/watch'' then one_word ''usage: /watch <run_id>'' words CmdWatch
      else if head = ''/resume'' then one_word ''usage: /resume <run_id>'' words CmdResume
      else if head = ''/execution'' then parse_execution_action words
      else if head = ''/template'' then parse_template_action words
      else if head \<in> {''/batch'', ''/yolo''} then parse_batch_action (dropWhile ((=) (CHR ''/'')) head) words
      else if head = ''/team'' then parse_team_action words
      else if head = ''/help'' then Inr CmdHelp
      else if head \<in> {''/exit'', ''/quit''} then Inr CmdExit
      else Inl (''unknown command '' @ squoted head))"

definition parse_command :: "string \<Rightarrow> string + command" where
  "parse_command raw =
     (let line = trim raw in
      if line = [] then Inr CmdEmpty
      else if \<not> starts_with ''/'' line then Inl (''commands must start with '' @ squoted ''/'')
      else case split_whitespace line of
          [] \<Rightarrow> parse_head line [] []
        | head # words \<Rightarrow> parse_head line head words)"

subsection \<open>Completion\<close>

definition command_candidates :: "string list" where
  "command_candidates =
     [''/run'', ''/status'', ''/events'', ''/logs'', ''/cancel'', ''/list'', ''/watch'', ''/resume'', ''/execution'',
      ''/template'', ''/batch'', ''/yolo'', ''/team'', ''/help'', ''/exit'']"

definition completion_options :: "string \<Rightarrow> string list \<Rightarrow> string list" where
  "completion_options cmd tokens =
     (if cmd = ''/run'' then
        [''--run-id'', ''--policy''] @ (if ''--policy'' \<in> set tokens then [''fast'', ''balanced'', ''safe''] else [])
      else if cmd = ''/execution'' then
        [''create'', ''dry-run'', ''list'', ''status'', ''pause'', ''resume'', ''cancel'', ''patch'']
      else if cmd = ''/template'' then [''list'', ''get'', ''dry-run'', ''execute'']
      else if cmd \<in> {''/batch'', ''/yolo''} then [''dry-run'', ''run'']
      else if cmd = ''/team'' then [''dry-run'', ''run'']
      else if cmd = ''/events'' then [''--from'']
      else if cmd = ''/logs'' then [''--follow'']
      else if cmd = ''/cancel'' then [''--reason'']
      else if cmd = ''/list'' then
        ''--state'' # (if ''--state'' \<in> set tokens then [''active'', ''terminal''] else [])
      else [])"

text \<open>Where the replacement starts, and the replacements, for a line with the cursor at a position.\<close>

definition complete_line :: "string \<Rightarrow> nat \<Rightarrow> nat \<times> string list" where
  "complete_line line pos =
     (let safe_pos = min pos (length line); front = take safe_pos line; tokens = split_whitespace front in
      case tokens of
        [] \<Rightarrow> (0, command_candidates)
      | cmd # others \<Rightarrow>
          if others = [] \<and> \<not> ends_with '' '' front
          then (0, filter (starts_with cmd) command_candidates)
          else (let current = (if ends_with '' '' front then [] else last tokens) in
            (safe_pos - length current, filter (starts_with current) (completion_options cmd tokens))))"

subsection \<open>Words\<close>

definition plain_word :: "string \<Rightarrow> bool" where
  "plain_word w = (w \<noteq> [] \<and> (\<forall>c \<in> set w. \<not> is_ws c))"

lemma split_whitespace_plain:
  assumes "plain_word w"
  shows "split_whitespace w = [w]" and "is_ws c \<Longrightarrow> split_whitespace (w @ c # s) = w # split_whitespace s"
proof -
  have "(\<forall>c \<in> set w. \<not> is_ws c) \<Longrightarrow> w \<noteq> [] \<Longrightarrow> split_whitespace w = [w] \<and>
      (is_ws c \<longrightarrow> split_whitespace (w @ c # s) = w # split_whitespace s)"
  proof (induction w)
    case (Cons a w)
    then show ?case by (cases w) auto
  qed simp
  with assms show "split_whitespace w = [w]" "is_ws c \<Longrightarrow> split_whitespace (w @ c # s) = w # split_whitespace s"
    by (auto simp: plain_word_def)
qed

lemma is_ws_space [simp]: "is_ws (CHR '' '')"
  by (simp add: is_ws_def)

lemma split_whitespace_join: "list_all plain_word ws \<Longrightarrow> split_whitespace (join_with '' '' ws) = ws"
proof (induction ws rule: induct_list012)
  case (3 x y zs)
  then show ?case using split_whitespace_plain(2) [of x "CHR '' ''" "join_with '' '' (y # zs)"] by simp
qed (simp_all add: split_whitespace_plain)

text \<open>A text without white space at its ends.\<close>

lemma trim_tight: "s \<noteq> [] \<Longrightarrow> \<not> is_ws (hd s) \<Longrightarrow> \<not> is_ws (last s) \<Longrightarrow> trim s = s"
proof -
  assume s: "s \<noteq> []" "\<not> is_ws (hd s)" "\<not> is_ws (last s)"
  have "dropWhile is_ws s = s" using s(1,2) by (cases s) simp_all
  moreover have "dropWhile is_ws (rev s) = rev s" using s(1,3) by (cases s rule: rev_cases) simp_all
  ultimately show ?thesis by (simp add: trim_def)
qed

lemma join_ends:
  "list_all plain_word ws \<Longrightarrow> ws \<noteq> [] \<Longrightarrow> join_with '' '' ws \<noteq> [] \<and> hd (join_with '' '' ws) = hd (hd ws)
     \<and> last (join_with '' '' ws) = last (last ws)"
  by (induction ws rule: induct_list012) (auto simp: plain_word_def)

lemma trim_join: "list_all plain_word ws \<Longrightarrow> trim (join_with '' '' ws) = join_with '' '' ws"
proof (cases "ws = []")
  case False
  assume plain: "list_all plain_word ws"
  then have "plain_word (hd ws)" "plain_word (last ws)" using False by (auto simp: list_all_iff)
  then show ?thesis
    using join_ends [OF plain False] by (intro trim_tight) (auto simp: plain_word_def)
qed (simp add: trim_def)

subsection \<open>Writing a command\<close>

definition opt_words :: "string \<Rightarrow> string option \<Rightarrow> string list" where
  "opt_words flag v = (case v of None \<Rightarrow> [] | Some x \<Rightarrow> [flag, x])"

fun command_words :: "command \<Rightarrow> string list" where
  "command_words (CmdRun spec run_id policy) =
     [''/run'', spec] @ opt_words ''--run-id'' run_id @ opt_words ''--policy'' policy"
| "command_words (CmdStatus r) = [''/status'', r]"
| "command_words (CmdEvents r f) = [''/events'', r] @ opt_words ''--from'' f"
| "command_words (CmdLogs r follow) = [''/logs'', r] @ (if follow then [''--follow''] else [])"
| "command_words (CmdCancel r reason) = [''/cancel'', r, ''--reason'']"
| "command_words (CmdList f) = ''/list'' # opt_words ''--state'' f"
| "command_words (CmdWatch r) = [''/watch'', r]"
| "command_words (CmdResume r) = [''/resume'', r]"
| "command_words (CmdExecutionCreate s) = [''/execution'', ''create'', s]"
| "command_words (CmdExecutionDryRun s) = [''/execution'', ''dry-run'', s]"
| "command_words CmdExecutionList = [''/execution'', ''list'']"
| "command_words (CmdExecutionStatus x) = [''/execution'', ''status'', x]"
| "command_words (CmdExecutionPause x) = [''/execution'', ''pause'', x]"
| "command_words (CmdExecutionResume x) = [''/execution'', ''resume'', x]"
| "command_words (CmdExecutionCancel x) = [''/execution'', ''cancel'', x]"
| "command_words (CmdExecutionPatch x i c) = [''/execution'', ''patch'', x]
     @ opt_words ''--max-iterations'' (map_option word_to_string i)
     @ opt_words ''--max-concurrent-candidates'' (map_option word_to_string c)"
| "command_words CmdTemplateList = [''/template'', ''list'']"
| "command_words (CmdTemplateGet t) = [''/template'', ''get'', t]"
| "command_words (CmdTemplateDryRun t f) = [''/template'', ''dry-run'', t, f]"
| "command_words (CmdTemplateExecute t f) = [''/template'', ''execute'', t, f]"
| "command_words (CmdBatchDryRun s alias) = [''/'' @ alias, ''dry-run'', s]"
| "command_words (CmdBatchRun s alias) = [''/'' @ alias, ''run'', s]"
| "command_words (CmdTeamDryRun s) = [''/team'', ''dry-run'', s]"
| "command_words (CmdTeamRun s) = [''/team'', ''run'', s]"
| "command_words CmdHelp = [''/help'']"
| "command_words CmdExit = [''/exit'']"
| "command_words CmdEmpty = []"

fun command_text :: "command \<Rightarrow> string" where
  "command_text (CmdCancel r reason) =
     join_with '' '' (command_words (CmdCancel r reason)) @ (if reason = [] then [] else '' '' @ reason)"
| "command_text c = join_with '' '' (command_words c)"

text \<open>
  What can be written: operands are single words, an alias is one of the two, a patch changes something, the
  reason has no outer white space and the id of a run to cancel does not contain \<^verbatim>\<open>--reason\<close>.
\<close>

fun command_ok :: "command \<Rightarrow> bool" where
  "command_ok (CmdCancel r reason) = (plain_word r \<and> \<not> contains_str ''--reason'' r \<and> trim reason = reason)"
| "command_ok (CmdExecutionPatch x i c) = (plain_word x \<and> (i \<noteq> None \<or> c \<noteq> None))"
| "command_ok (CmdBatchDryRun s alias) = (plain_word s \<and> alias \<in> {''batch'', ''yolo''})"
| "command_ok (CmdBatchRun s alias) = (plain_word s \<and> alias \<in> {''batch'', ''yolo''})"
| "command_ok c = list_all plain_word (command_words c)"

text \<open>
  The white space of \<^verbatim>\<open>char::is_whitespace\<close> outside ASCII, in UTF-8: U+0085, U+00A0, U+1680, U+2000 to U+200A,
  U+2028, U+2029, U+202F, U+205F and U+3000. A line without any of them is split and trimmed the same by the
  definitions here, which know the white space of ASCII, and by the language.
\<close>

definition wide_spaces :: "string list" where
  "wide_spaces = [[CHR 0xC2, CHR 0x85], [CHR 0xC2, CHR 0xA0], [CHR 0xE1, CHR 0x9A, CHR 0x80],
     [CHR 0xE2, CHR 0x81, CHR 0x9F], [CHR 0xE3, CHR 0x80, CHR 0x80]]
     @ map (\<lambda>c. [CHR 0xE2, CHR 0x80, c])
         [CHR 0x80, CHR 0x81, CHR 0x82, CHR 0x83, CHR 0x84, CHR 0x85, CHR 0x86, CHR 0x87, CHR 0x88, CHR 0x89,
          CHR 0x8A, CHR 0xA8, CHR 0xA9, CHR 0xAF]"

definition ascii_spaced :: "string \<Rightarrow> bool" where
  "ascii_spaced s = list_all (\<lambda>w. \<not> contains_str w s) wide_spaces"

lemma plain_word_number [simp]: "plain_word (word_to_string w)"
proof -
  have "\<not> is_ws c" if "c \<in> set (nat_to_string n)" for c n
    using nat_to_string_chars [OF that] digit_char_ne by blast
  then show ?thesis by (auto simp: plain_word_def word_to_string_def)
qed

lemma parse_command_words:
  assumes "list_all plain_word (head # words)" and "starts_with ''/'' head"
  shows "parse_command (join_with '' '' (head # words)) = parse_head (join_with '' '' (head # words)) head words"
proof -
  let ?line = "join_with '' '' (head # words)"
  have "?line \<noteq> [] \<and> hd ?line = CHR ''/''"
    using join_ends [OF assms(1)] assms(2) by (cases head) (auto simp: starts_with_def)
  then have "starts_with ''/'' ?line" by (cases ?line) (auto simp: starts_with_def)
  with \<open>?line \<noteq> [] \<and> _\<close> show ?thesis
    by (simp add: parse_command_def trim_join [OF assms(1)] split_whitespace_join [OF assms(1)] Let_def)
qed

subsection \<open>Reasons\<close>

lemma after_first_here: "p \<noteq> [] \<Longrightarrow> after_first p (p @ r) = Some r"
  by (cases p) (simp_all add: starts_with_def)

lemma after_first_sep:
  assumes "p \<noteq> []" and "c \<notin> set p" and "\<not> contains_str p a"
  shows "after_first p (a @ c # p @ r) = Some r"
  using assms(3)
proof (induction a)
  case Nil
  have "\<not> starts_with p (c # p @ r)" using assms(1,2) by (cases p) (auto simp: starts_with_def)
  then show ?case using after_first_here [OF assms(1)] by simp
next
  case (Cons x a)
  then show ?case using starts_with_sep [OF assms(2), of "x # a" "p @ r"] by simp
qed

lemma tight_ends: "trim s = s \<Longrightarrow> s \<noteq> [] \<Longrightarrow> \<not> is_ws (last s)"
proof -
  assume s: "trim s = s" "s \<noteq> []"
  let ?r = "dropWhile is_ws (rev (dropWhile is_ws s))"
  have "?r = rev s" using s(1) by (metis trim_def rev_rev_ident)
  then have "\<not> is_ws (hd (rev s))" using s(2) by (metis hd_dropWhile rev_is_Nil_conv)
  then show ?thesis using s(2) by (simp add: hd_rev)
qed

lemma parse_cancel:
  assumes "plain_word r" and "\<not> contains_str ''--reason'' r" and "trim reason = reason"
  shows "parse_command (command_text (CmdCancel r reason)) = Inr (CmdCancel r reason)"
proof -
  define rest where "rest = (if reason = [] then [] else '' '' @ reason)"
  define line where "line = (''/cancel '' @ r) @ CHR '' '' # ''--reason'' @ rest"
  have shown: "command_text (CmdCancel r reason) = line" by (simp add: line_def rest_def)
  have "\<not> is_ws (last line)"
    using tight_ends [OF assms(3)] by (simp add: line_def rest_def is_ws_def)
  then have trimmed: "trim line = line" by (intro trim_tight) (simp_all add: line_def is_ws_def)
  have "\<not> contains_str ''--reason'' (''/cancel'' @ CHR '' '' # r)"
    using assms(2) by (subst contains_str_sep) (simp_all add: starts_with_def)
  then have "\<not> contains_str ''--reason'' (''/cancel '' @ r)" by (simp del: contains_str.simps)
  then have "after_first ''--reason'' line = Some rest" unfolding line_def by (intro after_first_sep) simp_all
  moreover have "trim rest = reason"
    using assms(3) by (simp add: rest_def trim_def is_ws_def)
  ultimately have reason: "cancel_reason line = reason" by (simp add: cancel_reason_def)
  have "line = ''/cancel'' @ CHR '' '' # (r @ CHR '' '' # (''--reason'' @ rest))" by (simp add: line_def)
  then have "\<exists>words. split_whitespace line = ''/cancel'' # r # words"
    using split_whitespace_plain(2) [of "''/cancel''" "CHR '' ''"] split_whitespace_plain(2) [OF assms(1), of "CHR '' ''"]
    by (simp add: plain_word_def is_ws_def del: split_whitespace.simps)
  then show ?thesis
    unfolding shown by (auto simp: parse_command_def trimmed parse_head_def one_word_def reason)
      (simp_all add: line_def starts_with_def)
qed

lemma read_options [simp]:
  "run_options None None (opt_words ''--run-id'' a @ opt_words ''--policy'' b) = Inr (a, b)"
  "value_option cmd flag None (opt_words flag a) = Inr a"
  "patch_options None None (opt_words ''--max-iterations'' (map_option word_to_string m)
     @ opt_words ''--max-concurrent-candidates'' (map_option word_to_string n)) = Inr (m, n)"
  by (cases a; cases b; cases m; cases n; simp add: opt_words_def)+

lemma plain_word_Cons: "plain_word (c # s) \<longleftrightarrow> \<not> is_ws c \<and> (s = [] \<or> plain_word s)"
  by (auto simp: plain_word_def)

lemma command_words_plain: "command_ok c \<Longrightarrow> list_all plain_word (command_words c)"
proof (cases c)
  case (CmdExecutionPatch x m n)
  assume "command_ok c"
  with CmdExecutionPatch show ?thesis by (cases m; cases n) (simp_all add: opt_words_def plain_word_Cons is_ws_def)
qed (auto simp: plain_word_Cons is_ws_def)

lemma command_words_head: "command_words c = head # words \<Longrightarrow> starts_with ''/'' head"
  by (cases c) (auto simp: starts_with_def)

text \<open>The branches of the parser, by head and action.\<close>

lemmas parse_heads [simp] =
  parse_head_def [where head = "''/run''", simplified]
  parse_head_def [where head = "''/status''", simplified]
  parse_head_def [where head = "''/events''", simplified]
  parse_head_def [where head = "''/logs''", simplified]
  parse_head_def [where head = "''/cancel''", simplified]
  parse_head_def [where head = "''/list''", simplified]
  parse_head_def [where head = "''/watch''", simplified]
  parse_head_def [where head = "''/resume''", simplified]
  parse_head_def [where head = "''/execution''", simplified]
  parse_head_def [where head = "''/template''", simplified]
  parse_head_def [where head = "''/batch''", simplified]
  parse_head_def [where head = "''/yolo''", simplified]
  parse_head_def [where head = "''/team''", simplified]
  parse_head_def [where head = "''/help''", simplified]
  parse_head_def [where head = "''/exit''", simplified]

lemmas execution_actions [simp] =
  parse_execution_action_def [where words = "''create'' # ws" for ws, simplified]
  parse_execution_action_def [where words = "''dry-run'' # ws" for ws, simplified]
  parse_execution_action_def [where words = "''list'' # ws" for ws, simplified]
  parse_execution_action_def [where words = "''status'' # ws" for ws, simplified]
  parse_execution_action_def [where words = "''pause'' # ws" for ws, simplified]
  parse_execution_action_def [where words = "''resume'' # ws" for ws, simplified]
  parse_execution_action_def [where words = "''cancel'' # ws" for ws, simplified]
  parse_execution_action_def [where words = "''patch'' # ws" for ws, simplified]

lemmas template_actions [simp] =
  parse_template_action_def [where words = "''list'' # ws" for ws, simplified]
  parse_template_action_def [where words = "''get'' # ws" for ws, simplified]
  parse_template_action_def [where words = "''dry-run'' # ws" for ws, simplified]
  parse_template_action_def [where words = "''execute'' # ws" for ws, simplified]

lemmas batch_actions [simp] =
  parse_batch_action_def [where words = "''dry-run'' # ws" for ws, simplified]
  parse_batch_action_def [where words = "''run'' # ws" for ws, simplified]

lemmas team_actions [simp] =
  parse_team_action_def [where words = "''dry-run'' # ws" for ws, simplified]
  parse_team_action_def [where words = "''run'' # ws" for ws, simplified]

lemma parse_written_head:
  assumes "command_ok c" and "command_words c = head # words" and "\<nexists>r reason. c = CmdCancel r reason"
  shows "parse_head line head words = Inr c"
proof (cases c)
  case (CmdExecutionPatch x m n)
  then have "head = ''/execution''" "words = ''patch'' # x # opt_words ''--max-iterations'' (map_option word_to_string m)
      @ opt_words ''--max-concurrent-candidates'' (map_option word_to_string n)" "\<not> (m = None \<and> n = None)"
    using assms by simp_all
  then show ?thesis using CmdExecutionPatch by simp
qed (use assms in \<open>auto simp: one_word_def two_words_def\<close>)

subsection \<open>Properties\<close>

text \<open>
  C38: The console reads back every command that can be written in its language: operands that are single
  words, options in any combination, numbers at their width, both aliases of a batch, and the reason of a
  cancellation with all its inner white space, if the reason has none at its ends and the id of the run does not
  contain \<^verbatim>\<open>--reason\<close> itself. The white space of the line is that of ASCII.
\<close>

theorem console_command_roundtrip:
  assumes "command_ok c" and "ascii_spaced (command_text c)"
  shows "parse_command (command_text c) = Inr c"
proof -
  consider r reason where "c = CmdCancel r reason" | "c = CmdEmpty"
    | head words where "command_words c = head # words" "\<nexists>r reason. c = CmdCancel r reason"
    by (cases c) auto
  then show ?thesis
  proof cases
    case 1
    then show ?thesis using assms(1) parse_cancel by simp
  next
    case 2
    then show ?thesis by (simp add: parse_command_def trim_def)
  next
    case (3 head words)
    have "command_text c = join_with '' '' (head # words)" using 3 by (cases c) auto
    then show ?thesis
      using parse_command_words [of head words] command_words_plain [OF assms(1)] command_words_head [OF 3(1)]
        parse_written_head [OF assms(1) 3] 3(1) by simp
  qed
qed

lemma console_command_roundtrip_witness:
  "parse_command ''/cancel run-1 --reason took too  long'' = Inr (CmdCancel ''run-1'' ''took too  long'')"
  using console_command_roundtrip [of "CmdCancel ''run-1'' ''took too  long''"]
  by (simp add: plain_word_def is_ws_def trim_def starts_with_def ascii_spaced_def wide_spaces_def)

text \<open>
  What cannot be written: a run id that contains the option is cut, and a policy with white space, as printed JSON
  mostly has, is taken for several words.
\<close>

lemma console_words_lost:
  "parse_command ''/cancel a--reason-b'' = Inr (CmdCancel ''a--reason-b'' ''-b'')"
  "parse_command ''/run spec.yaml --policy { }'' = Inl (''unknown /run option '' @ squoted ''}'')"
  by (simp_all add: parse_command_def trim_def is_ws_def starts_with_def parse_head_def one_word_def cancel_reason_def
      squoted_def)

text \<open>Every command that completion offers is one the parser knows.\<close>

lemma offered_commands_known:
  "cmd \<in> set command_candidates \<Longrightarrow> parse_command cmd \<noteq> Inl (''unknown command '' @ squoted cmd)"
  by (simp only: command_candidates_def list.set insert_iff empty_iff)
    (elim disjE FalseE; simp add: parse_command_def trim_def is_ws_def starts_with_def one_word_def parse_execution_action_def
      Let_def parse_template_action_def parse_batch_action_def parse_team_action_def)

end
