(* ===== verification/Voidctl_Console.thy ===== *)
theory Voidctl_Console
  imports Voidctl_Commands Voidctl_Run
begin

text \<open>
  The interactive console of \<open>voidctl\<close> (\<open>run\<close> in \<open>src/bin/voidctl.rs\<close>): what it prints, its session, the streaming
  of a run, the effect of every command, and the loop over the lines that are typed. The client of the daemon is
  the one of \<open>void_box.rs\<close>; streaming may run forever, so its value is an option, and so is that of the loop.
\<close>

subsection \<open>Texts\<close>

definition help_text :: string where
  "help_text = join_with [nl]
     [''Commands:'',
      ''  /run <spec_file> [--run-id <id>] [--policy <preset|json>]'',
      ''  /status <run_id>'',
      ''  /events <run_id> [--from <event_id>]'',
      ''  /logs <run_id> [--follow]'',
      ''  /cancel <run_id> [--reason <text>]'',
      ''  /list [--state active|terminal]'',
      ''  /watch <run_id>'',
      ''  /resume <run_id>'',
      ''  /execution create <spec_file>'',
      ''  /execution dry-run <spec_file>'',
      ''  /execution list'',
      ''  /execution status <execution_id>'',
      ''  /execution pause <execution_id>'',
      ''  /execution resume <execution_id>'',
      ''  /execution cancel <execution_id>'',
      ''  /execution patch <execution_id> [--max-iterations N] [--max-concurrent-candidates N]'',
      ''  /template list'',
      ''  /template get <template_id>'',
      ''  /template dry-run <template_id> <inputs_json_file>'',
      ''  /template execute <template_id> <inputs_json_file>'',
      ''  /batch dry-run <spec_file>'',
      ''  /batch run <spec_file>'',
      ''  /yolo dry-run <spec_file>'',
      ''  /yolo run <spec_file>'',
      ''  /team dry-run <spec_file>'',
      ''  /team run <spec_file>'',
      ''  /help'',
      ''  /exit'',
      [],
      ''Policy presets: fast | balanced | safe'']"

text \<open>The logo, with a percent sign for every backslash.\<close>

definition default_logo :: string where
  "default_logo = map (\<lambda>c. if c = CHR ''%'' then CHR 0x5C else c) (join_with [nl]
     [[],
      '' _    __      _     __     ______            __             __'',
      ''| |  / /___  (_)___/ /    / ____/___  ____  / /__________  / /'',
      ''| | / / __ %/ / __  /    / /   / __ %/ __ %/ __/ ___/ __ %/ /'',
      ''| |/ / /_/ / / /_/ /    / /___/ /_/ / / / / /_/ /  / /_/ / /'',
      ''|___/%____/_/%__,_/     %____/%____/_/ /_/%__/_/   %____/_/'',
      []])"

definition load_logo :: "host \<Rightarrow> string" where
  "load_logo h =
     (case ht_env h ''VOID_CONTROL_LOGO_PATH'' of
        None \<Rightarrow> default_logo
      | Some path \<Rightarrow> (case ht_read h path of Inl _ \<Rightarrow> default_logo | Inr content \<Rightarrow> content))"

text \<open>A terminal escape sequence: the character \<^verbatim>\<open>ESC\<close> and the rest.\<close>

definition escape_code :: "string \<Rightarrow> string" where
  "escape_code t = CHR 0x1B # t"

definition clear_line :: string where
  "clear_line = cr # escape_code ''[2K''"

fun state_color :: "run_state \<Rightarrow> string" where
  "state_color RsRunning = escape_code ''[34m''"
| "state_color RsStarting = escape_code ''[34m''"
| "state_color RsPending = escape_code ''[34m''"
| "state_color RsSucceeded = escape_code ''[32m''"
| "state_color RsFailed = escape_code ''[31m''"
| "state_color RsCanceled = escape_code ''[90m''"

definition reset_color :: string where
  "reset_color = escape_code ''[0m''"

text \<open>The format piece \<^verbatim>\<open>{:?}\<close> for the enumerations and for a map of strings.\<close>

fun run_state_name :: "run_state \<Rightarrow> string" where
  "run_state_name RsPending = ''Pending''"
| "run_state_name RsStarting = ''Starting''"
| "run_state_name RsRunning = ''Running''"
| "run_state_name RsSucceeded = ''Succeeded''"
| "run_state_name RsFailed = ''Failed''"
| "run_state_name RsCanceled = ''Canceled''"

fun event_type_name :: "event_type \<Rightarrow> string" where
  "event_type_name RunStarted = ''RunStarted''"
| "event_type_name StageStarted = ''StageStarted''"
| "event_type_name StageCompleted = ''StageCompleted''"
| "event_type_name StageFailed = ''StageFailed''"
| "event_type_name MicroVmSpawned = ''MicroVmSpawned''"
| "event_type_name MicroVmExited = ''MicroVmExited''"
| "event_type_name RunCompleted = ''RunCompleted''"
| "event_type_name RunFailed = ''RunFailed''"
| "event_type_name RunCanceled = ''RunCanceled''"

fun error_code_name :: "contract_error_code \<Rightarrow> string" where
  "error_code_name InvalidSpec = ''InvalidSpec''"
| "error_code_name InvalidPolicy = ''InvalidPolicy''"
| "error_code_name CodeNotFound = ''NotFound''"
| "error_code_name AlreadyTerminal = ''AlreadyTerminal''"
| "error_code_name ResourceLimitExceeded = ''ResourceLimitExceeded''"
| "error_code_name StructuredOutputMissing = ''StructuredOutputMissing''"
| "error_code_name StructuredOutputMalformed = ''StructuredOutputMalformed''"
| "error_code_name ArtifactNotFound = ''ArtifactNotFound''"
| "error_code_name ArtifactPublicationIncomplete = ''ArtifactPublicationIncomplete''"
| "error_code_name ArtifactStoreUnavailable = ''ArtifactStoreUnavailable''"
| "error_code_name RetrievalTimeout = ''RetrievalTimeout''"
| "error_code_name InternalError = ''InternalError''"

definition debug_map :: "(string, string) btree \<Rightarrow> string" where
  "debug_map m = ''{'' @ join_with '', '' (map (\<lambda>(k, v). debug_string k @ '': '' @ debug_string v) m) @ ''}''"

definition print_event :: "event_envelope \<Rightarrow> string" where
  "print_event e =
     ''['' @ ev_timestamp e @ ''][seq='' @ word_to_string (ev_seq e) @ '']['' @ event_type_name (ev_event_type e)
     @ ''][run='' @ ev_run_id e @ ''] '' @ (if ev_payload e = [] then [] else debug_map (ev_payload e)) @ [nl]"

definition print_event_live :: "event_envelope \<Rightarrow> string list" where
  "print_event_live e = [clear_line, print_event e]"

definition print_contract_error :: "contract_error \<Rightarrow> string list" where
  "print_contract_error e =
     (''error: code='' @ error_code_name (ce_code e) @ '' retryable='' @ bool_to_string (ce_retryable e)
        @ '' message='' @ ce_message e)
     # (if ce_code e = CodeNotFound then [''hint: use /list to discover available runs'']
        else if ce_code e = AlreadyTerminal then [''hint: run is terminal, use /status or /events'']
        else if ce_code e = InvalidPolicy then [''hint: use /run ... --policy balanced|fast|safe'']
        else [])"

definition status_line :: "runtime_inspection \<Rightarrow> string" where
  "status_line i =
     state_color (ri_state i) @ pairs_line
       [(''run_id'', ri_run_id i), (''attempt'', word_to_string (ri_attempt_id i)),
        (''state'', run_state_name (ri_state i)), (''active_stage_count'', word_to_string (ri_active_stage_count i)),
        (''active_microvm_count'', word_to_string (ri_active_microvm_count i))] @ reset_color"

definition format_status_bar :: "runtime_inspection \<Rightarrow> string option \<Rightarrow> string" where
  "format_status_bar i last_event_id =
     ''['' @ pairs_line
       [(''run'', ri_run_id i), (''attempt'', word_to_string (ri_attempt_id i)), (''state'', run_state_name (ri_state i)),
        (''stages'', word_to_string (ri_active_stage_count i)), (''microvms'', word_to_string (ri_active_microvm_count i)),
        (''last_event'', case last_event_id of None \<Rightarrow> ''-'' | Some e \<Rightarrow> e)] @ '']''"

subsection \<open>Session\<close>

record console_session =
  cs_last_selected_run :: "string option"
  cs_last_seen :: "(string, string) btree"
  cs_recent_commands :: "string list"

definition session_default :: console_session where
  "session_default = \<lparr>cs_last_selected_run = None, cs_last_seen = [], cs_recent_commands = []\<rparr>"

datatype save_error = CreateDirFailed string | SerializeFailed string | WriteFailed string

record 'e shell_host =
  sh_console :: "'e console_host"
  sh_client :: "'e void_box_client"
  sh_session_of :: "string \<Rightarrow> string + console_session"
  sh_save :: "string \<Rightarrow> console_session \<Rightarrow> ('e, save_error, unit) call"

record 'e shell =
  sl_console :: "'e console"
  sl_session :: console_session

definition session_path :: "host \<Rightarrow> string" where
  "session_path h =
     (case ht_env h ''VOID_CONTROL_SESSION_FILE'' of
        Some custom \<Rightarrow> custom
      | None \<Rightarrow> (case ht_env h ''HOME'' of
            Some home \<Rightarrow> path_join home ''.void-control/session.json''
          | None \<Rightarrow> ''./.void-control-session.json''))"

definition load_session :: "'e shell_host \<Rightarrow> string \<Rightarrow> console_session" where
  "load_session sh path =
     (case ht_read (ch_host (sh_console sh)) path of
        Inl _ \<Rightarrow> session_default
      | Inr content \<Rightarrow> (case sh_session_of sh content of Inl _ \<Rightarrow> session_default | Inr c \<Rightarrow> c))"

fun save_error_text :: "save_error \<Rightarrow> string" where
  "save_error_text (CreateDirFailed e) = ''create session dir failed: '' @ e"
| "save_error_text (SerializeFailed e) = ''serialize session failed: '' @ e"
| "save_error_text (WriteFailed e) = ''write session failed: '' @ e"

text \<open>On the console of a shell.\<close>

definition at_console :: "('e, 'a) cli \<Rightarrow> 'e shell \<Rightarrow> (string + 'a) \<times> 'e shell" where
  "at_console m t = (case m (sl_console t) of (r, s) \<Rightarrow> (r, t\<lparr>sl_console := s\<rparr>))"

definition say :: "string list \<Rightarrow> 'e shell \<Rightarrow> 'e shell" where
  "say ls t = snd (at_console (print_lines ls) t)"

definition say_raw :: "string list \<Rightarrow> 'e shell \<Rightarrow> 'e shell" where
  "say_raw ps t = t\<lparr>sl_console := (sl_console t)\<lparr>co_out := co_out (sl_console t) @ ps\<rparr>\<rparr>"

definition with_world :: "('e, 'x, 'a) call \<Rightarrow> 'e shell \<Rightarrow> ('x + 'a) \<times> 'e shell" where
  "with_world m t =
     (case m (co_world (sl_console t)) of (r, w) \<Rightarrow> (r, t\<lparr>sl_console := (sl_console t)\<lparr>co_world := w\<rparr>\<rparr>))"

definition save_session :: "'e shell_host \<Rightarrow> string \<Rightarrow> 'e shell \<Rightarrow> (string + unit) \<times> 'e shell" where
  "save_session sh path t =
     (case with_world (sh_save sh path (sl_session t)) t of (r, t') \<Rightarrow> (map_err save_error_text r, t'))"

definition select_run :: "string \<Rightarrow> 'e shell \<Rightarrow> 'e shell" where
  "select_run r t = t\<lparr>sl_session := (sl_session t)\<lparr>cs_last_selected_run := Some r\<rparr>\<rparr>"

definition mark_seen :: "string \<Rightarrow> string \<Rightarrow> 'e shell \<Rightarrow> 'e shell" where
  "mark_seen r event_id t =
     t\<lparr>sl_session := (sl_session t)\<lparr>cs_last_seen := bt_insert r event_id (cs_last_seen (sl_session t))\<rparr>\<rparr>"

text \<open>The last event of a batch is remembered; an empty batch leaves what is remembered.\<close>

definition mark_last :: "string \<Rightarrow> event_envelope list \<Rightarrow> 'e shell \<Rightarrow> 'e shell" where
  "mark_last r es t = (if es = [] then t else mark_seen r (ev_event_id (last es)) t)"

definition last_seen :: "string \<Rightarrow> 'e shell \<Rightarrow> string option" where
  "last_seen r t = bt_get (cs_last_seen (sl_session t)) r"

definition run_id_to_handle :: "string \<Rightarrow> string" where
  "run_id_to_handle run_id = ''vb:'' @ run_id"

definition generate_run_id :: "'e shell \<Rightarrow> string" where
  "generate_run_id t = ''run-'' @ word_to_string (wd_now (co_world (sl_console t)))"

subsection \<open>Streaming a run\<close>

definition subscribe :: "'e shell_host \<Rightarrow> string \<Rightarrow> string option \<Rightarrow> 'e shell \<Rightarrow> (contract_error + event_envelope list) \<times> 'e shell" where
  "subscribe sh run_id from =
     with_world (vb_subscribe_events (sh_client sh) \<lparr>se_handle = run_id_to_handle run_id, se_from_event_id = from\<rparr>)"

definition inspect :: "'e shell_host \<Rightarrow> string \<Rightarrow> 'e shell \<Rightarrow> (contract_error + runtime_inspection) \<times> 'e shell" where
  "inspect sh run_id = with_world (vb_inspect (sh_client sh) (run_id_to_handle run_id))"

text \<open>One round; whether the loop goes on.\<close>

definition stream_round :: "'e shell_host \<Rightarrow> string \<Rightarrow> bool \<Rightarrow> bool \<Rightarrow> 'e shell \<Rightarrow> bool \<times> 'e shell" where
  "stream_round sh run_id logs_only show_status t =
     (case subscribe sh run_id (last_seen run_id t) t of
        (Inl e, t) \<Rightarrow> (False, say (print_contract_error e) t)
      | (Inr es, t) \<Rightarrow>
          let t = mark_last run_id es (say_raw (concat (map print_event_live
                (filter (\<lambda>e. \<not> (logs_only \<and> ev_payload e = [])) es))) t) in
          (case inspect sh run_id t of
             (Inl e, t) \<Rightarrow> (False, say (print_contract_error e) t)
           | (Inr i, t) \<Rightarrow>
               let t = (if show_status then say_raw [clear_line @ format_status_bar i (last_seen run_id t)] t else t) in
               if run_state_is_terminal (ri_state i)
               then (False, say [status_line i, ''terminal state reached: '' @ run_state_name (ri_state i)]
                       (say_raw [clear_line] t))
               else (True, t)))"

definition pause_console :: "'e shell_host \<Rightarrow> u64 \<Rightarrow> 'e shell \<Rightarrow> 'e shell" where
  "pause_console sh ms t =
     t\<lparr>sl_console := (sl_console t)\<lparr>co_world := ch_sleep (sh_console sh) ms (co_world (sl_console t))\<rparr>\<rparr>"

partial_function (option) stream_loop ::
    "'e shell_host \<Rightarrow> string \<Rightarrow> bool \<Rightarrow> bool \<Rightarrow> 'e shell \<Rightarrow> 'e shell option" where
  "stream_loop sh run_id logs_only show_status t =
     (case stream_round sh run_id logs_only show_status t of
        (goes_on, t') \<Rightarrow>
          if goes_on then stream_loop sh run_id logs_only show_status (pause_console sh (vb_poll_interval_ms (sh_client sh)) t')
          else Some (say_raw [clear_line] t'))"

definition stream_run :: "'e shell_host \<Rightarrow> string \<Rightarrow> bool \<Rightarrow> bool \<Rightarrow> 'e shell \<Rightarrow> 'e shell option" where
  "stream_run sh run_id logs_only show_status t =
     stream_loop sh run_id logs_only show_status (say [''streaming run='' @ run_id @ '' (Ctrl+C to stop)''] t)"

subsection \<open>Commands\<close>

text \<open>After a command the session is saved, or not, or the console is left.\<close>

datatype after_command = SaveSession | NextLine | LeaveConsole

text \<open>The commands that show an answer of the bridge: whatever its status, or refused ones as an error.\<close>

definition show_answer ::
    "'e shell_host \<Rightarrow> string \<Rightarrow> string \<Rightarrow> string option \<Rightarrow> (json \<Rightarrow> string list) \<Rightarrow> 'e shell \<Rightarrow> after_command \<times> 'e shell" where
  "show_answer sh verb path body show_lines t =
     (let h = sh_console sh in
      case at_console (bridge_request h (bridge_base_url h) verb path body) t of
        (Inl e, t) \<Rightarrow> (SaveSession, say [''error: '' @ e] t)
      | (Inr r, t) \<Rightarrow> (SaveSession, say (show_lines (bj_json r)) t))"

definition show_accepted ::
    "'e shell_host \<Rightarrow> string \<Rightarrow> string \<Rightarrow> string option \<Rightarrow> (json \<Rightarrow> string list) \<Rightarrow> 'e shell \<Rightarrow> after_command \<times> 'e shell" where
  "show_accepted sh verb path body show_lines t =
     (let h = sh_console sh in
      case at_console (bridge_request h (bridge_base_url h) verb path body) t of
        (Inl e, t) \<Rightarrow> (SaveSession, say [''error: '' @ e] t)
      | (Inr r, t) \<Rightarrow>
          if 400 \<le> bj_status r then (NextLine, say [''error: '' @ bridge_error_message r] t)
          else (SaveSession, say (show_lines (bj_json r)) t))"

text \<open>With the text of a file.\<close>

definition with_file :: "string + string \<Rightarrow> (string \<Rightarrow> 'e shell \<Rightarrow> after_command \<times> 'e shell) \<Rightarrow> 'e shell \<Rightarrow> after_command \<times> 'e shell" where
  "with_file r k t = (case r of Inl e \<Rightarrow> (NextLine, say [''error: '' @ e] t) | Inr content \<Rightarrow> k content t)"

definition status_pair_line :: "json \<Rightarrow> string list" where
  "status_pair_line j = [pairs_line [str_pair j ''execution_id'', (''status'', str_or ''unknown'' j ''status'')]]"

definition execution_list_lines :: "json \<Rightarrow> string list" where
  "execution_list_lines j =
     (let xs = array_field j ''executions'' in
      if xs = [] then [''no executions''] else concat (map print_execution_summary xs))"

definition patch_body :: "u32 option \<Rightarrow> u32 option \<Rightarrow> json" where
  "patch_body iterations concurrent =
     (let limit = (\<lambda>n. case n of None \<Rightarrow> JNull | Some k \<Rightarrow> JNum (PosInt (ucast k))) in
      JObj [(''budget'', JObj [(''max_iterations'', limit iterations)]),
            (''concurrency'', JObj [(''max_concurrent_candidates'', limit concurrent)])])"

definition patched_line :: "json \<Rightarrow> string list" where
  "patched_line j = [pairs_line
     [str_pair j ''execution_id'', (''max_iterations'', u64_or_0 (json_get j ''max_iterations'')),
      (''max_concurrent_candidates'', u64_or_0 (json_get j ''max_concurrent_candidates''))]]"

definition start_command :: "'e shell_host \<Rightarrow> string \<Rightarrow> string option \<Rightarrow> string option \<Rightarrow> 'e shell \<Rightarrow> after_command \<times> 'e shell" where
  "start_command sh spec run_id policy t =
     (let r = (case run_id of None \<Rightarrow> generate_run_id t | Some r \<Rightarrow> r) in
      case parse_policy (ch_json (sh_console sh)) policy of
        Inl e \<Rightarrow> (NextLine, say [e] t)
      | Inr p \<Rightarrow>
          (case with_world (vb_start (sh_client sh)
                \<lparr>sr_run_id = r, sr_workflow_spec = spec, sr_launch_context = None, sr_policy = p\<rparr>) t of
             (Inl e, t) \<Rightarrow> (SaveSession, say (print_contract_error e) t)
           | (Inr st, t) \<Rightarrow> (SaveSession, say [''started '' @ pairs_line
               [(''run_id'', r), (''handle'', st_handle st), (''attempt_id'', word_to_string (st_attempt_id st)),
                (''state'', run_state_name (st_state st))]] (select_run r t))))"

definition status_command :: "'e shell_host \<Rightarrow> string \<Rightarrow> 'e shell \<Rightarrow> after_command \<times> 'e shell" where
  "status_command sh run_id t =
     (case inspect sh run_id t of
        (Inl e, t) \<Rightarrow> (SaveSession, say (print_contract_error e) t)
      | (Inr i, t) \<Rightarrow> (SaveSession, say
          ([status_line i, pairs_line [(''started_at'', ri_started_at i), (''updated_at'', ri_updated_at i)]]
           @ (case ri_terminal_reason i of None \<Rightarrow> [] | Some reason \<Rightarrow> [''terminal_reason='' @ reason])
           @ (case ri_exit_code i of None \<Rightarrow> [] | Some code \<Rightarrow> [''exit_code='' @ int_to_string (sint code)]))
          (select_run run_id t)))"

definition run_events_command :: "'e shell_host \<Rightarrow> string \<Rightarrow> string option \<Rightarrow> 'e shell \<Rightarrow> after_command \<times> 'e shell" where
  "run_events_command sh run_id from t =
     (case subscribe sh run_id from t of
        (Inl e, t) \<Rightarrow> (SaveSession, say (print_contract_error e) t)
      | (Inr es, t) \<Rightarrow> (SaveSession, select_run run_id (mark_last run_id es (say_raw (map print_event es) t))))"

definition logs_command :: "'e shell_host \<Rightarrow> string \<Rightarrow> bool \<Rightarrow> 'e shell \<Rightarrow> (after_command \<times> 'e shell) option" where
  "logs_command sh run_id follow t =
     (case subscribe sh run_id (last_seen run_id t) t of
        (Inl e, t) \<Rightarrow> Some (SaveSession, say (print_contract_error e) t)
      | (Inr es, t) \<Rightarrow>
          let t = select_run run_id (mark_last run_id es
                (say_raw (map print_event (filter (\<lambda>e. ev_payload e \<noteq> []) es)) t)) in
          if follow then map_option (Pair SaveSession) (stream_run sh run_id True True t) else Some (SaveSession, t))"

definition cancel_command :: "'e shell_host \<Rightarrow> string \<Rightarrow> string \<Rightarrow> 'e shell \<Rightarrow> after_command \<times> 'e shell" where
  "cancel_command sh run_id reason t =
     (case with_world (vb_stop (sh_client sh) \<lparr>sp_handle = run_id_to_handle run_id, sp_reason = reason\<rparr>) t of
        (Inl e, t) \<Rightarrow> (SaveSession, say (print_contract_error e) t)
      | (Inr st, t) \<Rightarrow> (SaveSession, mark_seen run_id (so_terminal_event_id st) (select_run run_id
          (say [''stopped '' @ pairs_line [(''run_id'', run_id), (''state'', run_state_name (so_state st)),
             (''terminal_event_id'', so_terminal_event_id st)]] t))))"

definition list_command :: "'e shell_host \<Rightarrow> string option \<Rightarrow> 'e shell \<Rightarrow> after_command \<times> 'e shell" where
  "list_command sh state t =
     (case with_world (vb_list_runs (sh_client sh) state) t of
        (Inl e, t) \<Rightarrow> (SaveSession, say (print_contract_error e) t)
      | (Inr runs, t) \<Rightarrow> (SaveSession, say ((''runs='' @ nat_to_string (length runs)) # map status_line runs) t))"

text \<open>The commands on executions, templates, batches and teams; each is one request.\<close>

definition console_create :: "'e shell_host \<Rightarrow> string \<Rightarrow> 'e shell \<Rightarrow> after_command \<times> 'e shell" where
  "console_create sh path = with_file (load_execution_spec_file (sh_console sh) path)
     (\<lambda>content. show_answer sh ''POST'' ''/v1/executions'' (Some content) print_execution_summary)"

definition console_dry_run :: "'e shell_host \<Rightarrow> string \<Rightarrow> 'e shell \<Rightarrow> after_command \<times> 'e shell" where
  "console_dry_run sh path = with_file (load_execution_spec_file (sh_console sh) path)
     (\<lambda>content. show_answer sh ''POST'' ''/v1/executions/dry-run'' (Some content) (\<lambda>j. [dry_run_line j]))"

definition console_executions :: "'e shell_host \<Rightarrow> 'e shell \<Rightarrow> after_command \<times> 'e shell" where
  "console_executions sh = show_answer sh ''GET'' ''/v1/executions'' None execution_list_lines"

definition console_status :: "'e shell_host \<Rightarrow> string \<Rightarrow> 'e shell \<Rightarrow> after_command \<times> 'e shell" where
  "console_status sh x = show_answer sh ''GET'' (execution_path x) None print_execution_summary"

text \<open>The action is pause, resume or cancel.\<close>

definition console_action :: "'e shell_host \<Rightarrow> string \<Rightarrow> string \<Rightarrow> 'e shell \<Rightarrow> after_command \<times> 'e shell" where
  "console_action sh x verb = show_answer sh ''POST'' (execution_path x @ ''/'' @ verb) None status_pair_line"

definition console_patch :: "'e shell_host \<Rightarrow> string \<Rightarrow> u32 option \<Rightarrow> u32 option \<Rightarrow> 'e shell \<Rightarrow> after_command \<times> 'e shell" where
  "console_patch sh x m n =
     show_answer sh ''PATCH'' (execution_path x @ ''/policy'') (Some (ch_json_text (sh_console sh) (patch_body m n))) patched_line"

definition console_templates :: "'e shell_host \<Rightarrow> 'e shell \<Rightarrow> after_command \<times> 'e shell" where
  "console_templates sh = show_accepted sh ''GET'' ''/v1/templates'' None template_list_lines"

definition console_template_get :: "'e shell_host \<Rightarrow> string \<Rightarrow> 'e shell \<Rightarrow> after_command \<times> 'e shell" where
  "console_template_get sh tid = show_accepted sh ''GET'' (template_path tid) None (\<lambda>j. [template_get_line j])"

definition console_template_dry_run :: "'e shell_host \<Rightarrow> string \<Rightarrow> string \<Rightarrow> 'e shell \<Rightarrow> after_command \<times> 'e shell" where
  "console_template_dry_run sh tid inputs = with_file (load_json_input_file (sh_console sh) inputs)
     (\<lambda>body. show_accepted sh ''POST'' (template_path tid @ ''/dry-run'') (Some body)
        (print_template_compilation_summary (ch_json_text (sh_console sh))))"

definition console_template_execute :: "'e shell_host \<Rightarrow> string \<Rightarrow> string \<Rightarrow> 'e shell \<Rightarrow> after_command \<times> 'e shell" where
  "console_template_execute sh tid inputs = with_file (load_json_input_file (sh_console sh) inputs)
     (\<lambda>body. show_accepted sh ''POST'' (template_path tid @ ''/execute'') (Some body) (\<lambda>j. [template_execute_line j]))"

definition console_batch_dry_run :: "'e shell_host \<Rightarrow> string \<Rightarrow> string \<Rightarrow> 'e shell \<Rightarrow> after_command \<times> 'e shell" where
  "console_batch_dry_run sh path alias_name = with_file (load_execution_spec_file (sh_console sh) path)
     (\<lambda>content. show_accepted sh ''POST'' (batch_path alias_name ''dry-run'') (Some content) print_batch_compilation_summary)"

definition console_batch_run :: "'e shell_host \<Rightarrow> string \<Rightarrow> string \<Rightarrow> 'e shell \<Rightarrow> after_command \<times> 'e shell" where
  "console_batch_run sh path alias_name = with_file (load_execution_spec_file (sh_console sh) path)
     (\<lambda>content. show_accepted sh ''POST'' (batch_path alias_name ''run'') (Some content) print_batch_run_summary)"

definition console_team_dry_run :: "'e shell_host \<Rightarrow> string \<Rightarrow> 'e shell \<Rightarrow> after_command \<times> 'e shell" where
  "console_team_dry_run sh path = with_file (load_execution_spec_file (sh_console sh) path)
     (\<lambda>content. show_accepted sh ''POST'' ''/v1/teams/dry-run'' (Some content) print_batch_compilation_summary)"

definition console_team_run :: "'e shell_host \<Rightarrow> string \<Rightarrow> 'e shell \<Rightarrow> after_command \<times> 'e shell" where
  "console_team_run sh path = with_file (load_execution_spec_file (sh_console sh) path)
     (\<lambda>content. show_accepted sh ''POST'' ''/v1/teams/run'' (Some content) (submitted_lines ''execution_id''))"

text \<open>The commands that always return.\<close>

fun direct_command :: "'e shell_host \<Rightarrow> command \<Rightarrow> 'e shell \<Rightarrow> after_command \<times> 'e shell" where
  "direct_command sh (CmdRun spec run_id policy) t = start_command sh spec run_id policy t"
| "direct_command sh (CmdStatus r) t = status_command sh r t"
| "direct_command sh (CmdEvents r from) t = run_events_command sh r from t"
| "direct_command sh (CmdCancel r reason) t = cancel_command sh r reason t"
| "direct_command sh (CmdList state) t = list_command sh state t"
| "direct_command sh (CmdExecutionCreate path) t = console_create sh path t"
| "direct_command sh (CmdExecutionDryRun path) t = console_dry_run sh path t"
| "direct_command sh CmdExecutionList t = console_executions sh t"
| "direct_command sh (CmdExecutionStatus x) t = console_status sh x t"
| "direct_command sh (CmdExecutionPause x) t = console_action sh x ''pause'' t"
| "direct_command sh (CmdExecutionResume x) t = console_action sh x ''resume'' t"
| "direct_command sh (CmdExecutionCancel x) t = console_action sh x ''cancel'' t"
| "direct_command sh (CmdExecutionPatch x m n) t = console_patch sh x m n t"
| "direct_command sh CmdTemplateList t = console_templates sh t"
| "direct_command sh (CmdTemplateGet tid) t = console_template_get sh tid t"
| "direct_command sh (CmdTemplateDryRun tid inputs) t = console_template_dry_run sh tid inputs t"
| "direct_command sh (CmdTemplateExecute tid inputs) t = console_template_execute sh tid inputs t"
| "direct_command sh (CmdBatchDryRun path alias_name) t = console_batch_dry_run sh path alias_name t"
| "direct_command sh (CmdBatchRun path alias_name) t = console_batch_run sh path alias_name t"
| "direct_command sh (CmdTeamDryRun path) t = console_team_dry_run sh path t"
| "direct_command sh (CmdTeamRun path) t = console_team_run sh path t"
| "direct_command sh CmdHelp t = (SaveSession, say [help_text] t)"
| "direct_command sh _ t = (NextLine, t)"

fun run_command :: "'e shell_host \<Rightarrow> string \<Rightarrow> command \<Rightarrow> 'e shell \<Rightarrow> ((string + after_command) \<times> 'e shell) option" where
  "run_command sh path (CmdLogs r follow) t = map_option (apfst Inr) (logs_command sh r follow t)"
| "run_command sh path (CmdWatch r) t =
     map_option (Pair (Inr SaveSession)) (stream_run sh r False True (select_run r t))"
| "run_command sh path (CmdResume r) t =
     map_option (Pair (Inr SaveSession)) (stream_run sh r False True (select_run r t))"
| "run_command sh path CmdExit t =
     (case save_session sh path t of
        (Inl e, t) \<Rightarrow> Some (Inl e, t)
      | (Inr _, t) \<Rightarrow> Some (Inr LeaveConsole, say [''bye''] t))"
| "run_command sh path c t = Some (apfst Inr (direct_command sh c t))"

subsection \<open>The loop\<close>

text \<open>What the line editor gives for one prompt.\<close>

datatype typed_input = Typed string | Interrupted | EndOfInput | InputFailed string

text \<open>The last 200 commands are remembered.\<close>

definition remember :: "string \<Rightarrow> 'e shell \<Rightarrow> 'e shell" where
  "remember line t =
     (if line = [] then t
      else let recent = cs_recent_commands (sl_session t) @ [line] in
        t\<lparr>sl_session := (sl_session t)\<lparr>cs_recent_commands :=
          (if length recent > 200 then drop (length recent - 200) recent else recent)\<rparr>\<rparr>)"

definition shell_line :: "'e shell_host \<Rightarrow> string \<Rightarrow> string \<Rightarrow> 'e shell \<Rightarrow> ((string + after_command) \<times> 'e shell) option" where
  "shell_line sh path line t =
     (let trimmed_line = trim line; t = remember trimmed_line t in
      case parse_command trimmed_line of
        Inl e \<Rightarrow> Some (Inr NextLine, say [e] t)
      | Inr c \<Rightarrow> run_command sh path c t)"

text \<open>The warning for a session that cannot be saved goes to the error stream. Input that is not there ends the console.\<close>

fun shell_loop :: "'e shell_host \<Rightarrow> string \<Rightarrow> typed_input list \<Rightarrow> 'e shell \<Rightarrow> ((string + unit) \<times> 'e shell) option" where
  "shell_loop sh path [] t = Some (Inr (), say [[]] t)"
| "shell_loop sh path (EndOfInput # rest) t = Some (Inr (), say [[]] t)"
| "shell_loop sh path (Interrupted # rest) t = shell_loop sh path rest (say [''^C''] t)"
| "shell_loop sh path (InputFailed e # rest) t = Some (Inl (''stdin read failed: '' @ e), t)"
| "shell_loop sh path (Typed line # rest) t =
     (case shell_line sh path line t of
        None \<Rightarrow> None
      | Some (Inl e, t) \<Rightarrow> Some (Inl e, t)
      | Some (Inr LeaveConsole, t) \<Rightarrow> Some (Inr (), t)
      | Some (Inr NextLine, t) \<Rightarrow> shell_loop sh path rest t
      | Some (Inr SaveSession, t) \<Rightarrow> shell_loop sh path rest (snd (save_session sh path t)))"

definition daemon_base_url :: "'e console_host \<Rightarrow> string" where
  "daemon_base_url h =
     (case ht_env (ch_host h) ''VOID_BOX_BASE_URL'' of None \<Rightarrow> default_unix_url (ch_host h) | Some u \<Rightarrow> u)"

definition interactive_console :: "'e shell_host \<Rightarrow> typed_input list \<Rightarrow> 'e console \<Rightarrow> ((string + unit) \<times> 'e console) option" where
  "interactive_console sh input s =
     (let h = sh_console sh; path = session_path (ch_host h) in
      map_option (apsnd sl_console) (shell_loop sh path input
        (say [load_logo (ch_host h), ''voidctl connected to '' @ daemon_base_url h, help_text]
          \<lparr>sl_console = s, sl_session = load_session sh path\<rparr>)))"

end
