(* ===== verification/Fixture.thy ===== *)
theory Fixture
  imports Launch
begin

text \<open>
  The fixture normalizer (\<open>src/bin/normalize_fixture.rs\<close>): a text format for raw runs of the daemon, its parser
  with an error for every bad line, and the conversion of what was read. A writer of the format gives the
  reference for the parser. Reading a decimal float is the standard library's, a parameter.
\<close>

subsection \<open>Parsing\<close>

text \<open>\<open>str::parse::<i64>\<close>; which error is not looked at.\<close>

definition parse_i64 :: "string \<Rightarrow> i64 option" where
  "parse_i64 s =
     (let negative = (s \<noteq> [] \<and> hd s = CHR ''-'');
          ds = (if s \<noteq> [] \<and> (hd s = CHR ''-'' \<or> hd s = CHR ''+'') then tl s else s) in
      if ds = [] then None
      else case parse_digits 0 ds of
        None \<Rightarrow> None
      | Some n \<Rightarrow> let i = (if negative then - int n else int n) in
          if - (2 ^ 63) \<le> i \<and> i < 2 ^ 63 then Some (of_int i) else None)"

definition parse_payload_value :: "(string \<Rightarrow> f64 option) \<Rightarrow> string \<Rightarrow> payload_value" where
  "parse_payload_value f64_of raw =
     (let lower = to_ascii_lowercase raw in
      if lower = ''null'' then PvNull
      else if lower = ''true'' then PvBool True
      else if lower = ''false'' then PvBool False
      else case parse_i64 raw of
        Some i \<Rightarrow> PvInteger i
      | None \<Rightarrow> (case parse_word raw of
            Inr u \<Rightarrow> PvUnsigned u
          | Inl _ \<Rightarrow> (case f64_of raw of Some x \<Rightarrow> PvFloat x | None \<Rightarrow> PvString raw)))"

definition at_line :: "nat \<Rightarrow> string \<Rightarrow> string" where
  "at_line n m = ''line '' @ nat_to_string n @ '': '' @ m"

fun parse_payload_pairs ::
    "(string \<Rightarrow> f64 option) \<Rightarrow> nat \<Rightarrow> string list \<Rightarrow> (string, payload_value) btree \<Rightarrow> string + (string, payload_value) btree" where
  "parse_payload_pairs f64_of n [] m = Inr m"
| "parse_payload_pairs f64_of n (pair # rest) m =
     (case split_once (CHR '':'') pair of
        None \<Rightarrow> Inl (at_line n (''invalid payload pair '' @ squoted pair))
      | Some (key, raw) \<Rightarrow> parse_payload_pairs f64_of n rest (bt_insert key (parse_payload_value f64_of raw) m))"

definition parse_payload :: "(string \<Rightarrow> f64 option) \<Rightarrow> string \<Rightarrow> nat \<Rightarrow> string + (string, payload_value) btree" where
  "parse_payload f64_of v n = parse_payload_pairs f64_of n (split_on (CHR '','') v) []"

text \<open>What is known of an event while its fields are read.\<close>

record event_fields =
  ef_ts_ms :: "u64 option"
  ef_event_type :: "string option"
  ef_run_id :: "string option"
  ef_seq :: "u64 option"
  ef_payload :: "(string, payload_value) btree option"

definition no_event_fields :: event_fields where
  "no_event_fields =
     \<lparr>ef_ts_ms = None, ef_event_type = None, ef_run_id = None, ef_seq = None, ef_payload = None\<rparr>"

definition event_field :: "(string \<Rightarrow> f64 option) \<Rightarrow> nat \<Rightarrow> string \<Rightarrow> string \<Rightarrow> event_fields \<Rightarrow> string + event_fields" where
  "event_field f64_of n key raw f =
     (if key = ''ts_ms'' then
        (case parse_word raw of
           Inl _ \<Rightarrow> Inl (at_line n (''invalid ts_ms '' @ squoted raw))
         | Inr t \<Rightarrow> Inr (f\<lparr>ef_ts_ms := Some t\<rparr>))
      else if key = ''event_type'' then Inr (f\<lparr>ef_event_type := Some raw\<rparr>)
      else if key = ''run_id'' then Inr (if raw = [] then f else f\<lparr>ef_run_id := Some raw\<rparr>)
      else if key = ''seq'' then
        (if raw = [] then Inr f
         else case parse_word raw of
           Inl _ \<Rightarrow> Inl (at_line n (''invalid seq '' @ squoted raw))
         | Inr s \<Rightarrow> Inr (f\<lparr>ef_seq := Some s\<rparr>))
      else if key = ''payload'' then
        (if raw = [] then Inr f
         else map_ok (\<lambda>m. f\<lparr>ef_payload := Some m\<rparr>) (parse_payload f64_of raw n))
      else Inl (at_line n (''unsupported event field '' @ squoted key)))"

fun event_tokens :: "(string \<Rightarrow> f64 option) \<Rightarrow> nat \<Rightarrow> string list \<Rightarrow> event_fields \<Rightarrow> string + event_fields" where
  "event_tokens f64_of n [] f = Inr f"
| "event_tokens f64_of n (part # rest) f =
     (case split_once (CHR ''='') part of
        None \<Rightarrow> Inl (at_line n (''invalid event token '' @ squoted part))
      | Some (key, raw) \<Rightarrow> res_bind (event_field f64_of n key raw f) (event_tokens f64_of n rest))"

definition parse_fixture_event :: "(string \<Rightarrow> f64 option) \<Rightarrow> string \<Rightarrow> nat \<Rightarrow> string + run_event_raw" where
  "parse_fixture_event f64_of v n =
     res_bind (event_tokens f64_of n (split_on (CHR ''|'') v) no_event_fields) (\<lambda>f.
     res_bind (ok_or (at_line n ''event missing ts_ms'') (ef_ts_ms f)) (\<lambda>t.
     res_bind (ok_or (at_line n ''event missing event_type'') (ef_event_type f)) (\<lambda>ty.
     Inr \<lparr>re_ts_ms = t, re_event_type = ty, re_run_id = ef_run_id f, re_seq = ef_seq f, re_payload = ef_payload f\<rparr>)))"

record fixture_fields =
  ff_id :: "string option"
  ff_status :: "string option"
  ff_error :: "string option"
  ff_events :: "run_event_raw list"

definition no_fixture_fields :: fixture_fields where
  "no_fixture_fields = \<lparr>ff_id = None, ff_status = None, ff_error = None, ff_events = []\<rparr>"

text \<open>One line; blank lines and comments are skipped, and what comes later replaces what came before.\<close>

definition fixture_line :: "(string \<Rightarrow> f64 option) \<Rightarrow> nat \<Rightarrow> string \<Rightarrow> fixture_fields \<Rightarrow> string + fixture_fields" where
  "fixture_line f64_of n line f =
     (let t = trim line in
      if t = [] \<or> starts_with ''#'' t then Inr f
      else case strip_prefix ''id='' t of
        Some v \<Rightarrow> Inr (f\<lparr>ff_id := Some v\<rparr>)
      | None \<Rightarrow> (case strip_prefix ''status='' t of
        Some v \<Rightarrow> Inr (f\<lparr>ff_status := Some v\<rparr>)
      | None \<Rightarrow> (case strip_prefix ''error='' t of
        Some v \<Rightarrow> Inr (f\<lparr>ff_error := if v = [] then None else Some v\<rparr>)
      | None \<Rightarrow> (case strip_prefix ''event|'' t of
        Some v \<Rightarrow> map_ok (\<lambda>e. f\<lparr>ff_events := ff_events f @ [e]\<rparr>) (parse_fixture_event f64_of v n)
      | None \<Rightarrow> Inl (at_line n (''unknown directive '' @ squoted t))))))"

fun fixture_lines :: "(string \<Rightarrow> f64 option) \<Rightarrow> nat \<Rightarrow> string list \<Rightarrow> fixture_fields \<Rightarrow> string + fixture_fields" where
  "fixture_lines f64_of n [] f = Inr f"
| "fixture_lines f64_of n (l # ls) f = res_bind (fixture_line f64_of n l f) (fixture_lines f64_of (Suc n) ls)"

definition parse_fixture :: "(string \<Rightarrow> f64 option) \<Rightarrow> string \<Rightarrow> string + run_raw" where
  "parse_fixture f64_of input =
     res_bind (fixture_lines f64_of 1 (lines_of input) no_fixture_fields) (\<lambda>f.
     res_bind (ok_or (''missing required field '' @ squoted ''id='') (ff_id f)) (\<lambda>id.
     res_bind (ok_or (''missing required field '' @ squoted ''status='') (ff_status f)) (\<lambda>status.
     Inr \<lparr>rr_id = id, rr_status = status, rr_error = ff_error f, rr_events = ff_events f\<rparr>)))"

text \<open>
  The program: the exit code with the line on the error stream, or the converted run, which is printed with the
  derived \<^verbatim>\<open>Debug\<close>. The text of a contract error in that form is a parameter.
\<close>

datatype fixture_outcome = ExitWith nat string | Printed converted_run_view

definition normalize_fixture ::
    "(string \<Rightarrow> string + string) \<Rightarrow> (string \<Rightarrow> f64 option) \<Rightarrow> (f64 \<Rightarrow> string) \<Rightarrow> (contract_error \<Rightarrow> string) \<Rightarrow> string list \<Rightarrow> fixture_outcome" where
  "normalize_fixture read_text f64_of f64_text debug_error args =
     (case args of
        [] \<Rightarrow> ExitWith 2 ''usage: cargo run --bin normalize_fixture -- <fixture-path>''
      | path # _ \<Rightarrow> (case read_text path of
          Inl e \<Rightarrow> ExitWith 1 (''failed to read fixture '' @ squoted path @ '': '' @ e)
        | Inr input \<Rightarrow> (case parse_fixture f64_of input of
            Inl e \<Rightarrow> ExitWith 1 (''fixture parse error: '' @ e)
          | Inr raw \<Rightarrow> (case from_void_box_run f64_text raw of
              Inl e \<Rightarrow> ExitWith 1 (''conversion error: '' @ debug_error e)
            | Inr v \<Rightarrow> Printed v))))"

subsection \<open>Writing\<close>

fun value_text :: "(f64 \<Rightarrow> string) \<Rightarrow> payload_value \<Rightarrow> string" where
  "value_text f64_text (PvString v) = v"
| "value_text f64_text (PvBool v) = bool_to_string v"
| "value_text f64_text (PvInteger v) = i64_to_string v"
| "value_text f64_text (PvUnsigned v) = word_to_string v"
| "value_text f64_text (PvFloat v) = f64_text v"
| "value_text f64_text PvNull = ''null''"
| "value_text f64_text (PvUnsupported v) = v"

definition pair_text :: "(f64 \<Rightarrow> string) \<Rightarrow> string \<times> payload_value \<Rightarrow> string" where
  "pair_text f64_text kv = fst kv @ CHR '':'' # value_text f64_text (snd kv)"

definition event_tokens_text :: "(f64 \<Rightarrow> string) \<Rightarrow> run_event_raw \<Rightarrow> string list" where
  "event_tokens_text f64_text e =
     [''ts_ms='' @ word_to_string (re_ts_ms e), ''event_type='' @ re_event_type e,
      ''run_id='' @ (case re_run_id e of None \<Rightarrow> [] | Some r \<Rightarrow> r),
      ''seq='' @ (case re_seq e of None \<Rightarrow> [] | Some q \<Rightarrow> word_to_string q),
      ''payload='' @ (case re_payload e of None \<Rightarrow> [] | Some m \<Rightarrow> join_with '','' (map (pair_text f64_text) m))]"

definition fixture_lines_text :: "(f64 \<Rightarrow> string) \<Rightarrow> run_raw \<Rightarrow> string list" where
  "fixture_lines_text f64_text run =
     [''id='' @ rr_id run, ''status='' @ rr_status run, ''error='' @ (case rr_error run of None \<Rightarrow> [] | Some e \<Rightarrow> e)]
     @ map (\<lambda>e. ''event|'' @ join_with ''|'' (event_tokens_text f64_text e)) (rr_events run)"

definition fixture_text :: "(f64 \<Rightarrow> string) \<Rightarrow> run_raw \<Rightarrow> string" where
  "fixture_text f64_text run = concat (map (\<lambda>l. l @ [nl]) (fixture_lines_text f64_text run))"

text \<open>What the format can carry: no separators inside, no white space at the end of a line.\<close>

definition tight_end :: "string \<Rightarrow> bool" where
  "tight_end a = (nl \<notin> set a \<and> (a = [] \<or> \<not> is_ws (last a)))"

text \<open>
  A string is read as a string when it is not the name of another value and not a number; a value of the
  unsigned kind is one that is no \<^verbatim>\<open>i64\<close>; a float has to be read back by the library and to look like one.
\<close>

fun value_readable :: "(string \<Rightarrow> f64 option) \<Rightarrow> (f64 \<Rightarrow> string) \<Rightarrow> payload_value \<Rightarrow> bool" where
  "value_readable f64_of f64_text (PvString v) =
     (to_ascii_lowercase v \<notin> {''null'', ''true'', ''false''} \<and> parse_i64 v = None
      \<and> \<not> is_ok (parse_word v :: string + u64) \<and> f64_of v = None)"
| "value_readable f64_of f64_text (PvFloat x) =
     (to_ascii_lowercase (f64_text x) \<notin> {''null'', ''true'', ''false''} \<and> parse_i64 (f64_text x) = None
      \<and> \<not> is_ok (parse_word (f64_text x) :: string + u64) \<and> f64_of (f64_text x) = Some x)"
| "value_readable f64_of f64_text (PvUnsigned v) = (2 ^ 63 \<le> unat v)"
| "value_readable f64_of f64_text (PvUnsupported v) = False"
| "value_readable f64_of f64_text _ = True"

definition pair_writable :: "(string \<Rightarrow> f64 option) \<Rightarrow> (f64 \<Rightarrow> string) \<Rightarrow> string \<times> payload_value \<Rightarrow> bool" where
  "pair_writable f64_of f64_text kv =
     (CHR '':'' \<notin> set (fst kv) \<and> value_readable f64_of f64_text (snd kv)
      \<and> set (pair_text f64_text kv) \<inter> {CHR '','', CHR ''|''} = {} \<and> tight_end (pair_text f64_text kv))"

definition event_writable :: "(string \<Rightarrow> f64 option) \<Rightarrow> (f64 \<Rightarrow> string) \<Rightarrow> run_event_raw \<Rightarrow> bool" where
  "event_writable f64_of f64_text e =
     (CHR ''|'' \<notin> set (re_event_type e) \<and> nl \<notin> set (re_event_type e)
      \<and> (case re_run_id e of None \<Rightarrow> True | Some r \<Rightarrow> r \<noteq> [] \<and> CHR ''|'' \<notin> set r \<and> nl \<notin> set r)
      \<and> (case re_payload e of None \<Rightarrow> True
         | Some m \<Rightarrow> m \<noteq> [] \<and> bt_wf m \<and> list_all (pair_writable f64_of f64_text) m))"

definition run_writable :: "(string \<Rightarrow> f64 option) \<Rightarrow> (f64 \<Rightarrow> string) \<Rightarrow> run_raw \<Rightarrow> bool" where
  "run_writable f64_of f64_text run =
     (tight_end (rr_id run) \<and> tight_end (rr_status run)
      \<and> (case rr_error run of None \<Rightarrow> True | Some e \<Rightarrow> e \<noteq> [] \<and> tight_end e)
      \<and> list_all (event_writable f64_of f64_text) (rr_events run))"

subsection \<open>Reading back\<close>

lemma split_on_join: "xs \<noteq> [] \<Longrightarrow> \<forall>x \<in> set xs. c \<notin> set x \<Longrightarrow> split_on c (join_with [c] xs) = xs"
proof (induction xs)
  case (Cons x xs)
  then show ?case by (cases xs) (simp_all add: split_on_none split_on_sep)
qed simp

text \<open>A number starts with a digit or a minus sign.\<close>

lemma number_start:
  assumes "c = CHR ''-'' \<or> (\<exists>d < 10. c = digit_char d)"
  shows "to_ascii_lowercase (c # s) \<notin> {''null'', ''true'', ''false''}" "c \<noteq> CHR ''+''"
  using assms by (auto simp: to_ascii_lowercase_def digit_char_def dest!: digit_cases)

lemma nat_start: "\<exists>c s. nat_to_string n = c # s \<and> c \<noteq> CHR ''-'' \<and> c \<noteq> CHR ''+'' \<and> (\<exists>d < 10. c = digit_char d)"
proof (cases "nat_to_string n")
  case (Cons c s)
  then show ?thesis using nat_to_string_chars [of c n] nat_to_string_plain(4,5) [of n] by auto
qed simp

lemma parse_i64_to_string [simp]: "parse_i64 (i64_to_string v) = Some v"
proof -
  have range: "- (2 ^ 63) \<le> sint v" "sint v < 2 ^ 63" using sint_range_size [of v] by (simp_all add: word_size)
  show ?thesis
  proof (cases "sint v < 0")
    case True
    then have "int (nat (- sint v)) = - sint v" by simp
    with True range show ?thesis
      by (simp add: parse_i64_def i64_to_string_def int_to_string_def Let_def)
  next
    case False
    obtain c s where start: "nat_to_string (nat (sint v)) = c # s" "c \<noteq> CHR ''-''" "c \<noteq> CHR ''+''"
      using nat_start by blast
    moreover have "parse_digits 0 (c # s) = Some (nat (sint v))" by (simp add: start(1) [symmetric] del: parse_digits.simps)
    ultimately show ?thesis using False range
      by (simp add: parse_i64_def i64_to_string_def int_to_string_def Let_def del: parse_digits.simps)
  qed
qed

lemma parse_i64_large: "2 ^ 63 \<le> n \<Longrightarrow> parse_i64 (nat_to_string n) = None"
proof -
  assume "2 ^ 63 \<le> n"
  moreover obtain c s where start: "nat_to_string n = c # s" "c \<noteq> CHR ''-''" "c \<noteq> CHR ''+''"
    using nat_start by blast
  moreover have "parse_digits 0 (c # s) = Some n" by (simp add: start(1) [symmetric] del: parse_digits.simps)
  ultimately show ?thesis by (simp add: parse_i64_def Let_def del: parse_digits.simps)
qed

lemma number_not_named:
  "to_ascii_lowercase (nat_to_string n) \<notin> {''null'', ''true'', ''false''}"
  "to_ascii_lowercase (i64_to_string v) \<notin> {''null'', ''true'', ''false''}"
proof -
  show nat: "to_ascii_lowercase (nat_to_string n) \<notin> {''null'', ''true'', ''false''}" for n
  proof -
    obtain c s where start: "nat_to_string n = c # s" "\<exists>d < 10. c = digit_char d" using nat_start by blast
    then show ?thesis using number_start(1) [of c s] by (simp only: start(1)) blast
  qed
  show "to_ascii_lowercase (i64_to_string v) \<notin> {''null'', ''true'', ''false''}"
    using nat [of "nat (sint v)"] number_start(1) [of "CHR ''-''"] by (simp add: i64_to_string_def int_to_string_def)
qed

lemma read_value:
  assumes "value_readable f64_of f64_text v"
  shows "parse_payload_value f64_of (value_text f64_text v) = v"
proof (cases v)
  case (PvInteger i)
  then show ?thesis using number_not_named(2) [of i] by (simp add: parse_payload_value_def Let_def)
next
  case (PvUnsigned u)
  then show ?thesis
    using assms number_not_named(1) [of "unat u"] parse_word_to_string [of u]
    by (simp add: parse_payload_value_def Let_def word_to_string_def parse_i64_large)
next
  case (PvBool b)
  then show ?thesis
    by (simp add: parse_payload_value_def Let_def bool_to_string_def to_ascii_lowercase_def)
next
  case PvNull
  then show ?thesis by (simp add: parse_payload_value_def Let_def to_ascii_lowercase_def)
qed (use assms in \<open>auto simp: parse_payload_value_def Let_def is_ok_iff split: sum.splits\<close>)

lemma read_pairs:
  "list_all (pair_writable f64_of f64_text) kvs \<Longrightarrow>
    parse_payload_pairs f64_of n (map (pair_text f64_text) kvs) m = Inr (fold (\<lambda>(k, v). bt_insert k v) kvs m)"
proof (induction kvs arbitrary: m)
  case (Cons kv kvs)
  obtain k v where kv: "kv = (k, v)" by force
  have "split_once (CHR '':'') (pair_text f64_text kv) = Some (k, value_text f64_text v)"
    using Cons.prems split_once_sep [of "CHR '':''" k] by (simp add: kv pair_text_def pair_writable_def)
  moreover have "parse_payload_value f64_of (value_text f64_text v) = v"
    using Cons.prems by (intro read_value) (simp add: kv pair_writable_def)
  ultimately show ?case using Cons by (simp add: kv)
qed simp

lemma read_payload:
  assumes "m \<noteq> []" "bt_wf m" "list_all (pair_writable f64_of f64_text) m"
  shows "parse_payload f64_of (join_with '','' (map (pair_text f64_text) m)) n = Inr m"
proof -
  have "\<forall>x \<in> set (map (pair_text f64_text) m). CHR '','' \<notin> set x"
    using assms(3) by (auto simp: list_all_iff pair_writable_def)
  then show ?thesis
    using assms(1) read_pairs [OF assms(3), of n "[]"] fold_bt_insert_sorted [of "[]" m] assms(2)
    by (simp add: parse_payload_def split_on_join)
qed

lemma event_field_keys:
  "event_field f64_of n ''ts_ms'' raw f = (case parse_word raw of
      Inl _ \<Rightarrow> Inl (at_line n (''invalid ts_ms '' @ squoted raw)) | Inr t \<Rightarrow> Inr (f\<lparr>ef_ts_ms := Some t\<rparr>))"
  "event_field f64_of n ''event_type'' raw f = Inr (f\<lparr>ef_event_type := Some raw\<rparr>)"
  "event_field f64_of n ''run_id'' raw f = Inr (if raw = [] then f else f\<lparr>ef_run_id := Some raw\<rparr>)"
  "event_field f64_of n ''seq'' raw f = (if raw = [] then Inr f else case parse_word raw of
      Inl _ \<Rightarrow> Inl (at_line n (''invalid seq '' @ squoted raw)) | Inr s \<Rightarrow> Inr (f\<lparr>ef_seq := Some s\<rparr>))"
  "event_field f64_of n ''payload'' raw f = (if raw = [] then Inr f
      else map_ok (\<lambda>m. f\<lparr>ef_payload := Some m\<rparr>) (parse_payload f64_of raw n))"
  by (simp_all add: event_field_def)

lemma split_token:
  "split_once (CHR ''='') (''ts_ms='' @ v) = Some (''ts_ms'', v)"
  "split_once (CHR ''='') (''event_type='' @ v) = Some (''event_type'', v)"
  "split_once (CHR ''='') (''run_id='' @ v) = Some (''run_id'', v)"
  "split_once (CHR ''='') (''seq='' @ v) = Some (''seq'', v)"
  "split_once (CHR ''='') (''payload='' @ v) = Some (''payload'', v)"
  by simp_all

lemma join_nonempty: "xs \<noteq> [] \<Longrightarrow> \<forall>x \<in> set xs. x \<noteq> [] \<Longrightarrow> join_with sep xs \<noteq> []"
  by (induction sep xs rule: join_with.induct) auto

lemma set_join: "set (join_with sep xs) \<subseteq> (\<Union>x \<in> set xs. set x) \<union> set sep"
  by (induction sep xs rule: join_with.induct) auto

lemma last_join: "x \<noteq> [] \<Longrightarrow> last (join_with sep (xs @ [x])) = last x"
  by (cases "xs = []") (simp_all add: join_append)

lemma pair_text_ne [simp]: "pair_text f64_text kv \<noteq> []"
  by (simp add: pair_text_def)

definition payload_text :: "(f64 \<Rightarrow> string) \<Rightarrow> (string, payload_value) btree option \<Rightarrow> string" where
  "payload_text f64_text p = (case p of None \<Rightarrow> [] | Some m \<Rightarrow> join_with '','' (map (pair_text f64_text) m))"

lemma payload_text_writable:
  assumes "event_writable f64_of f64_text e"
  shows "CHR ''|'' \<notin> set (payload_text f64_text (re_payload e)) \<and> tight_end (payload_text f64_text (re_payload e))"
proof (cases "re_payload e")
  case (Some m)
  then have ok: "m \<noteq> []" "list_all (pair_writable f64_of f64_text) m" using assms by (simp_all add: event_writable_def)
  have part: "CHR ''|'' \<notin> set x" "tight_end x" "x \<noteq> []" if "x \<in> set (map (pair_text f64_text) m)" for x
    using ok(2) that by (auto simp: list_all_iff pair_writable_def)
  let ?t = "join_with '','' (map (pair_text f64_text) m)"
  have "set ?t \<subseteq> (\<Union>x \<in> set (map (pair_text f64_text) m). set x) \<union> set '',''" by (rule set_join)
  moreover have "CHR ''|'' \<notin> set '',''" "nl \<notin> set '',''" by simp_all
  moreover have "nl \<notin> set x" if "x \<in> set (map (pair_text f64_text) m)" for x using part(2) [OF that] by (simp add: tight_end_def)
  ultimately have sep: "CHR ''|'' \<notin> set ?t \<and> nl \<notin> set ?t" using part(1) by blast
  obtain kvs kv where m: "m = kvs @ [kv]" using ok(1) by (cases m rule: rev_cases) auto
  then have "tight_end (pair_text f64_text kv)" using part(2) by simp
  then have "\<not> is_ws (last ?t)" by (simp add: m last_join tight_end_def)
  with sep show ?thesis by (simp add: Some payload_text_def tight_end_def)
qed (simp add: payload_text_def tight_end_def)

lemma read_event:
  assumes "event_writable f64_of f64_text e"
  shows "parse_fixture_event f64_of (join_with ''|'' (event_tokens_text f64_text e)) n = Inr e"
proof -
  let ?tokens = "event_tokens_text f64_text e"
  let ?rid = "case re_run_id e of None \<Rightarrow> [] | Some r \<Rightarrow> r"
  let ?seq = "case re_seq e of None \<Rightarrow> [] | Some q \<Rightarrow> word_to_string q"
  have payload: "event_field f64_of n ''payload'' (payload_text f64_text (re_payload e)) f = Inr (f\<lparr>ef_payload := re_payload e\<rparr>)"
    if "ef_payload f = None" for f
  proof (cases "re_payload e")
    case None
    with that show ?thesis by (cases f) (simp add: payload_text_def event_field_keys)
  next
    case (Some m)
    then have "m \<noteq> []" "bt_wf m" "list_all (pair_writable f64_of f64_text) m"
      using assms by (simp_all add: event_writable_def)
    then show ?thesis using read_payload [of m] by (simp add: Some payload_text_def event_field_keys join_nonempty)
  qed
  have run_id: "event_field f64_of n ''run_id'' ?rid f = Inr (f\<lparr>ef_run_id := re_run_id e\<rparr>)" if "ef_run_id f = None" for f
    using that assms by (cases f) (simp add: event_field_keys event_writable_def split: option.splits)
  have seq: "event_field f64_of n ''seq'' ?seq f = Inr (f\<lparr>ef_seq := re_seq e\<rparr>)" if "ef_seq f = None" for f
    using that by (cases f) (simp add: event_field_keys split: option.splits)
  have "CHR ''|'' \<notin> set x" if "x \<in> set ?tokens" for x
    using that assms payload_text_writable [OF assms] nat_to_string_plain(3)
    by (auto simp: event_tokens_text_def event_writable_def word_to_string_def payload_text_def split: option.splits)
  then have "split_on (CHR ''|'') (join_with ''|'' ?tokens) = ?tokens"
    by (intro split_on_join) (auto simp: event_tokens_text_def)
  moreover have "event_tokens f64_of n ?tokens no_event_fields = Inr
      \<lparr>ef_ts_ms = Some (re_ts_ms e), ef_event_type = Some (re_event_type e), ef_run_id = re_run_id e, ef_seq = re_seq e,
       ef_payload = re_payload e\<rparr>"
    unfolding event_tokens_text_def payload_text_def [symmetric] event_tokens.simps split_token
    by (simp add: event_field_keys(1,2) run_id seq payload no_event_fields_def)
  ultimately show ?thesis by (simp add: parse_fixture_event_def result_simps)
qed

lemma trim_line: "tight_end v \<Longrightarrow> p \<noteq> [] \<Longrightarrow> \<not> is_ws (hd p) \<Longrightarrow> \<not> is_ws (last p) \<Longrightarrow> trim (p @ v) = p @ v"
proof -
  assume v: "tight_end v" and p: "p \<noteq> []" "\<not> is_ws (hd p)" "\<not> is_ws (last p)"
  have "dropWhile is_ws (p @ v) = p @ v" using p by (cases p) simp_all
  moreover have "\<not> is_ws (last (p @ v))" using v p by (cases "v = []") (auto simp: tight_end_def)
  then have "dropWhile is_ws (rev (p @ v)) = rev (p @ v)" using p(1) by (cases "p @ v" rule: rev_cases) simp_all
  ultimately show ?thesis by (simp add: trim_def)
qed

lemma fixture_line_keys:
  assumes "tight_end v"
  shows "fixture_line f64_of n (''id='' @ v) f = Inr (f\<lparr>ff_id := Some v\<rparr>)"
    and "fixture_line f64_of n (''status='' @ v) f = Inr (f\<lparr>ff_status := Some v\<rparr>)"
    and "fixture_line f64_of n (''error='' @ v) f = Inr (f\<lparr>ff_error := if v = [] then None else Some v\<rparr>)"
    and "fixture_line f64_of n (''event|'' @ v) f =
      map_ok (\<lambda>e. f\<lparr>ff_events := ff_events f @ [e]\<rparr>) (parse_fixture_event f64_of v n)"
  using trim_line [OF assms, of "''id=''"] trim_line [OF assms, of "''status=''"] trim_line [OF assms, of "''error=''"]
    trim_line [OF assms, of "''event|''"]
  by (simp_all add: fixture_line_def is_ws_def strip_prefix_def starts_with_def)

lemma event_line_tight: "event_writable f64_of f64_text e \<Longrightarrow> tight_end (join_with ''|'' (event_tokens_text f64_text e))"
proof -
  assume e: "event_writable f64_of f64_text e"
  define p where "p = payload_text f64_text (re_payload e)"
  define front where "front = butlast (event_tokens_text f64_text e)"
  have tokens: "event_tokens_text f64_text e = front @ [''payload='' @ p]"
    by (simp add: front_def event_tokens_text_def p_def payload_text_def)
  have p: "tight_end p" using payload_text_writable [OF e] by (simp add: p_def)
  have "last (join_with ''|'' (front @ [''payload='' @ p])) = last (''payload='' @ p)" by (intro last_join) simp
  moreover have "\<not> is_ws (last (''payload='' @ p))"
    using p by (cases "p = []") (simp_all add: tight_end_def is_ws_def)
  moreover have "nl \<notin> set (join_with ''|'' (front @ [''payload='' @ p]))"
  proof -
    have "nl \<notin> set p" "nl \<notin> set (re_event_type e)" "nl \<notin> set (case re_run_id e of None \<Rightarrow> [] | Some r \<Rightarrow> r)"
        "nl \<notin> set (case re_seq e of None \<Rightarrow> [] | Some q \<Rightarrow> word_to_string q)" "nl \<notin> set (word_to_string (re_ts_ms e))"
      using e p nat_to_string_plain(1) by (simp_all add: event_writable_def tight_end_def word_to_string_def split: option.splits)
    then have "\<forall>x \<in> set (event_tokens_text f64_text e). nl \<notin> set x"
      unfolding event_tokens_text_def payload_text_def [symmetric] p_def [symmetric] by simp
    then show ?thesis using set_join [of "''|''" "front @ [''payload='' @ p]"] unfolding tokens by auto
  qed
  ultimately show ?thesis by (simp only: tokens tight_end_def) simp
qed

lemma read_events:
  "list_all (event_writable f64_of f64_text) es \<Longrightarrow>
    fixture_lines f64_of n (map (\<lambda>e. ''event|'' @ join_with ''|'' (event_tokens_text f64_text e)) es) f
      = Inr (f\<lparr>ff_events := ff_events f @ es\<rparr>)"
proof (induction es arbitrary: n f)
  case (Cons e es)
  then show ?case using fixture_line_keys(4) [OF event_line_tight [of f64_of f64_text e]] by (simp add: read_event)
qed simp

lemma lines_of_written: "\<forall>x \<in> set xs. tight_end x \<Longrightarrow> lines_of (concat (map (\<lambda>l. l @ [nl]) xs)) = xs"
proof (induction xs)
  case (Cons x xs)
  then have "line_safe x" by (auto simp: tight_end_def line_safe_def is_ws_def)
  with Cons show ?case by (simp add: lines_of_sep)
qed simp

subsection \<open>Properties\<close>

text \<open>
  C40: A fixture that is written from a run is read as that run: the events in their order, fields that are left
  out, and payloads value by value, where a value keeps its kind.
\<close>

theorem fixture_roundtrip:
  assumes "run_writable f64_of f64_text run"
  shows "parse_fixture f64_of (fixture_text f64_text run) = Inr run"
proof -
  let ?err = "case rr_error run of None \<Rightarrow> [] | Some e \<Rightarrow> e"
  have v: "tight_end (rr_id run)" "tight_end (rr_status run)" "tight_end ?err"
      "list_all (event_writable f64_of f64_text) (rr_events run)"
    using assms by (auto simp: run_writable_def tight_end_def split: option.splits)
  have key: "tight_end (p @ x)" if "tight_end x" "p \<in> {''id='', ''status='', ''error='', ''event|''}" for p x
    using that by (cases "x = []") (auto simp: tight_end_def is_ws_def)
  note keys = key [where p = "''id=''", simplified] key [where p = "''status=''", simplified]
    key [where p = "''error=''", simplified] key [where p = "''event|''", simplified]
  have "tight_end l" if "l \<in> set (fixture_lines_text f64_text run)" for l
    using that v event_line_tight by (auto simp: fixture_lines_text_def list_all_iff keys)
  then have "lines_of (fixture_text f64_text run) = fixture_lines_text f64_text run"
    by (simp add: fixture_text_def lines_of_written)
  moreover have "(if ?err = [] then None else Some ?err) = rr_error run"
    using assms by (auto simp: run_writable_def split: option.splits)
  moreover have "fixture_lines f64_of n ([a, b, c] @ ls) f = res_bind (fixture_line f64_of n a f) (\<lambda>f.
      res_bind (fixture_line f64_of (Suc n) b f) (\<lambda>f. res_bind (fixture_line f64_of (Suc (Suc n)) c f)
        (fixture_lines f64_of (Suc (Suc (Suc n))) ls)))" for n a b c ls f
  proof -
    have "fixture_lines f64_of n (l # ls) = (\<lambda>f. res_bind (fixture_line f64_of n l f) (fixture_lines f64_of (Suc n) ls))" for n l ls
      by (rule ext) simp
    then show ?thesis by (simp only: append_Cons append_Nil)
  qed
  ultimately have "fixture_lines f64_of 1 (lines_of (fixture_text f64_text run)) no_fixture_fields = Inr
      \<lparr>ff_id = Some (rr_id run), ff_status = Some (rr_status run), ff_error = rr_error run, ff_events = rr_events run\<rparr>"
    by (simp only: fixture_lines_text_def fixture_line_keys(1) [OF v(1)] fixture_line_keys(2) [OF v(2)]
        fixture_line_keys(3) [OF v(3)] res_bind.simps read_events [OF v(4)]) (simp add: no_fixture_fields_def)
  then show ?thesis by (simp add: parse_fixture_def result_simps)
qed

lemma fixture_roundtrip_witness:
  "parse_fixture (\<lambda>_. None) (fixture_text (\<lambda>_. []) \<lparr>rr_id = ''r1'', rr_status = ''failed'', rr_error = Some ''out of memory'',
      rr_events = [\<lparr>re_ts_ms = 5, re_event_type = ''run.failed'', re_run_id = Some ''r1'', re_seq = None,
        re_payload = Some [(''code'', PvInteger (- 9)), (''ok'', PvBool False)]\<rparr>]\<rparr>)
    = Inr \<lparr>rr_id = ''r1'', rr_status = ''failed'', rr_error = Some ''out of memory'',
      rr_events = [\<lparr>re_ts_ms = 5, re_event_type = ''run.failed'', re_run_id = Some ''r1'', re_seq = None,
        re_payload = Some [(''code'', PvInteger (- 9)), (''ok'', PvBool False)]\<rparr>]\<rparr>"
  by (rule fixture_roundtrip)
    (simp add: run_writable_def event_writable_def pair_writable_def pair_text_def tight_end_def is_ws_def bt_wf_def
      bool_to_string_def i64_to_string_def int_to_string_def nat_to_string.simps digit_char_def)

end
