(* ===== verification/Server_Logs.thy ===== *)
theory Server_Logs
  imports Launch Router
begin

text \<open>
  Event logs only grow: the order between stores in which every log of the later one is numbered from 1
  without a gap and extends the log of the earlier one. It is an instance of the contract of the service, so a
  tick of the worker moves along it, every operation of the service, and every request to the bridge, if the id
  that the clock would give to a new execution is not taken.
\<close>

subsection \<open>The order of logs\<close>

definition logs_grow :: "store_fs \<Rightarrow> store_fs \<Rightarrow> bool" where
  "logs_grow fs fs' = (\<forall>y. log_id_ok y \<longrightarrow> log_ok fs' y \<and> prefix (event_log fs y) (event_log fs' y))"

lemma logs_grow_trans: "logs_grow fs fs1 \<Longrightarrow> logs_grow fs1 fs2 \<Longrightarrow> logs_grow fs fs2"
  unfolding logs_grow_def using prefix_order.trans by blast

lemma logs_grow_refl: "logs_ok w \<Longrightarrow> logs_grow (wd_fs w) (wd_fs w)"
  by (simp add: logs_ok_def logs_grow_def)

lemma logs_grow_ok: "logs_grow fs (wd_fs w) \<Longrightarrow> logs_ok w"
  by (simp add: logs_ok_def logs_grow_def)

lemma logs_grow_frame: "(\<And>y. events_file fs2 y = events_file fs1 y) \<Longrightarrow> logs_grow fs fs1 \<Longrightarrow> logs_grow fs fs2"
  by (simp add: logs_grow_def log_ok_def event_log_def)

lemma logs_grow_append:
  assumes "logs_grow fs fs1" and "bt_get fs1 xid \<noteq> None"
  shows "logs_grow fs (snd (store_append_event xid (control_event_new xid (of_nat (length (event_log fs1 xid)) + 1) t) fs1))"
    (is "logs_grow fs ?fs2")
  unfolding logs_grow_def
proof (intro allI impI)
  fix y assume y: "log_id_ok y"
  then have y1: "log_ok fs1 y" "prefix (event_log fs y) (event_log fs1 y)" using assms(1) by (simp_all add: logs_grow_def)
  show "log_ok ?fs2 y \<and> prefix (event_log fs y) (event_log ?fs2 y)"
  proof (cases "y = xid")
    case True
    from log_append [OF y1(1) [unfolded True] y [unfolded True] assms(2) refl, of t] y1(2) show ?thesis
      by (auto simp: True intro: prefix_order.trans)
  next
    case False
    then have "events_file ?fs2 y = events_file fs1 y" by (simp add: events_append)
    with y1 show ?thesis by (simp add: log_ok_def event_log_def)
  qed
qed

text \<open>What an operation of the store has to do for a world to grow.\<close>

abbreviation grown :: "store_fs \<Rightarrow> 'e world \<Rightarrow> bool" where
  "grown fs w \<equiv> logs_grow fs (wd_fs w)"

lemma grown_frame: "(\<And>fs' y. events_file (snd (f fs')) y = events_file fs' y) \<Longrightarrow> keeps (grown fs) (store_do f)"
  by (rule keeps_store_do) (simp, rule logs_grow_frame)

lemma append_event_grown: "keeps (grown fs) (append_event sv xid t)"
  unfolding keeps_def
proof (intro allI impI)
  fix w :: "'a world" assume w: "grown fs w"
  show "grown fs (snd (append_event sv xid t w))"
  proof (cases "load_execution (svc_codec sv) xid (wd_fs w)")
    case (Inl e)
    with w show ?thesis
      by (simp add: append_event_def io_bind_def load_snapshot_def store_read_def io_result_def io_fail_def)
  next
    case (Inr sn)
    have "wd_fs (snd (append_event sv xid t w)) = snd (store_append_event xid
        (control_event_new xid (of_nat (length (event_log (wd_fs w) xid)) + 1) t) (wd_fs w))"
      using Inr load_execution_events [OF Inr]
      by (auto simp: append_event_def io_bind_def load_snapshot_def store_read_def io_result_def io_return_def
          store_do_def split: prod.splits sum.splits)
    with logs_grow_append [OF w load_execution_exists [OF Inr]] show ?thesis by simp
  qed
qed

text \<open>A runtime that lets the logs grow is all the service needs to let them grow.\<close>

locale growing_runtime = runtime_contract sv "grown fs" for sv :: "'e service" and fs

sublocale growing_runtime \<subseteq> service_contract sv "grown fs"
  by unfold_locales (simp_all add: append_event_grown grown_frame)

context growing_runtime
begin

lemma growing_service: "service_contract sv (grown fs)"
  by (rule service_contract_axioms)

end

subsection \<open>Submissions\<close>

text \<open>From \<open>P\<close>, whether the computation returns or fails, to \<open>Q\<close>.\<close>

definition leads :: "('w \<Rightarrow> bool) \<Rightarrow> ('w, 'a) io \<Rightarrow> ('w \<Rightarrow> bool) \<Rightarrow> bool" where
  "leads P m Q = (\<forall>w. P w \<longrightarrow> Q (snd (m w)))"

named_theorems leads_rules \<open>structural rules for what a computation leads to\<close>

lemma leads_keeps: "keeps Q m \<Longrightarrow> (\<And>w. P w \<Longrightarrow> Q w) \<Longrightarrow> leads P m Q"
  by (auto simp: leads_def keeps_def)

lemma leads_return [leads_rules]: "(\<And>w. P w \<Longrightarrow> Q w) \<Longrightarrow> leads P (io_return x) Q"
  by (simp add: leads_def io_return_def)

lemma leads_seq:
  assumes "leads P m R" and "\<And>x. leads R (f x) Q" and "\<And>w. R w \<Longrightarrow> Q w"
  shows "leads P (io_bind m f) Q"
  unfolding leads_def
proof (intro allI impI)
  fix w assume "P w"
  then have "R (snd (m w))" using assms(1) by (simp add: leads_def)
  then show "Q (snd (io_bind m f w))"
    using assms(2,3) by (auto simp: io_bind_def leads_def split: prod.splits sum.splits)
qed

lemma leads_then: "leads P m R \<Longrightarrow> leads R k Q \<Longrightarrow> (\<And>w. R w \<Longrightarrow> Q w) \<Longrightarrow> leads P (io_then m k) Q"
  unfolding io_then_def by (rule leads_seq)

lemma leads_get: "(\<And>x. leads (\<lambda>w. P w \<and> h w = x) (f x) Q) \<Longrightarrow> leads P (io_bind (io_get h) f) Q"
  by (simp add: leads_def io_bind_def io_get_def)

lemma leads_attempt: "leads P m Q \<Longrightarrow> leads P (io_attempt m) Q"
  by (auto simp: leads_def io_attempt_def split: prod.splits sum.splits fault.splits)

lemma leads_option [leads_rules]:
  "leads P m Q \<Longrightarrow> (\<And>x. leads P (f x) Q) \<Longrightarrow> leads P (case v of None \<Rightarrow> m | Some x \<Rightarrow> f x) Q"
  by (simp split: option.split)

lemma leads_sum [leads_rules]:
  "(\<And>e. leads P (f e) Q) \<Longrightarrow> (\<And>x. leads P (g x) Q) \<Longrightarrow> leads P (case v of Inl e \<Rightarrow> f e | Inr x \<Rightarrow> g x) Q"
  by (simp split: sum.split)

lemma leads_store: "(\<And>w. P w \<Longrightarrow> Q (w\<lparr>wd_fs := snd (f (wd_fs w))\<rparr>)) \<Longrightarrow> leads P (store_do f) Q"
proof -
  assume step: "\<And>w. P w \<Longrightarrow> Q (w\<lparr>wd_fs := snd (f (wd_fs w))\<rparr>)"
  have "snd (store_do f w) = w\<lparr>wd_fs := snd (f (wd_fs w))\<rparr>" for w :: "'a world"
    by (simp add: store_do_def split: prod.split sum.split)
  with step show ?thesis by (simp add: leads_def)
qed

lemma create_execution_dir: "bt_get (snd (create_execution x fs)) (ex_execution_id x) \<noteq> None"
  by (auto simp: create_execution_def save_execution_def write_dir_def split: option.splits)

lemma append_event_dir: "bt_get fs xid \<noteq> None \<Longrightarrow> bt_get (snd (store_append_event xid e fs)) xid \<noteq> None"
  by (auto simp: store_append_event_def write_dir_def Let_def split: option.splits)

text \<open>The two events of a submission are the first two of their log when there was none.\<close>

lemma submission_grows:
  assumes "log_id_ok xid"
  shows "leads (\<lambda>w. grown fs w \<and> event_log (wd_fs w) xid = []) (submit_execution cx xid spec) (grown fs)"
proof -
  let ?x = "execution_new xid (es_mode spec) (es_goal spec)"
  let ?stage = "\<lambda>n w. grown fs w \<and> length (event_log (wd_fs w) xid) = n \<and> bt_get (wd_fs w) xid \<noteq> None"
  have event: "leads (?stage n) (store_do (store_append_event xid (control_event_new xid (of_nat n + 1) t))) (?stage (Suc n))" for n t
  proof (rule leads_store)
    fix w :: "'b world"
    let ?e = "control_event_new xid (of_nat n + 1) t"
    assume w: "?stage n w"
    then have "log_ok (wd_fs w) xid" using assms by (simp add: logs_grow_def)
    with w log_append [of "wd_fs w" xid ?e t] assms
    have "event_log (snd (store_append_event xid ?e (wd_fs w))) xid = event_log (wd_fs w) xid @ [?e]" by simp
    then show "?stage (Suc n) (w\<lparr>wd_fs := snd (store_append_event xid ?e (wd_fs w))\<rparr>)"
      using w logs_grow_append [of fs "wd_fs w" xid t] append_event_dir [of "wd_fs w" xid] by auto
  qed
  have create: "leads (\<lambda>w. grown fs w \<and> event_log (wd_fs w) xid = []) (store_do (create_execution ?x)) (?stage 0)"
    using create_execution_dir [of ?x]
    by (intro leads_store) (auto simp: event_log_def execution_new_def intro: logs_grow_frame [rotated])
  have spec: "leads (?stage (Suc (Suc 0))) (io_then (store_do (save_spec cx xid spec)) (io_return ?x)) (grown fs)"
    by (rule leads_keeps) (intro keeps_then grown_frame keeps_return, simp_all)
  have second: "leads (?stage (Suc 0)) (io_then (store_do (store_append_event xid (control_event_new xid 2 ExecutionSubmitted)))
      (io_then (store_do (save_spec cx xid spec)) (io_return ?x))) (grown fs)"
    using event [of "Suc 0" ExecutionSubmitted] by (intro leads_then [OF _ spec]) auto
  have first: "leads (?stage 0) (io_then (store_do (store_append_event xid (control_event_new xid 1 ExecutionCreated)))
      (io_then (store_do (store_append_event xid (control_event_new xid 2 ExecutionSubmitted)))
      (io_then (store_do (save_spec cx xid spec)) (io_return ?x)))) (grown fs)"
    using event [of 0 ExecutionCreated] by (intro leads_then [OF _ second]) auto
  show ?thesis
    unfolding submit_execution_def Let_def by (rule leads_then [OF create first]) simp
qed

subsection \<open>Requests\<close>

text \<open>The id that a submission would get now has no log.\<close>

definition fresh_id :: "bridge_env world \<Rightarrow> bool" where
  "fresh_id w = (event_log (wd_fs w) (new_execution_id w) = [])"

lemma new_execution_id_ok: "log_id_ok (new_execution_id w)"
  using nat_to_string_plain [of "unat (wd_now w)"] word_to_string_line_safe [of "wd_now w"]
  by (auto simp: log_id_ok_def new_execution_id_def now_text_ms_def word_to_string_def line_safe_def)

lemma submit_now_grows:
  assumes "\<And>r. keeps (grown fs) (k r)"
  shows "leads (\<lambda>w. grown fs w \<and> fresh_id w)
    (io_bind (io_get new_execution_id) (\<lambda>xid. io_bind (io_attempt (submit_execution cx xid spec)) k)) (grown fs)"
proof -
  have "grown fs (snd (io_bind (io_attempt (submit_execution cx (new_execution_id w) spec)) k w))"
    if "grown fs w" "fresh_id w" for w
  proof -
    have "leads (\<lambda>w'. w' = w) (io_bind (io_attempt (submit_execution cx (new_execution_id w) spec)) k) (grown fs)"
    proof (rule leads_seq)
      show "leads (\<lambda>w'. w' = w) (io_attempt (submit_execution cx (new_execution_id w) spec)) (grown fs)"
      proof (rule leads_attempt)
        have "leads (\<lambda>w'. grown fs w' \<and> event_log (wd_fs w') (new_execution_id w) = [])
            (submit_execution cx (new_execution_id w) spec :: execution bridge) (grown fs)"
          by (rule submission_grows [OF new_execution_id_ok])
        with that show "leads (\<lambda>w'. w' = w) (submit_execution cx (new_execution_id w) spec) (grown fs)"
          by (simp add: leads_def fresh_id_def)
      qed
      show "leads (grown fs) (k r) (grown fs)" for r using assms [of r] by (rule leads_keeps)
    qed
    then show ?thesis by (simp add: leads_def)
  qed
  then show ?thesis by (simp add: leads_def io_bind_def io_get_def)
qed

lemma update_status_grown: "keeps (grown fs) (update_execution_status cx xid a)"
  unfolding keeps_def
proof (intro allI impI)
  fix w :: "'a world" assume w: "grown fs w"
  show "grown fs (snd (update_execution_status cx xid a w))"
  proof (cases "load_execution cx xid (wd_fs w)")
    case (Inl e)
    with w show ?thesis by (simp add: update_execution_status_def io_bind_def store_read_def io_result_def io_fail_def)
  next
    case (Inr sn)
    show ?thesis
    proof (cases "next_status a (ex_status (sn_execution sn))")
      case (Inl e)
      with Inr w show ?thesis
        by (simp add: update_execution_status_def io_bind_def store_read_def io_result_def io_fail_def io_return_def)
    next
      case status: (Inr status)
      let ?x = "(sn_execution sn)\<lparr>ex_status := status\<rparr>"
      let ?e = "control_event_new xid (of_nat (length (sn_events sn)) + 1) (action_event a)"
      define fs1 where "fs1 = snd (save_execution ?x (wd_fs w))"
      have fs1: "grown fs (w\<lparr>wd_fs := fs1\<rparr>)" "event_log fs1 xid = sn_events sn"
        using logs_grow_frame [OF _ w, of fs1] load_execution_events [OF Inr] by (simp_all add: fs1_def event_log_def)
      have dir: "bt_get fs1 xid \<noteq> None"
        using load_execution_exists [OF Inr] by (auto simp: fs1_def save_execution_def write_dir_def split: option.splits)
      have "wd_fs (snd (update_execution_status cx xid a w)) \<in> {fs1, snd (store_append_event xid ?e fs1)}"
        using Inr status
        by (auto simp: update_execution_status_def io_bind_def store_read_def io_result_def io_return_def io_then_def
            save_now_def store_do_def Let_def fs1_def split: prod.splits sum.splits)
      with fs1 logs_grow_append [OF _ dir, of fs "action_event a"] show ?thesis by auto
    qed
  qed
qed

lemma write_spec_frame:
  "keeps (grown fs) (write_spec_file dir body fmt)" "keeps (\<lambda>w. grown fs w \<and> fresh_id w) (write_spec_file dir body fmt)"
  by (auto simp: keeps_def write_spec_file_def Let_def fresh_id_def new_execution_id_def now_text_ms_def)

lemma parse_submitted_frame: "(\<And>dir. keeps P (write_spec_file dir body None)) \<Longrightarrow> keeps P (parse_submitted_execution_spec rd body dir)"
  unfolding parse_submitted_execution_spec_def by (intro keeps_rules)

named_theorems grown_rules \<open>handlers that let the logs grow\<close>

lemma grown_handlers [grown_rules]:
  "keeps (grown fs) (handle_execution_dry_run rd body)" "keeps (grown fs) (handle_execution_list cx)"
  "keeps (grown fs) (handle_execution_get cx path)" "keeps (grown fs) (handle_execution_events cx path)"
  "keeps (grown fs) (handle_team_get cx path)" "keeps (grown fs) (handle_batch_get cx path)"
  "keeps (grown fs) (pure_response f)" "keeps (grown fs) (handle_execution_action cx path a)"
  "keeps (grown fs) (handle_execution_policy_patch cx rd path body)"
  unfolding handle_execution_dry_run_def handle_execution_list_def handle_execution_get_def handle_execution_events_def
    handle_team_get_def handle_batch_get_def pure_response_def handle_execution_action_def handle_execution_policy_patch_def
    patch_execution_policy_def respond_with_snapshot_def Let_def
  by (intro keeps_rules parse_submitted_frame write_spec_frame update_status_grown grown_frame; simp)+

lemma submitting_handlers:
  "leads (\<lambda>w. grown fs w \<and> fresh_id w) (handle_execution_create cx rd cf body) (grown fs)"
  "leads (\<lambda>w. grown fs w \<and> fresh_id w) (handle_batch_run cx rd body) (grown fs)"
  "leads (\<lambda>w. grown fs w \<and> fresh_id w) (handle_team_run cx rd body) (grown fs)"
  "leads (\<lambda>w. grown fs w \<and> fresh_id w) (handle_template_execute cx rd path body) (grown fs)"
proof -
  have compiled: "leads (\<lambda>w. grown fs w \<and> fresh_id w) (submit_compiled cx f spec) (grown fs)" for f spec
    unfolding submit_compiled_def by (intro submit_now_grows keeps_rules)
  show "leads (\<lambda>w. grown fs w \<and> fresh_id w) (handle_execution_create cx rd cf body) (grown fs)"
    unfolding handle_execution_create_def submit_execution_spec_def
  proof (rule leads_seq)
    show "leads (\<lambda>w. grown fs w \<and> fresh_id w) (parse_submitted_execution_spec rd body (bc_spec_dir cf)) (\<lambda>w. grown fs w \<and> fresh_id w)"
      by (rule leads_keeps [OF parse_submitted_frame [OF write_spec_frame(2)]])
  qed (auto split: sum.split intro!: leads_return submit_now_grows keeps_rules)
  show "leads (\<lambda>w. grown fs w \<and> fresh_id w) (handle_batch_run cx rd body) (grown fs)"
    "leads (\<lambda>w. grown fs w \<and> fresh_id w) (handle_team_run cx rd body) (grown fs)"
    unfolding handle_batch_run_def handle_team_run_def by (auto split: sum.split intro!: leads_return compiled)
  show "leads (\<lambda>w. grown fs w \<and> fresh_id w) (handle_template_execute cx rd path body) (grown fs)"
    unfolding handle_template_execute_def
    using compiled [unfolded leads_def]
    by (auto split: option.split sum.split intro!: leads_return leads_get) (auto simp: leads_def io_return_def split: sum.split)
qed

text \<open>Only \<open>POST\<close> reaches the routes that submit.\<close>

definition submitting_routes :: "route_handler set" where
  "submitting_routes = {RouteExecutionCreate, RouteBatchRun, RouteTeamRun, RouteTemplateExecute}"

lemma submitting_post: "(p, m) \<in> set bridge_routes \<Longrightarrow> handler_of m verb = Some h \<Longrightarrow> h \<in> submitting_routes \<Longrightarrow> verb = ''POST''"
proof -
  assume route: "(p, m) \<in> set bridge_routes" "handler_of m verb = Some h" "h \<in> submitting_routes"
  then have "h \<noteq> RouteRunsPassthrough" by (auto simp: submitting_routes_def)
  from table_entry [OF route(1,2) this] route(3) show ?thesis
    unfolding table_entries_routes by (auto simp: submitting_routes_def)
qed

subsection \<open>The operations of the service\<close>

text \<open>An operation that lets the logs of every earlier store grow keeps them contiguous.\<close>

lemma grown_keeps_logs: "(\<And>fs. keeps (grown fs) m) \<Longrightarrow> logs_ok w \<Longrightarrow> logs_ok (snd (m w))"
  using logs_grow_refl logs_grow_ok unfolding keeps_def by blast

lemma patch_policy_grown: "keeps (grown fs) (patch_execution_policy cx xid patch global)"
  unfolding patch_execution_policy_def Let_def by (intro keeps_rules grown_frame) simp

lemma submission_keeps_logs:
  "log_id_ok xid \<Longrightarrow> event_log (wd_fs w) xid = [] \<Longrightarrow> logs_ok w \<Longrightarrow> logs_ok (snd (submit_execution cx xid spec w))"
  using submission_grows [of xid "wd_fs w" cx spec] logs_grow_refl logs_grow_ok unfolding leads_def by blast

text \<open>
  C1: Every public operation of the service that writes to the store keeps all event logs contiguous, with a
  runtime and adapters that leave the logs contiguous themselves: after processing, dispatching, planning or
  running an execution, after changing its status or its policy - whether the operation returns, fails or
  panics - every log is still numbered 1, 2, 3, ... with the id of its execution. A submission does so if the
  id it is given has no log yet; this is the one exception, since a
  submission numbers its events from 1 again. The logs are
  those of ids without a line break and without the bar that separates the fields of a line.
\<close>

theorem service_keeps_event_logs:
  assumes "log_runtime sv" and "logs_ok w"
  shows "logs_ok (snd (process_execution sv xid w)) \<and> logs_ok (snd (dispatch_execution_once sv xid w))
    \<and> logs_ok (snd (bridge_dispatch_execution_once sv xid w)) \<and> logs_ok (snd (plan_execution sv xid w))
    \<and> logs_ok (snd (run_to_completion sv spec w))
    \<and> logs_ok (snd (update_execution_status cx xid action w))
    \<and> logs_ok (snd (patch_execution_policy cx xid patch global w))
    \<and> (if log_id_ok xid \<and> event_log (wd_fs w) xid = [] then logs_ok (snd (submit_execution cx xid spec w)) else True)"
  using service_contract.keeps_entry_points [OF log_runtime.log_service [OF assms(1)]] assms(2)
    grown_keeps_logs [OF update_status_grown assms(2), of cx xid action]
    grown_keeps_logs [OF patch_policy_grown assms(2), of cx xid patch global]
    submission_keeps_logs [OF _ _ assms(2), of xid cx spec]
  by (simp add: keeps_def)

lemma service_keeps_event_logs_witness:
  "logs_ok (snd (run_to_completion local_service sample_spec empty_world))
   \<and> logs_ok (snd (submit_execution local_codec ''e1'' sample_spec empty_world))"
  using service_keeps_event_logs [OF local_service_log_runtime empty_world_logs, of "''e1''" sample_spec local_codec]
  by (simp add: empty_world_def event_log_def events_file_def log_id_ok_def)

subsection \<open>The surroundings of a server\<close>

text \<open>
  What the daemon, the clock and the workflow files have to do: a call may take its time, and other tasks may
  append to logs meanwhile, but nobody takes anything away from a log.
\<close>

locale append_only_surroundings =
  fixes c :: "bridge_env void_box_client" and sv :: "bridge_env service" and lh :: "bridge_env launch_host"
  assumes request_grows: "grown fs w \<Longrightarrow> grown fs (snd (vb_transport c verb path body w))"
    and sleep_grows: "grown fs w \<Longrightarrow> grown fs (svc_sleep sv n w)"
    and write_grows: "grown fs w \<Longrightarrow> grown fs (snd (lh_write lh path text_of w))"
begin

lemma transport_grows: "daemon_transport c (grown fs)"
  by unfold_locales (rule request_grows)

lemma launch_grows: "keeps (grown fs) (handle_launch rd cf (Some (vb_start c)) body)"
proof -
  have start: "keeps (grown fs) (start_launched (vb_start c) run_id path p)" for run_id path p
    unfolding keeps_def
  proof (intro allI impI)
    fix w :: "bridge_env world" assume "grown fs w"
    then have "grown fs (snd (vb_start c q w))" for q
      using daemon_transport.keeps_client(1) [OF transport_grows] by (simp add: call_keeps_def)
    then show "grown fs (snd (start_launched (vb_start c) run_id path p w))"
      unfolding start_launched_def by (simp split: prod.split sum.split) (metis snd_conv)
  qed
  show ?thesis
    unfolding handle_launch_def launch_file_def Let_def option.case by (intro keeps_rules write_spec_frame start)
qed

lemma passthrough_grows: "keeps (grown fs) (route_runs_passthrough c verb path body)"
  unfolding keeps_def
proof (intro allI impI)
  fix w :: "bridge_env world" assume "grown fs w"
  then have "grown fs (snd (forward c verb path body w))" using request_grows by (simp add: forward_def)
  then show "grown fs (snd (route_runs_passthrough c verb path body w))"
    by (simp add: route_runs_passthrough_def split: prod.split sum.split) (metis snd_conv)
qed

lemma reading_handler_grows:
  assumes "bs_client st = c" and "h \<notin> submitting_routes"
  shows "keeps (grown fs) (run_handler st h verb path query body)"
proof -
  have wrap: "keeps (grown fs) (into_axum m)" if "keeps (grown fs) m" for m
    unfolding into_axum_def using that by (intro keeps_rules)
  show ?thesis
    by (insert assms(2), cases h; simp add: assms(1) submitting_routes_def;
        (rule wrap, rule grown_rules launch_grows keeps_return | rule passthrough_grows))
qed

lemma handler_grows:
  assumes "bs_client st = c"
  shows "leads (\<lambda>w. grown fs w \<and> fresh_id w) (run_handler st h verb path query body) (grown fs)"
proof (cases "h \<in> submitting_routes")
  case True
  have wrap: "leads (\<lambda>w. grown fs w \<and> fresh_id w) (into_axum m) (grown fs)"
    if "leads (\<lambda>w. grown fs w \<and> fresh_id w) m (grown fs)" for m
    unfolding into_axum_def using that by (rule leads_seq) (simp_all add: leads_return)
  show ?thesis using True by (auto simp: submitting_routes_def intro!: wrap submitting_handlers)
next
  case False
  show ?thesis by (rule leads_keeps [OF reading_handler_grows [OF assms False]]) simp
qed

lemma request_served_grows:
  assumes "bs_client st = c"
  shows "leads (\<lambda>w. grown fs w \<and> fresh_id w) (serve_request pick st verb path query body) (grown fs)"
    and "verb \<noteq> ''POST'' \<Longrightarrow> keeps (grown fs) (serve_request pick st verb path query body)"
proof -
  have none: "keeps (grown fs) (route_not_found verb path)"
    unfolding route_not_found_def into_axum_def by (intro keeps_rules)
  then have "leads (\<lambda>w. grown fs w \<and> fresh_id w) (route_not_found verb path) (grown fs)" by (rule leads_keeps) simp
  then show "leads (\<lambda>w. grown fs w \<and> fresh_id w) (serve_request pick st verb path query body) (grown fs)"
    unfolding serve_request_def by (auto intro!: leads_option leads_return handler_grows [OF assms])
  show "keeps (grown fs) (serve_request pick st verb path query body)" if "verb \<noteq> ''POST''"
    unfolding serve_request_def
    using that none
    by (auto intro!: keeps_return reading_handler_grows [OF assms] simp: bind_eq_Some_conv dest!: map_of_SomeD
        dest: submitting_post split: option.split)
qed

lemma tick_grows: "keeps (grown fs) (process_pending_executions_once (with_launch_injection lh (void_box_service c sv)))"
proof -
  have same: "with_launch_injection lh (void_box_service c sv) = void_box_service c (with_launch_injection lh sv)"
    by (simp add: with_launch_injection_def void_box_service_def)
  let ?sv = "new_service (with_launch_injection lh sv)"
  have "runtime_contract (void_box_service c ?sv) (grown fs)"
  proof (rule daemon_transport.daemon_runtime [OF transport_grows])
    show "svc_delivery_adapter ?sv \<in> {None, Some (http_sidecar dl (vb_transport c))}" for dl
      by (simp add: new_service_def)
    have "call_keeps (grown fs) (prepare_launch_request lh q cand box)" for q cand box
      by (rule keeps_prepared_launch [where P = "grown fs"]) (rule write_grows)
    moreover fix w :: "bridge_env world" assume "grown fs w"
    ultimately show "grown fs (svc_sleep ?sv n w)" "grown fs (snd (svc_prepare_launch_request ?sv q cand box w))" for n q cand box
      using sleep_grows
      by (simp_all add: new_service_def with_launch_injection_def call_keeps_def)
  qed
  then have "growing_runtime (void_box_service c ?sv) fs" by (simp add: growing_runtime_def)
  moreover have "void_box_service c ?sv = new_service (void_box_service c (with_launch_injection lh sv))"
    by (simp add: void_box_service_def new_service_def)
  ultimately have runtime: "growing_runtime (new_service (void_box_service c (with_launch_injection lh sv))) fs" by simp
  show ?thesis
    using service_contract.keeps_tick [OF growing_runtime.growing_service [OF runtime] new_service_idem]
    unfolding same tick_new_service .
qed

end

end
