(* ===== verification/Response_Types.thy ===== *)
theory Response_Types
  imports Router
begin

text \<open>
  The types of the answers: the JSON document that each route of \<open>build_router\<close> (\<open>src/bridge.rs\<close>) answers
  with. The code builds these documents from separate response structures; nothing in it ties a route to its
  structure. Lemmas: each handler answers, with the document of its route or with an error.
\<close>

subsection \<open>The type of an answer\<close>

text \<open>The document of a successful answer.\<close>

fun success_body :: "route_handler \<Rightarrow> body \<Rightarrow> bool" where
  "success_body RouteHealth b = (b = BHealth)"
| "success_body RouteExecutionsDryRun b = (\<exists>d. b = BDryRun d \<and> dr_valid d)"
| "success_body RouteBatchDryRun b = (\<exists>s. b = BCompiled ''batch'' ''swarm'' s)"
| "success_body RouteTeamDryRun b = (\<exists>m s. b = BCompiled ''team'' m s)"
| "success_body RouteTeamRun b = (\<exists>m x. b = BSubmitted ''team'' (ex_execution_id x) m x)"
| "success_body RouteTeamGet b = (\<exists>xid d. b = BTagged ''team'' xid d)"
| "success_body RouteBatchRun b = (\<exists>x. b = BSubmitted ''batch'' (ex_execution_id x) ''swarm'' x)"
| "success_body RouteBatchGet b = (\<exists>d. b = BTagged ''batch'' (ex_execution_id (ed_execution d)) d)"
| "success_body RouteTemplateList b = (\<exists>ts. b = BTemplates ts)"
| "success_body RouteTemplateGet b = (\<exists>t. b = BTemplate t)"
| "success_body RouteTemplateDryRun b = (\<exists>t k m s. b = BTemplateDryRun t k m s)"
| "success_body RouteTemplateExecute b = (\<exists>t k x. b = BTemplateExecuted t k x)"
| "success_body RouteExecutionCreate b = (\<exists>x. b = BExecution x)"
| "success_body RouteExecutionList b = (\<exists>xs. b = BExecutions xs)"
| "success_body RouteExecutionGet b = (\<exists>d. b = BDetail d)"
| "success_body RouteExecutionEvents b = (\<exists>xid es. b = BEvents xid es)"
| "success_body RouteExecutionPolicyPatch b = (\<exists>xid n m. b = BPolicy xid n m)"
| "success_body RouteExecutionPause b = (\<exists>x. b = BExecution x)"
| "success_body RouteExecutionResume b = (\<exists>x. b = BExecution x)"
| "success_body RouteExecutionCancel b = (\<exists>x. b = BExecution x)"
| "success_body RouteLaunch b = (\<exists>l. b = BLaunched l)"
| "success_body RouteRunsPassthrough b = False"

text \<open>An error document; a dry run of an execution answers an invalid specification with its result.\<close>

definition error_body :: "route_handler \<Rightarrow> body \<Rightarrow> bool" where
  "error_body h b =
     (case b of BError _ \<Rightarrow> True | BDryRun d \<Rightarrow> h = RouteExecutionsDryRun \<and> \<not> dr_valid d | _ \<Rightarrow> False)"

definition typed_response :: "route_handler \<Rightarrow> response \<Rightarrow> bool" where
  "typed_response h r =
     (if rs_status r = 200 then success_body h (rs_body r)
      else error_body h (rs_body r) \<and> rs_status r \<in> {400, 404, 500})"

text \<open>The passthrough hands on what the daemon says; its own answer is that the daemon is not reached.\<close>

definition typed_answer :: "route_handler \<Rightarrow> server_response \<Rightarrow> bool" where
  "typed_answer h a =
     (case a of
        FromBridge r \<Rightarrow>
          if h = RouteRunsPassthrough
          then rs_status r = 502 \<and> (\<exists>e. rs_body r = BError e \<and> ae_code e = ''DAEMON_UNREACHABLE'')
          else typed_response h r
      | FromDaemon status _ \<Rightarrow> h = RouteRunsPassthrough \<and> status \<in> {100..999}
      | FromFramework _ \<Rightarrow> False)"

definition selected_handler ::
    "(pattern list \<Rightarrow> string list \<Rightarrow> pattern option) \<Rightarrow> string \<Rightarrow> string \<Rightarrow> (route_handler option) option" where
  "selected_handler pick verb path =
     map_option (\<lambda>p. Option.bind (map_of bridge_routes p) (\<lambda>m. handler_of m verb))
       (Option.bind (path_segments path) (pick (map fst bridge_routes)))"

subsection \<open>Handlers answer with the type of their route\<close>

lemma success_not_error [simp]: "\<not> success_body h (BError e)"
  by (cases h) simp_all

lemma typed_simps [simp]:
  "typed_response h (json_response 200 b) = success_body h b"
  "typed_response h (error_response s c m v) \<longleftrightarrow> s \<in> {400, 404, 500}"
  "typed_response h (no_route verb path)" "typed_response h (internal_error e)"
  "typed_response h (execution_not_found xid)" "typed_response h (template_error xid m)"
  by (auto simp: typed_response_def error_body_def json_response_def error_response_def no_route_def internal_error_def
      execution_not_found_def template_error_def)

lemma typed_update: "(\<And>x. success_body h (f x)) \<Longrightarrow> typed_response h (update_response xid c f r)"
  by (auto simp: update_response_def split: sum.split)

lemma typed_snapshot: "(\<And>sn. success_body h (f sn)) \<Longrightarrow> answers (Collect (typed_response h)) (respond_with_snapshot cx xid f)"
  unfolding respond_with_snapshot_def by (intro answer_rules no_panic_rules) (auto split: sum.split)

lemma typed_get: "answers (Collect (typed_response RouteExecutionGet)) (handle_execution_get cx path)"
  unfolding handle_execution_get_def by (intro answer_rules typed_snapshot) simp_all

lemma typed_events: "answers (Collect (typed_response RouteExecutionEvents)) (handle_execution_events cx path)"
  unfolding handle_execution_events_def by (intro answer_rules typed_snapshot) simp_all

lemma typed_list: "answers (Collect (typed_response RouteExecutionList)) (handle_execution_list cx)"
  unfolding handle_execution_list_def by (intro answer_rules no_panic_rules) simp_all

lemma typed_tag:
  assumes "typed_response RouteExecutionGet r"
  shows "typed_response RouteTeamGet (tag_detail ''team'' (\<lambda>_. xid) r)"
    and "typed_response RouteBatchGet (tag_detail ''batch'' (\<lambda>d. ex_execution_id (ed_execution d)) r)"
  using assms by (auto simp: tag_detail_def typed_response_def error_body_def json_response_def split: if_splits body.splits)

lemma typed_tagged:
  "answers (Collect (typed_response RouteTeamGet)) (handle_team_get cx path)"
  "answers (Collect (typed_response RouteBatchGet)) (handle_batch_get cx path)"
  unfolding handle_team_get_def handle_batch_get_def
  by (intro answer_rules answers_bind [OF typed_get]; simp add: typed_tag)+

lemma typed_compiled:
  "compiled_batch rd body = Inl r \<Longrightarrow> typed_response h r"
  "compiled_team rd body = Inl r \<Longrightarrow> typed_response h r"
  "compile_template_request rd env xid body = Inl r \<Longrightarrow> typed_response h r"
  by (auto simp: compiled_batch_def parse_submitted_batch_spec_def compiled_team_def parse_submitted_team_spec_def
      compile_template_request_def result_simps)

lemma typed_pure:
  "typed_response RouteBatchDryRun (handle_batch_dry_run rd body)"
  "typed_response RouteTeamDryRun (handle_team_dry_run rd body)"
  "typed_response RouteTemplateList (handle_template_list rd env)"
  "typed_response RouteTemplateGet (handle_template_get rd env path)"
  "typed_response RouteTemplateDryRun (handle_template_dry_run rd env path body)"
  by (auto simp: handle_batch_dry_run_def handle_team_dry_run_def handle_template_list_def handle_template_get_def
      handle_template_dry_run_def split: sum.split option.split dest: typed_compiled)

lemma answers_pure: "(\<And>env. f env \<in> S) \<Longrightarrow> answers S (pure_response f)"
  unfolding pure_response_def by (intro answer_rules)

lemma typed_submit: "(\<And>x. success_body h (f x)) \<Longrightarrow> answers (Collect (typed_response h)) (submit_compiled cx f spec)"
  unfolding submit_compiled_def by (intro answer_rules no_panic_submit) simp_all

lemma typed_runs:
  "answers (Collect (typed_response RouteBatchRun)) (handle_batch_run cx rd body)"
  "answers (Collect (typed_response RouteTeamRun)) (handle_team_run cx rd body)"
  "answers (Collect (typed_response RouteTemplateExecute)) (handle_template_execute cx rd path body)"
  unfolding handle_batch_run_def handle_team_run_def handle_template_execute_def
  by (intro answer_rules typed_submit; auto dest: typed_compiled)+

lemma typed_create: "answers (Collect (typed_response RouteExecutionCreate)) (handle_execution_create cx rd cf body)"
  unfolding handle_execution_create_def submit_execution_spec_def
  by (intro answer_rules answers_bind [OF answers_parse] no_panic_submit) simp_all

lemma typed_dry_run: "answers (Collect (typed_response RouteExecutionsDryRun)) (handle_execution_dry_run rd body)"
  unfolding handle_execution_dry_run_def respond_with_execution_dry_run_def Let_def
  by (intro answer_rules answers_bind [OF answers_parse])
    (simp_all add: typed_response_def json_response_def error_body_def invalid_dry_run_def)

lemma typed_action:
  "(\<And>x. success_body h (BExecution x)) \<Longrightarrow> answers (Collect (typed_response h)) (handle_execution_action cx path a)"
  unfolding handle_execution_action_def by (intro answer_rules no_panic_update) (simp_all add: typed_update)

lemma typed_policy: "answers (Collect (typed_response RouteExecutionPolicyPatch)) (handle_execution_policy_patch cx rd path body)"
  unfolding handle_execution_policy_patch_def by (intro answer_rules no_panic_patch) (simp_all add: typed_update)

lemma typed_launch: "answers (Collect (typed_response RouteLaunch)) (handle_launch rd cf (Some client) body)"
proof -
  have launched: "answers {x. \<forall>r. x = Inl r \<longrightarrow> typed_response RouteLaunch r} (launch_file cf l)" for l
    unfolding launch_file_def
    by (intro answer_rules answers_bind [OF answers_write]) (auto simp: result_simps split: sum.split)
  have start: "answers (Collect (typed_response RouteLaunch)) (start_launched client run_id f p)" for run_id f p
    unfolding start_launched_def answers_def by (auto split: prod.split sum.split)
  show ?thesis
    unfolding handle_launch_def Let_def option.case
    by (intro answer_rules answers_bind [OF launched]) (auto intro!: start)
qed

lemma typed_passthrough: "answers (Collect (typed_answer RouteRunsPassthrough)) (route_runs_passthrough c verb path body)"
  by (auto simp: answers_def route_runs_passthrough_def typed_answer_def error_response_def json_response_def
      split: prod.split sum.split)

lemma typed_into_axum:
  assumes "answers (Collect (typed_response h)) m" and "h \<noteq> RouteRunsPassthrough"
  shows "answers (Collect (typed_answer h)) (into_axum m)"
  unfolding into_axum_def
  using assms by (intro answers_bind [OF assms(1)] answers_return) (simp add: typed_answer_def)

lemma typed_handler: "answers (Collect (typed_answer h)) (run_handler st h verb path query body)"
proof (cases "h = RouteRunsPassthrough")
  case True
  then show ?thesis by (simp add: typed_passthrough)
next
  case False
  have returned: "answers (Collect (typed_response g)) (io_return r)" if "typed_response g r" for g r
    using that by (intro answers_return) simp
  note rules = typed_pure answers_pure typed_get typed_events typed_list typed_tagged typed_runs typed_create
    typed_dry_run typed_policy typed_launch typed_action
  show ?thesis
    using False by (cases h) (simp_all add: typed_into_axum returned rules)
qed

text \<open>
  C4: Every request is answered, and the answer has the type of its route: with status 200 the document of
  the route (the run id of a submission being the id of the stored execution), with another status an error
  document, and for the passthrough what the daemon answered or \<open>DAEMON_UNREACHABLE\<close>. A path without a
  route gets the error document with status 404, a known path with another method an empty answer with 405.
\<close>

theorem answers_have_route_types:
  "\<exists>a w'. serve_request pick st verb path query body w = (Inr a, w')
     \<and> (case selected_handler pick verb path of
          None \<Rightarrow> a = FromBridge (no_route verb path)
        | Some None \<Rightarrow> a = FromFramework 405
        | Some (Some h) \<Rightarrow> typed_answer h a)"
  using typed_handler [of _ st verb path query body, unfolded answers_def, rule_format, of _ w]
  by (auto simp: serve_request_def selected_handler_def route_not_found_def into_axum_def io_return_def
      simp flip: io_return_def split: option.split)

lemma answers_have_route_types_witness:
  "\<forall>st w. \<exists>r w'. serve_request best_pattern st ''GET'' ''/v1/team-runs/exec-7'' [] [] w = (Inr (FromBridge r), w')
     \<and> typed_response RouteTeamGet r"
proof (intro allI)
  fix st w
  have "path_segments ''/v1/team-runs/exec-7'' = Some [''v1'', ''team-runs'', ''exec-7'']"
    by (simp add: path_segments_def strip_prefix_def starts_with_Cons)
  then have "selected_handler best_pattern ''GET'' ''/v1/team-runs/exec-7'' = Some (Some RouteTeamGet)"
    by (simp add: selected_handler_def bridge_routes_def get_route_def post_route_def handler_of_def)
  with answers_have_route_types [of best_pattern st "''GET''" "''/v1/team-runs/exec-7''" "[]" "[]" w]
  obtain a w' where "serve_request best_pattern st ''GET'' ''/v1/team-runs/exec-7'' [] [] w = (Inr a, w')"
    "typed_answer RouteTeamGet a" by auto
  then show "\<exists>r w'. serve_request best_pattern st ''GET'' ''/v1/team-runs/exec-7'' [] [] w = (Inr (FromBridge r), w')
     \<and> typed_response RouteTeamGet r"
    by (cases a) (auto simp: typed_answer_def)
qed

end
