(* ===== verification/Server.thy ===== *)
theory Server
  imports Server_Logs Response_Types Worker_Faults
begin

text \<open>
  The bridge as a process (\<open>run_bridge\<close> of \<open>src/bridge.rs\<close>): how it starts, and the worker task and the HTTP
  server that share one world. The relation \<open>server_step\<close> has a pass of the worker, an answered request and
  idle time as its steps; what a request does while a pass awaits the daemon is part of the daemon's answer
  (see \<open>Io\<close>), and \<open>Races\<close> has what happens when two threads use one log at once. Lemmas: along every run the event logs only grow, if each submission gets a new id; two
  submissions in one millisecond do not; and after a panic of the worker requests go on without it.
\<close>

subsection \<open>Starting\<close>

text \<open>
  What the process is given: its environment and file system, the HTTP library, the readers and codec of
  the JSON library, the listener (the text of the error, if there is one), and clock and poll settings of the service.
\<close>

record bridge_host =
  bh_host :: host
  bh_hyper :: "bridge_env hyper"
  bh_daemon_readers :: daemon_readers
  bh_create_dir :: "string \<Rightarrow> string option"
  bh_bind :: "string \<Rightarrow> string option"
  bh_codec :: codec
  bh_readers :: readers
  bh_service :: "bridge_env service"
  bh_launch :: "bridge_env launch_host"

fun create_storage_dirs :: "(string \<Rightarrow> string option) \<Rightarrow> string list \<Rightarrow> string + unit" where
  "create_storage_dirs mk [] = Inr ()"
| "create_storage_dirs mk (d # ds) =
     (case mk d of
        Some err \<Rightarrow> Inl (''failed to create bridge storage dir '' @ d @ '': '' @ err)
      | None \<Rightarrow> create_storage_dirs mk ds)"

definition bridge_state_of :: "bridge_host \<Rightarrow> bridge_env void_box_client \<Rightarrow> bridge_state" where
  "bridge_state_of bh c =
     \<lparr>bs_codec = bh_codec bh, bs_readers = bh_readers bh, bs_config = config_from_env (bh_host bh), bs_client = c\<rparr>"

definition bind_listener :: "bridge_host \<Rightarrow> bridge_config \<Rightarrow> string + unit" where
  "bind_listener bh cf =
     (case bh_bind bh (bc_listen cf) of
        None \<Rightarrow> Inr ()
      | Some e \<Rightarrow> Inl (''listen '' @ bc_listen cf @ '' failed: '' @ e))"

text \<open>The client is built once, before the worker is spawned: if that panics, the process ends.\<close>

definition open_bridge :: "bridge_host \<Rightarrow> (string + bridge_state) bridge" where
  "open_bridge bh =
     (let cf = config_from_env (bh_host bh) in
      case create_storage_dirs (bh_create_dir bh) [bc_spec_dir cf, bc_execution_dir cf] of
        Inl e \<Rightarrow> io_return (Inl e)
      | Inr _ \<Rightarrow>
          io_bind (client_new (bh_host bh) (bh_hyper bh) (bh_daemon_readers bh) (bc_base_url cf) 250) (\<lambda>c.
            io_return (map_ok (\<lambda>_. bridge_state_of bh c) (bind_listener bh cf))))"

definition listening_line :: "bridge_config \<Rightarrow> string" where
  "listening_line cf = ''voidctl bridge listening on http://'' @ bc_listen cf @ '' -> '' @ bc_base_url cf"

subsection \<open>Worker and requests\<close>

record server =
  br_world :: "bridge_env world"
  br_worker :: bool
  br_out :: "string list"
  br_errors :: "string list"

definition serving :: "bridge_state \<Rightarrow> bridge_env world \<Rightarrow> server" where
  "serving st w = \<lparr>br_world = w, br_worker = True, br_out = [listening_line (bs_config st)], br_errors = []\<rparr>"

definition worker_service :: "bridge_host \<Rightarrow> bridge_state \<Rightarrow> bridge_env service" where
  "worker_service bh st =
     with_launch_injection (bh_launch bh) (void_box_service (bs_client st) ((bh_service bh)\<lparr>svc_global := front_end_global\<rparr>))"

text \<open>One turn of the loop: an error is printed and the worker sleeps; a panic ends the task.\<close>

definition worker_pass :: "bridge_host \<Rightarrow> bridge_state \<Rightarrow> server \<Rightarrow> server" where
  "worker_pass bh st s =
     (case process_pending_executions_once (worker_service bh st) (br_world s) of
        (Inr _, w) \<Rightarrow> s\<lparr>br_world := svc_sleep (bh_service bh) 500 w\<rparr>
      | (Inl (IoErr e), w) \<Rightarrow>
          s\<lparr>br_world := svc_sleep (bh_service bh) 500 w,
            br_errors := br_errors s @ [''bridge worker tick failed: '' @ io_message e]\<rparr>
      | (Inl (Panic _), w) \<Rightarrow> s\<lparr>br_world := w, br_worker := False\<rparr>)"

datatype server_event =
    WorkerPass
  | TimePasses u64
  | Served string string string string server_response

inductive server_step ::
    "bridge_host \<Rightarrow> (pattern list \<Rightarrow> string list \<Rightarrow> pattern option) \<Rightarrow> bridge_state \<Rightarrow> server \<Rightarrow> server_event \<Rightarrow> server \<Rightarrow> bool"
  for bh pick st where
  pass: "br_worker s \<Longrightarrow> server_step bh pick st s WorkerPass (worker_pass bh st s)"
| idle: "server_step bh pick st s (TimePasses n) (s\<lparr>br_world := (br_world s)\<lparr>wd_now := wd_now (br_world s) + n\<rparr>\<rparr>)"
| served: "serve_request pick st verb path query body (br_world s) = (Inr a, w) \<Longrightarrow>
    server_step bh pick st s (Served verb path query body a) (s\<lparr>br_world := w\<rparr>)"

inductive_cases pass_cases: "server_step bh pick st s WorkerPass s'"
inductive_cases idle_cases: "server_step bh pick st s (TimePasses n) s'"
inductive_cases served_cases: "server_step bh pick st s (Served verb path query body a) s'"
inductive_simps served_iff: "server_step bh pick st s (Served verb path query body a) s'"

text \<open>Runs; \<open>admit\<close> restricts what may happen in a world.\<close>

inductive server_run ::
    "bridge_host \<Rightarrow> (pattern list \<Rightarrow> string list \<Rightarrow> pattern option) \<Rightarrow> bridge_state
     \<Rightarrow> (server_event \<Rightarrow> bridge_env world \<Rightarrow> bool) \<Rightarrow> server \<Rightarrow> server_event list \<Rightarrow> server \<Rightarrow> bool"
  for bh pick st admit where
  run_Nil: "server_run bh pick st admit s [] s"
| run_Cons: "server_step bh pick st s e s1 \<Longrightarrow> admit e (br_world s) \<Longrightarrow> server_run bh pick st admit s1 es s' \<Longrightarrow>
    server_run bh pick st admit s (e # es) s'"

inductive_simps run_Nil_iff [simp]: "server_run bh pick st admit s [] s'"
inductive_simps run_Cons_iff: "server_run bh pick st admit s (e # es) s'"

definition anything :: "server_event \<Rightarrow> bridge_env world \<Rightarrow> bool" where
  "anything e w = True"

text \<open>Every \<open>POST\<close> arrives at a millisecond whose execution id is not taken.\<close>

definition fresh_posts :: "server_event \<Rightarrow> bridge_env world \<Rightarrow> bool" where
  "fresh_posts e w = (case e of Served verb _ _ _ _ \<Rightarrow> verb \<noteq> ''POST'' \<or> fresh_id w | _ \<Rightarrow> True)"

lemma run_invariant:
  assumes "server_run bh pick st admit s es s'" and "P s"
    and "\<And>s e s1. server_step bh pick st s e s1 \<Longrightarrow> admit e (br_world s) \<Longrightarrow> P s \<Longrightarrow> P s1"
  shows "P s'"
  using assms(1,2) by (induction rule: server_run.induct) (auto intro: assms(3))

lemma request_answered: "\<exists>a w'. serve_request pick st verb path query body w = (Inr a, w')"
  using typed_handler [of _ st verb path query body, unfolded answers_def, rule_format, of _ w]
  by (auto simp: serve_request_def route_not_found_def into_axum_def io_return_def simp flip: io_return_def split: option.split)
    blast+

lemma request_step: "\<exists>a s'. server_step bh pick st s (Served verb path query body a) s'"
  using request_answered [of pick st verb path query body "br_world s"] server_step.served by blast

subsection \<open>Logs along runs\<close>

context append_only_surroundings
begin

lemma pass_grows:
  assumes "bs_client st = c" and "bh_service bh = sv" and "bh_launch bh = lh" and "grown fs (br_world s)"
  shows "grown fs (br_world (worker_pass bh st s))"
proof -
  have deployed: "append_only_surroundings c (sv\<lparr>svc_global := front_end_global\<rparr>) lh"
    by unfold_locales (simp_all add: request_grows sleep_grows write_grows)
  have "grown fs (snd (process_pending_executions_once (worker_service bh st) (br_world s)))"
    using keepsD [OF append_only_surroundings.tick_grows [OF deployed] assms(4)] by (simp add: worker_service_def assms(1-3))
  then show ?thesis
    by (auto simp: worker_pass_def assms(2) sleep_grows split: prod.split sum.split fault.split)
qed

lemma step_grows:
  assumes "server_step bh pick st s e s'" and "bs_client st = c" and "bh_service bh = sv" and "bh_launch bh = lh"
    and "fresh_posts e (br_world s)" and "grown fs (br_world s)"
  shows "grown fs (br_world s')"
  using assms(1)
proof cases
  case pass
  then show ?thesis using pass_grows [OF assms(2-4,6)] by simp
next
  case (idle n)
  then show ?thesis using assms(6) by simp
next
  case (served verb path query body a w)
  have "grown fs (snd (serve_request pick st verb path query body (br_world s)))"
    using request_served_grows [OF assms(2), where fs = fs and pick = pick and verb = verb and path = path
        and query = query and body = body] assms(5,6) served(1)
    by (auto simp: fresh_posts_def leads_def keeps_def)
  then show ?thesis using served by simp
qed

lemma run_grows:
  assumes "server_run bh pick st fresh_posts s es s'" and "bs_client st = c" and "bh_service bh = sv" and "bh_launch bh = lh"
    and "logs_ok (br_world s)"
  shows "logs_grow (wd_fs (br_world s)) (wd_fs (br_world s'))"
  by (rule run_invariant [OF assms(1), where P = "\<lambda>u. grown (wd_fs (br_world s)) (br_world u)"])
    (use assms(2-5) in \<open>auto intro: logs_grow_refl step_grows\<close>)

end


text \<open>
  The client of \<open>client_try_new\<close> over a library whose answers are fixed and whose sending takes no part in the
  world: with it, a clock that only advances and workflow files outside the store, the surroundings are met.
\<close>

definition scripted_hyper :: "(wire_request \<Rightarrow> send_outcome) \<Rightarrow> 'e hyper \<Rightarrow> 'e hyper" where
  "scripted_hyper script hy = hy\<lparr>hy_send_tcp := \<lambda>q w. (script q, w), hy_send_unix := \<lambda>q w. (script q, w)\<rparr>"

definition wired_client :: "bridge_env hyper \<Rightarrow> (wire_request \<Rightarrow> send_outcome) \<Rightarrow> transport \<Rightarrow> daemon_readers \<Rightarrow> bridge_env void_box_client" where
  "wired_client hy script t dl =
     \<lparr>vb_base_url = ''unix:///run/d.sock'', vb_poll_interval_ms = 250,
      vb_transport = transport_request (scripted_hyper script hy) t, vb_readers = dl\<rparr>"

definition clock_service :: "codec \<Rightarrow> bridge_env service" where
  "clock_service cx =
     \<lparr>svc_global = front_end_global, svc_codec = cx, svc_pid = 7, svc_ttl_var = None, svc_num_text = (\<lambda>_. ''0''),
      svc_str_text = (\<lambda>s. s), svc_start_run = (\<lambda>_ w. (Inl (contract_error_new InternalError [] True), w)),
      svc_inspect_run = (\<lambda>_ w. (Inl (contract_error_new InternalError [] True), w)),
      svc_take_structured_output = (\<lambda>_ w. (OutputMissing, w)), svc_inline_poll_budget = 1,
      svc_inline_poll_sleep_ms = 100, svc_sleep = (\<lambda>n w. w\<lparr>wd_now := wd_now w + n\<rparr>), svc_persisted_run_handle = (\<lambda>s. s),
      svc_delivery_run_ref = (\<lambda>_. None), svc_prepare_launch_request = (\<lambda>q _ _ w. (Inr q, w)), svc_delivery_adapter = None\<rparr>"

lemma scripted_transport_world: "snd (transport_request (scripted_hyper script hy) t verb path body w) = w"
  by (auto simp: transport_request_def call_bind_def call_result_def call_fail_def call_return_def send_with_timeout_def
      scripted_hyper_def split: prod.splits sum.splits transport.splits)

interpretation wired: append_only_surroundings "wired_client hy script t dl" "clock_service cx" demo_launch_host
  by unfold_locales (simp_all add: wired_client_def clock_service_def demo_launch_host_def scripted_transport_world)

subsection \<open>Properties\<close>

text \<open>
  C3: While the bridge runs - passes of the worker over the daemon and requests in any order, one at a time - no
  event log ever loses or changes an event, and every log stays numbered from 1 without a gap, provided that each
  \<open>POST\<close> arrives at a millisecond whose execution id is not taken. Daemon, clock and workflow files may do
  what they like as long as they take nothing away from a log.
\<close>

theorem server_logs_grow:
  assumes "\<And>fs verb path body w. logs_grow fs (wd_fs w) \<Longrightarrow>
      logs_grow fs (wd_fs (snd (vb_transport (bs_client st) verb path body w)))"
    and "\<And>fs n w. logs_grow fs (wd_fs w) \<Longrightarrow> logs_grow fs (wd_fs (svc_sleep (bh_service bh) n w))"
    and "\<And>fs path text_of w. logs_grow fs (wd_fs w) \<Longrightarrow> logs_grow fs (wd_fs (snd (lh_write (bh_launch bh) path text_of w)))"
    and "server_run bh pick st fresh_posts s es s'" and "logs_ok (br_world s)" and "log_id_ok y"
  shows "log_ok (wd_fs (br_world s')) y \<and> prefix (event_log (wd_fs (br_world s)) y) (event_log (wd_fs (br_world s')) y)"
proof -
  have "append_only_surroundings (bs_client st) (bh_service bh) (bh_launch bh)" by unfold_locales (simp_all add: assms(1-3))
  from append_only_surroundings.run_grows [OF this assms(4) refl refl refl assms(5)] assms(6) show ?thesis
    by (simp add: logs_grow_def)
qed

text \<open>A bridge on an empty store: a submission, a pass of the worker over its log, a reading request.\<close>

definition demo_bridge_host :: "bridge_host \<Rightarrow> bridge_host" where
  "demo_bridge_host bh = bh\<lparr>bh_service := clock_service (bh_codec bh), bh_launch := demo_launch_host\<rparr>"

definition demo_server :: "bridge_state \<Rightarrow> bridge_env \<Rightarrow> store_fs \<Rightarrow> server" where
  "demo_server st env fs =
     serving st \<lparr>wd_fs = fs, wd_now = 1700000000000, wd_next_execution_id = 1, wd_next_candidate_id = 1, wd_env = env\<rparr>"

lemma server_logs_grow_witness:
  "\<forall>bh hy script t dl env body. \<exists>a b s'.
     server_run (demo_bridge_host bh) best_pattern (bridge_state_of bh (wired_client hy script t dl)) fresh_posts
       (demo_server (bridge_state_of bh (wired_client hy script t dl)) env [])
       [Served ''POST'' ''/v1/executions'' [] body a, WorkerPass, Served ''GET'' ''/v1/executions'' [] [] b] s'
     \<and> log_ok (wd_fs (br_world s')) ''exec-1700000000000''"
proof (intro allI)
  fix bh hy script t dl env body
  let ?bh = "demo_bridge_host bh" and ?st = "bridge_state_of bh (wired_client hy script t dl)"
  let ?s = "demo_server ?st env []"
  obtain a s1 where first: "server_step ?bh best_pattern ?st ?s (Served ''POST'' ''/v1/executions'' [] body a) s1"
    using request_step [of ?bh best_pattern ?st ?s "''POST''" "''/v1/executions''" "[]" body] by blast
  then have "br_worker s1" by (auto simp: served_iff demo_server_def serving_def)
  then have second: "server_step ?bh best_pattern ?st s1 WorkerPass (worker_pass ?bh ?st s1)" by (rule server_step.pass)
  obtain b s' where third: "server_step ?bh best_pattern ?st (worker_pass ?bh ?st s1) (Served ''GET'' ''/v1/executions'' [] [] b) s'"
    using request_step [of ?bh best_pattern ?st "worker_pass ?bh ?st s1" "''GET''" "''/v1/executions''" "[]" "[]"] by blast
  have "fresh_id (br_world ?s)"
    by (simp add: demo_server_def serving_def fresh_id_def event_log_def events_file_def)
  with first second third have run: "server_run ?bh best_pattern ?st fresh_posts ?s
      [Served ''POST'' ''/v1/executions'' [] body a, WorkerPass, Served ''GET'' ''/v1/executions'' [] [] b] s'"
    by (auto simp: fresh_posts_def intro!: server_run.intros)
  have "logs_ok (br_world ?s)"
    by (simp add: demo_server_def serving_def logs_ok_def log_ok_def event_log_def events_file_def)
  moreover have "log_id_ok ''exec-1700000000000''" by (simp add: log_id_ok_def line_safe_def)
  ultimately have "log_ok (wd_fs (br_world s')) ''exec-1700000000000''"
    using server_logs_grow [OF _ _ _ run]
    by (simp add: demo_bridge_host_def bridge_state_of_def wired.request_grows wired.sleep_grows wired.write_grows)
  with run show "\<exists>a b s'. server_run ?bh best_pattern ?st fresh_posts ?s
      [Served ''POST'' ''/v1/executions'' [] body a, WorkerPass, Served ''GET'' ''/v1/executions'' [] [] b] s'
    \<and> log_ok (wd_fs (br_world s')) ''exec-1700000000000''" by blast
qed


subsection \<open>Submissions in one millisecond\<close>

lemma submit_same_time: "keeps (\<lambda>w. wd_now w = n) (submit_execution cx xid spec)"
  unfolding submit_execution_def Let_def by (intro keeps_rules keeps_store_do) simp_all

lemma create_selected:
  assumes "path_router pick"
  shows "serve_request pick st ''POST'' ''/v1/executions'' query body
    = into_axum (handle_execution_create (bs_codec st) (bs_readers st) (bs_config st) body)"
proof -
  have "pick (map fst bridge_routes) [''v1'', ''executions''] = Some [Lit ''v1'', Lit ''executions'']"
    by (rule path_router.pick_filter [OF assms]) (simp add: bridge_routes_def)
  moreover have "path_segments ''/v1/executions'' = Some [''v1'', ''executions'']"
    by (simp add: path_segments_def strip_prefix_def starts_with_Cons)
  ultimately show ?thesis
    by (simp add: serve_request_def bridge_routes_def get_route_def post_route_def handler_of_def)
qed

lemma create_submits:
  assumes "parse_execution_spec_request rd body = Inr r" and "try_into_spec r = Inr spec" and "cx_spec_enc cx spec = Inr s"
  obtains w' where "submit_execution cx (new_execution_id w) spec w
      = (Inr (execution_new (new_execution_id w) (es_mode spec) (es_goal spec)), w')"
    "handle_execution_create cx rd cf body w
      = (Inr (json_response 200 (BExecution (execution_new (new_execution_id w) (es_mode spec) (es_goal spec)))), w')"
    "new_execution_id w' = new_execution_id w"
proof -
  obtain w' where w': "submit_execution cx (new_execution_id w) spec w
      = (Inr (execution_new (new_execution_id w) (es_mode spec) (es_goal spec)), w')"
    using submit_ok [OF assms(3)] by blast
  have "wd_now w' = wd_now w"
    using keepsD [OF submit_same_time [of "wd_now w"], of w cx "new_execution_id w" spec] w' by simp
  then have "new_execution_id w' = new_execution_id w" by (simp add: new_execution_id_def now_text_ms_def)
  moreover have "handle_execution_create cx rd cf body w
      = (Inr (json_response 200 (BExecution (execution_new (new_execution_id w) (es_mode spec) (es_goal spec)))), w')"
    using assms(1,2) w'
    by (simp add: handle_execution_create_def parse_submitted_execution_spec_def submit_execution_spec_def io_bind_def
        io_get_def io_attempt_def io_return_def)
  ultimately show ?thesis using that w' by blast
qed

text \<open>
  C6: Two submissions that arrive in one millisecond share their execution: both are answered with 200 and the
  same id, and afterwards its log has the two events of a submission twice, with the sequence numbers 1, 2, 1, 2.
\<close>

theorem same_millisecond_breaks_log:
  assumes "path_router pick" and "logs_ok (br_world s)" and "fresh_id (br_world s)"
    and "parse_execution_spec_request (bs_readers st) body = Inr r" and "try_into_spec r = Inr spec"
    and "cx_spec_enc (bs_codec st) spec = Inr t"
    and "server_run bh pick st anything s
      [Served ''POST'' ''/v1/executions'' q1 body a, Served ''POST'' ''/v1/executions'' q2 body b] s'"
  shows "a = b \<and> b = FromBridge (json_response 200 (BExecution
      (execution_new (new_execution_id (br_world s)) (es_mode spec) (es_goal spec))))
    \<and> map ce_seq (event_log (wd_fs (br_world s')) (new_execution_id (br_world s))) = [1, 2, 1, 2]
    \<and> \<not> log_ok (wd_fs (br_world s')) (new_execution_id (br_world s))"
proof -
  let ?w = "br_world s" and ?id = "new_execution_id (br_world s)" and ?cx = "bs_codec st"
  let ?answer = "FromBridge (json_response 200 (BExecution (execution_new ?id (es_mode spec) (es_goal spec))))"
  let ?events = "[control_event_new ?id 1 ExecutionCreated, control_event_new ?id 2 ExecutionSubmitted]"
  note submitted = create_submits [OF assms(4-6)]
  obtain w1 where w1: "submit_execution ?cx ?id spec ?w = (Inr (execution_new ?id (es_mode spec) (es_goal spec)), w1)"
      "handle_execution_create ?cx (bs_readers st) (bs_config st) body ?w = (Inr (json_response 200 (BExecution
        (execution_new ?id (es_mode spec) (es_goal spec)))), w1)" "new_execution_id w1 = ?id"
    using submitted by metis
  obtain w2 where w2: "submit_execution ?cx ?id spec w1 = (Inr (execution_new ?id (es_mode spec) (es_goal spec)), w2)"
      "handle_execution_create ?cx (bs_readers st) (bs_config st) body w1 = (Inr (json_response 200 (BExecution
        (execution_new ?id (es_mode spec) (es_goal spec)))), w2)"
    using submitted [of w1] w1(3) by metis
  have run: "a = ?answer" "b = ?answer" "br_world s' = w2"
    using assms(7) w1(2) w2(2)
    by (auto simp: run_Cons_iff served_iff create_selected [OF assms(1)] into_axum_def io_bind_def io_return_def)
  have id: "log_id_ok ?id" by (rule new_execution_id_ok)
  have empty: "log_ok (wd_fs ?w) ?id" "event_log (wd_fs ?w) ?id = []"
    using assms(2,3) id by (simp_all add: logs_ok_def fresh_id_def)
  from submission_effect [OF id assms(6) empty(1) _ w1(1)] empty(2)
  have log1: "event_log (wd_fs w1) ?id = ?events" "log_ok (wd_fs w1) ?id" by simp_all
  from submission_effect [OF id assms(6) log1(2) _ w2(1)] log1(1)
  have "event_log (wd_fs w2) ?id = ?events @ ?events" "\<not> log_ok (wd_fs w2) ?id" by simp_all
  with run show ?thesis by (simp add: control_event_new_def)
qed

lemma same_millisecond_breaks_log_witness:
  "\<forall>bh rd c env. \<exists>s'.
     let st = (bridge_state_of bh c)\<lparr>bs_codec := plain_codec, bs_readers := rd\<lparr>rd_spec_json := \<lambda>_. Inr supervised_request\<rparr>\<rparr>
     in (\<exists>a b. server_run bh best_pattern st anything (demo_server st env [])
           [Served ''POST'' ''/v1/executions'' [] [] a, Served ''POST'' ''/v1/executions'' [] [] b] s')
        \<and> map ce_seq (event_log (wd_fs (br_world s')) ''exec-1700000000000'') = [1, 2, 1, 2]"
proof (intro allI)
  fix bh rd c env
  let ?st = "(bridge_state_of bh c)\<lparr>bs_codec := plain_codec, bs_readers := rd\<lparr>rd_spec_json := \<lambda>_. Inr supervised_request\<rparr>\<rparr>"
  let ?s = "demo_server ?st env []"
  obtain a s1 where first: "server_step bh best_pattern ?st ?s (Served ''POST'' ''/v1/executions'' [] [] a) s1"
    using request_step [of bh best_pattern ?st ?s "''POST''" "''/v1/executions''" "[]" "[]"] by blast
  obtain b s' where second: "server_step bh best_pattern ?st s1 (Served ''POST'' ''/v1/executions'' [] [] b) s'"
    using request_step [of bh best_pattern ?st s1 "''POST''" "''/v1/executions''" "[]" "[]"] by blast
  from first second have run: "server_run bh best_pattern ?st anything ?s
      [Served ''POST'' ''/v1/executions'' [] [] a, Served ''POST'' ''/v1/executions'' [] [] b] s'"
    by (auto simp: anything_def intro!: server_run.intros)
  have "\<exists>spec. try_into_spec supervised_request = Inr spec"
    by (simp add: supervised_request_def try_into_spec_def variation_of_request_def Let_def trim_def is_ws_def)
  then obtain spec where spec: "try_into_spec supervised_request = Inr spec" by blast
  have request: "parse_execution_spec_request (bs_readers ?st) [] = Inr supervised_request"
    by (simp add: parse_execution_spec_request_def)
  have enc: "cx_spec_enc (bs_codec ?st) spec = Inr ''spec''" by (simp add: plain_codec_def)
  have store: "logs_ok (br_world ?s)" "fresh_id (br_world ?s)"
    by (simp_all add: demo_server_def serving_def logs_ok_def log_ok_def event_log_def events_file_def fresh_id_def)
  have id: "new_execution_id (br_world ?s) = ''exec-1700000000000''"
    by (simp add: demo_server_def serving_def new_execution_id_def now_text_ms_def word_to_string_def
        nat_to_string.simps digit_char_def)
  from same_millisecond_breaks_log [OF best.path_router_axioms store request spec enc run] id
  have seqs: "map ce_seq (event_log (wd_fs (br_world s')) ''exec-1700000000000'') = [1, 2, 1, 2]" by simp
  show "\<exists>s'. let st = ?st in (\<exists>a b. server_run bh best_pattern st anything (demo_server st env [])
      [Served ''POST'' ''/v1/executions'' [] [] a, Served ''POST'' ''/v1/executions'' [] [] b] s')
    \<and> map ce_seq (event_log (wd_fs (br_world s')) ''exec-1700000000000'') = [1, 2, 1, 2]"
    unfolding Let_def by (intro exI conjI) (rule run, rule seqs)
qed

subsection \<open>A panic of the worker\<close>

lemma no_worker_no_pass: "server_run bh pick st admit s es s' \<Longrightarrow> \<not> br_worker s \<Longrightarrow>
    WorkerPass \<notin> set es \<and> \<not> br_worker s' \<and> br_out s' = br_out s \<and> br_errors s' = br_errors s"
proof (induction rule: server_run.induct)
  case (run_Cons s e s1 es s')
  from run_Cons.hyps(1) show ?case by cases (use run_Cons in auto)
qed simp

text \<open>
  C5: When a tick panics, the worker is gone for good and the program reports nothing (the panic message comes
  from the language's own hook): however the process runs on, there is no further pass, while every request is still answered - a submission is accepted, but
  nobody will work on it.
\<close>

theorem panic_stops_worker:
  assumes "fst (process_pending_executions_once (worker_service bh st) (br_world s)) = Inl (Panic m)"
    and "server_run bh pick st admit s (WorkerPass # es) s'"
  shows "WorkerPass \<notin> set es \<and> \<not> br_worker s' \<and> br_out s' = br_out s \<and> br_errors s' = br_errors s
    \<and> (\<exists>a s2. server_step bh pick st s' (Served verb path query body a) s2)"
proof -
  obtain s1 where s1: "server_step bh pick st s WorkerPass s1" "server_run bh pick st admit s1 es s'"
    using assms(2) by (auto simp: run_Cons_iff)
  from s1(1) have "s1 = worker_pass bh st s" by (rule pass_cases)
  with assms(1) have "\<not> br_worker s1" "br_out s1 = br_out s" "br_errors s1 = br_errors s"
    by (auto simp: worker_pass_def split: prod.splits)
  with no_worker_no_pass [OF s1(2)] request_step show ?thesis by simp
qed

text \<open>The store with the unsupervised specification that panics every tick.\<close>

lemma panic_stops_worker_witness:
  "\<forall>bh c env. \<exists>a s'.
     let bh' = demo_bridge_host (bh\<lparr>bh_codec := plain_codec\<lparr>cx_spec_dec := \<lambda>_. Inr unsupervised_spec\<rparr>\<rparr>);
         s = demo_server (bridge_state_of bh' c) env (wd_fs unsupervised_world)
     in server_run bh' best_pattern (bridge_state_of bh' c) anything s
          [WorkerPass, Served ''GET'' ''/v1/health'' [] [] a] s' \<and> \<not> br_worker s' \<and> br_errors s' = []"
proof (intro allI)
  fix bh c env
  let ?cx = "plain_codec\<lparr>cx_spec_dec := \<lambda>_. Inr unsupervised_spec\<rparr>"
  let ?bh = "demo_bridge_host (bh\<lparr>bh_codec := ?cx\<rparr>)"
  let ?st = "bridge_state_of ?bh c"
  let ?s = "demo_server ?st env (wd_fs unsupervised_world)"
  have cx: "svc_codec (worker_service ?bh ?st) = ?cx" "cx_spec_dec ?cx = (\<lambda>_. Inr unsupervised_spec)"
    by (simp_all add: worker_service_def with_launch_injection_def void_box_service_def demo_bridge_host_def clock_service_def)
  have fs: "wd_fs (br_world ?s) = wd_fs unsupervised_world" by (simp add: demo_server_def serving_def)
  note store = unsupervised_store [OF cx(2)]
  have spec: "es_mode unsupervised_spec = ''supervision''" "es_supervision unsupervised_spec = None"
    by (simp_all add: unsupervised_spec_def)
  have "\<exists>w'. process_pending_executions_once (worker_service ?bh ?st) (br_world ?s) = (Inl (Panic ''validated supervision spec''), w')"
    using supervision_tick_panics [of "br_world ?s" "[]" "''e1''" "[]" "worker_service ?bh ?st", unfolded fs cx(1) append_Nil,
        OF store(1) _ store(2) _ _ _ _ store(3,4) spec]
      store(5) by (auto simp: execution_new_def)
  then have panic: "fst (process_pending_executions_once (worker_service ?bh ?st) (br_world ?s)) = Inl (Panic ''validated supervision spec'')"
    by auto
  have first: "server_step ?bh best_pattern ?st ?s WorkerPass (worker_pass ?bh ?st ?s)"
    by (rule server_step.pass) (simp add: demo_server_def serving_def)
  obtain a s' where second: "server_step ?bh best_pattern ?st (worker_pass ?bh ?st ?s) (Served ''GET'' ''/v1/health'' [] [] a) s'"
    using request_step [of ?bh best_pattern ?st "worker_pass ?bh ?st ?s" "''GET''" "''/v1/health''" "[]" "[]"] by blast
  from first second have run: "server_run ?bh best_pattern ?st anything ?s [WorkerPass, Served ''GET'' ''/v1/health'' [] [] a] s'"
    by (auto simp: anything_def intro!: server_run.intros)
  from panic_stops_worker [OF panic run, of "''GET''" "''/v1/health''" "[]" "[]"]
  have "\<not> br_worker s'" "br_errors s' = []" by (simp_all add: demo_server_def serving_def)
  with run show "\<exists>a s'. let bh' = ?bh; s = demo_server (bridge_state_of bh' c) env (wd_fs unsupervised_world)
     in server_run bh' best_pattern (bridge_state_of bh' c) anything s
          [WorkerPass, Served ''GET'' ''/v1/health'' [] [] a] s' \<and> \<not> br_worker s' \<and> br_errors s' = []"
    unfolding Let_def by blast
qed

subsection \<open>Refusing to start\<close>

definition without_token_file :: "host \<Rightarrow> host" where
  "without_token_file h = h\<lparr>ht_env := (ht_env h)(''VOIDBOX_DAEMON_TOKEN_FILE'' := None)\<rparr>"

lemma without_token_file_fields:
  "ht_env (without_token_file h) v = (if v = ''VOIDBOX_DAEMON_TOKEN_FILE'' then None else ht_env h v)"
  "ht_uid (without_token_file h) = ht_uid h" "ht_metadata (without_token_file h) = ht_metadata h"
  "ht_access_write (without_token_file h) = ht_access_write h" "ht_read (without_token_file h) = ht_read h"
  by (simp_all add: without_token_file_def)

text \<open>Only the resolution of the token looks at the name of the token file.\<close>

lemma without_token_file_paths:
  "default_token_path (without_token_file h) = default_token_path h"
  "default_unix_url (without_token_file h) = default_unix_url h"
proof -
  have env: "ht_env (without_token_file h) ''XDG_CONFIG_HOME'' = ht_env h ''XDG_CONFIG_HOME''"
    "ht_env (without_token_file h) ''HOME'' = ht_env h ''HOME''"
    "ht_env (without_token_file h) ''XDG_RUNTIME_DIR'' = ht_env h ''XDG_RUNTIME_DIR''"
    "ht_env (without_token_file h) ''TMPDIR'' = ht_env h ''TMPDIR''"
    by (simp_all add: without_token_file_fields(1))
  show "default_token_path (without_token_file h) = default_token_path h"
    unfolding default_token_path_def env_dir_def env without_token_file_fields(2) ..
  show "default_unix_url (without_token_file h) = default_unix_url h"
    unfolding default_unix_url_def default_unix_socket_path_def dir_socket_def is_writable_dir_def per_uid_socket_def
      env without_token_file_fields(2-4) ..
qed

lemma without_token_file_same:
  "config_from_env (without_token_file h) = config_from_env h"
  "daemon_url (without_token_file h) url = daemon_url h url"
  "token_search_labels (without_token_file h) = token_search_labels h"
  "resolve_tcp_token (without_token_file h) = resolve_from_env h"
proof -
  let ?h = "without_token_file h"
  show "daemon_url ?h url = daemon_url h url" "token_search_labels ?h = token_search_labels h"
    by (simp_all add: daemon_url_def token_search_labels_def without_token_file_paths)
  show "config_from_env ?h = config_from_env h"
    by (simp add: config_from_env_def env_or_def without_token_file_paths without_token_file_fields)
  have "read_token_file ?h p = read_token_file h p" for p
    unfolding read_token_file_def without_token_file_fields ..
  then have "resolve_implicit ?h = resolve_implicit h"
    by (simp add: resolve_implicit_def without_token_file_paths)
  then show "resolve_tcp_token ?h = resolve_from_env h"
    by (simp add: resolve_tcp_token_def resolve_from_env_def daemon_token_file_env_def daemon_token_env_def
        without_token_file_fields split: option.split)
qed

lemma open_without_token_file:
  assumes "resolve_tcp_token (bh_host bh) = resolve_from_env (bh_host bh)"
  shows "open_bridge bh w = open_bridge (bh\<lparr>bh_host := without_token_file (bh_host bh)\<rparr>) w"
    (is "_ = open_bridge ?bh w")
proof -
  have "build_transport (without_token_file (bh_host bh)) url = build_transport (bh_host bh) url" for url
    unfolding build_transport_def assms without_token_file_same ..
  then have client: "client_new (without_token_file (bh_host bh)) hy dl url n = client_new (bh_host bh) hy dl url n"
    for hy and dl url n
    by (simp add: client_new_def client_try_new_def without_token_file_same)
  have same: "bridge_state_of ?bh = bridge_state_of bh" "bind_listener ?bh = bind_listener bh"
    "bh_host ?bh = without_token_file (bh_host bh)" "bh_create_dir ?bh = bh_create_dir bh"
    "bh_hyper ?bh = bh_hyper bh" "bh_daemon_readers ?bh = bh_daemon_readers bh"
    by (simp_all add: bridge_state_of_def bind_listener_def without_token_file_same fun_eq_iff)
  show ?thesis unfolding open_bridge_def same client without_token_file_same ..
qed

text \<open>
  C39: When its daemon is reached over TCP and the named token file is open to others, the process of the
  bridge ends with the panic of the client's construction, before there is a worker or a listener (its two
  directories can be created). The one exception are paths that contain one of the phrases that mark a missing
  file: then the exposed file is passed over, and the bridge starts or not exactly as if no token file had been
  named.
\<close>

theorem exposed_token_stops_bridge:
  assumes "\<And>d. bh_create_dir bh d = None"
    and "\<not> starts_with ''unix://'' (daemon_url (bh_host bh) (bc_base_url (config_from_env (bh_host bh))))"
    and "ht_env (bh_host bh) ''VOIDBOX_DAEMON_TOKEN_FILE'' = Some path" and "ht_metadata (bh_host bh) path = Inr m"
    and "fm_mode m AND 63 \<noteq> 0"
  shows "if is_missing_or_unreadable path
    then open_bridge bh w = open_bridge (bh\<lparr>bh_host := without_token_file (bh_host bh)\<rparr>) w
    else \<exists>detail. open_bridge bh w = (Inl (Panic (''void-box runtime client construction failed: ''
      @ address_error_text (TokenFileError path detail))), w)"
proof (cases "is_missing_or_unreadable path")
  case True
  with exposed_token_file_refused [OF assms(3-5)] open_without_token_file [of bh w] show ?thesis by simp
next
  case False
  let ?h = "bh_host bh"
  let ?url = "daemon_url ?h (bc_base_url (config_from_env ?h))"
  obtain detail where "resolve_tcp_token ?h = Inl (TokenFileError path detail)"
    using exposed_token_file_refused [OF assms(3-5)] False by auto
  then have "build_transport ?h ?url = Inl (address_error_text (TokenFileError path detail))"
    using assms(2) by (simp add: build_transport_def classify_daemon_url_def strip_prefix_def result_simps)
  then have "client_try_new ?h (bh_hyper bh) (bh_daemon_readers bh) (bc_base_url (config_from_env ?h)) 250
      = Inl (address_error_text (TokenFileError path detail))"
    by (simp add: client_try_new_def result_simps)
  then have "\<exists>detail. open_bridge bh w = (Inl (Panic (''void-box runtime client construction failed: ''
      @ address_error_text (TokenFileError path detail))), w)"
    by (auto simp: open_bridge_def Let_def assms(1) client_new_def io_bind_def io_panic_def)
  with False show ?thesis by simp
qed

lemma exposed_token_stops_bridge_witness:
  "\<forall>bh w. \<exists>m. open_bridge (bh\<lparr>bh_create_dir := \<lambda>_. None,
       bh_host := (shared_host ''/etc/t'')\<lparr>ht_env := (ht_env (shared_host ''/etc/t''))(''VOID_BOX_BASE_URL'' \<mapsto> ''daemon:43100'')\<rparr>\<rparr>) w
     = (Inl (Panic m), w)"
proof (intro allI)
  fix bh :: bridge_host and w
  let ?h = "(shared_host ''/etc/t'')\<lparr>ht_env := (ht_env (shared_host ''/etc/t''))(''VOID_BOX_BASE_URL'' \<mapsto> ''daemon:43100'')\<rparr>"
  let ?bh = "bh\<lparr>bh_create_dir := \<lambda>_. None, bh_host := ?h\<rparr>"
  have "daemon_url ?h (bc_base_url (config_from_env ?h)) = ''daemon:43100''"
    by (simp add: daemon_url_def config_from_env_def env_or_def trim_def is_ws_def)
  moreover have "\<not> is_missing_or_unreadable ''/etc/t''"
    by (simp add: is_missing_or_unreadable_def to_ascii_lowercase_def starts_with_def)
  ultimately show "\<exists>m. open_bridge ?bh w = (Inl (Panic m), w)"
    using exposed_token_stops_bridge [of ?bh "''/etc/t''" _ w]
    by (auto simp: shared_host_def starts_with_def)
qed

end
