(* ===== verification/Races.thy ===== *)
theory Races
  imports Service_Props
begin

text \<open>
  Appending an event by the file operations it is made of (\<open>append_event\<close> of \<open>src/orchestration/service.rs\<close> and
  of \<open>src/orchestration/store/fs.rs\<close>): the events are counted, the log is read once more, and the longer log is
  written back. There is no lock, and the bridge runs its worker and its request handlers on several threads;
  elsewhere in this library the three operations are one step. Lemmas: run alone they are \<open>append_event\<close>; of
  the interleavings of two of them only the serial ones keep the log.
\<close>

subsection \<open>File operations\<close>

datatype append_pc = ApCount | ApRead control_event_envelope | ApWrite control_event_envelope string | ApDone

record append_race =
  ar_log :: string
  ar_pc :: "string \<Rightarrow> append_pc"

text \<open>One file operation of task \<open>w\<close>, which appends an event of type \<open>ts w\<close>.\<close>

definition append_micro :: "string \<Rightarrow> (string \<Rightarrow> control_event_type) \<Rightarrow> string \<Rightarrow> append_race \<Rightarrow> append_race" where
  "append_micro xid ts w s =
     (let jump = (\<lambda>pc s. s\<lparr>ar_pc := (ar_pc s)(w := pc)\<rparr>) in
      case ar_pc s w of
        ApCount \<Rightarrow> jump (ApRead (control_event_new xid (of_nat (length (parse_events (ar_log s))) + 1) (ts w))) s
      | ApRead e \<Rightarrow> jump (ApWrite e (ar_log s)) s
      | ApWrite e existing \<Rightarrow> jump ApDone (s\<lparr>ar_log := existing @ event_line e\<rparr>)
      | ApDone \<Rightarrow> s)"

definition append_run :: "string \<Rightarrow> (string \<Rightarrow> control_event_type) \<Rightarrow> string list \<Rightarrow> append_race \<Rightarrow> append_race" where
  "append_run xid ts schedule s = fold (append_micro xid ts) schedule s"

definition append_start :: "string \<Rightarrow> append_race" where
  "append_start log_text = \<lparr>ar_log = log_text, ar_pc = (\<lambda>_. ApCount)\<rparr>"

text \<open>The operations of one task in a row are the operation of the service.\<close>

lemma append_alone:
  assumes "load_execution (svc_codec sv) xid (wd_fs w) = Inr sn"
  shows "events_file (wd_fs (snd (append_event sv xid (ts v) w))) xid
    = Some (ar_log (append_run xid ts [v, v, v] (append_start (case events_file (wd_fs w) xid of None \<Rightarrow> [] | Some s \<Rightarrow> s))))"
proof -
  have "wd_fs (snd (append_event sv xid (ts v) w)) = snd (store_append_event xid
      (control_event_new xid (of_nat (length (event_log (wd_fs w) xid)) + 1) (ts v)) (wd_fs w))"
    using assms load_execution_events [OF assms]
    by (auto simp: append_event_def io_bind_def load_snapshot_def store_read_def io_result_def io_return_def
        store_do_def split: prod.splits sum.splits)
  moreover have "length (event_log (wd_fs w) xid)
      = length (parse_events (case events_file (wd_fs w) xid of None \<Rightarrow> [] | Some s \<Rightarrow> s))"
    by (simp add: event_log_def parse_events_def List.map_filter_simps split: option.split)
  ultimately show ?thesis
    using load_execution_exists [OF assms]
    by (simp add: events_append append_run_def append_micro_def append_start_def Let_def)
qed

subsection \<open>Two tasks\<close>

definition log_text_ok :: "string \<Rightarrow> string \<Rightarrow> bool" where
  "log_text_ok xid s = ((s = [] \<or> last s = nl) \<and> map ce_seq (parse_events s) = seq_upto (length (parse_events s))
     \<and> list_all (\<lambda>e. ce_execution_id e = xid) (parse_events s))"

lemma log_text_file: "events_file fs xid = Some s \<Longrightarrow> log_ok fs xid = log_text_ok xid s"
  by (simp add: log_ok_def log_text_ok_def event_log_def)

lemma parse_two:
  assumes "s = [] \<or> last s = nl" and "log_id_ok xid" and "ce_execution_id e = xid" and "ce_execution_id e' = xid"
  shows "parse_events (s @ event_line e) = parse_events s @ [e]"
    and "parse_events (s @ event_line e @ event_line e') = parse_events s @ [e, e']"
    and "last (s @ event_line e) = nl" and "last (s @ event_line e @ event_line e') = nl"
proof -
  have ended: "last (s @ event_line e) = nl" "last (event_line e) = nl" for s e by (simp_all add: event_line_def)
  show one: "parse_events (s @ event_line e) = parse_events s @ [e]" using parse_events_append assms(1-3) by simp
  show "parse_events (s @ event_line e @ event_line e') = parse_events s @ [e, e']"
    using parse_events_append [of "s @ event_line e" e'] assms(2,4) one ended by simp
  show "last (s @ event_line e) = nl" "last (s @ event_line e @ event_line e') = nl"
    using ended(1) [of s e] ended(1) [of "s @ event_line e" e'] by simp_all
qed

text \<open>
  C7: Two tasks that append to one log at the same time keep it only when one has finished before the other
  begins: of all interleavings of their file operations, exactly the two serial ones leave a log that is
  numbered from 1 without a gap and has both events; after any other the numbering is broken or an event is lost.
\<close>

theorem concurrent_appends_iff_serial:
  assumes "log_id_ok xid" and "log_text_ok xid s" and "a \<noteq> b" and "schedule \<in> shuffles [a, a, a] [b, b, b]"
  shows "(let final = ar_log (append_run xid ts schedule (append_start s))
      in log_text_ok xid final \<and> length (parse_events final) = length (parse_events s) + 2)
    = (schedule = [a, a, a, b, b, b] \<or> schedule = [b, b, b, a, a, a])"
proof -
  let ?n = "length (parse_events s)"
  let ?e = "\<lambda>k v. control_event_new xid (of_nat ?n + k) (ts v)"
  have s: "s = [] \<or> last s = nl" "map ce_seq (parse_events s) = seq_upto ?n" "list_all (\<lambda>e. ce_execution_id e = xid) (parse_events s)"
    using assms(2) by (simp_all add: log_text_ok_def)
  have id: "ce_execution_id (?e k v) = xid" "ce_seq (?e k v) = of_nat ?n + k" for k v by (simp_all add: control_event_new_def)
  note parse = parse_two [OF s(1) assms(1) id(1) id(1)]
  have one: "length (parse_events (s @ event_line (?e k v))) = Suc ?n" for k v by (simp add: parse)
  have two: "log_text_ok xid (s @ event_line (?e k v) @ event_line (?e l u)) \<longleftrightarrow> k = 1 \<and> l = 2" for k l v u
    using s parse(2-4) by (auto simp: log_text_ok_def id seq_upto_Suc)
  have both: "length (parse_events (s @ event_line (?e k v) @ event_line (?e l u))) = ?n + 2" for k l v u by (simp add: parse)
  have suc: "of_nat (Suc ?n) + 1 = (of_nat ?n + 2 :: u64)" by simp
  from assms(4) have "schedule = [b, b, b, a, a, a] \<or> schedule = [b, b, a, b, a, a] \<or> schedule = [b, b, a, a, b, a]
    \<or> schedule = [b, b, a, a, a, b] \<or> schedule = [b, a, b, b, a, a] \<or> schedule = [b, a, b, a, b, a]
    \<or> schedule = [b, a, b, a, a, b] \<or> schedule = [b, a, a, b, b, a] \<or> schedule = [b, a, a, b, a, b]
    \<or> schedule = [b, a, a, a, b, b] \<or> schedule = [a, b, b, b, a, a] \<or> schedule = [a, b, b, a, b, a]
    \<or> schedule = [a, b, b, a, a, b] \<or> schedule = [a, b, a, b, b, a] \<or> schedule = [a, b, a, b, a, b]
    \<or> schedule = [a, b, a, a, b, b] \<or> schedule = [a, a, b, b, b, a] \<or> schedule = [a, a, b, b, a, b]
    \<or> schedule = [a, a, b, a, b, b] \<or> schedule = [a, a, a, b, b, b]" by simp
  then show ?thesis
    using assms(3)
    by (elim disjE) (simp_all add: append_run_def append_micro_def append_start_def Let_def one two both suc del: of_nat_Suc)
qed

text \<open>The worker counts the events, and a request to pause the execution appends its event in between.\<close>

lemma concurrent_appends_iff_serial_witness:
  "\<forall>ts. \<not> (let final = ar_log (append_run ''e1'' ts [''worker'', ''request'', ''request'', ''request'', ''worker'', ''worker''] (append_start []))
     in log_text_ok ''e1'' final \<and> length (parse_events final) = 2)"
proof
  fix ts
  have "log_id_ok ''e1''" "log_text_ok ''e1'' []"
    by (simp_all add: log_id_ok_def line_safe_def log_text_ok_def parse_events_def)
  from concurrent_appends_iff_serial [OF this, of "''worker''" "''request''"
      "[''worker'', ''request'', ''request'', ''request'', ''worker'', ''worker'']" ts]
  show "\<not> (let final = ar_log (append_run ''e1'' ts [''worker'', ''request'', ''request'', ''request'', ''worker'', ''worker''] (append_start []))
     in log_text_ok ''e1'' final \<and> length (parse_events final) = 2)"
    by (simp add: parse_events_def numeral_2_eq_2)
qed

end
