(* ===== verification/Spec2Isabelle.thy ===== *)
theory Spec2Isabelle
  imports Contract Types Scheduler Scoring Strategy Message_Box Store Claims Service_Props Worker_Faults
    Batch Team Templates Bridge_Props Launch Router Voidctl_Watch Voidctl_Console Fixture Server Races
begin

text \<open>
  Verification library for void-control, the control plane that runs agents in void-box micro-VMs.

  The parts of the program and how they interact. A client submits an execution to the bridge
  (\<open>src/bridge.rs\<close>), directly as a specification, or as a batch, a team or an instance of a template that
  is compiled to one (\<open>src/batch\<close>, \<open>src/team\<close>, \<open>src/templates\<close>). The bridge stores it as text files
  (\<open>src/orchestration/store/fs.rs\<close>). A background worker looks at the stored executions twice a second:
  it plans those that are pending or running, registers them with the global scheduler
  (\<open>src/orchestration/scheduler.rs\<close>) and dispatches candidates as the scheduler grants them. Planning,
  dispatching and evaluating is the execution service (\<open>src/orchestration/service.rs\<close>), which claims the
  execution in the store, asks the strategy of its mode for candidates
  (\<open>variation.rs\<close>, \<open>strategy.rs\<close>, \<open>scoring.rs\<close>), starts runs on a runtime
  (\<open>src/runtime\<close>, data in \<open>src/contract\<close>), carries messages between candidates
  (\<open>message_box.rs\<close>), and writes candidates, control events and accumulators back to the store.

  Theories, in the order of their imports:
  \<^item> \<open>Prelude\<close>, \<open>F64\<close>, \<open>Json\<close>: machine integers as words, \<open>String\<close> as a list of bytes, results as sums with
    the error on the left, \<open>BTreeMap\<close> as a sorted association list, binary64 with its rounding, JSON values.
  \<^item> \<open>Contract\<close>: \<open>src/contract\<close>: run states, policies, events, and the conversion of void-box runs
    (\<open>from_void_box_run\<close>): sequence numbers rise, every raw event is accounted for.
  \<^item> \<open>Policy\<close>, \<open>Types\<close>: specifications and their validation (\<open>spec_ok\<close> is the declarative form), the data
    model, control events and \<open>replay\<close>.
  \<^item> \<open>Scheduler\<close>: queues and slots; the locale \<open>work_source\<close> is what a loop that drains it needs.
  \<^item> \<open>Scoring\<close>, \<open>Strategy\<close>: ranking, planned candidates, reviews and revisions, when to stop.
  \<^item> \<open>Message_Box\<close>: intents, routing, delivery, statistics.
  \<^item> \<open>Store_Codec\<close>, \<open>Store\<close>, \<open>Claims\<close>: the text of every file and its parsers, with round trips; the event log
    as a refinement of a list; claims as a step relation with mutual exclusion under atomic calls, and
    the interleavings that break it.
  \<^item> \<open>Io\<close>, \<open>Service\<close>, \<open>Service_Run\<close>, \<open>Lifecycle\<close>: the service as computations on a world; a fault is an
    error or a panic. \<open>Service_Invariants\<close> has the locales \<open>runtime_contract\<close> and \<open>service_contract\<close>,
    what an invariant of the world needs from runtime and store, and proves inside them that every operation
    keeps it; \<open>Mock_Runtime\<close> is \<open>src/runtime/mock.rs\<close> and interprets them. \<open>Service_Results\<close> and
    \<open>Service_Props\<close> hold what a run leaves on disk, the bound on iterations, claims and updates.
  \<^item> \<open>Worker\<close>, \<open>Worker_Faults\<close>: a tick of the background worker (\<open>process_pending_executions_once\<close>) over
    service and scheduler, \<open>reconcile.rs\<close>, and what a bad stored execution does to the worker.
  \<^item> \<open>Batch\<close>, \<open>Team\<close>, \<open>Templates\<close>: validation and compilation of the front ends; what compiles, that the
    result validates, and which candidates the compiled specification plans (with \<open>Strategy\<close>).
  \<^item> \<open>Bridge_Requests\<close>, \<open>Bridge\<close>, \<open>Bridge_Props\<close>: request bodies, every handler and the dispatch by method and
    path; every request is answered, what is submitted and launched, and what the answers say.
  \<^item> \<open>Void_Box\<close>, \<open>Void_Box_Props\<close>: the client of the daemon (\<open>src/runtime/void_box.rs\<close>), the reading of its
    JSON (\<open>compat_json.rs\<close>) and the sidecar, over an HTTP request that may do anything to the world; the locale
    \<open>daemon_transport\<close> carries an invariant from the request to a tick of the worker over the daemon.
  \<^item> \<open>Daemon_Address\<close>: where the daemon is, which token is sent to it (\<open>daemon_address.rs\<close>), the two transports
    and the constructors of the client; the token goes over TCP only, and exposed token files are
    refused, or passed over when their path reads like the message about a missing file.
  \<^item> \<open>Launch\<close>: what is done to a request before it is launched (\<open>src/runtime/mod.rs\<close>): the inbox, and the overrides
    patched into a copy of the workflow file; and the worker with all of this, as it is deployed.
  \<^item> \<open>Router\<close>: the table of routes and the handler of each (\<open>build_router\<close>); the choice of the web framework
    among the patterns is the locale \<open>path_router\<close>; the router against the dispatch of \<open>handle_bridge_request\<close>.
  \<^item> \<open>Responses\<close>: the JSON of every answer. \<open>Voidctl_Args\<close>, \<open>Voidctl_Output\<close>, \<open>Voidctl_Run\<close>: the command line
    (\<open>src/bin/voidctl.rs\<close>): arguments against a grammar, what is printed, the one-shot commands.
    \<open>Voidctl_Watch\<close>: watching an execution through the bridge, with the locale \<open>execution_feed\<close> for what the
    loop needs of the answers. \<open>Voidctl_Commands\<close>, \<open>Voidctl_Console\<close>: the language, completion, session, streaming
    and loop of the interactive console.
  \<^item> \<open>Response_Types\<close>: the type of document each route answers with. \<open>Server_Logs\<close>, \<open>Server\<close>: the bridge as a
    process (\<open>run_bridge\<close>): its start, and the worker and the requests as a step relation on one world. The
    locale \<open>append_only_surroundings\<close> is what daemon, clock and workflow files must do for the logs to grow.
    \<open>Races\<close>: an append to a log as its file operations, and which interleavings of two threads keep the log;
    everywhere else an append, and a claim outside \<open>Claims\<close>, is one step.
  \<^item> \<open>Fixture\<close>: the fixture normalizer (\<open>src/bin/normalize_fixture.rs\<close>), against a writer of its format.

  Correspondence of state. A struct is a record whose fields carry a short prefix, an enum a datatype,
  the file system a map from execution ids to the files of their directories, each a string. The world
  holds this store, the clock, the counters of ids and the environment of the runtime; an operation is
  a function on it, and an asynchronous call returns when its operation does, so that what other tasks do
  meanwhile is part of the call.

  Loops, fuel and bounds. Loops over data are structural recursion. The loop over iterations
  (\<open>execute_loop\<close>) is a function with a termination proof: an iteration that continues has advanced the count
  or used the one retry. The loop over the grants (\<open>dispatch_rounds\<close>) has fuel, one more than the number of
  queued candidates; \<open>worker_rounds_terminate\<close> shows that it suffices, as every round removes one.
  Integers keep their width: \<open>u32\<close>, \<open>u64\<close> and \<open>usize\<close> are words that wrap as a release build does;
  statements that need a count below the width say so.

  Parameters. JSON and YAML readers and printers, and the printing of floats, are functions of the records
  \<open>codec\<close>, \<open>serde\<close> and \<open>readers\<close>; runtimes and adapters are the functions of the record \<open>service\<close>. What a property
  needs of them is a hypothesis, and each has a witness on a concrete instance.

  Not modelled. The web framework with its signals and the draining of connections, the HTTP library and the line
  editor. Failures of the disk other than missing or unreadable files are not modelled, nor are ids with path separators.
\<close>

end
